(* ===== verification/Prelude.thy ===== *)
theory Prelude
  imports Main "HOL-Library.Word" "HOL-Library.Monad_Syntax"
begin

text \<open>
  Shared vocabulary of the development: the machine integer types of the C code, the
  collections of defining equations and automation rules, and the generic facts about
  words and the option monad that several components use.

  A kernel operation that can stop the machine has a result in \<open>option\<close>: \<open>None\<close> says that
  control never comes back from the call (the processor is halted, a memory access faults,
  or a loop runs forever).
\<close>

unbundle bit_operations_syntax

type_synonym u8 = "8 word"
type_synonym u16 = "16 word"
type_synonym u32 = "32 word"
type_synonym u64 = "64 word"

named_theorems paging_defs \<open>definitions of the page table code\<close>
named_theorems task_defs \<open>definitions of the task table code\<close>
named_theorems dev_defs \<open>definitions of the device code\<close>

section \<open>Words\<close>

text \<open>
  Masks as the C code writes them. The bits of a mask follow from its shape, not from the
  binary digits of the numeral, so the library rule that unfolds the digits is switched off.
\<close>

declare bit_numeral_word_iff [simp del]

lemma mask_0xFFF: "(0xFFF :: u64) = mask 12"
  by (simp add: mask_eq_exp_minus_1)

lemma mask_0x1FF: "(0x1FF :: u64) = mask 9"
  by (simp add: mask_eq_exp_minus_1)

lemma word_less_nat_unat: "(x :: 'a::len word) < y \<longleftrightarrow> unat x < unat y"
  by (rule word_less_nat_alt)

lemma unat_plus_no_wrap:
  fixes a b :: "'a::len word"
  assumes "unat a + unat b < 2 ^ LENGTH('a)"
  shows "unat (a + b) = unat a + unat b"
  using assms by (simp add: unat_word_ariths)

lemma unat_lt_64: "unat (x :: u64) < 18446744073709551616"
  using unsigned_less [of x] by simp

lemma and_mask_less_64: "(x :: u64) AND 0x1FF < 512"
  using and_mask_less' [of 9 x] by (simp add: mask_0x1FF)

text \<open>Multiples of the page size.\<close>

lemma page_multiple_unique:
  fixes a b x y :: nat
  assumes "4096 * a + x = 4096 * b + y" "x < 4096" "y < 4096"
  shows "a = b \<and> x = y"
proof -
  have "a = (4096 * a + x) div 4096" using assms(2) by simp
  also have "\<dots> = b" using assms(1,3) by simp
  finally show ?thesis using assms(1) by simp
qed

section \<open>The option monad\<close>

lemma bind_eq_SomeD:
  "Option.bind m f = Some y \<Longrightarrow> \<exists>x. m = Some x \<and> f x = Some y"
  by (cases m) auto

lemma bind_SomeE:
  assumes "Option.bind m f = Some y"
  obtains x where "m = Some x" and "f x = Some y"
  using assms by (cases m) auto

lemma find_Some_first:
  "List.find P xs = Some x \<longleftrightarrow>
    (\<exists>i < length xs. P (xs ! i) \<and> x = xs ! i \<and> (\<forall>j < i. \<not> P (xs ! j)))"
  by (rule find_Some_iff)

end
