(* ===== verification/Ram.thy ===== *)
theory Ram
  imports Prelude
begin

text \<open>
  Physical memory: a byte at every physical address, and the little-endian 64 bit cells
  that the page tables and the user stacks are made of.
\<close>

type_synonym ram = "u64 \<Rightarrow> u8"

section \<open>Eight bytes as one word\<close>

definition le64 :: "(u64 \<Rightarrow> u8) \<Rightarrow> u64" where
  "le64 f = push_bit 56 (ucast (f 7)) OR push_bit 48 (ucast (f 6)) OR
            push_bit 40 (ucast (f 5)) OR push_bit 32 (ucast (f 4)) OR
            push_bit 24 (ucast (f 3)) OR push_bit 16 (ucast (f 2)) OR
            push_bit 8 (ucast (f 1)) OR ucast (f 0)"

definition byte64 :: "u64 \<Rightarrow> u64 \<Rightarrow> u8" where
  "byte64 v i = ucast (drop_bit (8 * unat i) v)"

lemma le64_byte64: "le64 (byte64 v) = v"
proof (rule bit_word_eqI)
  fix n
  assume "n < LENGTH(64)"
  then have n: "n < 64" by simp
  then have "n < 8 \<or> (8 \<le> n \<and> n < 16) \<or> (16 \<le> n \<and> n < 24) \<or> (24 \<le> n \<and> n < 32)
      \<or> (32 \<le> n \<and> n < 40) \<or> (40 \<le> n \<and> n < 48) \<or> (48 \<le> n \<and> n < 56) \<or> (56 \<le> n \<and> n < 64)"
    by arith
  then show "bit (le64 (byte64 v)) n = bit v n"
    by (elim disjE)
      (auto simp: le64_def byte64_def bit_simps dest: bit_imp_le_length)
qed

lemma le64_cong: "(\<And>i. i < 8 \<Longrightarrow> f i = g i) \<Longrightarrow> le64 f = le64 g"
  by (simp add: le64_def)

section \<open>Reading and writing\<close>

definition rd64 :: "ram \<Rightarrow> u64 \<Rightarrow> u64" where
  "rd64 m a = le64 (\<lambda>i. m (a + i))"

definition wr64 :: "ram \<Rightarrow> u64 \<Rightarrow> u64 \<Rightarrow> ram" where
  "wr64 m a v = (\<lambda>x. if x - a < 8 then byte64 v (x - a) else m x)"

lemma rd64_wr64_same: "rd64 (wr64 m a v) a = v"
proof -
  have "rd64 (wr64 m a v) a = le64 (byte64 v)"
    unfolding rd64_def wr64_def by (rule le64_cong) simp
  then show ?thesis by (simp add: le64_byte64)
qed

lemma le64_others: "x - a \<ge> 8 \<Longrightarrow> wr64 m a v x = m x"
  by (simp add: wr64_def linorder_not_le [symmetric])

text \<open>Two cells do not overlap when they are at least eight bytes apart in both directions.\<close>

definition apart8 :: "u64 \<Rightarrow> u64 \<Rightarrow> bool" where
  "apart8 a b \<longleftrightarrow> 8 \<le> b - a \<and> 8 \<le> a - b"

lemma apart8_byte: "apart8 a b \<Longrightarrow> i < 8 \<Longrightarrow> 8 \<le> (b + i) - a"
  unfolding apart8_def by unat_arith

lemma rd64_wr64_apart: "apart8 a b \<Longrightarrow> rd64 (wr64 m a v) b = rd64 m b"
  unfolding rd64_def by (rule le64_cong) (simp add: le64_others apart8_byte)

lemma apart8_multiples:
  assumes "unat a mod 8 = 0" "unat b mod 8 = 0" "a \<noteq> b"
  shows "apart8 a b"
proof -
  have ne: "unat a \<noteq> unat b" using assms(3) by (simp add: word_unat_eq_iff)
  have ab: "unat (b - a) = (if unat a \<le> unat b then unat b - unat a else unat b + 2 ^ 64 - unat a)"
    by (simp add: unat_sub_if')
  have ba: "unat (a - b) = (if unat b \<le> unat a then unat a - unat b else unat a + 2 ^ 64 - unat b)"
    by (simp add: unat_sub_if')
  have la: "unat a < 2 ^ 64" and lb: "unat b < 2 ^ 64"
    using unat_lt_64 [of a] unat_lt_64 [of b] by simp_all
  have "8 \<le> unat (b - a)" using ne assms(1,2) la lb unfolding ab by (auto; presburger)
  moreover have "8 \<le> unat (a - b)" using ne assms(1,2) la lb unfolding ba by (auto; presburger)
  ultimately show ?thesis by (simp add: apart8_def word_le_nat_alt)
qed

section \<open>Page-sized regions\<close>

text \<open>A page aligned address, and the cells of the 512 entry table at it.\<close>

definition page_aligned :: "u64 \<Rightarrow> bool" where
  "page_aligned t \<longleftrightarrow> t AND 0xFFF = 0"

definition entry_at :: "u64 \<Rightarrow> u64 \<Rightarrow> u64" where
  "entry_at t i = t + 8 * i"

lemma page_aligned_unat: "page_aligned t \<longleftrightarrow> unat t mod 4096 = 0"
proof -
  have "t AND 0xFFF = take_bit 12 t" by (simp add: mask_0xFFF take_bit_eq_mask)
  then have "unat (t AND 0xFFF) = take_bit 12 (unat t)" by (simp only: unsigned_take_bit_eq)
  then have "unat (t AND 0xFFF) = unat t mod 4096" by (simp add: take_bit_eq_mod)
  then show ?thesis unfolding page_aligned_def by (metis unat_0 unat_eq_zero)
qed

lemma page_alignedE:
  assumes "page_aligned t"
  obtains k where "unat t = 4096 * k" "k < 4503599627370496"
proof -
  from assms have "unat t mod 4096 = 0" by (simp add: page_aligned_unat)
  then have "4096 dvd unat t" by (rule mod_0_imp_dvd)
  then obtain k where k: "unat t = 4096 * k" by (rule dvdE)
  moreover have "k < 4503599627370496" using unat_lt_64 [of t] unfolding k by simp
  ultimately show thesis by (rule that)
qed

lemma unat_entry_at:
  assumes "page_aligned t" "i < 512"
  shows "unat (entry_at t i) = unat t + 8 * unat i"
proof -
  obtain k where k: "unat t = 4096 * k" "k < 4503599627370496"
    using assms(1) by (rule page_alignedE)
  have i: "unat i < 512" using assms(2) by (simp add: word_less_nat_alt)
  have "unat (8 * i) = 8 * unat i" using i by (simp add: unat_word_ariths)
  moreover have "unat t + 8 * unat i < 2 ^ 64" using i k by simp
  ultimately show ?thesis unfolding entry_at_def by (simp add: unat_plus_no_wrap)
qed

lemma entry_at_eq_iff:
  assumes "page_aligned t" "page_aligned t'" "i < 512" "j < 512"
  shows "entry_at t i = entry_at t' j \<longleftrightarrow> t = t' \<and> i = j"
proof
  assume "entry_at t i = entry_at t' j"
  then have e: "unat t + 8 * unat i = unat t' + 8 * unat j"
    using assms by (metis unat_entry_at)
  obtain k k' where k: "unat t = 4096 * k" "unat t' = 4096 * k'"
    using assms(1,2) by (metis page_alignedE)
  have "unat i < 512" "unat j < 512" using assms(3,4) by (simp_all add: word_less_nat_alt)
  then have "k = k' \<and> 8 * unat i = 8 * unat j"
    using e k by (intro page_multiple_unique) simp_all
  then show "t = t' \<and> i = j" using k by (simp add: word_unat_eq_iff)
qed simp

lemma entry_at_apart:
  assumes "page_aligned t" "page_aligned t'" "i < 512" "j < 512" "t \<noteq> t' \<or> i \<noteq> j"
  shows "apart8 (entry_at t i) (entry_at t' j)"
proof (rule apart8_multiples)
  show "unat (entry_at t i) mod 8 = 0" "unat (entry_at t' j) mod 8 = 0"
    using assms(1-4) by (auto simp: unat_entry_at elim!: page_alignedE)
  show "entry_at t i \<noteq> entry_at t' j" using assms by (simp add: entry_at_eq_iff)
qed

lemma rd64_wr64_entry:
  assumes "page_aligned t" "page_aligned t'" "i < 512" "j < 512"
  shows "rd64 (wr64 m (entry_at t i) v) (entry_at t' j) =
    (if t = t' \<and> i = j then v else rd64 m (entry_at t' j))"
  using assms by (auto simp: rd64_wr64_same intro!: rd64_wr64_apart entry_at_apart)

text \<open>A page filled with one byte value.\<close>

definition in_page :: "u64 \<Rightarrow> u64 \<Rightarrow> bool" where
  "in_page f x \<longleftrightarrow> x - f < 0x1000"

definition fill_page :: "ram \<Rightarrow> u64 \<Rightarrow> u8 \<Rightarrow> ram" where
  "fill_page m f c = (\<lambda>x. if in_page f x then c else m x)"

lemma in_page_unat:
  assumes "page_aligned f"
  shows "in_page f x \<longleftrightarrow> unat x div 4096 = unat f div 4096"
proof -
  obtain k where k: "unat f = 4096 * k" "k < 4503599627370496" using assms by (rule page_alignedE)
  have x: "unat x < 18446744073709551616" by (rule unat_lt_64)
  have d: "unat (x - f) = (if unat f \<le> unat x then unat x - unat f else unat x + 2 ^ 64 - unat f)"
    by (simp add: unat_sub_if')
  have "in_page f x \<longleftrightarrow> unat (x - f) < 4096" by (simp add: in_page_def word_less_nat_alt)
  also have "\<dots> \<longleftrightarrow> 4096 * k \<le> unat x \<and> unat x < 4096 * k + 4096"
    unfolding d k(1) using k(2) x by auto
  also have "\<dots> \<longleftrightarrow> unat x div 4096 = k" by auto
  finally show ?thesis by (simp add: k(1))
qed

lemma unat_entry_byte:
  assumes "page_aligned t" "i < 512" "b < 8"
  shows "unat (entry_at t i + b) = unat t + 8 * unat i + unat b"
proof -
  obtain k where k: "unat t = 4096 * k" "k < 4503599627370496" using assms(1) by (rule page_alignedE)
  have i: "unat i < 512" and b: "unat b < 8" using assms(2,3) by (simp_all add: word_less_nat_alt)
  have "unat (entry_at t i) + unat b < 2 ^ 64" using assms(1,2) i b k by (simp add: unat_entry_at)
  then show ?thesis using assms(1,2) by (simp add: unat_plus_no_wrap unat_entry_at)
qed

lemma entry_byte_in_page:
  assumes "page_aligned t" "page_aligned f" "i < 512" "b < 8"
  shows "in_page f (entry_at t i + b) \<longleftrightarrow> t = f"
proof -
  obtain k where k: "unat t = 4096 * k" using assms(1) by (rule page_alignedE)
  obtain k' where k': "unat f = 4096 * k'" using assms(2) by (rule page_alignedE)
  have ib: "8 * unat i + unat b < 4096" using assms(3,4) by (simp add: word_less_nat_alt)
  have "(4096 * k + (8 * unat i + unat b)) div 4096 = k" using ib by simp
  then show ?thesis
    using assms k k' by (simp add: in_page_unat unat_entry_byte add.assoc word_unat_eq_iff)
qed

lemma rd64_fill_page:
  assumes "page_aligned t" "page_aligned f" "i < 512"
  shows "rd64 (fill_page m f 0) (entry_at t i) = (if t = f then 0 else rd64 m (entry_at t i))"
proof -
  have "le64 (\<lambda>b. fill_page m f 0 (entry_at t i + b)) =
      le64 (\<lambda>b. if t = f then 0 else m (entry_at t i + b))"
    by (rule le64_cong) (simp add: fill_page_def entry_byte_in_page assms)
  moreover have "le64 (\<lambda>b. 0) = 0" by (simp add: le64_def)
  ultimately show ?thesis by (simp add: rd64_def)
qed

end
