(* ===== verification/Mmu.thy ===== *)
theory Mmu
  imports Ram "HOL-Library.Sublist"
begin

text \<open>
  The processor's four level address translation, which every pointer the kernel
  dereferences goes through, as a walk along a list of table indices, and the shape the
  kernel keeps the tables in: a tree, where no table is reached along two paths. Writing
  one entry of a tree changes the translation of the addresses below that entry and of no
  other address.

  Large pages do not occur: neither the boot code nor the kernel sets bit 7 of an entry.
\<close>

section \<open>Walking a path of table indices\<close>

definition PTE_ADDR :: u64 where
  "PTE_ADDR = 0x000FFFFFFFFFF000"

primrec tbl :: "ram \<Rightarrow> u64 list \<Rightarrow> u64 \<Rightarrow> u64 option" where
  "tbl m [] t = Some t"
| "tbl m (i # is) t =
     (let e = rd64 m (entry_at t i)
      in if e AND 1 = 0 then None else tbl m is (e AND PTE_ADDR))"

definition tbl_step :: "ram \<Rightarrow> u64 \<Rightarrow> u64 \<Rightarrow> u64 option" where
  "tbl_step m i t =
     (let e = rd64 m (entry_at t i) in if e AND 1 = 0 then None else Some (e AND PTE_ADDR))"

lemma tbl_append: "tbl m (p @ q) t = Option.bind (tbl m p t) (tbl m q)"
  by (induction p arbitrary: t) (simp_all add: Let_def)

lemma tbl_snoc: "tbl m (p @ [i]) t = Option.bind (tbl m p t) (tbl_step m i)"
  by (cases "tbl m p t") (simp_all add: tbl_append tbl_step_def Let_def)

definition idx_ok :: "u64 list \<Rightarrow> bool" where
  "idx_ok p \<longleftrightarrow> (\<forall>i \<in> set p. i < 512)"

lemma idx_ok_simps [simp]:
  "idx_ok []"
  "idx_ok (i # p) \<longleftrightarrow> i < 512 \<and> idx_ok p"
  "idx_ok (p @ q) \<longleftrightarrow> idx_ok p \<and> idx_ok q"
  by (auto simp: idx_ok_def)

section \<open>Frame addresses in entries\<close>

text \<open>A frame address: page aligned and below the 52 bit physical address limit.\<close>

definition frame_addr :: "u64 \<Rightarrow> bool" where
  "frame_addr f \<longleftrightarrow> f AND PTE_ADDR = f"

lemma PTE_ADDR_bit: "bit PTE_ADDR n \<longleftrightarrow> 12 \<le> n \<and> n < 52"
proof -
  have "PTE_ADDR = push_bit 12 (mask 40)"
    by (simp add: PTE_ADDR_def mask_eq_exp_minus_1 push_bit_eq_mult)
  then have "bit PTE_ADDR n = bit (push_bit 12 (mask 40 :: u64)) n" by (simp only:)
  then show ?thesis by (auto simp: bit_simps)
qed

lemma frame_addr_PTE [simp]: "frame_addr (e AND PTE_ADDR)"
  by (simp add: frame_addr_def and.assoc)

lemma mask12_bit: "bit (0xFFF :: u64) n \<longleftrightarrow> n < 12"
  by (auto simp: mask_0xFFF bit_simps)

lemma frame_addr_aligned: "frame_addr f \<Longrightarrow> page_aligned f"
proof -
  assume f: "frame_addr f"
  have "f AND 0xFFF = (f AND PTE_ADDR) AND 0xFFF" using f by (simp add: frame_addr_def)
  also have "\<dots> = 0" by (rule bit_eqI) (auto simp: bit_simps PTE_ADDR_bit mask12_bit)
  finally show ?thesis by (simp add: page_aligned_def)
qed

lemma frame_addrI:
  assumes "page_aligned f" "f < 0x10000000000000"
  shows "frame_addr f"
proof -
  have hi: "\<not> bit f n" if "\<not> n < 52" for n
  proof
    assume b: "bit f n"
    have "f = take_bit 52 f"
      using assms(2) by (simp add: take_bit_eq_mod word_unat_eq_iff unat_mod word_less_nat_alt)
    then show False using b that by (metis bit_take_bit_iff)
  qed
  have lo: "\<not> bit f n" if "\<not> 12 \<le> n" for n
  proof
    assume "bit f n"
    then have "bit (f AND 0xFFF) n" using that by (auto simp: bit_simps mask12_bit)
    then show False using assms(1) by (simp add: page_aligned_def)
  qed
  show ?thesis
    unfolding frame_addr_def
    by (rule bit_eqI) (use hi lo in \<open>auto simp: bit_simps PTE_ADDR_bit\<close>)
qed

text \<open>An entry made of a frame address and flag bits below bit 12, as the kernel builds it.\<close>

lemma entry_frame:
  assumes "frame_addr f" "fl AND PTE_ADDR = 0"
  shows "(f OR fl) AND PTE_ADDR = f"
  using assms by (simp add: frame_addr_def bit.conj_disj_distrib2)

section \<open>Trees of tables\<close>

definition pt_tree :: "ram \<Rightarrow> u64 \<Rightarrow> bool" where
  "pt_tree m root \<longleftrightarrow> page_aligned root \<and>
     (\<forall>p q t. length p \<le> 3 \<and> length q \<le> 3 \<and> idx_ok p \<and> idx_ok q \<and>
        tbl m p root = Some t \<and> tbl m q root = Some t \<longrightarrow> p = q)"

definition is_table :: "ram \<Rightarrow> u64 \<Rightarrow> u64 \<Rightarrow> bool" where
  "is_table m root t \<longleftrightarrow> (\<exists>p. length p \<le> 3 \<and> idx_ok p \<and> tbl m p root = Some t)"

lemma is_tableI: "tbl m p root = Some t \<Longrightarrow> length p \<le> 3 \<Longrightarrow> idx_ok p \<Longrightarrow> is_table m root t"
  by (auto simp: is_table_def)

lemma tbl_frame_addr:
  assumes "tbl m p root = Some t" "p \<noteq> []"
  shows "frame_addr t"
proof -
  obtain q i where "p = q @ [i]" using assms(2) by (metis append_butlast_last_id)
  with assms(1) show ?thesis
    by (auto simp: tbl_snoc tbl_step_def Let_def bind_eq_Some_conv split: if_splits)
qed

lemma tbl_aligned: "tbl m p root = Some t \<Longrightarrow> page_aligned root \<Longrightarrow> page_aligned t"
  by (cases "p = []") (auto intro: frame_addr_aligned tbl_frame_addr)

lemma is_table_aligned: "is_table m root t \<Longrightarrow> page_aligned root \<Longrightarrow> page_aligned t"
  by (auto simp: is_table_def intro: tbl_aligned)

lemma pt_treeD:
  "pt_tree m root \<Longrightarrow> tbl m p root = Some t \<Longrightarrow> tbl m q root = Some t \<Longrightarrow>
    length p \<le> 3 \<Longrightarrow> length q \<le> 3 \<Longrightarrow> idx_ok p \<Longrightarrow> idx_ok q \<Longrightarrow> p = q"
  unfolding pt_tree_def by blast

lemma tbl_step_wr64:
  assumes "page_aligned t" "page_aligned T" "j < 512" "i < 512"
  shows "tbl_step (wr64 m (entry_at T i) e) j t =
    (if t = T \<and> j = i then (if e AND 1 = 0 then None else Some (e AND PTE_ADDR))
     else tbl_step m j t)"
  using assms by (auto simp: tbl_step_def rd64_wr64_entry)

text \<open>Writing one entry leaves every path that does not run through it alone.\<close>

lemma tbl_wr64_other:
  assumes tree: "pt_tree m root" and T: "tbl m p root = Some T" "length p \<le> 3" "idx_ok p"
    and i: "i < 512"
  shows "length q \<le> 4 \<Longrightarrow> idx_ok q \<Longrightarrow> \<not> prefix (p @ [i]) q \<Longrightarrow>
    tbl (wr64 m (entry_at T i) e) q root = tbl m q root"
proof (induction q rule: rev_induct)
  case Nil
  then show ?case by simp
next
  case (snoc j q)
  let ?m = "wr64 m (entry_at T i) e"
  have root: "page_aligned root" using tree by (simp add: pt_tree_def)
  have IH: "tbl ?m q root = tbl m q root" using snoc by simp
  have "Option.bind (tbl m q root) (tbl_step ?m j) = Option.bind (tbl m q root) (tbl_step m j)"
  proof (cases "tbl m q root")
    case (Some t)
    have "\<not> (t = T \<and> j = i)"
    proof
      assume a: "t = T \<and> j = i"
      then have "q = p" using Some T tree snoc.prems by (auto intro: pt_treeD)
      with a snoc.prems(3) show False by simp
    qed
    moreover have "page_aligned t" "page_aligned T"
      using Some T(1) root by (auto intro: tbl_aligned)
    ultimately show ?thesis using Some snoc.prems(2) i by (auto simp: tbl_step_wr64)
  qed simp
  then show ?case by (simp add: tbl_snoc IH)
qed

lemma tbl_wr64_self:
  assumes tree: "pt_tree m root" and T: "tbl m p root = Some T" "length p \<le> 3" "idx_ok p"
    and i: "i < 512"
  shows "tbl (wr64 m (entry_at T i) e) (p @ [i]) root =
    (if e AND 1 = 0 then None else Some (e AND PTE_ADDR))"
proof -
  have "tbl (wr64 m (entry_at T i) e) p root = Some T"
    using tbl_wr64_other [OF assms, of p] T by simp
  moreover have "page_aligned T" using T(1) tree by (auto simp: pt_tree_def intro: tbl_aligned)
  ultimately show ?thesis using i by (simp add: tbl_snoc tbl_step_wr64)
qed

text \<open>Clearing a frame that is not one of the tables leaves every path alone.\<close>

lemma tbl_fill_other:
  assumes root: "page_aligned root" and f: "page_aligned f" "\<not> is_table m root f"
  shows "length q \<le> 4 \<Longrightarrow> idx_ok q \<Longrightarrow> tbl (fill_page m f 0) q root = tbl m q root"
proof (induction q rule: rev_induct)
  case (snoc j q)
  have "Option.bind (tbl m q root) (tbl_step (fill_page m f 0) j) =
      Option.bind (tbl m q root) (tbl_step m j)"
  proof (cases "tbl m q root")
    case (Some t)
    then have "t \<noteq> f" using f(2) snoc.prems by (auto intro: is_tableI)
    moreover have "page_aligned t" using Some root by (rule tbl_aligned)
    ultimately show ?thesis using Some f(1) snoc.prems(2)
      by (simp add: tbl_step_def rd64_fill_page)
  qed simp
  then show ?case using snoc by (simp add: tbl_snoc)
qed simp

end
