(* ===== verification/Kstate.thy ===== *)
theory Kstate
  imports Mmu
begin

text \<open>
  The state of the kernel: the registers an interrupt saves, the task table, the frame
  table, physical memory and the control registers, together with the two traces through
  which the kernel acts on the outside: the console calls it makes and its port accesses.
  Pointers are virtual addresses and every access through one is translated.
\<close>

section \<open>Saved registers (IDT.h)\<close>

record regs =
  rg_int_no :: u64
  rg_cr2 :: u64
  rg_r15 :: u64
  rg_r14 :: u64
  rg_r13 :: u64
  rg_r12 :: u64
  rg_r11 :: u64
  rg_r10 :: u64
  rg_r9 :: u64
  rg_r8 :: u64
  rg_rdi :: u64
  rg_rsi :: u64
  rg_rbp :: u64
  rg_rbx :: u64
  rg_rdx :: u64
  rg_rcx :: u64
  rg_rax :: u64
  rg_error_code :: u64
  rg_rip :: u64
  rg_cs :: u64
  rg_rflags :: u64
  rg_rsp :: u64
  rg_ss :: u64

definition zero_regs :: regs where
  "zero_regs = \<lparr>rg_int_no = 0, rg_cr2 = 0, rg_r15 = 0, rg_r14 = 0, rg_r13 = 0, rg_r12 = 0,
     rg_r11 = 0, rg_r10 = 0, rg_r9 = 0, rg_r8 = 0, rg_rdi = 0, rg_rsi = 0, rg_rbp = 0,
     rg_rbx = 0, rg_rdx = 0, rg_rcx = 0, rg_rax = 0, rg_error_code = 0, rg_rip = 0,
     rg_cs = 0, rg_rflags = 0, rg_rsp = 0, rg_ss = 0\<rparr>"

section \<open>Tasks (Memory.h)\<close>

record tss =
  tss_reserved0 :: u32
  tss_rsp0 :: u64
  tss_rsp1 :: u64
  tss_rsp2 :: u64
  tss_reserved1 :: u64
  tss_ist1 :: u64
  tss_ist2 :: u64
  tss_ist3 :: u64
  tss_ist4 :: u64
  tss_ist5 :: u64
  tss_ist6 :: u64
  tss_ist7 :: u64
  tss_reserved2 :: u64
  tss_reserved3 :: u64
  tss_reserved4 :: u16
  tss_io_map_base :: u16

definition zero_tss :: tss where
  "zero_tss = \<lparr>tss_reserved0 = 0, tss_rsp0 = 0, tss_rsp1 = 0, tss_rsp2 = 0, tss_reserved1 = 0,
     tss_ist1 = 0, tss_ist2 = 0, tss_ist3 = 0, tss_ist4 = 0, tss_ist5 = 0, tss_ist6 = 0,
     tss_ist7 = 0, tss_reserved2 = 0, tss_reserved3 = 0, tss_reserved4 = 0, tss_io_map_base = 0\<rparr>"

record mem_def =
  BaseVirtualAddress :: u64
  PageCount :: u64
  StackBaseVirtualAddress :: u64
  StackPageCount :: u64
  KernelStackBaseVirtualAddress :: u64
  KernelStackPageCount :: u64
  HeapVirtualAddress :: u64

definition zero_mem_def :: mem_def where
  "zero_mem_def = \<lparr>BaseVirtualAddress = 0, PageCount = 0, StackBaseVirtualAddress = 0,
     StackPageCount = 0, KernelStackBaseVirtualAddress = 0, KernelStackPageCount = 0,
     HeapVirtualAddress = 0\<rparr>"

record fdesc =
  gemfs_index :: u64
  fd_flags :: u8
  last_point :: u64
  fd_used :: bool

definition zero_fdesc :: fdesc where
  "zero_fdesc = \<lparr>gemfs_index = 0, fd_flags = 0, last_point = 0, fd_used = False\<rparr>"

record sigdesc =
  registered :: bool
  sig_entry :: u64

definition zero_sigdesc :: sigdesc where
  "zero_sigdesc = \<lparr>registered = False, sig_entry = 0\<rparr>"

record task =
  ProcessID :: u32
  MemoryData :: mem_def
  SavedRegisters :: regs
  MaxTicks :: u8
  UsedTicks :: u8
  TotalTicks :: u64
  ProcessState :: u8
  WaitingReason :: u16
  ChildWaitingReason :: u32
  SleepCycle :: u32
  RequestedSleepCycle :: u32
  Base_PML4 :: u64
  Descriptors :: "fdesc list"
  UserTSS :: tss
  PID_Waiting_For :: int
  Owner_PID :: int
  Working_FD :: int
  Signals :: "sigdesc list"
  task_Exists :: bool

text \<open>A task entry as \<open>memset(task, 0, sizeof(Task))\<close> leaves it.\<close>

definition zero_task :: task where
  "zero_task = \<lparr>ProcessID = 0, MemoryData = zero_mem_def, SavedRegisters = zero_regs,
     MaxTicks = 0, UsedTicks = 0, TotalTicks = 0, ProcessState = 0, WaitingReason = 0,
     ChildWaitingReason = 0, SleepCycle = 0, RequestedSleepCycle = 0, Base_PML4 = 0,
     Descriptors = replicate 64 zero_fdesc, UserTSS = zero_tss, PID_Waiting_For = 0,
     Owner_PID = 0, Working_FD = 0, Signals = replicate 16 zero_sigdesc,
     task_Exists = False\<rparr>"

section \<open>Frames and pages (Memory.h)\<close>

record frame =
  refcount :: u32
  fr_flags :: u8

record page_details =
  pg_flags :: u16
  pg_Execute_Disable :: bool
  virtual_address :: u64
  physical_address :: u64

section \<open>Traces\<close>

datatype console_call =
    Print string
  | Printf string "u64 list"
  | Print_debug string
  | Print_error string
  | Print_error_snapshot string
  | Print_success string
  | Print_success_snapshot string
  | VirtualPrint nat string
  | SetColor u8 u8
  | Cls

datatype port_access =
    Out8 u16 u8
  | Out16 u16 u16
  | Out32 u16 u32
  | In8 u16
  | In32 u16

text \<open>What the devices answer to a read of a port, given all port accesses so far, newest first.\<close>

type_synonym port_env = "port_access list \<Rightarrow> u16 \<Rightarrow> u32"

section \<open>The kernel state\<close>

record kst =
  ram :: ram
  cr3 :: u64
  interrupts :: bool
  PML4_Physical :: u64
  Kernel_PML4_Physical :: u64
  VirtualMemorySize :: u32
  total_mem :: u64
  available_mem :: u64
  PhysicalPagesUsed :: u64
  phys_frames :: "u64 \<Rightarrow> frame"
  TaskManager :: "int \<Rightarrow> task"
  cur_pid :: int
  ActiveTSS :: tss
  TimerWindow :: u64
  SecondsSinceBoot :: u64
  BiosTime :: u64
  Frequency :: u16
  tasks_enabled :: bool
  dr0 :: u64
  console :: "console_call list"
  ports :: "port_access list"
  devices :: port_env

definition VIRTUAL_MEMORY_BARRIER :: u64 where
  "VIRTUAL_MEMORY_BARRIER = 0xffff800000000000"

definition KERNEL_FLAGS :: u16 where "KERNEL_FLAGS = 0b00000011"
definition KERNEL_FLAGS_UNCACHEABLE :: u16 where "KERNEL_FLAGS_UNCACHEABLE = 0b00010011"
definition USER_FLAGS :: u16 where "USER_FLAGS = 0b00000111"
definition USER_FLAGS_UNCACHEABLE :: u16 where "USER_FLAGS_UNCACHEABLE = 0b00010111"

subsection \<open>Console and ports (IO.h)\<close>

definition say :: "kst \<Rightarrow> console_call \<Rightarrow> kst" where
  "say s c = s\<lparr>console := c # console s\<rparr>"

definition outb :: "kst \<Rightarrow> u16 \<Rightarrow> u8 \<Rightarrow> kst" where
  "outb s port v = s\<lparr>ports := Out8 port v # ports s\<rparr>"

definition outl :: "kst \<Rightarrow> u16 \<Rightarrow> u32 \<Rightarrow> kst" where
  "outl s port v = s\<lparr>ports := Out32 port v # ports s\<rparr>"

definition outw :: "kst \<Rightarrow> u16 \<Rightarrow> u32 \<Rightarrow> kst" where
  "outw s port v = s\<lparr>ports := Out16 port (ucast v) # ports s\<rparr>"

definition inb :: "kst \<Rightarrow> u16 \<Rightarrow> u8 \<times> kst" where
  "inb s port = (ucast (devices s (ports s) port), s\<lparr>ports := In8 port # ports s\<rparr>)"

definition inl :: "kst \<Rightarrow> u16 \<Rightarrow> u32 \<times> kst" where
  "inl s port = (devices s (ports s) port, s\<lparr>ports := In32 port # ports s\<rparr>)"

text \<open>The macros \<open>sti\<close> and \<open>cli\<close> of Memory.h.\<close>

definition sti :: "kst \<Rightarrow> kst" where "sti s = s\<lparr>interrupts := True\<rparr>"

definition cli :: "kst \<Rightarrow> kst" where "cli s = s\<lparr>interrupts := False\<rparr>"

subsection \<open>Memory access through the page tables\<close>

text \<open>The nine bit index fields of a virtual address and the byte offset in its page.\<close>

definition va_path :: "u64 \<Rightarrow> u64 list" where
  "va_path va = [drop_bit 39 va AND 0x1FF, drop_bit 30 va AND 0x1FF,
                 drop_bit 21 va AND 0x1FF, drop_bit 12 va AND 0x1FF]"

definition mmu_walk :: "ram \<Rightarrow> u64 \<Rightarrow> u64 \<Rightarrow> u64 option" where
  "mmu_walk m root va =
     map_option (\<lambda>f. f OR (va AND 0xFFF)) (tbl m (va_path va) (root AND PTE_ADDR))"

definition walk :: "kst \<Rightarrow> u64 \<Rightarrow> u64 option" where
  "walk s va = mmu_walk (ram s) (cr3 s) va"

definition vread8 :: "kst \<Rightarrow> u64 \<Rightarrow> u8 option" where
  "vread8 s va = map_option (ram s) (walk s va)"

definition vwrite8 :: "kst \<Rightarrow> u64 \<Rightarrow> u8 \<Rightarrow> kst option" where
  "vwrite8 s va b = map_option (\<lambda>pa. s\<lparr>ram := (ram s)(pa := b)\<rparr>) (walk s va)"

text \<open>
  An eight byte access is one cell, unless it crosses a page boundary: then the two pages
  are translated separately.
\<close>

definition in_one_page8 :: "u64 \<Rightarrow> bool" where
  "in_one_page8 va \<longleftrightarrow> va AND 0xFFF \<le> 0xFF8"

definition split_addr :: "u64 \<Rightarrow> u64 \<Rightarrow> u64 \<Rightarrow> u64 \<Rightarrow> u64" where
  "split_addr va a b i = (if (va AND 0xFFF) + i < 0x1000 then a + i else b - (7 - i))"

definition vread64 :: "kst \<Rightarrow> u64 \<Rightarrow> u64 option" where
  "vread64 s va =
     (if in_one_page8 va then map_option (rd64 (ram s)) (walk s va)
      else do { a \<leftarrow> walk s va; b \<leftarrow> walk s (va + 7);
                Some (le64 (\<lambda>i. ram s (split_addr va a b i))) })"

definition vwrite64 :: "kst \<Rightarrow> u64 \<Rightarrow> u64 \<Rightarrow> kst option" where
  "vwrite64 s va v =
     (if in_one_page8 va then map_option (\<lambda>a. s\<lparr>ram := wr64 (ram s) a v\<rparr>) (walk s va)
      else do { a \<leftarrow> walk s va; b \<leftarrow> walk s (va + 7);
                Some (s\<lparr>ram := fold (\<lambda>i m. m(split_addr va a b i := byte64 v i))
                                   [0, 1, 2, 3, 4, 5, 6, 7] (ram s)\<rparr>) })"

subsection \<open>memset and memcpy (Memory.c)\<close>

primrec memset_loop :: "nat \<Rightarrow> kst \<Rightarrow> u64 \<Rightarrow> u8 \<Rightarrow> kst option" where
  "memset_loop 0 s d v = Some s"
| "memset_loop (Suc n) s d v = do { s \<leftarrow> vwrite8 s d v; memset_loop n s (d + 1) v }"

definition memset :: "kst \<Rightarrow> u64 \<Rightarrow> u8 \<Rightarrow> u64 \<Rightarrow> kst option" where
  "memset s dest v bytes = memset_loop (unat bytes) s dest v"

primrec memcpy_loop :: "nat \<Rightarrow> kst \<Rightarrow> u64 \<Rightarrow> u64 \<Rightarrow> kst option" where
  "memcpy_loop 0 s d src = Some s"
| "memcpy_loop (Suc n) s d src =
     do { b \<leftarrow> vread8 s src; s \<leftarrow> vwrite8 s d b; memcpy_loop n s (d + 1) (src + 1) }"

definition memcpy :: "kst \<Rightarrow> u64 \<Rightarrow> u64 \<Rightarrow> u64 \<Rightarrow> kst option" where
  "memcpy s dest src n = memcpy_loop (unat n) s dest src"

subsection \<open>Control registers (Memory.c)\<close>

definition mem_sync_cr3 :: "kst \<Rightarrow> kst" where
  "mem_sync_cr3 s = s\<lparr>PML4_Physical := cr3 s\<rparr>"

definition mem_set_cr3 :: "kst \<Rightarrow> u64 \<Rightarrow> bool \<Rightarrow> kst" where
  "mem_set_cr3 s addr do_sti =
     (let s = s\<lparr>interrupts := False, cr3 := addr\<rparr>;
          s = (if do_sti then s\<lparr>interrupts := True\<rparr> else s)
      in mem_sync_cr3 s)"

end
