(* ===== verification/PageAddr.thy ===== *)
theory PageAddr
  imports Kstate
begin

text \<open>
  The address arithmetic of \<open>LowLevel/Memory.c\<close>: virtual addresses split into table
  indices and put back together, canonical addresses, and the layout of a page table entry.
\<close>

section \<open>Definitions\<close>

record page_entries =
  PML4_Entry :: u16
  PDPT_Entry :: u16
  PD_Entry :: u16
  PT_Entry :: u16
  Page_Offset :: u16

definition ExtractPageEntries :: "u64 \<Rightarrow> page_entries" where
  "ExtractPageEntries va = \<lparr>
     PML4_Entry = ucast (drop_bit 39 va AND 0x1FF),
     PDPT_Entry = ucast (drop_bit 30 va AND 0x1FF),
     PD_Entry = ucast (drop_bit 21 va AND 0x1FF),
     PT_Entry = ucast (drop_bit 12 va AND 0x1FF),
     Page_Offset = ucast (va AND 0xFFF)\<rparr>"

definition CalculatePageAddress :: "page_entries \<Rightarrow> u64" where
  "CalculatePageAddress e =
     (let pml4 = PML4_Entry e AND 0x1FF; pdpt = PDPT_Entry e AND 0x1FF;
          pd = PD_Entry e AND 0x1FF; pt = PT_Entry e AND 0x1FF;
          offset = Page_Offset e AND 0xFFF;
          address = push_bit 39 (ucast pml4) OR push_bit 30 (ucast pdpt) OR
                    push_bit 21 (ucast pd) OR push_bit 12 (ucast pt) OR ucast offset
      in signed_drop_bit 16 (push_bit 16 address))"

definition IsCanonical :: "u64 \<Rightarrow> bool" where
  "IsCanonical addr \<longleftrightarrow> drop_bit 47 addr = 0 \<or> drop_bit 47 addr = 0x1FFFFFFFF"

text \<open>The page table entry that \<open>alloc_page\<close> builds.\<close>

definition new_entry :: "page_details \<Rightarrow> u64" where
  "new_entry page = physical_address page OR ucast (pg_flags page) OR
     push_bit 63 (of_bool (pg_Execute_Disable page))"

text \<open>\<open>ParsePTE\<close>: \<open>pte_addr\<close> is the pointer, \<open>pte\<close> the entry it points to.\<close>

definition ParsePTE :: "u64 \<Rightarrow> u64 \<Rightarrow> u64 \<Rightarrow> page_details" where
  "ParsePTE pml4_physical pte_addr pte = \<lparr>
     pg_flags = ucast (pte AND 0x1FF),
     pg_Execute_Disable = (drop_bit 63 pte \<noteq> 0),
     virtual_address = pte_addr - pml4_physical,
     physical_address = pte AND PTE_ADDR\<rparr>"

section \<open>Bit facts\<close>

text \<open>Sign extension of bit 47, as the last two lines of \<open>CalculatePageAddress\<close> do it.\<close>

definition canonical :: "u64 \<Rightarrow> u64" where
  "canonical a = signed_drop_bit 16 (push_bit 16 a)"

lemma canonical_bit: "bit (canonical a) n \<longleftrightarrow> n < 64 \<and> bit a (if n < 47 then n else 47)"
proof -
  have "bit (canonical a) n \<longleftrightarrow> bit (push_bit 16 a) (if 48 \<le> n \<and> n < 64 then 63 else 16 + n)"
    by (simp add: canonical_def bit_simps)
  moreover have "n = 47 \<or> n < 47 \<or> 48 \<le> n" by arith
  ultimately show ?thesis by (elim disjE) (auto simp: bit_simps)
qed

lemma mask9_bit: "bit (0x1FF :: 'a::len word) n \<longleftrightarrow> n < LENGTH('a) \<and> n < 9"
proof -
  have "(0x1FF :: 'a word) = mask 9" by (simp add: mask_eq_exp_minus_1)
  then have "bit (0x1FF :: 'a word) n = bit (mask 9 :: 'a word) n" by (simp only:)
  then show ?thesis by (auto simp: bit_simps)
qed

lemma mask12_bit': "bit (0xFFF :: 'a::len word) n \<longleftrightarrow> n < LENGTH('a) \<and> n < 12"
proof -
  have "(0xFFF :: 'a word) = mask 12" by (simp add: mask_eq_exp_minus_1)
  then have "bit (0xFFF :: 'a word) n = bit (mask 12 :: 'a word) n" by (simp only:)
  then show ?thesis by (auto simp: bit_simps)
qed

lemmas page_bits = bit_simps mask9_bit mask12_bit' PTE_ADDR_bit

lemma canonical_fixed_bits:
  assumes "canonical va = va" "47 \<le> n" "n < 64"
  shows "bit va n = bit va 47"
  using canonical_bit [of va n] assms by (auto split: if_splits)

section \<open>Properties\<close>

definition join_entries :: "page_entries \<Rightarrow> u64" where
  "join_entries e =
     push_bit 39 (ucast (PML4_Entry e AND 0x1FF)) OR push_bit 30 (ucast (PDPT_Entry e AND 0x1FF)) OR
     push_bit 21 (ucast (PD_Entry e AND 0x1FF)) OR push_bit 12 (ucast (PT_Entry e AND 0x1FF)) OR
     ucast (Page_Offset e AND 0xFFF)"

lemma CalculatePageAddress_canonical: "CalculatePageAddress e = canonical (join_entries e)"
  by (simp add: CalculatePageAddress_def canonical_def join_entries_def Let_def)

lemma bit_ranges: "n < 48 \<Longrightarrow> n < 12 \<or> (12 \<le> n \<and> n < 21) \<or> (21 \<le> n \<and> n < 30) \<or>
    (30 \<le> n \<and> n < 39) \<or> (39 \<le> n \<and> n < (48 :: nat))"
  by arith

lemma join_entries_fields:
  "n < 12 \<Longrightarrow> bit (join_entries e) n = bit (Page_Offset e) n"
  "n < 9 \<Longrightarrow> bit (join_entries e) (12 + n) = bit (PT_Entry e) n"
  "n < 9 \<Longrightarrow> bit (join_entries e) (21 + n) = bit (PD_Entry e) n"
  "n < 9 \<Longrightarrow> bit (join_entries e) (30 + n) = bit (PDPT_Entry e) n"
  "n < 9 \<Longrightarrow> bit (join_entries e) (39 + n) = bit (PML4_Entry e) n"
  by (simp_all add: join_entries_def bit_or_iff bit_and_iff bit_push_bit_iff bit_ucast_iff
      mask9_bit mask12_bit')

lemma ExtractPageEntries_bits:
  "n < 12 \<Longrightarrow> bit (Page_Offset (ExtractPageEntries va)) n = bit va n"
  "n < 9 \<Longrightarrow> bit (PT_Entry (ExtractPageEntries va)) n = bit va (12 + n)"
  "n < 9 \<Longrightarrow> bit (PD_Entry (ExtractPageEntries va)) n = bit va (21 + n)"
  "n < 9 \<Longrightarrow> bit (PDPT_Entry (ExtractPageEntries va)) n = bit va (30 + n)"
  "n < 9 \<Longrightarrow> bit (PML4_Entry (ExtractPageEntries va)) n = bit va (39 + n)"
  by (simp_all add: ExtractPageEntries_def bit_and_iff bit_ucast_iff bit_drop_bit_eq
      mask9_bit mask12_bit')

lemma join_entries_bit:
  assumes "n < 48"
  shows "bit (join_entries (ExtractPageEntries va)) n = bit va n"
proof -
  have hi: "\<exists>m < 9. n = k + m" if "k \<le> n \<and> n < k + 9" for k
    using that by (intro exI [of _ "n - k"]) auto
  show ?thesis
    using bit_ranges [OF assms] hi [of 12] hi [of 21] hi [of 30] hi [of 39]
    by (auto simp: join_entries_fields ExtractPageEntries_bits)
qed

lemma CalculatePageAddress_bit:
  assumes "n < 48"
  shows "bit (CalculatePageAddress e) n \<longleftrightarrow> bit (join_entries e) n"
proof -
  have "n = 47 \<or> n < 47" using assms by arith
  then show ?thesis by (auto simp: CalculatePageAddress_canonical canonical_bit)
qed

lemma ucast_field9: "(ucast (ucast (x AND 0x1FF :: u64) :: u16) :: u64) = x AND 0x1FF"
  by (rule bit_eqI) (auto simp: page_bits)

text \<open>The indices the kernel computes are the ones the processor uses.\<close>

lemma va_path_ExtractPageEntries:
  "va_path va = [ucast (PML4_Entry (ExtractPageEntries va)), ucast (PDPT_Entry (ExtractPageEntries va)),
                 ucast (PD_Entry (ExtractPageEntries va)), ucast (PT_Entry (ExtractPageEntries va))]"
  by (simp add: va_path_def ExtractPageEntries_def ucast_field9)

lemma idx_ok_va_path [simp]: "idx_ok (va_path va)" and length_va_path [simp]: "length (va_path va) = 4"
  by (simp_all add: va_path_def and_mask_less_64)

text \<open>Splitting an address into table indices and joining them again gives the address
  back with bit 47 extended into the top bits; a canonical address comes back unchanged.\<close>

theorem page_address_roundtrip:
  "CalculatePageAddress (ExtractPageEntries va) = canonical va"
  unfolding CalculatePageAddress_canonical
  by (rule bit_word_eqI) (auto simp: canonical_bit join_entries_bit)

text \<open>Joining table indices and splitting the address again gives the masked indices.\<close>

theorem page_entries_roundtrip:
  "ExtractPageEntries (CalculatePageAddress e) =
     \<lparr>PML4_Entry = PML4_Entry e AND 0x1FF, PDPT_Entry = PDPT_Entry e AND 0x1FF,
      PD_Entry = PD_Entry e AND 0x1FF, PT_Entry = PT_Entry e AND 0x1FF,
      Page_Offset = Page_Offset e AND 0xFFF\<rparr>"
proof -
  let ?a = "CalculatePageAddress e"
  have f9: "ucast (drop_bit k ?a AND 0x1FF) = x AND 0x1FF"
    if "k + 9 \<le> 48" and "\<And>n. n < 9 \<Longrightarrow> bit (join_entries e) (k + n) = bit x n" for k and x :: u16
    by (rule bit_eqI) (use that in \<open>auto simp: page_bits CalculatePageAddress_bit\<close>)
  have "ucast (drop_bit 39 ?a AND 0x1FF) = PML4_Entry e AND 0x1FF"
    by (rule f9) (simp_all add: join_entries_fields)
  moreover have "ucast (drop_bit 30 ?a AND 0x1FF) = PDPT_Entry e AND 0x1FF"
    by (rule f9) (simp_all add: join_entries_fields)
  moreover have "ucast (drop_bit 21 ?a AND 0x1FF) = PD_Entry e AND 0x1FF"
    by (rule f9) (simp_all add: join_entries_fields)
  moreover have "ucast (drop_bit 12 ?a AND 0x1FF) = PT_Entry e AND 0x1FF"
    by (rule f9) (simp_all add: join_entries_fields)
  moreover have "ucast (?a AND 0xFFF) = Page_Offset e AND 0xFFF"
    by (rule bit_eqI) (auto simp: page_bits CalculatePageAddress_bit join_entries_fields)
  ultimately show ?thesis by (simp add: ExtractPageEntries_def)
qed

text \<open>\<open>IsCanonical\<close> accepts exactly the addresses below \<open>2^47\<close>: no address of the
  upper half, not even a canonical one, satisfies its second disjunct.\<close>

theorem IsCanonical_lower_half_only: "IsCanonical addr \<longleftrightarrow> addr < 0x800000000000"
proof -
  have u: "unat (drop_bit 47 addr) = unat addr div 2 ^ 47"
    using unat_drop_bit_eq [of 47 addr] by (simp only: drop_bit_eq_div [where 'a = nat])
  have "unat addr div 2 ^ 47 < 2 ^ 17" using unat_lt_64 [of addr] by simp
  then have "drop_bit 47 addr \<noteq> 0x1FFFFFFFF" using u by (auto simp: word_unat_eq_iff)
  moreover have "drop_bit 47 addr = 0 \<longleftrightarrow> unat addr div 2 ^ 47 = 0"
    unfolding u [symmetric] by (simp add: word_unat_eq_iff)
  ultimately show ?thesis
    by (simp add: IsCanonical_def word_less_nat_alt div_eq_0_iff)
qed

section \<open>Page table entries\<close>

lemma small_word_bit:
  assumes "unat (x :: 'a::len word) < 2 ^ k" "bit x n"
  shows "n < k"
proof (rule ccontr)
  assume "\<not> n < k"
  have "bit (unat x) n" using assms(2) by (simp add: bit_unsigned_iff bit_imp_le_length)
  moreover have "take_bit k (unat x) = unat x" using assms(1) by (rule take_bit_nat_eq_self)
  ultimately show False using \<open>\<not> n < k\<close> by (metis bit_take_bit_iff)
qed

lemma flags_PTE_ADDR:
  assumes "fl < 0x1000"
  shows "(ucast (fl :: u16) :: u64) AND PTE_ADDR = 0"
proof -
  have "n < 12" if "bit fl n" for n using small_word_bit [of fl 12 n] assms that
    by (simp add: word_less_nat_alt)
  from this [of n for n] show ?thesis
    by (intro bit_eqI) (auto simp: page_bits dest!: \<open>\<And>n. bit fl n \<Longrightarrow> n < 12\<close>)
qed

text \<open>An entry built by \<open>alloc_page\<close> reads back, through \<open>ParsePTE\<close>, as the frame, the
  low nine flag bits and the execute-disable bit it was built from.\<close>

theorem ParsePTE_new_entry:
  assumes "frame_addr (physical_address pg)" and "pg_flags pg < 0x200"
  shows "ParsePTE pml4 a (new_entry pg) = pg\<lparr>virtual_address := a - pml4\<rparr>"
proof -
  let ?e = "new_entry pg"
  have fl: "n < 9" if "bit (pg_flags pg) n" for n
    using small_word_bit [of "pg_flags pg" 9 n] assms(2) that
    by (simp add: word_less_nat_alt)
  have ph: "12 \<le> n \<and> n < 52" if "bit (physical_address pg) n" for n
    using that assms(1) unfolding frame_addr_def by (metis bit_and_iff PTE_ADDR_bit)
  have "ucast (?e AND 0x1FF) = pg_flags pg"
    by (rule bit_eqI) (auto simp: new_entry_def page_bits dest: fl ph)
  moreover have "drop_bit 63 ?e = of_bool (pg_Execute_Disable pg)"
    by (rule bit_word_eqI) (auto simp: new_entry_def page_bits dest: fl ph)
  moreover have "?e AND PTE_ADDR = physical_address pg"
    by (rule bit_eqI) (auto simp: new_entry_def page_bits dest: fl ph)
  ultimately show ?thesis by (simp add: ParsePTE_def)
qed

end
