(* ===== verification/Frames.thy ===== *)
theory Frames
  imports Kstate
begin

text \<open>
  The physical frame table of \<open>LowLevel/Memory.c\<close>: one counter and one flag byte for every
  4 KiB frame. A frame is free when none of the bits U (used), D (dirty) and K (kernel) is
  set. The allocator returns the lowest free frame; when it finds none it returns 0, the
  address of frame 0.
\<close>

section \<open>The frame table\<close>

definition frame_of :: "kst \<Rightarrow> u64 \<Rightarrow> frame" where
  "frame_of s a = phys_frames s (a div 0x1000)"

definition set_frame :: "kst \<Rightarrow> u64 \<Rightarrow> frame \<Rightarrow> kst" where
  "set_frame s a f = s\<lparr>phys_frames := (phys_frames s)(a div 0x1000 := f)\<rparr>"

text \<open>The assignment \<open>phys_frames[a / 0x1000].flags = v\<close>.\<close>

definition set_frame_flags :: "kst \<Rightarrow> u64 \<Rightarrow> u8 \<Rightarrow> kst" where
  "set_frame_flags s a v = set_frame s a ((frame_of s a)\<lparr>fr_flags := v\<rparr>)"

definition mem_SetBit :: "kst \<Rightarrow> u64 \<Rightarrow> kst" where
  "mem_SetBit s address =
     (let s = set_frame_flags s address (fr_flags (frame_of s address) OR 1)
      in s\<lparr>PhysicalPagesUsed := PhysicalPagesUsed s + 1\<rparr>)"

definition mem_ClearBit :: "kst \<Rightarrow> u64 \<Rightarrow> kst" where
  "mem_ClearBit s address =
     (let s = set_frame_flags s address (fr_flags (frame_of s address) AND NOT 1)
      in s\<lparr>PhysicalPagesUsed := PhysicalPagesUsed s - 1\<rparr>)"

definition mem_GetBit :: "kst \<Rightarrow> u64 \<Rightarrow> u8" where
  "mem_GetBit s address = of_bool (fr_flags (frame_of s address) AND 0b111 \<noteq> 0)"

section \<open>Searching for free frames\<close>

text \<open>The \<open>for\<close> loop of \<open>FindNextFreePhysical\<close>, from \<open>phys\<close> on.\<close>

partial_function (option) find_free_loop :: "kst \<Rightarrow> u64 \<Rightarrow> u64 option" where
  "find_free_loop s phys =
     (if phys < total_mem s
      then if mem_GetBit s phys = 0 then Some phys else find_free_loop s (phys + 0x1000)
      else Some 0)"

definition FindNextFreePhysical :: "kst \<Rightarrow> u64 option" where
  "FindNextFreePhysical s = find_free_loop s 0"

text \<open>
  \<open>FindNextFreePhysicalContinuous\<close>: the inner counter is an \<open>int\<close>, so its product with
  \<open>0x1000\<close> overflows once it reaches \<open>0x80000\<close>.
\<close>

definition block_used :: "kst \<Rightarrow> u64 \<Rightarrow> u64 \<Rightarrow> bool" where
  "block_used s phys page_count \<longleftrightarrow>
     list_ex (\<lambda>i. mem_GetBit s (phys + 0x1000 * of_nat i) = 1) [0..<unat page_count]"

partial_function (option) find_block_loop :: "kst \<Rightarrow> u64 \<Rightarrow> u64 \<Rightarrow> u64 option" where
  "find_block_loop s page_count phys =
     (if phys < total_mem s
      then if \<not> block_used s phys page_count then Some phys
           else find_block_loop s page_count (phys + 0x1000 * page_count)
      else Some 0)"

definition FindNextFreePhysicalContinuous :: "kst \<Rightarrow> u64 \<Rightarrow> u64 option" where
  "FindNextFreePhysicalContinuous s page_count =
     (if page_count \<le> 0x80000 then find_block_loop s page_count 0 else None)"

text \<open>Searching a frame and marking it used by the kernel, as \<open>EnsureEntry\<close> and \<open>malloc\<close> do.\<close>

definition take_frame :: "kst \<Rightarrow> (u64 \<times> kst) option" where
  "take_frame s = do { new \<leftarrow> FindNextFreePhysical s; Some (new, set_frame_flags s new 0b101) }"

section \<open>Reading the table back\<close>

definition free_frame :: "kst \<Rightarrow> u64 \<Rightarrow> bool" where
  "free_frame s f \<longleftrightarrow> fr_flags (frame_of s f) AND 0b111 = 0"

definition free_frames :: "kst \<Rightarrow> u64 set" where
  "free_frames s = {f. page_aligned f \<and> f < total_mem s \<and> free_frame s f}"

lemma mem_GetBit_free: "mem_GetBit s f = 0 \<longleftrightarrow> free_frame s f" "mem_GetBit s f = 1 \<longleftrightarrow> \<not> free_frame s f"
  by (auto simp: mem_GetBit_def free_frame_def)

lemma frame_index_inj:
  assumes "page_aligned a" "page_aligned b"
  shows "a div 0x1000 = b div 0x1000 \<longleftrightarrow> a = b"
proof -
  obtain k where k: "unat a = 4096 * k" using assms(1) by (rule page_alignedE)
  obtain l where l: "unat b = 4096 * l" using assms(2) by (rule page_alignedE)
  show ?thesis by (simp add: word_unat_eq_iff unat_div k l)
qed

lemma frame_of_set_frame:
  assumes "page_aligned a" "page_aligned b"
  shows "frame_of (set_frame s a f) b = (if a = b then f else frame_of s b)"
  using assms by (auto simp: frame_of_def set_frame_def frame_index_inj)

lemma frame_of_set_frame_same [simp]: "frame_of (set_frame s a f) a = f"
  by (simp add: frame_of_def set_frame_def)

lemma frame_of_set_frame_flags:
  assumes "page_aligned a" "page_aligned b"
  shows "frame_of (set_frame_flags s a v) b =
    (if a = b then (frame_of s b)\<lparr>fr_flags := v\<rparr> else frame_of s b)"
  using assms by (simp add: set_frame_flags_def frame_of_set_frame)

lemma set_frame_fields [simp]:
  "ram (set_frame s a f) = ram s" "cr3 (set_frame s a f) = cr3 s"
  "PML4_Physical (set_frame s a f) = PML4_Physical s" "total_mem (set_frame s a f) = total_mem s"
  "console (set_frame s a f) = console s" "TaskManager (set_frame s a f) = TaskManager s"
  "cur_pid (set_frame s a f) = cur_pid s"
  by (simp_all add: set_frame_def)

lemma set_frame_flags_fields [simp]:
  "ram (set_frame_flags s a v) = ram s" "cr3 (set_frame_flags s a v) = cr3 s"
  "PML4_Physical (set_frame_flags s a v) = PML4_Physical s"
  "total_mem (set_frame_flags s a v) = total_mem s" "console (set_frame_flags s a v) = console s"
  "TaskManager (set_frame_flags s a v) = TaskManager s"
  "cur_pid (set_frame_flags s a v) = cur_pid s"
  by (simp_all add: set_frame_flags_def)

lemma free_frames_set_flags:
  assumes "page_aligned f"
  shows "free_frames (set_frame_flags s f v) =
    (if v AND 0b111 = 0 then (if f < total_mem s then insert f (free_frames s) else free_frames s)
     else free_frames s - {f})"
  using assms
  by (auto simp: free_frames_def free_frame_def frame_of_set_frame_flags split: if_splits)

lemma finite_free_frames [simp]: "finite (free_frames s)"
  by (rule finite_subset [OF subset_UNIV]) simp

section \<open>The search finds the lowest free frame\<close>

lemma page_aligned_0 [simp]: "page_aligned 0"
  by (simp add: page_aligned_def)

lemma unat_next_page:
  fixes phys :: u64
  assumes "unat phys < 2 ^ 64 - 4096"
  shows "unat (phys + 0x1000) = unat phys + 4096"
  using assms by (subst unat_plus_no_wrap) simp_all

lemma page_aligned_next: "page_aligned phys \<Longrightarrow> page_aligned (phys + 0x1000)"
proof -
  assume "page_aligned phys"
  then obtain k where k: "unat phys = 4096 * k" by (rule page_alignedE)
  have "unat (phys + 0x1000) mod 4096 = 0"
    by (simp add: unat_word_ariths k mod_mod_cancel)
  then show ?thesis by (simp add: page_aligned_unat)
qed

lemma find_free_loop_spec:
  assumes bound: "total_mem s \<le> 0xFFFFFFFFFFFFF000"
  shows "page_aligned phys \<Longrightarrow>
    find_free_loop s phys = Some f \<longleftrightarrow>
      (if \<exists>g. page_aligned g \<and> phys \<le> g \<and> g \<in> free_frames s
       then phys \<le> f \<and> f \<in> free_frames s \<and> (\<forall>g \<in> free_frames s. phys \<le> g \<longrightarrow> f \<le> g)
       else f = 0)"
proof (induction "unat (total_mem s) - unat phys" arbitrary: phys rule: less_induct)
  case less
  show ?case
  proof (cases "phys < total_mem s")
    case False
    then have "find_free_loop s phys = Some 0" by (simp add: find_free_loop.simps)
    moreover have "\<not> (\<exists>g. page_aligned g \<and> phys \<le> g \<and> g \<in> free_frames s)"
      using False by (auto simp: free_frames_def)
    ultimately show ?thesis by auto
  next
    case True
    show ?thesis
    proof (cases "free_frame s phys")
      case free: True
      have "find_free_loop s phys = Some phys"
        using True free by (simp add: find_free_loop.simps mem_GetBit_free)
      moreover have "phys \<in> free_frames s" using True free less.prems by (simp add: free_frames_def)
      ultimately show ?thesis using less.prems by (auto intro: order.antisym)
    next
      case used: False
      have eq: "find_free_loop s phys = find_free_loop s (phys + 0x1000)"
        using True used by (subst find_free_loop.simps) (simp add: mem_GetBit_free)
      have small: "unat phys < 2 ^ 64 - 4096"
        using True bound by (simp add: word_less_nat_alt word_le_nat_alt)
      have dec: "unat (total_mem s) - unat (phys + 0x1000) < unat (total_mem s) - unat phys"
        using True small by (simp add: unat_next_page word_less_nat_alt)
      have up: "phys \<le> g \<longleftrightarrow> phys + 0x1000 \<le> g" if "g \<in> free_frames s" for g
      proof -
        have ne: "g \<noteq> phys" and g: "page_aligned g" using that used by (auto simp: free_frames_def)
        obtain k where k: "unat g = 4096 * k" using g by (rule page_alignedE)
        obtain l where l: "unat phys = 4096 * l" using less.prems by (rule page_alignedE)
        have "phys + 0x1000 \<le> g \<longleftrightarrow> 4096 * l + 4096 \<le> 4096 * k"
          using small by (simp add: word_le_nat_alt unat_next_page k l)
        moreover have "phys \<le> g \<longleftrightarrow> 4096 * l \<le> 4096 * k" by (simp add: word_le_nat_alt k l)
        moreover have "k \<noteq> l" using ne by (simp add: word_unat_eq_iff k l)
        ultimately show ?thesis by auto
      qed
      have "(\<exists>g. page_aligned g \<and> phys \<le> g \<and> g \<in> free_frames s) \<longleftrightarrow>
            (\<exists>g. page_aligned g \<and> phys + 0x1000 \<le> g \<and> g \<in> free_frames s)"
        using up by blast
      then show ?thesis
        using less.hyps [OF dec page_aligned_next [OF less.prems]] up unfolding eq by auto
    qed
  qed
qed

text \<open>C22. \<open>FindNextFreePhysical\<close> always returns, and it returns the lowest free frame below
  \<open>total_mem\<close>, or 0 when every frame is in use.\<close>

theorem FindNextFreePhysical_lowest_free:
  assumes "total_mem s \<le> 0xFFFFFFFFFFFFF000"
  shows "FindNextFreePhysical s =
    Some (if free_frames s = {} then 0 else Min (free_frames s))"
proof -
  have zero: "(\<exists>g. page_aligned g \<and> 0 \<le> g \<and> g \<in> free_frames s) \<longleftrightarrow> free_frames s \<noteq> {}"
    by (auto simp: free_frames_def)
  have "Min (free_frames s) \<in> free_frames s" if "free_frames s \<noteq> {}"
    using that by simp
  then show ?thesis
    unfolding FindNextFreePhysical_def find_free_loop_spec [OF assms page_aligned_0] zero by auto
qed

lemma FindNextFreePhysical_Min:
  assumes "total_mem s \<le> 0xFFFFFFFFFFFFF000" "free_frames s \<noteq> {}"
  shows "FindNextFreePhysical s = Some (Min (free_frames s))"
proof -
  have "(\<exists>g. page_aligned g \<and> 0 \<le> g \<and> g \<in> free_frames s) \<longleftrightarrow> True"
    using assms(2) by (auto simp: free_frames_def)
  then show ?thesis
    unfolding FindNextFreePhysical_def find_free_loop_spec [OF assms(1) page_aligned_0]
    using assms(2) by simp
qed

lemma FindNextFreePhysical_free:
  assumes "total_mem s \<le> 0xFFFFFFFFFFFFF000" "free_frames s \<noteq> {}"
  obtains f where "FindNextFreePhysical s = Some f" "f \<in> free_frames s"
proof -
  have "Min (free_frames s) \<in> free_frames s" using assms(2) by simp
  with FindNextFreePhysical_Min [OF assms] show thesis by (rule that)
qed

section \<open>The allocator as an interface\<close>

text \<open>
  What the page table code relies on: while frames are free, taking one succeeds, gives a
  frame that was free, and removes exactly this frame from the free ones. A sequence of
  takes therefore never gives the same frame twice.
\<close>

locale frame_pool =
  fixes ok :: "'s \<Rightarrow> bool" and free :: "'s \<Rightarrow> u64 set" and take :: "'s \<Rightarrow> (u64 \<times> 's) option"
  assumes take_some: "ok s \<Longrightarrow> free s \<noteq> {} \<Longrightarrow> take s \<noteq> None"
    and take_free: "ok s \<Longrightarrow> free s \<noteq> {} \<Longrightarrow> take s = Some (f, s') \<Longrightarrow>
      f \<in> free s \<and> free s' = free s - {f} \<and> ok s'"
    and finite_free: "finite (free s)"
begin

primrec take_n :: "nat \<Rightarrow> 's \<Rightarrow> (u64 list \<times> 's) option" where
  "take_n 0 s = Some ([], s)"
| "take_n (Suc n) s = do { (f, s) \<leftarrow> take s; (fs, s) \<leftarrow> take_n n s; Some (f # fs, s) }"

lemma take_n_distinct:
  "ok s \<Longrightarrow> n \<le> card (free s) \<Longrightarrow>
    \<exists>fs s'. take_n n s = Some (fs, s') \<and> length fs = n \<and> distinct fs \<and>
      set fs \<subseteq> free s \<and> free s' = free s - set fs \<and> ok s'"
proof (induction n arbitrary: s)
  case (Suc n)
  then have ne: "free s \<noteq> {}" by auto
  then obtain f s1 where 1: "take s = Some (f, s1)" using take_some [OF Suc.prems(1)] by auto
  have t: "f \<in> free s" "free s1 = free s - {f}" "ok s1"
    using take_free [OF Suc.prems(1) ne 1] by simp_all
  have "n \<le> card (free s1)" using t(1,2) Suc.prems(2) finite_free [of s] by simp
  from Suc.IH [OF t(3) this] obtain fs s2 where 2: "take_n n s1 = Some (fs, s2)" "length fs = n"
    "distinct fs" "set fs \<subseteq> free s1" "free s2 = free s1 - set fs" "ok s2" by blast
  have "take_n (Suc n) s = Some (f # fs, s2)" by (simp add: 1 2(1))
  moreover have "distinct (f # fs)" using 2(3,4) t(2) by auto
  moreover have "set (f # fs) \<subseteq> free s" using 2(4) t(1,2) by (simp add: subset_iff)
  moreover have "free s2 = free s - set (f # fs)" unfolding 2(5) t(2) by auto
  ultimately show ?case using 2(2,6) by (metis length_Cons)
qed simp

end

lemma take_frame_spec:
  assumes "total_mem s \<le> 0xFFFFFFFFFFFFF000" "free_frames s \<noteq> {}" "take_frame s = Some (f, s')"
  shows "f \<in> free_frames s" "s' = set_frame_flags s f 0b101" "free_frames s' = free_frames s - {f}"
proof -
  obtain g where g: "FindNextFreePhysical s = Some g" "g \<in> free_frames s"
    using assms(1,2) by (rule FindNextFreePhysical_free)
  with assms(3) show f: "f \<in> free_frames s" and s': "s' = set_frame_flags s f 0b101"
    by (auto simp: take_frame_def)
  have "page_aligned f" using f by (simp add: free_frames_def)
  then show "free_frames s' = free_frames s - {f}" by (simp add: s' free_frames_set_flags)
qed

interpretation pool: frame_pool "\<lambda>s. total_mem s \<le> 0xFFFFFFFFFFFFF000" free_frames take_frame
proof (unfold_locales, goal_cases)
  case (1 s)
  then show ?case by (auto simp: take_frame_def elim: FindNextFreePhysical_free)
next
  case (2 s f s')
  then show ?case using take_frame_spec [OF 2] by simp
qed simp

section \<open>Blocks of frames\<close>

lemma block_used_iff:
  "block_used s phys n \<longleftrightarrow> (\<exists>i < unat n. \<not> free_frame s (phys + 0x1000 * of_nat i))"
  by (auto simp: block_used_def list_ex_iff mem_GetBit_free)

lemma find_block_loop_result:
  assumes bound: "total_mem s \<le> 0x8000000000000000" and n: "0 < n" "n \<le> 0x80000"
  shows "\<exists>f. find_block_loop s n phys = Some f \<and>
    (f = 0 \<or> (phys \<le> f \<and> f < total_mem s \<and> (\<forall>i < unat n. free_frame s (f + 0x1000 * of_nat i))))"
proof (induction "unat (total_mem s) - unat phys" arbitrary: phys rule: less_induct)
  case less
  show ?case
  proof (cases "phys < total_mem s \<and> block_used s phys n")
    case False
    then show ?thesis by (subst (1) find_block_loop.simps) (auto simp: block_used_iff)
  next
    case True
    have n': "0 < unat n" "unat n \<le> 0x80000"
      using n by (simp_all add: word_less_nat_alt word_le_nat_alt)
    then have m: "unat (0x1000 * n) = 4096 * unat n" by (simp add: unat_word_ariths)
    have p: "unat phys < 0x8000000000000000"
      using True bound by (simp add: word_less_nat_alt word_le_nat_alt)
    have a: "unat (phys + 0x1000 * n) = unat phys + 4096 * unat n"
      using p n' m by (subst unat_plus_no_wrap) simp_all
    have dec: "unat (total_mem s) - unat (phys + 0x1000 * n) < unat (total_mem s) - unat phys"
    proof -
      have "unat phys < unat (total_mem s)" using True by (simp add: word_less_nat_alt)
      moreover have "unat phys < unat phys + 4096 * unat n" using n'(1) by simp
      ultimately show ?thesis unfolding a by (rule diff_less_mono2 [rotated])
    qed
    have up: "phys \<le> phys + 0x1000 * n" using a by (simp add: word_le_nat_alt)
    have "find_block_loop s n phys = find_block_loop s n (phys + 0x1000 * n)"
      using True by (subst find_block_loop.simps) simp
    with less.hyps [OF dec] obtain f where f: "find_block_loop s n phys = Some f"
      "f = 0 \<or> (phys + 0x1000 * n \<le> f \<and> f < total_mem s \<and>
        (\<forall>i < unat n. free_frame s (f + 0x1000 * of_nat i)))" by auto
    have "f = 0 \<or> phys \<le> f" using f(2) order_trans [OF up] by blast
    then show ?thesis using f by blast
  qed
qed

text \<open>C23. \<open>FindNextFreePhysicalContinuous\<close> returns for every block size from 1 to 0x80000
  pages, and the address it returns, unless it is 0, starts below \<open>total_mem\<close> a block of
  which every frame is free.\<close>

theorem FindNextFreePhysicalContinuous_block:
  assumes "total_mem s \<le> 0x8000000000000000" and "0 < n" "n \<le> 0x80000"
  shows "\<exists>f. FindNextFreePhysicalContinuous s n = Some f \<and>
    (f = 0 \<or> (f < total_mem s \<and> (\<forall>i < unat n. free_frame s (f + 0x1000 * of_nat i))))"
  unfolding FindNextFreePhysicalContinuous_def
  using find_block_loop_result [OF assms, of 0] assms(3) by auto

end
