(* ===== verification/Paging.thy ===== *)
theory Paging
  imports PageAddr Frames
begin

text \<open>
  The page table code of \<open>LowLevel/Memory.c\<close>. The tables are reached through the direct map:
  physical address \<open>p\<close> is dereferenced at \<open>p + VIRTUAL_MEMORY_BARRIER\<close>. A void pointer result
  is the address, with 0 for \<open>NULL\<close>.
\<close>

definition FlushTLB :: "kst \<Rightarrow> kst" where
  "FlushTLB s = s\<lparr>cr3 := cr3 s\<rparr>"

definition EnsureEntry :: "kst \<Rightarrow> u64 \<Rightarrow> u8 \<Rightarrow> bool \<Rightarrow> kst option" where
  "EnsureEntry s e_addr flags flush = do {
     e \<leftarrow> vread64 s e_addr;
     if e AND 1 = 0 \<or> \<not> IsCanonical (e AND PTE_ADDR) then do {
       (new, s) \<leftarrow> take_frame s;
       s \<leftarrow> memset s (new + VIRTUAL_MEMORY_BARRIER) 0 0x1000;
       s \<leftarrow> vwrite64 s e_addr (new OR ucast flags OR 1);
       Some (if flush then FlushTLB s else s)
     } else Some s }"

text \<open>The virtual address of entry \<open>i\<close> of the table an entry or CR3 points to.\<close>

definition entry_pointer :: "u64 \<Rightarrow> u16 \<Rightarrow> u64" where
  "entry_pointer t i = (t + ucast i * 8) + 0xffff800000000000"

definition CalculatePagePhysicalEntryAddress :: "kst \<Rightarrow> page_entries \<Rightarrow> (u64 \<times> kst) option" where
  "CalculatePagePhysicalEntryAddress s entries = do {
     let flags = (if PML4_Entry entries < 256 then USER_FLAGS else KERNEL_FLAGS);
     let PML4_Pointer = entry_pointer (PML4_Physical s) (PML4_Entry entries);
     s \<leftarrow> EnsureEntry s PML4_Pointer (ucast flags) True;
     e \<leftarrow> vread64 s PML4_Pointer;
     let PDPT_Pointer = entry_pointer (e AND PTE_ADDR) (PDPT_Entry entries);
     s \<leftarrow> EnsureEntry s PDPT_Pointer (ucast flags) True;
     e \<leftarrow> vread64 s PDPT_Pointer;
     let PD_Pointer = entry_pointer (e AND PTE_ADDR) (PD_Entry entries);
     s \<leftarrow> EnsureEntry s PD_Pointer (ucast flags) True;
     e \<leftarrow> vread64 s PD_Pointer;
     Some (entry_pointer (e AND PTE_ADDR) (PT_Entry entries), s) }"

section \<open>Mapping and unmapping a page\<close>

definition frame_dirty :: "kst \<Rightarrow> u64 \<Rightarrow> bool" where
  "frame_dirty s p \<longleftrightarrow> fr_flags (frame_of s p) AND 0b10 = 0b10"

definition frame_kernel :: "kst \<Rightarrow> u64 \<Rightarrow> bool" where
  "frame_kernel s p \<longleftrightarrow> fr_flags (frame_of s p) AND 0b100 = 0b100"

definition msg_above :: string where
  "msg_above = ''Critical Memory Failure, attempted to map physical memory above total_mem''"

definition msg_dirty :: string where "msg_dirty = ''Refused to map page: DIRTY''"

definition msg_access :: string where
  "msg_access = ''Refused to map page: ACCESS (p=%x, v=%x, f=%b)''"

text \<open>The reference counting of \<open>alloc_page\<close>: only mappings of user addresses are counted.\<close>

definition count_user_mapping :: "kst \<Rightarrow> u64 \<Rightarrow> u64 \<Rightarrow> kst" where
  "count_user_mapping s p v =
     (if v < VIRTUAL_MEMORY_BARRIER then
        let s = (if refcount (frame_of s p) = 0 then set_frame_flags s p 1 else s);
            s = set_frame s p ((frame_of s p)\<lparr>refcount := refcount (frame_of s p) + 1\<rparr>)
        in if fr_flags (frame_of s p) AND 0b100 \<noteq> 0 then say s (Printf ''AHHHHH'' []) else s
      else s)"

definition install_page :: "kst \<Rightarrow> page_details \<Rightarrow> (u64 \<times> kst) option" where
  "install_page s page = do {
     (Page_Entry, s) \<leftarrow>
       CalculatePagePhysicalEntryAddress s (ExtractPageEntries (virtual_address page));
     if Page_Entry = 0 then Some (0, say s (Printf ''No page entry'' []))
     else do { s \<leftarrow> vwrite64 s Page_Entry (new_entry page); Some (virtual_address page, s) } }"

definition alloc_page :: "kst \<Rightarrow> page_details \<Rightarrow> (u64 \<times> kst) option" where
  "alloc_page s page =
     (let p = physical_address page; v = virtual_address page
      in if total_mem s \<le> p then None
         else if frame_dirty s p then Some (0, say s (Print msg_dirty))
         else if frame_kernel s p \<and> v < VIRTUAL_MEMORY_BARRIER
         then Some (0, say s (Printf msg_access [p, v, ucast (fr_flags (frame_of s p))]))
         else install_page (count_user_mapping s p v) page)"

definition alloc_page_no_invlpg :: "kst \<Rightarrow> page_details \<Rightarrow> (u64 \<times> kst) option" where
  "alloc_page_no_invlpg s page =
     (let p = physical_address page; v = virtual_address page
      in if total_mem s \<le> p then None
         else if frame_dirty s p then Some (0, s)
         else install_page
           (if v < VIRTUAL_MEMORY_BARRIER then
              let s = (if refcount (frame_of s p) = 0 then mem_SetBit s p else s)
              in set_frame s p ((frame_of s p)\<lparr>refcount := refcount (frame_of s p) + 1\<rparr>)
            else s) page)"

definition free_page :: "kst \<Rightarrow> page_details \<Rightarrow> (u64 \<times> kst) option" where
  "free_page s page = do {
     let p = physical_address page;
     let Deconstructed = ExtractPageEntries (virtual_address page);
     let PageEntry = (ucast (PT_Entry Deconstructed) * ucast (PD_Entry Deconstructed) :: u32);
     if VirtualMemorySize s < PageEntry + 2 then Some (0, s)
     else do {
       let s = (if refcount (frame_of s p) = 1 then mem_ClearBit s p else s);
       let s = set_frame s p ((frame_of s p)\<lparr>refcount := refcount (frame_of s p) - 1\<rparr>);
       (Page_Entry, s) \<leftarrow> CalculatePagePhysicalEntryAddress s Deconstructed;
       if Page_Entry = 0 then Some (0, s)
       else do { s \<leftarrow> vwrite64 s Page_Entry 0; Some (virtual_address page, s) } } }"

section \<open>Allocation for a task\<close>

text \<open>A task pointer is an index of the task table; \<open>KernelTask\<close> is entry 0.\<close>

definition KernelTask :: int where "KernelTask = 0"

definition set_mem_def :: "kst \<Rightarrow> int \<Rightarrow> mem_def \<Rightarrow> kst" where
  "set_mem_def s pid d =
     s\<lparr>TaskManager := (TaskManager s)(pid := (TaskManager s pid)\<lparr>MemoryData := d\<rparr>)\<rparr>"

definition task_mem :: "kst \<Rightarrow> int \<Rightarrow> mem_def" where
  "task_mem s pid = MemoryData (TaskManager s pid)"

definition add_pages :: "kst \<Rightarrow> int \<Rightarrow> u64 \<Rightarrow> kst" where
  "add_pages s pid n =
     set_mem_def s pid ((task_mem s pid)\<lparr>PageCount := PageCount (task_mem s pid) + n\<rparr>)"

definition next_page_address :: "kst \<Rightarrow> int \<Rightarrow> u64" where
  "next_page_address s pid =
     (let VirtualTop = BaseVirtualAddress (task_mem s pid) + PageCount (task_mem s pid) * 0x1000
      in VirtualTop + 0x1000)"

definition malloc :: "kst \<Rightarrow> int \<Rightarrow> (u64 \<times> kst) option" where
  "malloc s pid = do {
     let v = next_page_address s pid;
     free \<leftarrow> FindNextFreePhysical s;
     let page = \<lparr>pg_flags = KERNEL_FLAGS, pg_Execute_Disable = True,
                 virtual_address = v, physical_address = free\<rparr>;
     let s = add_pages s pid 1;
     let s = set_frame_flags s free 0b101;
     (allocated, s) \<leftarrow> alloc_page s page;
     let s = set_frame_flags s free 0b101;
     if allocated = 0 then Some (0, set_frame_flags (add_pages s pid (- 1)) free 0)
     else Some (allocated, s) }"

definition malloc_specific :: "kst \<Rightarrow> int \<Rightarrow> u64 \<Rightarrow> u16 \<Rightarrow> bool \<Rightarrow> (u64 \<times> kst) option" where
  "malloc_specific s pid RequestedAddress flags Execute_Disable = do {
     let page = \<lparr>pg_flags = flags, pg_Execute_Disable = Execute_Disable,
                 virtual_address = next_page_address s pid, physical_address = RequestedAddress\<rparr>;
     (allocated, s) \<leftarrow> alloc_page s page;
     Some (allocated, if allocated \<noteq> 0 then add_pages s pid 1 else s) }"

section \<open>Address translation by software\<close>

definition phys_addr :: "kst \<Rightarrow> u64 \<Rightarrow> (u64 \<times> kst) option" where
  "phys_addr s pointer = do {
     let addr = pointer AND NOT 0xFFF;
     let offset = (ucast (pointer AND 0xFFF) :: u16);
     (info, s) \<leftarrow> CalculatePagePhysicalEntryAddress s (ExtractPageEntries addr);
     e \<leftarrow> vread64 s info;
     Some ((e AND PTE_ADDR) OR ucast offset, s) }"

text \<open>\<open>find_first_present\<close> with the counter \<open>i\<close>; the read at index 512 is one past the table.\<close>

function find_first_present_loop :: "kst \<Rightarrow> u64 \<Rightarrow> nat \<Rightarrow> nat option" where
  "find_first_present_loop s table i =
     (if i \<le> 512 then do {
        e \<leftarrow> vread64 s (table + 8 * of_nat i);
        if e AND 1 = 1 then Some (i + 1) else find_first_present_loop s table (i + 1) }
      else Some i)"
  by pat_completeness auto
termination by (relation "measure (\<lambda>(s, table, i). 513 - i)") auto

declare find_first_present_loop.simps [simp del]

definition find_first_present :: "kst \<Rightarrow> u64 \<Rightarrow> nat option" where
  "find_first_present s table = map_option (\<lambda>i. i - 1) (find_first_present_loop s table 0)"

section \<open>A new address space\<close>

definition Create_User_Memory :: "kst \<Rightarrow> (u64 \<times> kst) option" where
  "Create_User_Memory s = do {
     (pml4, s) \<leftarrow> malloc s KernelTask;
     let PML4_Virtual = PML4_Physical s + VIRTUAL_MEMORY_BARRIER;
     s \<leftarrow> memset s pml4 0 0x1000;
     s \<leftarrow> memcpy s pml4 PML4_Virtual 0x1000;
     s \<leftarrow> memset s pml4 0 0x800;
     phys_addr s pml4 }"

end
