(* ===== verification/Paging_Inv.thy ===== *)
theory Paging_Inv
  imports Paging
begin

text \<open>
  The invariant of the page tables: they form a tree rooted in CR3, every table lies in a
  frame marked K below \<open>total_mem\<close>, and the direct map reaches every frame below
  \<open>total_mem\<close>. Under it the accesses of the page table code to its own tables succeed, and
  are reads and writes of single cells of physical memory.
\<close>

section \<open>Addresses in one page\<close>

lemma page_aligned_bit: "page_aligned a \<Longrightarrow> bit a n \<Longrightarrow> 12 \<le> n"
proof (rule ccontr)
  assume a: "page_aligned a" "bit a n" "\<not> 12 \<le> n"
  then have "bit (a AND 0xFFF) n" by (simp add: bit_and_iff mask12_bit)
  with a(1) show False by (simp add: page_aligned_def)
qed

lemma offset_bit: "(k :: u64) < 0x1000 \<Longrightarrow> bit k n \<Longrightarrow> n < 12"
  using small_word_bit [of k 12 n] by (simp add: word_less_nat_alt)

lemma page_plus_or:
  assumes "page_aligned a" "k < 0x1000"
  shows "a + k = a OR k"
proof -
  have "a AND k = 0"
    by (rule bit_eqI) (use page_aligned_bit [OF assms(1)] offset_bit [OF assms(2)] in
        \<open>force simp: bit_and_iff\<close>)
  then show ?thesis by (rule disjunctive_add_eq_or)
qed

lemma page_offset_split:
  assumes "page_aligned a" "k < 0x1000"
  shows "(a + k) AND 0xFFF = k" and "va_path (a + k) = va_path a"
proof -
  note bits = page_aligned_bit [OF assms(1)] offset_bit [OF assms(2)]
  show "(a + k) AND 0xFFF = k"
    unfolding page_plus_or [OF assms]
    by (rule bit_eqI) (use bits in \<open>fastforce simp: bit_or_iff bit_and_iff mask12_bit\<close>)
  have "drop_bit n (a OR k) = drop_bit n a" if "12 \<le> n" for n
    by (rule bit_eqI) (use bits that in \<open>fastforce simp: bit_or_iff bit_drop_bit_eq\<close>)
  then show "va_path (a + k) = va_path a"
    unfolding page_plus_or [OF assms] by (simp add: va_path_def)
qed

lemma page_aligned_add: "page_aligned a \<Longrightarrow> page_aligned b \<Longrightarrow> page_aligned (a + b)"
proof -
  assume "page_aligned a" "page_aligned b"
  then obtain k l where "unat a = 4096 * k" "unat b = 4096 * l" by (metis page_alignedE)
  then have "unat (a + b) mod 4096 = 0" by (simp add: unat_word_ariths mod_mod_cancel)
  then show ?thesis by (simp add: page_aligned_unat)
qed

lemma page_aligned_BARRIER [simp]: "page_aligned VIRTUAL_MEMORY_BARRIER"
  by (simp add: page_aligned_def VIRTUAL_MEMORY_BARRIER_def)

lemma entry_offset:
  assumes "i < (512 :: u64)" "b < 8"
  shows "8 * i + b < 0x1000"
proof -
  have i: "unat i < 512" "unat b < 8" using assms by (simp_all add: word_less_nat_alt)
  then have "unat (8 * i) = 8 * unat i" by (simp add: unat_word_ariths)
  then have "unat (8 * i + b) = 8 * unat i + unat b" using i by (subst unat_plus_no_wrap) simp_all
  then show ?thesis using i by (simp add: word_less_nat_alt)
qed

section \<open>The invariant\<close>

definition direct_map :: "kst \<Rightarrow> bool" where
  "direct_map s \<longleftrightarrow>
     (\<forall>p. page_aligned p \<and> p < total_mem s \<longrightarrow> walk s (p + VIRTUAL_MEMORY_BARRIER) = Some p)"

definition paging_inv :: "kst \<Rightarrow> bool" where
  "paging_inv s \<longleftrightarrow>
     cr3 s = PML4_Physical s \<and> frame_addr (cr3 s) \<and> total_mem s \<le> 0x800000000000 \<and>
     pt_tree (ram s) (cr3 s) \<and>
     (\<forall>t. is_table (ram s) (cr3 s) t \<longrightarrow> t < total_mem s \<and> frame_kernel s t) \<and>
     direct_map s"

lemma paging_invD:
  assumes "paging_inv s"
  shows "cr3 s = PML4_Physical s" "frame_addr (cr3 s)" "total_mem s \<le> 0x800000000000"
    "pt_tree (ram s) (cr3 s)" "direct_map s" "page_aligned (cr3 s)" "cr3 s AND PTE_ADDR = cr3 s"
    "total_mem s \<le> 0xFFFFFFFFFFFFF000"
  using assms order_trans [of "total_mem s" "0x800000000000" "0xFFFFFFFFFFFFF000"]
  by (auto simp: paging_inv_def frame_addr_aligned frame_addr_def)

lemma paging_inv_table:
  assumes "paging_inv s" "tbl (ram s) p (cr3 s) = Some t" "length p \<le> 3" "idx_ok p"
  shows "t < total_mem s" "frame_kernel s t" "page_aligned t" "t \<notin> free_frames s"
proof -
  have it: "is_table (ram s) (cr3 s) t" using assms(2-4) by (rule is_tableI)
  then show "t < total_mem s" and K: "frame_kernel s t" using assms(1) by (auto simp: paging_inv_def)
  show "page_aligned t" using assms(2) paging_invD(6) [OF assms(1)] by (rule tbl_aligned)
  have "fr_flags (frame_of s t) AND 0b111 \<noteq> 0"
  proof
    assume "fr_flags (frame_of s t) AND 0b111 = 0"
    then have "(fr_flags (frame_of s t) AND 0b111) AND 0b100 = 0" by simp
    then show False using K by (simp add: frame_kernel_def and.assoc)
  qed
  then show "t \<notin> free_frames s" by (simp add: free_frames_def free_frame_def)
qed

lemma walk_inv: "paging_inv s \<Longrightarrow>
    walk s va = map_option (\<lambda>f. f OR (va AND 0xFFF)) (tbl (ram s) (va_path va) (cr3 s))"
  by (simp add: walk_def mmu_walk_def paging_invD(7))

lemma direct_map_tbl:
  assumes "cr3 s AND PTE_ADDR = cr3 s" "direct_map s" "page_aligned p" "p < total_mem s"
  shows "tbl (ram s) (va_path (p + VIRTUAL_MEMORY_BARRIER)) (cr3 s) = Some p"
proof -
  have "(p + VIRTUAL_MEMORY_BARRIER) AND 0xFFF = 0"
    using page_aligned_add [OF assms(3) page_aligned_BARRIER] by (simp add: page_aligned_def)
  moreover have "walk s (p + VIRTUAL_MEMORY_BARRIER) = Some p"
    using assms(2-4) by (simp add: direct_map_def)
  ultimately show ?thesis using assms(1) by (auto simp: walk_def mmu_walk_def)
qed

lemma direct_map_offset:
  assumes "cr3 s AND PTE_ADDR = cr3 s" "direct_map s" "page_aligned p" "p < total_mem s" "k < 0x1000"
  shows "walk s (p + k + VIRTUAL_MEMORY_BARRIER) = Some (p + k)"
proof -
  let ?a = "p + VIRTUAL_MEMORY_BARRIER"
  have a: "page_aligned ?a" using assms(3) by (simp add: page_aligned_add)
  have "walk s (?a + k) = Some (p OR k)"
    using direct_map_tbl [OF assms(1-4)] page_offset_split [OF a assms(5)] assms(1)
    by (simp add: walk_def mmu_walk_def)
  then show ?thesis using page_plus_or [OF assms(3,5)] by (simp add: ac_simps)
qed

section \<open>Accesses through the direct map\<close>

definition dmap :: "u64 \<Rightarrow> u64" where "dmap p = p + VIRTUAL_MEMORY_BARRIER"

lemma entry_pointer_dmap:
  "entry_pointer t i = dmap (entry_at t (ucast i))"
  by (simp add: entry_pointer_def dmap_def entry_at_def VIRTUAL_MEMORY_BARRIER_def mult.commute)

lemma entry_access:
  assumes "paging_inv s" "page_aligned t" "t < total_mem s" "i < 512"
  shows "vread64 s (dmap (entry_at t i)) = Some (rd64 (ram s) (entry_at t i))"
    and "vwrite64 s (dmap (entry_at t i)) v = Some (s\<lparr>ram := wr64 (ram s) (entry_at t i) v\<rparr>)"
proof -
  have k: "8 * i < 0x1000" using entry_offset [OF assms(4), of 0] by simp
  have w: "walk s (dmap (entry_at t i)) = Some (entry_at t i)"
    unfolding dmap_def entry_at_def
    using direct_map_offset [OF paging_invD(7,5) assms(2,3) k] assms(1) by simp
  have "dmap (entry_at t i) = (t + VIRTUAL_MEMORY_BARRIER) + 8 * i"
    by (simp add: dmap_def entry_at_def ac_simps)
  then have "dmap (entry_at t i) AND 0xFFF = 8 * i"
    using page_offset_split(1) [OF page_aligned_add [OF assms(2) page_aligned_BARRIER] k] by simp
  moreover have "8 * i \<le> 0xFF8"
  proof -
    have "unat i < 512" using assms(4) by (simp add: word_less_nat_alt)
    then show ?thesis by (simp add: word_le_nat_alt unat_word_ariths)
  qed
  ultimately have "in_one_page8 (dmap (entry_at t i))" by (simp add: in_one_page8_def)
  with w show "vread64 s (dmap (entry_at t i)) = Some (rd64 (ram s) (entry_at t i))"
    and "vwrite64 s (dmap (entry_at t i)) v = Some (s\<lparr>ram := wr64 (ram s) (entry_at t i) v\<rparr>)"
    by (simp_all add: vread64_def vwrite64_def)
qed

text \<open>Bytes of a frame that is no table can change without changing any translation.\<close>

definition same_walks :: "ram \<Rightarrow> ram \<Rightarrow> u64 \<Rightarrow> bool" where
  "same_walks m m' root \<longleftrightarrow> (\<forall>q. length q \<le> 4 \<and> idx_ok q \<longrightarrow> tbl m' q root = tbl m q root)"

lemma same_walksD: "same_walks m m' root \<Longrightarrow> length q \<le> 4 \<Longrightarrow> idx_ok q \<Longrightarrow> tbl m' q root = tbl m q root"
  by (simp add: same_walks_def)

lemma same_walks_page:
  assumes root: "page_aligned root" and f: "page_aligned f" "\<not> is_table m root f"
    and out: "\<And>x. \<not> in_page f x \<Longrightarrow> m' x = m x"
  shows "same_walks m m' root"
proof -
  have "tbl m' q root = tbl m q root" if "length q \<le> 4" "idx_ok q" for q
    using that
  proof (induction q rule: rev_induct)
    case (snoc j q)
    have "Option.bind (tbl m q root) (tbl_step m' j) = Option.bind (tbl m q root) (tbl_step m j)"
    proof (cases "tbl m q root")
      case (Some t)
      then have "t \<noteq> f" using f(2) snoc.prems by (auto intro: is_tableI)
      moreover have t: "page_aligned t" using Some root by (rule tbl_aligned)
      ultimately have "rd64 m' (entry_at t j) = rd64 m (entry_at t j)"
        unfolding rd64_def
        by (intro le64_cong out) (use snoc.prems f(1) in \<open>simp add: entry_byte_in_page\<close>)
      then show ?thesis using Some by (simp add: tbl_step_def)
    qed simp
    then show ?case using snoc by (simp add: tbl_snoc)
  qed simp
  then show ?thesis by (simp add: same_walks_def)
qed

lemma same_walks_is_table: "same_walks m m' root \<Longrightarrow> is_table m' root t = is_table m root t"
  by (auto simp: same_walks_def is_table_def)

lemma same_walks_pt_tree: "same_walks m m' root \<Longrightarrow> pt_tree m' root = pt_tree m root"
proof -
  assume "same_walks m m' root"
  then have "tbl m' q root = tbl m q root" if "length q \<le> 3" "idx_ok q" for q
    using that by (simp add: same_walks_def)
  then show ?thesis by (auto simp: pt_tree_def)
qed

lemma same_walks_walk:
  assumes "same_walks (ram s) (ram s') (cr3 s AND PTE_ADDR)" "cr3 s' = cr3 s"
  shows "walk s' va = walk s va"
  using assms by (simp add: walk_def mmu_walk_def same_walks_def)

lemma paging_inv_same_walks:
  assumes inv: "paging_inv s" and same: "same_walks (ram s) (ram s') (cr3 s)"
    and eq: "cr3 s' = cr3 s" "PML4_Physical s' = PML4_Physical s" "total_mem s' = total_mem s"
    and K: "\<And>t. is_table (ram s) (cr3 s) t \<Longrightarrow> frame_kernel s' t"
  shows "paging_inv s'"
proof -
  have "walk s' va = walk s va" for va
    using same eq(1) paging_invD(7) [OF inv] by (intro same_walks_walk) simp_all
  then have "direct_map s'" using paging_invD(5) [OF inv] by (simp add: direct_map_def eq)
  then show ?thesis
    unfolding paging_inv_def eq same_walks_is_table [OF same] same_walks_pt_tree [OF same]
    using inv K by (auto simp: paging_inv_def)
qed

end
