(* ===== verification/Paging_Correct.thy ===== *)
theory Paging_Correct
  imports Paging_Inv
begin

text \<open>
  Correctness of the page table code: a missing table is created without changing any
  translation, \<open>alloc_page\<close> maps exactly the page it is asked to map, and a refused request
  changes nothing.
\<close>

section \<open>Clearing a frame through the direct map\<close>

lemma kst_ram_id [simp]: "s\<lparr>ram := ram s\<rparr> = (s :: kst)"
  by simp

lemma paging_inv_page_bytes:
  assumes "paging_inv s" "page_aligned f" "\<not> is_table (ram s) (cr3 s) f"
    and "\<And>x. \<not> in_page f x \<Longrightarrow> m x = ram s x"
  shows "paging_inv (s\<lparr>ram := m\<rparr>)" and "same_walks (ram s) m (cr3 s)"
proof -
  show same: "same_walks (ram s) m (cr3 s)"
    using same_walks_page [OF paging_invD(6) [OF assms(1)] assms(2,3,4)] .
  show "paging_inv (s\<lparr>ram := m\<rparr>)"
    by (rule paging_inv_same_walks [OF assms(1)])
      (use same assms(1) in \<open>auto simp: paging_inv_def frame_kernel_def frame_of_def\<close>)
qed

lemma dmap_write:
  assumes "paging_inv s" "page_aligned f" "f < total_mem s" "k < 4096"
  shows "vwrite8 s (dmap (f + of_nat k)) v = Some (s\<lparr>ram := (ram s)(f + of_nat k := v)\<rparr>)"
    and "vread8 s (dmap (f + of_nat k)) = Some (ram s (f + of_nat k))"
proof -
  have "(of_nat k :: u64) < 0x1000" using assms(4) by (simp add: word_less_nat_alt unat_of_nat)
  then have "walk s (dmap (f + of_nat k)) = Some (f + of_nat k)"
    using direct_map_offset [OF paging_invD(7,5) assms(2,3)] assms(1) by (simp add: dmap_def)
  then show "vwrite8 s (dmap (f + of_nat k)) v = Some (s\<lparr>ram := (ram s)(f + of_nat k := v)\<rparr>)"
    and "vread8 s (dmap (f + of_nat k)) = Some (ram s (f + of_nat k))"
    by (simp_all add: vwrite8_def vread8_def)
qed

lemma of_nat_offset_iff: "k < 4096 \<Longrightarrow> x = f + of_nat k \<longleftrightarrow> unat (x - f :: u64) = k"
proof -
  assume k: "k < 4096"
  have "x = f + of_nat k \<longleftrightarrow> x - f = of_nat k" by (metis add_diff_cancel_left' diff_add_cancel)
  also have "\<dots> \<longleftrightarrow> unat (x - f) = unat (of_nat k :: u64)" by (simp add: word_unat_eq_iff)
  finally show ?thesis using k by (simp add: unat_of_nat)
qed

lemma in_page_nat: "in_page f x \<longleftrightarrow> unat (x - f) < 4096"
  by (simp add: in_page_def word_less_nat_alt)

text \<open>The bytes from \<open>k\<close> up to \<open>k + n\<close> of a frame set to one value.\<close>

definition fill_bytes :: "ram \<Rightarrow> u64 \<Rightarrow> nat \<Rightarrow> nat \<Rightarrow> u8 \<Rightarrow> ram" where
  "fill_bytes m f k n v = (\<lambda>x. if k \<le> unat (x - f) \<and> unat (x - f) < k + n then v else m x)"

lemma memset_loop_page:
  "paging_inv s \<Longrightarrow> page_aligned f \<Longrightarrow> f < total_mem s \<Longrightarrow> \<not> is_table (ram s) (cr3 s) f \<Longrightarrow>
    k + n \<le> 4096 \<Longrightarrow>
    memset_loop n s (dmap (f + of_nat k)) v = Some (s\<lparr>ram := fill_bytes (ram s) f k n v\<rparr>)"
proof (induction n arbitrary: k s)
  case 0
  have "fill_bytes (ram s) f k 0 v = ram s" by (rule ext) (auto simp: fill_bytes_def)
  then show ?case by simp
next
  case (Suc n)
  then have k: "k < 4096" by simp
  let ?s = "s\<lparr>ram := (ram s)(f + of_nat k := v)\<rparr>"
  have out: "((ram s)(f + of_nat k := v)) x = ram s x" if "\<not> in_page f x" for x
    using that k by (auto simp: in_page_nat of_nat_offset_iff)
  note inv = paging_inv_page_bytes [OF Suc.prems(1,2,4) out]
  have next_addr: "dmap (f + of_nat k) + 1 = dmap (f + of_nat (Suc k))" by (simp add: dmap_def)
  have "memset_loop n ?s (dmap (f + of_nat (Suc k))) v =
      Some (?s\<lparr>ram := fill_bytes (ram ?s) f (Suc k) n v\<rparr>)"
    using inv Suc.prems(3,4,5) by (intro Suc.IH [OF inv(1) Suc.prems(2)])
      (simp_all add: same_walks_is_table Suc.prems)
  moreover have "fill_bytes (ram ?s) f (Suc k) n v = fill_bytes (ram s) f k (Suc n) v"
    using k by (auto simp: fill_bytes_def of_nat_offset_iff)
  ultimately show ?case
    using dmap_write(1) [OF Suc.prems(1-3) k] by (simp only: memset_loop.simps next_addr) simp
qed

lemma fill_bytes_page: "fill_bytes m f 0 4096 v = fill_page m f v"
  by (auto simp: fill_bytes_def fill_page_def in_page_nat)

lemma memset_page:
  assumes "paging_inv s" "page_aligned f" "f < total_mem s" "\<not> is_table (ram s) (cr3 s) f"
  shows "memset s (dmap f) v 0x1000 = Some (s\<lparr>ram := fill_page (ram s) f v\<rparr>)"
  using memset_loop_page [OF assms, of 0 4096 v] by (simp add: memset_def fill_bytes_page)

section \<open>Extending the tables\<close>

text \<open>
  \<open>extends n s s'\<close>: from \<open>s\<close> to \<open>s'\<close> at most \<open>n\<close> free frames became tables; no translation of
  a complete path changed, every table stayed where it was, and nothing else was touched.
\<close>

definition extends :: "nat \<Rightarrow> kst \<Rightarrow> kst \<Rightarrow> bool" where
  "extends n s s' \<longleftrightarrow> paging_inv s' \<and>
     s' = s\<lparr>ram := ram s', phys_frames := phys_frames s'\<rparr> \<and>
     (\<forall>q. length q = 4 \<and> idx_ok q \<longrightarrow> tbl (ram s') q (cr3 s) = tbl (ram s) q (cr3 s)) \<and>
     (\<forall>q t. length q \<le> 3 \<and> idx_ok q \<and> tbl (ram s) q (cr3 s) = Some t \<longrightarrow> tbl (ram s') q (cr3 s) = Some t) \<and>
     (\<forall>q t. length q \<le> 3 \<and> idx_ok q \<and> tbl (ram s') q (cr3 s) = Some t \<longrightarrow>
        tbl (ram s) q (cr3 s) = Some t \<or> t \<in> free_frames s) \<and>
     (\<forall>q t j. length q = 3 \<and> idx_ok q \<and> tbl (ram s) q (cr3 s) = Some t \<and> j < 512 \<longrightarrow>
        rd64 (ram s') (entry_at t j) = rd64 (ram s) (entry_at t j)) \<and>
     (\<forall>g. page_aligned g \<and> g < total_mem s \<and> g \<notin> free_frames s \<longrightarrow> frame_of s' g = frame_of s g) \<and>
     (\<forall>g. page_aligned g \<longrightarrow> refcount (frame_of s' g) = refcount (frame_of s g)) \<and>
     (\<forall>g. g \<in> free_frames s - free_frames s' \<longrightarrow> frame_kernel s' g) \<and>
     free_frames s' \<subseteq> free_frames s \<and> card (free_frames s) \<le> card (free_frames s') + n"

lemma extends_refl: "paging_inv s \<Longrightarrow> extends 0 s s"
  by (simp add: extends_def)

lemma extends_same:
  assumes "extends n s s'"
  shows "cr3 s' = cr3 s" "total_mem s' = total_mem s" "PML4_Physical s' = PML4_Physical s"
    "TaskManager s' = TaskManager s" "console s' = console s" "cur_pid s' = cur_pid s"
    "VirtualMemorySize s' = VirtualMemorySize s" "Kernel_PML4_Physical s' = Kernel_PML4_Physical s"
proof -
  obtain m fr where "s' = s\<lparr>ram := m, phys_frames := fr\<rparr>"
    using assms unfolding extends_def by blast
  then show "cr3 s' = cr3 s" "total_mem s' = total_mem s" "PML4_Physical s' = PML4_Physical s"
    "TaskManager s' = TaskManager s" "console s' = console s" "cur_pid s' = cur_pid s"
    "VirtualMemorySize s' = VirtualMemorySize s" "Kernel_PML4_Physical s' = Kernel_PML4_Physical s"
    by simp_all
qed

lemma extends_mono: "extends n s s' \<Longrightarrow> n \<le> k \<Longrightarrow> extends k s s'"
  by (auto simp: extends_def)

lemma extendsD:
  assumes "extends n s s'"
  shows "paging_inv s'"
    and "length q = 4 \<Longrightarrow> idx_ok q \<Longrightarrow> tbl (ram s') q (cr3 s) = tbl (ram s) q (cr3 s)"
    and "length q \<le> 3 \<Longrightarrow> idx_ok q \<Longrightarrow> tbl (ram s) q (cr3 s) = Some t \<Longrightarrow> tbl (ram s') q (cr3 s) = Some t"
    and "page_aligned g \<Longrightarrow> g < total_mem s \<Longrightarrow> g \<notin> free_frames s \<Longrightarrow> frame_of s' g = frame_of s g"
    and "page_aligned g \<Longrightarrow> refcount (frame_of s' g) = refcount (frame_of s g)"
    and "g \<in> free_frames s \<Longrightarrow> g \<notin> free_frames s' \<Longrightarrow> frame_kernel s' g"
    and "free_frames s' \<subseteq> free_frames s"
    and "card (free_frames s) \<le> card (free_frames s') + n"
    and "length q \<le> 3 \<Longrightarrow> idx_ok q \<Longrightarrow> tbl (ram s') q (cr3 s) = Some t \<Longrightarrow>
      tbl (ram s) q (cr3 s) = Some t \<or> t \<in> free_frames s"
    and "length q = 3 \<Longrightarrow> idx_ok q \<Longrightarrow> tbl (ram s) q (cr3 s) = Some t \<Longrightarrow> j < 512 \<Longrightarrow>
      rd64 (ram s') (entry_at t j) = rd64 (ram s) (entry_at t j)"
  using assms unfolding extends_def by blast+

lemma extends_trans:
  assumes 1: "extends a s s1" and 2: "extends b s1 s2"
  shows "extends (a + b) s s2"
proof -
  note same = extends_same [OF 1]
  have e1: "s1 = s\<lparr>ram := ram s1, phys_frames := phys_frames s1\<rparr>" using 1 by (simp add: extends_def)
  have e2: "s2 = s1\<lparr>ram := ram s2, phys_frames := phys_frames s2\<rparr>" using 2 by (simp add: extends_def)
  have "s2 = s\<lparr>ram := ram s2, phys_frames := phys_frames s2\<rparr>"
    by (subst e2, subst e1) simp
  moreover have "frame_kernel s2 g" if "g \<in> free_frames s - free_frames s2" for g
  proof (cases "g \<in> free_frames s1")
    case True
    then show ?thesis using extendsD(6) [OF 2] that by blast
  next
    case False
    then have "frame_kernel s1 g" using extendsD(6) [OF 1] that by blast
    moreover have "frame_of s2 g = frame_of s1 g"
      using that False by (intro extendsD(4) [OF 2]) (auto simp: free_frames_def same)
    ultimately show ?thesis by (simp add: frame_kernel_def)
  qed
  moreover have "frame_of s2 g = frame_of s g"
    if "page_aligned g" "g < total_mem s" "g \<notin> free_frames s" for g
    using that extendsD(4) [OF 1 that] extendsD(4) [OF 2, of g] extendsD(7) [OF 1] same by auto
  moreover have "card (free_frames s) \<le> card (free_frames s2) + (a + b)"
    using extendsD(8) [OF 1] extendsD(8) [OF 2] by simp
  moreover have "tbl (ram s) q (cr3 s) = Some t \<or> t \<in> free_frames s"
    if "length q \<le> 3" "idx_ok q" "tbl (ram s2) q (cr3 s) = Some t" for q t
    using extendsD(9) [OF 2, of q t] extendsD(9) [OF 1, of q t] extendsD(7) [OF 1] that same by auto
  moreover have "rd64 (ram s2) (entry_at t j) = rd64 (ram s) (entry_at t j)"
    if "length q = 3" "idx_ok q" "tbl (ram s) q (cr3 s) = Some t" "j < 512" for q t j
    using extendsD(10) [OF 2, of q t j] extendsD(10) [OF 1, of q t j] extendsD(3) [OF 1, of q t] that same by auto
  ultimately show ?thesis
    unfolding extends_def
    using extendsD(1,2,3,5,7) [OF 2] extendsD(2,3,5,7) [OF 1] same by auto
qed

text \<open>Linking a cleared frame into an absent entry of a tree of tables.\<close>

lemma link_new_table:
  assumes tree: "pt_tree m root" and T: "tbl m p root = Some T" "length p \<le> 2" "idx_ok p" "i < 512"
    and absent: "tbl m (p @ [i]) root = None"
    and f: "frame_addr f" "\<not> is_table m root f" "\<forall>j < 512. rd64 m (entry_at f j) = 0"
    and e: "e AND 1 \<noteq> 0" "e AND PTE_ADDR = f"
  defines "m' \<equiv> wr64 m (entry_at T i) e"
  shows "tbl m' (p @ [i]) root = Some f"
    and "length q \<le> 4 \<Longrightarrow> idx_ok q \<Longrightarrow> q \<noteq> p @ [i] \<Longrightarrow> tbl m' q root = tbl m q root"
    and "pt_tree m' root" and "is_table m' root t \<longleftrightarrow> is_table m root t \<or> t = f"
proof -
  have p3: "length p \<le> 3" using T(2) by simp
  have root: "page_aligned root" using tree by (simp add: pt_tree_def)
  have Ta: "page_aligned T" using T(1) root by (rule tbl_aligned)
  have "T \<noteq> f" using f(2) T(1,3) p3 by (auto intro: is_tableI)
  then have zero: "rd64 m' (entry_at f j) = 0" if "j < 512" for j
    using f(1,3) Ta T(4) that by (simp add: m'_def rd64_wr64_entry frame_addr_aligned)
  show self: "tbl m' (p @ [i]) root = Some f"
    using tbl_wr64_self [OF tree T(1) p3 T(3,4), of e] e by (simp add: m'_def)
  show other: "tbl m' q root = tbl m q root"
    if q4: "length q \<le> 4" and qok: "idx_ok q" and ne: "q \<noteq> p @ [i]" for q
  proof (cases "prefix (p @ [i]) q")
    case False
    then show ?thesis
      using tbl_wr64_other [OF tree T(1) p3 T(3,4) q4 qok] by (simp add: m'_def)
  next
    case True
    then obtain r where q: "q = (p @ [i]) @ r" by (auto simp: prefix_def)
    then obtain j r' where r: "r = j # r'" using ne by (cases r) auto
    have "tbl m' q root = tbl m' r f" unfolding q tbl_append [of m' "p @ [i]"] self by simp
    also have "\<dots> = None" using qok by (simp add: q r zero)
    finally show ?thesis unfolding q tbl_append [of m "p @ [i]"] absent by simp
  qed
  have ok: "length (p @ [i]) \<le> 3" "idx_ok (p @ [i])" using T by simp_all
  show "pt_tree m' root"
    unfolding pt_tree_def
  proof (intro conjI allI impI root)
    fix q q' t
    assume a: "length q \<le> 3 \<and> length q' \<le> 3 \<and> idx_ok q \<and> idx_ok q' \<and>
      tbl m' q root = Some t \<and> tbl m' q' root = Some t"
    have old: "t \<noteq> f" if "length r \<le> 3" "idx_ok r" "r \<noteq> p @ [i]" "tbl m' r root = Some t" for r
      using that other [of r] f(2) by (auto intro: is_tableI)
    consider "q = p @ [i]" "q' = p @ [i]" | "q = p @ [i]" "q' \<noteq> p @ [i]"
      | "q \<noteq> p @ [i]" "q' = p @ [i]" | "q \<noteq> p @ [i]" "q' \<noteq> p @ [i]" by blast
    then show "q = q'"
    proof cases
      case 4
      then have "tbl m q root = Some t" "tbl m q' root = Some t"
        using a other [of q] other [of q'] by auto
      then show ?thesis using a by (intro pt_treeD [OF tree]) simp_all
    qed (use a old self in auto)
  qed
  show "is_table m' root t \<longleftrightarrow> is_table m root t \<or> t = f"
  proof
    assume "is_table m' root t"
    then obtain q where q: "length q \<le> 3" "idx_ok q" "tbl m' q root = Some t"
      by (auto simp: is_table_def)
    then show "is_table m root t \<or> t = f"
      using other [of q] self by (cases "q = p @ [i]") (auto intro: is_tableI)
  next
    assume "is_table m root t \<or> t = f"
    then show "is_table m' root t"
    proof
      assume "is_table m root t"
      then obtain q where q: "length q \<le> 3" "idx_ok q" "tbl m q root = Some t"
        by (auto simp: is_table_def)
      moreover have "q \<noteq> p @ [i]" using q(3) absent by auto
      ultimately show ?thesis using other [of q] by (auto intro: is_tableI)
    qed (use self ok in \<open>auto intro: is_tableI\<close>)
  qed
qed

section \<open>EnsureEntry\<close>

lemma new_table_entry:
  assumes "frame_addr f"
  shows "(f OR ucast (fl :: u8) OR 1) AND 1 \<noteq> 0" and "(f OR ucast fl OR 1) AND PTE_ADDR = f"
proof -
  have "bit ((f OR ucast fl OR 1) AND 1) 0" by (simp add: bit_or_iff bit_and_iff)
  then show "(f OR ucast fl OR 1) AND 1 \<noteq> 0" by (metis bit_0_eq bot_apply bot_bool_def)
  have "(ucast fl OR 1) AND PTE_ADDR = (0 :: u64)"
    by (rule bit_eqI) (auto simp: page_bits bit_1_iff dest: bit_imp_le_length)
  then show "(f OR ucast fl OR 1) AND PTE_ADDR = f"
    using entry_frame [OF assms, of "ucast fl OR 1"] by (simp add: or.assoc)
qed

lemma IsCanonical_below: "a < 0x800000000000 \<Longrightarrow> IsCanonical a"
proof -
  assume "a < 0x800000000000"
  then have "unat a div 2 ^ 47 = 0" by (simp add: word_less_nat_alt)
  moreover have "unat (drop_bit 47 a) = unat a div 2 ^ 47"
    using unat_drop_bit_eq [of 47 a] by (simp only: drop_bit_eq_div [where 'a = nat])
  ultimately show ?thesis by (simp add: IsCanonical_def word_unat_eq_iff)
qed

lemma free_frame_addr:
  assumes "paging_inv s" "f \<in> free_frames s"
  shows "page_aligned f" "f < total_mem s" "frame_addr f" "\<not> is_table (ram s) (cr3 s) f"
proof -
  show a: "page_aligned f" and l: "f < total_mem s" using assms(2) by (simp_all add: free_frames_def)
  have "f < 0x10000000000000"
    using l paging_invD(3) [OF assms(1)] by (simp add: word_less_nat_alt word_le_nat_alt)
  with a show "frame_addr f" by (rule frame_addrI)
  show "\<not> is_table (ram s) (cr3 s) f"
    using paging_inv_table(4) [OF assms(1)] assms(2) by (auto simp: is_table_def)
qed

lemma EnsureEntry_present:
  assumes inv: "paging_inv s" and T: "tbl (ram s) p (cr3 s) = Some T" "length p \<le> 2" "idx_ok p" "i < 512"
    and t: "tbl (ram s) (p @ [i]) (cr3 s) = Some t"
  shows "EnsureEntry s (dmap (entry_at T i)) fl flush = Some s"
proof -
  let ?e = "rd64 (ram s) (entry_at T i)"
  have Tt: "page_aligned T" "T < total_mem s" using paging_inv_table [OF inv T(1) _ T(3)] T(2) by simp_all
  have e: "?e AND 1 \<noteq> 0" "t = ?e AND PTE_ADDR"
    using t T(1) by (auto simp: tbl_snoc tbl_step_def Let_def split: if_splits)
  have "t < total_mem s" using paging_inv_table [OF inv t] T by simp
  then have "IsCanonical t"
    using paging_invD(3) [OF inv] by (intro IsCanonical_below) (simp add: word_less_nat_alt word_le_nat_alt)
  then show ?thesis using entry_access(1) [OF inv Tt T(4)] e by (simp add: EnsureEntry_def)
qed

text \<open>What \<open>EnsureEntry\<close> does to memory when the entry is absent.\<close>

lemma EnsureEntry_absent_eval:
  assumes inv: "paging_inv s" and T: "tbl (ram s) p (cr3 s) = Some T" "length p \<le> 2" "idx_ok p" "i < 512"
    and absent: "tbl (ram s) (p @ [i]) (cr3 s) = None" and free: "free_frames s \<noteq> {}"
  obtains f s1 where "take_frame s = Some (f, s1)" "paging_inv s1"
    "\<forall>t. is_table (ram s) (cr3 s) t \<longrightarrow> frame_kernel s1 t" "frame_kernel s1 f"
    "same_walks (ram s) (fill_page (ram s) f 0) (cr3 s)"
    "EnsureEntry s (dmap (entry_at T i)) fl flush =
       Some (s1\<lparr>ram := wr64 (fill_page (ram s) f 0) (entry_at T i) (f OR ucast fl OR 1)\<rparr>)"
proof -
  obtain f s1 where take: "take_frame s = Some (f, s1)"
    using pool.take_some [OF paging_invD(8) [OF inv] free] by auto
  note tk = take_frame_spec [OF paging_invD(8) [OF inv] free take]
  note f = free_frame_addr [OF inv tk(1)]
  have Tt: "page_aligned T" "T < total_mem s" using paging_inv_table [OF inv T(1) _ T(3)] T(2) by simp_all
  have e: "rd64 (ram s) (entry_at T i) AND 1 = 0"
    using absent T(1) by (auto simp: tbl_snoc tbl_step_def Let_def split: if_splits)
  have K1: "frame_kernel s1 t" if "t = f \<or> (page_aligned t \<and> frame_kernel s t)" for t
    using that f(1) by (auto simp: tk(2) frame_kernel_def frame_of_set_frame_flags)
  have Kt: "frame_kernel s1 t" if "is_table (ram s) (cr3 s) t" for t
    using that inv is_table_aligned [OF that paging_invD(6) [OF inv]]
    by (intro K1) (simp add: paging_inv_def)
  have inv1: "paging_inv s1"
    by (rule paging_inv_same_walks [OF inv _ _ _ _ Kt]) (simp_all add: tk(2) same_walks_def)
  let ?m = "fill_page (ram s) f 0"
  let ?s2 = "s1\<lparr>ram := ?m\<rparr>"
  have out: "?m x = ram s1 x" if "\<not> in_page f x" for x using that by (simp add: fill_page_def tk(2))
  have nt: "\<not> is_table (ram s1) (cr3 s1) f" using f(4) by (simp add: tk(2))
  note inv2 = paging_inv_page_bytes(1) [OF inv1 f(1) nt out]
  have same: "same_walks (ram s) ?m (cr3 s)"
    using paging_inv_page_bytes(2) [OF inv1 f(1) nt out] by (simp add: tk(2))
  have s2: "memset s1 (f + VIRTUAL_MEMORY_BARRIER) 0 0x1000 = Some ?s2"
    using memset_page [OF inv1 f(1) _ nt] f(2) by (simp add: tk(2) dmap_def)
  let ?e = "f OR ucast fl OR 1"
  have s3: "vwrite64 ?s2 (dmap (entry_at T i)) ?e = Some (?s2\<lparr>ram := wr64 ?m (entry_at T i) ?e\<rparr>)"
    using entry_access(2) [OF inv2 Tt(1) _ T(4)] Tt(2) by (simp add: tk(2))
  have "EnsureEntry s (dmap (entry_at T i)) fl flush = Some (s1\<lparr>ram := wr64 ?m (entry_at T i) ?e\<rparr>)"
    using entry_access(1) [OF inv Tt T(4)] e take s2 s3 by (simp add: EnsureEntry_def FlushTLB_def)
  then show thesis using take inv1 Kt K1 same by (intro that) simp_all
qed

lemma EnsureEntry_absent:
  assumes inv: "paging_inv s" and T: "tbl (ram s) p (cr3 s) = Some T" "length p \<le> 2" "idx_ok p" "i < 512"
    and absent: "tbl (ram s) (p @ [i]) (cr3 s) = None" and free: "free_frames s \<noteq> {}"
  shows "\<exists>s' f. EnsureEntry s (dmap (entry_at T i)) fl flush = Some s' \<and> extends 1 s s' \<and>
    tbl (ram s') (p @ [i]) (cr3 s) = Some f"
proof -
  obtain f s1 where take: "take_frame s = Some (f, s1)" and inv1: "paging_inv s1"
    and Kt: "\<forall>t. is_table (ram s) (cr3 s) t \<longrightarrow> frame_kernel s1 t" and K1: "frame_kernel s1 f"
    and same: "same_walks (ram s) (fill_page (ram s) f 0) (cr3 s)"
    and eval: "EnsureEntry s (dmap (entry_at T i)) fl flush =
       Some (s1\<lparr>ram := wr64 (fill_page (ram s) f 0) (entry_at T i) (f OR ucast fl OR 1)\<rparr>)"
    by (rule EnsureEntry_absent_eval [OF assms, where fl = fl and flush = flush])
  note tk = take_frame_spec [OF paging_invD(8) [OF inv] free take]
  note f = free_frame_addr [OF inv tk(1)]
  let ?m = "fill_page (ram s) f 0"
  let ?s3 = "s1\<lparr>ram := wr64 ?m (entry_at T i) (f OR ucast fl OR 1)\<rparr>"
  have ft: "T \<noteq> f" using T f(4) by (auto intro: is_tableI)
  have l: "tbl ?m p (cr3 s) = Some T" "tbl ?m (p @ [i]) (cr3 s) = None" "pt_tree ?m (cr3 s)"
    "\<not> is_table ?m (cr3 s) f"
    using same T absent f(4) paging_invD(4) [OF inv]
    by (simp_all add: same_walksD same_walks_pt_tree same_walks_is_table)
  have z: "\<forall>j < 512. rd64 ?m (entry_at f j) = 0" using f(1) by (simp add: rd64_fill_page)
  note link = link_new_table [OF l(3,1) T(2,3,4) l(2) f(3) l(4) z new_table_entry [OF f(3), of fl]]
  have complete: "tbl (ram ?s3) q (cr3 s) = tbl (ram s) q (cr3 s)"
    if "length q \<le> 4" "idx_ok q" "q \<noteq> p @ [i]" for q
    using link(2) [OF that] that same by (simp add: same_walksD)
  have dm: "direct_map ?s3"
    unfolding direct_map_def
  proof (intro allI impI)
    fix x assume x: "page_aligned x \<and> x < total_mem ?s3"
    have "va_path (x + VIRTUAL_MEMORY_BARRIER) \<noteq> p @ [i]" using T(2)
      by (auto dest: arg_cong [of _ _ length])
    then have "walk ?s3 (x + VIRTUAL_MEMORY_BARRIER) = walk s (x + VIRTUAL_MEMORY_BARRIER)"
      using complete by (simp add: walk_def mmu_walk_def paging_invD(7) [OF inv] tk(2))
    then show "walk ?s3 (x + VIRTUAL_MEMORY_BARRIER) = Some x"
      using x paging_invD(5) [OF inv] by (simp add: direct_map_def tk(2))
  qed
  have kernel: "frame_kernel ?s3 t" if "is_table (ram ?s3) (cr3 s) t" for t
  proof -
    have "is_table ?m (cr3 s) t \<or> t = f" using that link(4) by simp
    then have "frame_kernel s1 t" using Kt K1 same by (auto simp: same_walks_is_table)
    then show ?thesis by (simp add: frame_kernel_def frame_of_def)
  qed
  have bounds: "t < total_mem s" if "is_table (ram ?s3) (cr3 s) t" for t
    using that link(4) [of t] f(2) same inv by (auto simp: same_walks_is_table paging_inv_def)
  have inv3: "paging_inv ?s3"
    unfolding paging_inv_def
    using kernel bounds dm link(3) paging_invD [OF inv] by (simp add: tk(2))
  have fr: "frame_of ?s3 g = frame_of s1 g" "frame_kernel ?s3 g = frame_kernel s1 g" for g
    by (simp_all add: frame_of_def frame_kernel_def)
  have ff: "free_frames ?s3 = free_frames s - {f}"
    using tk(3) by (simp add: free_frames_def free_frame_def frame_of_def)
  have "extends 1 s ?s3"
    unfolding extends_def
  proof (intro conjI allI impI)
    show "?s3 = s\<lparr>ram := ram ?s3, phys_frames := phys_frames ?s3\<rparr>"
      by (simp add: tk(2) set_frame_flags_def set_frame_def)
    show "tbl (ram ?s3) q (cr3 s) = tbl (ram s) q (cr3 s)" if "length q = 4 \<and> idx_ok q" for q
      using that T(2) by (intro complete) auto
    show "tbl (ram ?s3) q (cr3 s) = Some t"
      if "length q \<le> 3 \<and> idx_ok q \<and> tbl (ram s) q (cr3 s) = Some t" for q t
    proof -
      have "q \<noteq> p @ [i]" using that absent by auto
      then show ?thesis using that complete [of q] by simp
    qed
    show "tbl (ram s) q (cr3 s) = Some t \<or> t \<in> free_frames s"
      if "length q \<le> 3 \<and> idx_ok q \<and> tbl (ram ?s3) q (cr3 s) = Some t" for q t
    proof (cases "q = p @ [i]")
      case True
      then show ?thesis using that link(1) tk(1) by simp
    next
      case False
      then show ?thesis using that complete [of q] by simp
    qed
    show "rd64 (ram ?s3) (entry_at t j) = rd64 (ram s) (entry_at t j)"
      if "length q = 3 \<and> idx_ok q \<and> tbl (ram s) q (cr3 s) = Some t \<and> j < 512" for q t j
    proof -
      have "t \<noteq> T"
      proof
        assume "t = T"
        then have "q = p" using that T by (intro pt_treeD [OF paging_invD(4) [OF inv]]) auto
        then show False using that T(2) by simp
      qed
      moreover have "t \<noteq> f" using that f(4) by (auto intro: is_tableI)
      moreover have "page_aligned t" "page_aligned T"
        using that T(1) paging_invD(6) [OF inv] by (auto intro: tbl_aligned)
      ultimately show ?thesis
        using that f(1) T(4) by (simp add: rd64_wr64_entry rd64_fill_page)
    qed
    show "frame_of ?s3 g = frame_of s g"
      if "page_aligned g \<and> g < total_mem s \<and> g \<notin> free_frames s" for g
      using that tk(1) f(1) unfolding fr by (auto simp: tk(2) frame_of_set_frame_flags)
    show "refcount (frame_of ?s3 g) = refcount (frame_of s g)" if "page_aligned g" for g
      using that f(1) unfolding fr by (simp add: tk(2) frame_of_set_frame_flags)
    show "frame_kernel ?s3 g" if "g \<in> free_frames s - free_frames ?s3" for g
      using that ff K1 unfolding fr by auto
    show "free_frames ?s3 \<subseteq> free_frames s" using ff by auto
    show "card (free_frames s) \<le> card (free_frames ?s3) + 1" unfolding ff using tk(1) by simp
  qed (rule inv3)
  then show ?thesis using eval link(1) by auto
qed

lemma EnsureEntry_spec:
  assumes inv: "paging_inv s" and T: "tbl (ram s) p (cr3 s) = Some T" "length p \<le> 2" "idx_ok p" "i < 512"
    and free: "free_frames s \<noteq> {}"
  obtains s' f where "EnsureEntry s (dmap (entry_at T i)) fl flush = Some s'" "extends 1 s s'"
    "tbl (ram s') (p @ [i]) (cr3 s) = Some f"
proof (cases "tbl (ram s) (p @ [i]) (cr3 s)")
  case None
  then show thesis using EnsureEntry_absent [OF inv T None free] that by blast
next
  case (Some t)
  then show thesis
    using EnsureEntry_present [OF inv T Some] extends_mono [OF extends_refl [OF inv], of 1] that
    by auto
qed

text \<open>The entry \<open>EnsureEntry\<close> made sure of points to the next table.\<close>

lemma entry_read:
  assumes "paging_inv s" and T: "tbl (ram s) p (cr3 s) = Some T" "length p \<le> 2" "idx_ok p" "i < 512"
    and t: "tbl (ram s) (p @ [i]) (cr3 s) = Some t"
  shows "\<exists>e. vread64 s (dmap (entry_at T i)) = Some e \<and> e AND PTE_ADDR = t"
proof -
  have "page_aligned T" "T < total_mem s" using paging_inv_table [OF assms(1) T(1) _ T(3)] T(2) by simp_all
  then have "vread64 s (dmap (entry_at T i)) = Some (rd64 (ram s) (entry_at T i))"
    using entry_access(1) [OF assms(1) _ _ T(4)] by simp
  then show ?thesis
    using t T(1) by (auto simp: tbl_snoc tbl_step_def Let_def split: if_splits)
qed

section \<open>Walking the tables in software\<close>

abbreviation entry_path :: "page_entries \<Rightarrow> u64 list" where
  "entry_path e \<equiv> [ucast (PML4_Entry e), ucast (PDPT_Entry e), ucast (PD_Entry e), ucast (PT_Entry e)]"

lemma CalculatePagePhysicalEntryAddress_spec:
  assumes inv: "paging_inv s" and ok: "idx_ok (entry_path e)" and free: "3 \<le> card (free_frames s)"
  obtains s' T where
    "CalculatePagePhysicalEntryAddress s e = Some (dmap (entry_at T (ucast (PT_Entry e))), s')"
    "extends 3 s s'"
    "tbl (ram s') [ucast (PML4_Entry e), ucast (PDPT_Entry e), ucast (PD_Entry e)] (cr3 s) = Some T"
proof -
  let ?i = "ucast (PML4_Entry e) :: u64" and ?j = "ucast (PDPT_Entry e) :: u64"
    and ?k = "ucast (PD_Entry e) :: u64"
  let ?fl = "ucast (if PML4_Entry e < 256 then USER_FLAGS else KERNEL_FLAGS) :: u8"
  have i: "?i < 512" "?j < 512" "?k < 512" using ok by simp_all
  have pos: "free_frames s' \<noteq> {}" if "0 < card (free_frames s')" for s' using that by auto
  obtain s1 t1 where 1: "EnsureEntry s (dmap (entry_at (cr3 s) ?i)) ?fl True = Some s1"
    "extends 1 s s1" "tbl (ram s1) [?i] (cr3 s) = Some t1"
    by (rule EnsureEntry_spec [OF inv, of "[]" "cr3 s" ?i ?fl True])
      (use i free in \<open>auto simp del: tbl.simps(2)\<close>)
  note c1 = extends_same [OF 1(2)] and inv1 = extendsD(1) [OF 1(2)]
  obtain e1 where e1: "vread64 s1 (dmap (entry_at (cr3 s) ?i)) = Some e1" "e1 AND PTE_ADDR = t1"
    using entry_read [OF inv1, of "[]" "cr3 s1" ?i t1] 1(3) i c1 by auto
  obtain s2 t2 where 2: "EnsureEntry s1 (dmap (entry_at t1 ?j)) ?fl True = Some s2"
    "extends 1 s1 s2" "tbl (ram s2) [?i, ?j] (cr3 s) = Some t2"
    by (rule EnsureEntry_spec [OF inv1, of "[?i]" t1 ?j ?fl True])
      (use i 1(3) free extendsD(8) [OF 1(2)] in \<open>auto simp: c1 simp del: tbl.simps(2) intro!: pos\<close>)
  note c2 = extends_same [OF 2(2)] and inv2 = extendsD(1) [OF 2(2)]
  have t1: "tbl (ram s2) [?i] (cr3 s) = Some t1"
    using extendsD(3) [OF 2(2), of "[?i]" t1] 1(3) i by (simp add: c1 del: tbl.simps(2))
  obtain e2 where e2: "vread64 s2 (dmap (entry_at t1 ?j)) = Some e2" "e2 AND PTE_ADDR = t2"
    using entry_read [OF inv2, of "[?i]" t1 ?j t2] 2(3) t1 i c1 c2 by (auto simp del: tbl.simps(2))
  obtain s3 t3 where 3: "EnsureEntry s2 (dmap (entry_at t2 ?k)) ?fl True = Some s3"
    "extends 1 s2 s3" "tbl (ram s3) [?i, ?j, ?k] (cr3 s) = Some t3"
    by (rule EnsureEntry_spec [OF inv2, of "[?i, ?j]" t2 ?k ?fl True])
      (use i 2(3) free extendsD(8) [OF 1(2)] extendsD(8) [OF 2(2)] in
        \<open>auto simp: c1 c2 simp del: tbl.simps(2) intro!: pos\<close>)
  note c3 = extends_same [OF 3(2)] and inv3 = extendsD(1) [OF 3(2)]
  have t2: "tbl (ram s3) [?i, ?j] (cr3 s) = Some t2"
    using extendsD(3) [OF 3(2), of "[?i, ?j]" t2] 2(3) i by (simp add: c1 c2 del: tbl.simps(2))
  obtain e3 where e3: "vread64 s3 (dmap (entry_at t2 ?k)) = Some e3" "e3 AND PTE_ADDR = t3"
    using entry_read [OF inv3, of "[?i, ?j]" t2 ?k t3] 3(3) t2 i c1 c2 c3 by (auto simp del: tbl.simps(2))
  have "CalculatePagePhysicalEntryAddress s e = Some (dmap (entry_at t3 (ucast (PT_Entry e))), s3)"
    using 1(1) 2(1) 3(1) e1 e2 e3 paging_invD(1) [OF inv]
    by (simp add: CalculatePagePhysicalEntryAddress_def entry_pointer_dmap Let_def)
  moreover have "extends 3 s s3"
    using extends_trans [OF extends_trans [OF 1(2) 2(2)] 3(2)] by (simp add: eval_nat_numeral)
  ultimately show thesis using 3(3) that by blast
qed

section \<open>Writing a leaf entry\<close>

lemma path_split4: "length q = 4 \<Longrightarrow> \<exists>p i. q = p @ [i] \<and> length p = 3"
  by (cases q rule: rev_cases) auto

lemma write_leaf:
  assumes inv: "paging_inv s" and T: "tbl (ram s) p (cr3 s) = Some T" "length p = 3" "idx_ok p" "i < 512"
    and safe: "\<forall>x. page_aligned x \<and> x < total_mem s \<and> va_path (x + VIRTUAL_MEMORY_BARRIER) = p @ [i] \<longrightarrow>
      e AND 1 \<noteq> 0 \<and> e AND PTE_ADDR = x"
  defines "s' \<equiv> s\<lparr>ram := wr64 (ram s) (entry_at T i) e\<rparr>"
  shows "vwrite64 s (dmap (entry_at T i)) e = Some s'" and "paging_inv s'"
    and "length q = 4 \<Longrightarrow> idx_ok q \<Longrightarrow> tbl (ram s') q (cr3 s) =
      (if q = p @ [i] then if e AND 1 = 0 then None else Some (e AND PTE_ADDR) else tbl (ram s) q (cr3 s))"
    and "length q \<le> 3 \<Longrightarrow> idx_ok q \<Longrightarrow> tbl (ram s') q (cr3 s) = tbl (ram s) q (cr3 s)"
proof -
  note tree = paging_invD(4) [OF inv]
  have p3: "length p \<le> 3" using T(2) by simp
  have Tt: "page_aligned T" "T < total_mem s" using paging_inv_table [OF inv T(1) p3 T(3)] by simp_all
  show "vwrite64 s (dmap (entry_at T i)) e = Some s'"
    unfolding s'_def by (rule entry_access(2) [OF inv Tt T(4)])
  show leaf: "tbl (ram s') q (cr3 s) =
      (if q = p @ [i] then if e AND 1 = 0 then None else Some (e AND PTE_ADDR) else tbl (ram s) q (cr3 s))"
    if q: "length q = 4" "idx_ok q" for q
  proof (cases "q = p @ [i]")
    case True
    then show ?thesis using tbl_wr64_self [OF tree T(1) p3 T(3,4), of e] by (simp add: s'_def)
  next
    case False
    have "\<not> prefix (p @ [i]) q"
      using q(1) T(2) False by (auto simp: prefix_def)
    then show ?thesis
      using False q tbl_wr64_other [OF tree T(1) p3 T(3,4), of q e] by (simp add: s'_def)
  qed
  show upper: "tbl (ram s') q (cr3 s) = tbl (ram s) q (cr3 s)" if q: "length q \<le> 3" "idx_ok q" for q
  proof -
    have "\<not> prefix (p @ [i]) q" using q(1) T(2) by (auto simp: prefix_def)
    then show ?thesis using q tbl_wr64_other [OF tree T(1) p3 T(3,4), of q e] by (simp add: s'_def)
  qed
  have it: "is_table (ram s') (cr3 s) t = is_table (ram s) (cr3 s) t" for t
    using upper by (auto simp: is_table_def)
  have tree': "pt_tree (ram s') (cr3 s)"
    using tree upper by (auto simp: pt_tree_def)
  have dm: "direct_map s'"
    unfolding direct_map_def
  proof (intro allI impI)
    fix x assume x: "page_aligned x \<and> x < total_mem s'"
    then have xs: "page_aligned x" "x < total_mem s" by (simp_all add: s'_def)
    have cr: "cr3 s' AND PTE_ADDR = cr3 s" using paging_invD(7) [OF inv] by (simp add: s'_def)
    have "tbl (ram s) (va_path (x + VIRTUAL_MEMORY_BARRIER)) (cr3 s) = Some x"
      by (rule direct_map_tbl [OF paging_invD(7,5) xs]) (rule inv)+
    then have "tbl (ram s') (va_path (x + VIRTUAL_MEMORY_BARRIER)) (cr3 s) = Some x"
      using safe xs by (subst leaf) auto
    moreover have "(x + VIRTUAL_MEMORY_BARRIER) AND 0xFFF = 0"
      using page_aligned_add [OF xs(1) page_aligned_BARRIER] by (simp add: page_aligned_def)
    ultimately show "walk s' (x + VIRTUAL_MEMORY_BARRIER) = Some x"
      using cr by (simp add: walk_def mmu_walk_def)
  qed
  have "cr3 s' = cr3 s" "PML4_Physical s' = PML4_Physical s" "total_mem s' = total_mem s"
    "frame_kernel s' t = frame_kernel s t" for t
    by (simp_all add: s'_def frame_kernel_def frame_of_def)
  then show "paging_inv s'"
    using inv dm tree' it unfolding paging_inv_def by auto
qed

lemma new_entry_facts:
  assumes "frame_addr (physical_address pg)" "pg_flags pg < 0x1000" "pg_flags pg AND 1 \<noteq> 0"
  shows "new_entry pg AND 1 \<noteq> 0" and "new_entry pg AND PTE_ADDR = physical_address pg"
proof -
  have "bit (pg_flags pg) 0" using assms(3) by (simp add: and_one_eq odd_iff_mod_2_eq_one bit_0)
  then have "bit (new_entry pg) 0" by (simp add: new_entry_def bit_simps)
  then show "new_entry pg AND 1 \<noteq> 0" by (simp add: and_one_eq odd_iff_mod_2_eq_one bit_0)
  have nx: "push_bit 63 (of_bool (pg_Execute_Disable pg)) AND PTE_ADDR = 0"
    by (rule bit_eqI) (auto simp: page_bits)
  have "(ucast (pg_flags pg) OR push_bit 63 (of_bool (pg_Execute_Disable pg))) AND PTE_ADDR = (0 :: u64)"
    using nx flags_PTE_ADDR [OF assms(2)] by (simp add: bit.conj_disj_distrib2)
  from entry_frame [OF assms(1) this]
  show "new_entry pg AND PTE_ADDR = physical_address pg" by (simp add: new_entry_def or.assoc)
qed

section \<open>Reference counting\<close>

lemma flag_bits:
  fixes fl :: u8
  shows "fl AND 0b100 = 0b100 \<longleftrightarrow> bit fl 2" "fl AND 0b100 = 0 \<longleftrightarrow> \<not> bit fl 2"
    "fl AND 0b10 = 0b10 \<longleftrightarrow> bit fl 1" "fl AND 0b10 = 0 \<longleftrightarrow> \<not> bit fl 1"
proof -
  show "fl AND 0b100 = 0 \<longleftrightarrow> \<not> bit fl 2" using and_exp_eq_0_iff_not_bit [of fl 2] by simp
  show "fl AND 0b10 = 0 \<longleftrightarrow> \<not> bit fl 1" using and_exp_eq_0_iff_not_bit [of fl 1] by simp
  have e: "fl AND 2 ^ n = (if bit fl n then 2 ^ n else 0)" for n
    by (rule bit_eqI) (auto simp: bit_simps)
  show "fl AND 0b100 = 0b100 \<longleftrightarrow> bit fl 2" using e [of 2] by simp
  show "fl AND 0b10 = 0b10 \<longleftrightarrow> bit fl 1" using e [of 1] by simp
qed

lemma frame_flag_bits:
  "frame_kernel s p \<longleftrightarrow> bit (fr_flags (frame_of s p)) 2"
  "frame_dirty s p \<longleftrightarrow> bit (fr_flags (frame_of s p)) 1"
  by (simp_all add: frame_kernel_def frame_dirty_def flag_bits)

lemma count_user_mapping_frame:
  assumes p: "\<not> frame_kernel s p" and v: "v < VIRTUAL_MEMORY_BARRIER"
  shows "count_user_mapping s p v = set_frame s p \<lparr>refcount = refcount (frame_of s p) + 1,
       fr_flags = (if refcount (frame_of s p) = 0 then 1 else fr_flags (frame_of s p))\<rparr>"
proof -
  have s: "set_frame (set_frame s p f) p g = set_frame s p g" for f g by (simp add: set_frame_def)
  show ?thesis
    using p v
    by (cases "frame_of s p")
      (simp add: count_user_mapping_def Let_def flag_bits frame_flag_bits set_frame_flags_def s)
qed

lemma count_user_mapping_spec:
  assumes inv: "paging_inv s" and p: "page_aligned p" "\<not> frame_kernel s p" and v: "v < VIRTUAL_MEMORY_BARRIER"
  defines "s' \<equiv> count_user_mapping s p v"
  shows "paging_inv s'" "s' = s\<lparr>phys_frames := phys_frames s'\<rparr>"
    "frame_of s' p = \<lparr>refcount = refcount (frame_of s p) + 1,
       fr_flags = (if refcount (frame_of s p) = 0 then 1 else fr_flags (frame_of s p))\<rparr>"
    "\<And>g. page_aligned g \<Longrightarrow> g \<noteq> p \<Longrightarrow> frame_of s' g = frame_of s g"
    "free_frames s - {p} \<subseteq> free_frames s'"
proof -
  note s' = s'_def [unfolded count_user_mapping_frame [OF p(2) v]]
  show "s' = s\<lparr>phys_frames := phys_frames s'\<rparr>" by (simp add: s' set_frame_def)
  show "frame_of s' p = \<lparr>refcount = refcount (frame_of s p) + 1,
       fr_flags = (if refcount (frame_of s p) = 0 then 1 else fr_flags (frame_of s p))\<rparr>"
    by (simp add: s')
  show other: "frame_of s' g = frame_of s g" if "page_aligned g" "g \<noteq> p" for g
    using that p(1) by (simp add: s' frame_of_set_frame)
  show "free_frames s - {p} \<subseteq> free_frames s'"
    using other by (auto simp: free_frames_def free_frame_def s')
  have "frame_kernel s' t" if "is_table (ram s) (cr3 s) t" for t
  proof -
    have "frame_kernel s t" using that inv by (simp add: paging_inv_def)
    moreover have "page_aligned t" using that paging_invD(6) [OF inv] by (rule is_table_aligned)
    moreover have "t \<noteq> p" using calculation(1) p(2) by auto
    ultimately show ?thesis using other [of t] by (simp add: frame_kernel_def)
  qed
  then show "paging_inv s'"
    by (intro paging_inv_same_walks [OF inv]) (simp_all add: s' same_walks_def)
qed

section \<open>alloc_page\<close>

lemma direct_address_bit:
  assumes s: "total_mem s \<le> 0x800000000000" and x: "x < total_mem s"
  shows "bit (hd (va_path (x + VIRTUAL_MEMORY_BARRIER))) 8"
proof -
  have xs: "unat x < 2 ^ 47" using s x by (simp add: word_less_nat_alt word_le_nat_alt)
  have "x AND VIRTUAL_MEMORY_BARRIER = 0"
  proof (rule bit_eqI)
    fix n
    have B: "VIRTUAL_MEMORY_BARRIER = push_bit 47 (mask 17)"
      by (simp add: VIRTUAL_MEMORY_BARRIER_def mask_eq_exp_minus_1 push_bit_eq_mult)
    show "bit (x AND VIRTUAL_MEMORY_BARRIER) n = bit (0 :: u64) n"
      unfolding B using small_word_bit [OF xs, of n] by (auto simp: bit_simps)
  qed
  then have "x + VIRTUAL_MEMORY_BARRIER = x OR VIRTUAL_MEMORY_BARRIER"
    by (rule disjunctive_add_eq_or)
  moreover have "bit VIRTUAL_MEMORY_BARRIER 47"
    by (simp add: VIRTUAL_MEMORY_BARRIER_def bit_numeral_word_iff)
  ultimately have "bit (x + VIRTUAL_MEMORY_BARRIER) 47" by (simp add: bit_or_iff)
  then show ?thesis by (simp add: va_path_def bit_and_iff bit_drop_bit_eq mask9_bit)
qed

lemma user_not_direct:
  assumes v: "v < 0x800000000000" and s: "total_mem s \<le> 0x800000000000" and x: "page_aligned x" "x < total_mem s"
  shows "va_path (x + VIRTUAL_MEMORY_BARRIER) \<noteq> va_path v"
proof -
  have "\<not> bit (hd (va_path v)) 8"
    using small_word_bit [of v 47 47] v
    by (auto simp: va_path_def bit_and_iff bit_drop_bit_eq word_less_nat_alt)
  then show ?thesis using direct_address_bit [OF s x(2)] by metis
qed

end
