(* ===== verification/Alloc.thy ===== *)
theory Alloc
  imports Paging_Correct
begin

text \<open>
  What the entry points of the page allocator do: \<open>alloc_page\<close>, \<open>free_page\<close>, \<open>malloc\<close>,
  \<open>phys_addr\<close> and \<open>Create_User_Memory\<close>, on success and on every refusal.
\<close>

section \<open>Installing one translation\<close>

lemma page_offset_lt: "page_aligned t \<Longrightarrow> t < 0x800000000000 \<Longrightarrow> i < 512 \<Longrightarrow> entry_at t i < 0x800000000000"
proof -
  assume a: "page_aligned t" "t < 0x800000000000" "i < 512"
  obtain k where k: "unat t = 4096 * k" using a(1) by (rule page_alignedE)
  have "unat t < 2 ^ 47" "unat i < 512" using a by (simp_all add: word_less_nat_alt)
  then have "4096 * k + 8 * unat i < 2 ^ 47" using k by simp
  then show ?thesis using unat_entry_at [OF a(1,3)] k by (simp add: word_less_nat_alt)
qed

lemma dmap_nonzero: "p < 0x800000000000 \<Longrightarrow> dmap p \<noteq> 0"
proof
  assume p: "p < 0x800000000000" and "dmap p = 0"
  then have "p = 0 - VIRTUAL_MEMORY_BARRIER" by (simp add: dmap_def eq_neg_iff_add_eq_0)
  then show False using p by (simp add: VIRTUAL_MEMORY_BARRIER_def)
qed

text \<open>The direct map survives mapping \<open>v\<close> to \<open>p\<close>.\<close>

definition safe_mapping :: "kst \<Rightarrow> u64 \<Rightarrow> u64 \<Rightarrow> bool" where
  "safe_mapping s v p \<longleftrightarrow> (\<forall>x. page_aligned x \<and> x < total_mem s \<and>
     va_path (x + VIRTUAL_MEMORY_BARRIER) = va_path v \<longrightarrow> x = p)"

lemma user_safe_mapping: "v < 0x800000000000 \<Longrightarrow> paging_inv s \<Longrightarrow> safe_mapping s v p"
  using user_not_direct paging_invD(3) unfolding safe_mapping_def by blast

text \<open>The flags and the frame are what \<open>alloc_page\<close> can install as a present entry.\<close>

definition good_page :: "kst \<Rightarrow> page_details \<Rightarrow> bool" where
  "good_page s pg \<longleftrightarrow> page_aligned (physical_address pg) \<and> physical_address pg < total_mem s \<and>
     pg_flags pg < 0x1000 \<and> pg_flags pg AND 1 \<noteq> 0"

lemma good_page_entry:
  assumes "paging_inv s" "good_page s pg"
  shows "new_entry pg AND 1 \<noteq> 0" and "new_entry pg AND PTE_ADDR = physical_address pg"
proof -
  have "physical_address pg < 0x10000000000000"
    using assms(2) paging_invD(3) [OF assms(1)]
    by (simp add: good_page_def word_less_nat_alt word_le_nat_alt)
  then have "frame_addr (physical_address pg)" using assms(2) by (intro frame_addrI) (simp add: good_page_def)
  then show "new_entry pg AND 1 \<noteq> 0" and "new_entry pg AND PTE_ADDR = physical_address pg"
    using assms(2) new_entry_facts [of pg] by (simp_all add: good_page_def)
qed

definition maps_only :: "kst \<Rightarrow> kst \<Rightarrow> u64 \<Rightarrow> u64 option \<Rightarrow> bool" where
  "maps_only s s' v f \<longleftrightarrow> (\<forall>a. walk s' a =
     (if va_path a = va_path v then map_option (\<lambda>p. p OR (a AND 0xFFF)) f else walk s a))"

lemma leaf_maps_only:
  assumes inv: "paging_inv s" "paging_inv s'" and cr: "cr3 s' = cr3 s"
    and leaf: "\<And>q. length q = 4 \<Longrightarrow> idx_ok q \<Longrightarrow>
      tbl (ram s') q (cr3 s) = (if q = va_path v then f else tbl (ram s) q (cr3 s))"
  shows "maps_only s s' v f"
  unfolding maps_only_def walk_inv [OF inv(1)] walk_inv [OF inv(2)] cr by (simp add: leaf)

lemma set_leaf_spec:
  assumes inv: "paging_inv s" and free: "3 \<le> card (free_frames s)"
    and e: "\<forall>x. page_aligned x \<and> x < total_mem s \<and>
      va_path (x + VIRTUAL_MEMORY_BARRIER) = va_path v \<longrightarrow> e AND 1 \<noteq> 0 \<and> e AND PTE_ADDR = x"
  obtains pe s1 s2 where
    "CalculatePagePhysicalEntryAddress s (ExtractPageEntries v) = Some (pe, s1)" "pe \<noteq> 0"
    "vwrite64 s1 pe e = Some s2" "extends 3 s s1" "paging_inv s2" "s2 = s1\<lparr>ram := ram s2\<rparr>"
    "maps_only s s2 v (if e AND 1 = 0 then None else Some (e AND PTE_ADDR))"
    "\<forall>q. length q \<le> 3 \<and> idx_ok q \<longrightarrow> tbl (ram s2) q (cr3 s) = tbl (ram s1) q (cr3 s)"
proof -
  let ?E = "ExtractPageEntries v"
  let ?p = "[ucast (PML4_Entry ?E), ucast (PDPT_Entry ?E), ucast (PD_Entry ?E)] :: u64 list"
  let ?i = "ucast (PT_Entry ?E) :: u64"
  have path: "va_path v = ?p @ [?i]" by (simp add: va_path_ExtractPageEntries)
  have ok: "idx_ok (entry_path ?E)" using idx_ok_va_path [of v] by (simp add: path)
  obtain s1 T where c: "CalculatePagePhysicalEntryAddress s ?E = Some (dmap (entry_at T ?i), s1)"
    and x: "extends 3 s s1" and T: "tbl (ram s1) ?p (cr3 s) = Some T"
    using CalculatePagePhysicalEntryAddress_spec [OF inv ok free] .
  note same = extends_same [OF x] and inv1 = extendsD(1) [OF x]
  have i: "idx_ok ?p" "?i < 512" using ok by simp_all
  have T': "tbl (ram s1) ?p (cr3 s1) = Some T" using T by (simp add: same)
  have Tt: "page_aligned T" "T < total_mem s1" using paging_inv_table [OF inv1 T' _ i(1)] by simp_all
  have "entry_at T ?i < 0x800000000000"
    using Tt(2) paging_invD(3) [OF inv1] by (intro page_offset_lt [OF Tt(1) _ i(2)]) simp
  then have nz: "dmap (entry_at T ?i) \<noteq> 0" by (rule dmap_nonzero)
  have p3: "length ?p = 3" by simp
  have e': "\<forall>x. page_aligned x \<and> x < total_mem s1 \<and>
      va_path (x + VIRTUAL_MEMORY_BARRIER) = ?p @ [?i] \<longrightarrow> e AND 1 \<noteq> 0 \<and> e AND PTE_ADDR = x"
    using e unfolding path same .
  note w = write_leaf [OF inv1 T' p3 i e']
  let ?s2 = "s1\<lparr>ram := wr64 (ram s1) (entry_at T ?i) e\<rparr>"
  have m: "maps_only s ?s2 v (if e AND 1 = 0 then None else Some (e AND PTE_ADDR))"
  proof (rule leaf_maps_only [OF inv w(2)])
    show "cr3 ?s2 = cr3 s" by (simp add: same)
    fix q :: "u64 list"
    assume q: "length q = 4" "idx_ok q"
    show "tbl (ram ?s2) q (cr3 s) =
      (if q = va_path v then if e AND 1 = 0 then None else Some (e AND PTE_ADDR) else tbl (ram s) q (cr3 s))"
      using w(3) [OF q] extendsD(2) [OF x q] unfolding same path by simp
  qed
  show thesis
    by (rule that [OF c nz w(1) x w(2) _ m]) (use w(4) in \<open>simp_all add: same\<close>)
qed

section \<open>alloc_page\<close>

lemma install_page_spec:
  assumes inv: "paging_inv s" and free: "3 \<le> card (free_frames s)"
    and pg: "good_page s pg" "safe_mapping s (virtual_address pg) (physical_address pg)"
  obtains s1 s2 where "install_page s pg = Some (virtual_address pg, s2)" "extends 3 s s1"
    "paging_inv s2" "s2 = s1\<lparr>ram := ram s2\<rparr>" "maps_only s s2 (virtual_address pg) (Some (physical_address pg))"
    "\<forall>q t. length q \<le> 3 \<and> idx_ok q \<and> tbl (ram s) q (cr3 s) = Some t \<longrightarrow> tbl (ram s2) q (cr3 s) = Some t"
proof -
  note e = good_page_entry [OF inv pg(1)]
  have "\<forall>x. page_aligned x \<and> x < total_mem s \<and>
      va_path (x + VIRTUAL_MEMORY_BARRIER) = va_path (virtual_address pg) \<longrightarrow>
      new_entry pg AND 1 \<noteq> 0 \<and> new_entry pg AND PTE_ADDR = x"
    using pg(2) e by (auto simp: safe_mapping_def)
  then obtain pe s1 s2 where c:
    "CalculatePagePhysicalEntryAddress s (ExtractPageEntries (virtual_address pg)) = Some (pe, s1)"
    "pe \<noteq> 0" "vwrite64 s1 pe (new_entry pg) = Some s2" and r: "extends 3 s s1" "paging_inv s2"
    "s2 = s1\<lparr>ram := ram s2\<rparr>"
    "maps_only s s2 (virtual_address pg) (if new_entry pg AND 1 = 0 then None else Some (new_entry pg AND PTE_ADDR))"
    "\<forall>q. length q \<le> 3 \<and> idx_ok q \<longrightarrow> tbl (ram s2) q (cr3 s) = tbl (ram s1) q (cr3 s)"
    by (rule set_leaf_spec [OF inv free])
  have "install_page s pg = Some (virtual_address pg, s2)" using c by (simp add: install_page_def)
  then show thesis
    by (rule that [OF _ r(1-3)]) (use r(4,5) e extendsD(3) [OF r(1)] in simp_all)
qed

lemma maps_only_same_ram:
  "maps_only s1 s2 v f \<Longrightarrow> ram s1 = ram s \<Longrightarrow> cr3 s1 = cr3 s \<Longrightarrow> maps_only s s2 v f"
  by (simp add: maps_only_def walk_def)

lemma frame_of_ram: "s2 = s1\<lparr>ram := m\<rparr> \<Longrightarrow> frame_of s2 = frame_of s1"
  by (simp add: frame_of_def fun_eq_iff)

lemma alloc_page_user:
  assumes inv: "paging_inv s" and pg: "good_page s pg" and v: "virtual_address pg < 0x800000000000"
    and p: "\<not> frame_dirty s (physical_address pg)" "\<not> frame_kernel s (physical_address pg)"
    and free: "4 \<le> card (free_frames s)"
  obtains s' where "alloc_page s pg = Some (virtual_address pg, s')" "paging_inv s'"
    "maps_only s s' (virtual_address pg) (Some (physical_address pg))"
    "console s' = console s" "TaskManager s' = TaskManager s" "cr3 s' = cr3 s" "total_mem s' = total_mem s"
    "VirtualMemorySize s' = VirtualMemorySize s"
    "\<forall>g. page_aligned g \<longrightarrow> refcount (frame_of s' g) =
       (if g = physical_address pg then refcount (frame_of s g) + 1 else refcount (frame_of s g))"
    "\<forall>g. page_aligned g \<and> g < total_mem s \<and> g \<noteq> physical_address pg \<and> g \<notin> free_frames s \<longrightarrow>
       frame_of s' g = frame_of s g"
    "refcount (frame_of s (physical_address pg)) = 0 \<or> physical_address pg \<notin> free_frames s \<longrightarrow>
       fr_flags (frame_of s' (physical_address pg)) =
         (if refcount (frame_of s (physical_address pg)) = 0 then 1
          else fr_flags (frame_of s (physical_address pg)))"
    "\<forall>q t. length q \<le> 3 \<and> idx_ok q \<and> tbl (ram s) q (cr3 s) = Some t \<longrightarrow> tbl (ram s') q (cr3 s) = Some t"
proof -
  let ?p = "physical_address pg" and ?v = "virtual_address pg"
  have vb: "?v < VIRTUAL_MEMORY_BARRIER"
    using v by (simp add: VIRTUAL_MEMORY_BARRIER_def word_less_nat_alt)
  have pa: "page_aligned ?p" "?p < total_mem s" using pg by (simp_all add: good_page_def)
  let ?c = "count_user_mapping s ?p ?v"
  note c = count_user_mapping_spec [OF inv pa(1) p(2) vb]
  have cf: "ram ?c = ram s" "cr3 ?c = cr3 s" "total_mem ?c = total_mem s" "console ?c = console s"
    "TaskManager ?c = TaskManager s" "VirtualMemorySize ?c = VirtualMemorySize s"
    by (subst c(2), simp)+
  have "card (free_frames s) \<le> card (free_frames s - {?p}) + 1" 
    using diff_card_le_card_Diff [of "{?p}" "free_frames s"] by simp
  also have "card (free_frames s - {?p}) \<le> card (free_frames ?c)" by (intro card_mono c(5)) simp
  finally have f3: "3 \<le> card (free_frames ?c)" using free by simp
  have g: "good_page ?c pg" using pg by (simp add: good_page_def cf)
  obtain s1 s2 where i: "install_page ?c pg = Some (?v, s2)" "extends 3 ?c s1" "paging_inv s2"
    "s2 = s1\<lparr>ram := ram s2\<rparr>" "maps_only ?c s2 ?v (Some ?p)"
    "\<forall>q t. length q \<le> 3 \<and> idx_ok q \<and> tbl (ram ?c) q (cr3 ?c) = Some t \<longrightarrow> tbl (ram s2) q (cr3 ?c) = Some t"
    by (rule install_page_spec [OF c(1) f3 g user_safe_mapping [OF v c(1)]])
  have s2: "console s2 = console s1" "TaskManager s2 = TaskManager s1" "cr3 s2 = cr3 s1"
    "total_mem s2 = total_mem s1" "VirtualMemorySize s2 = VirtualMemorySize s1"
    by (subst i(4), simp)+
  note fr = frame_of_ram [OF i(4)] and same = extends_same [OF i(2)]
  show thesis
  proof (rule that)
    show "alloc_page s pg = Some (?v, s2)"
      using pa(2) p i(1) by (simp add: alloc_page_def Let_def linorder_not_le)
    show "maps_only s s2 ?v (Some ?p)" by (intro maps_only_same_ram [OF i(5)] cf)
    show "\<forall>g. page_aligned g \<longrightarrow> refcount (frame_of s2 g) =
        (if g = ?p then refcount (frame_of s g) + 1 else refcount (frame_of s g))"
      using extendsD(5) [OF i(2)] c(3) c(4) by (simp add: fr)
    show "\<forall>g. page_aligned g \<and> g < total_mem s \<and> g \<noteq> ?p \<and> g \<notin> free_frames s \<longrightarrow>
        frame_of s2 g = frame_of s g"
    proof (intro allI impI)
      fix g assume h: "page_aligned g \<and> g < total_mem s \<and> g \<noteq> ?p \<and> g \<notin> free_frames s"
      have "frame_of ?c g = frame_of s g" using h by (intro c(4)) simp_all
      moreover have "g \<notin> free_frames ?c"
        using h calculation by (simp add: free_frames_def free_frame_def cf)
      ultimately show "frame_of s2 g = frame_of s g"
        using extendsD(4) [OF i(2), of g] h by (simp add: fr cf)
    qed
    show "refcount (frame_of s ?p) = 0 \<or> ?p \<notin> free_frames s \<longrightarrow> fr_flags (frame_of s2 ?p) =
        (if refcount (frame_of s ?p) = 0 then 1 else fr_flags (frame_of s ?p))"
    proof
      assume "refcount (frame_of s ?p) = 0 \<or> ?p \<notin> free_frames s"
      then have "?p \<notin> free_frames ?c" using c(3) pa by (auto simp: free_frames_def free_frame_def)
      then show "fr_flags (frame_of s2 ?p) =
          (if refcount (frame_of s ?p) = 0 then 1 else fr_flags (frame_of s ?p))"
        using extendsD(4) [OF i(2), of ?p] pa c(3) by (simp add: fr cf)
    qed
  qed (use i(3,6) same cf in \<open>simp_all add: s2\<close>)
qed

text \<open>C3. \<open>alloc_page\<close> of a user page: for a frame of RAM that is neither dirty nor the
  kernel's, with frames left for the tables, the call succeeds, the page is translated to the
  frame, every other address is translated as before, the tables are intact, nothing is
  printed, the frame's count goes up by one and no other frame that was in use changes.\<close>

theorem alloc_page_maps:
  assumes inv: "paging_inv s" and pg: "good_page s pg" and v: "virtual_address pg < 0x800000000000"
    and p: "\<not> frame_dirty s (physical_address pg)" "\<not> frame_kernel s (physical_address pg)"
    and free: "4 \<le> card (free_frames s)"
  shows "\<exists>s'. alloc_page s pg = Some (virtual_address pg, s') \<and> paging_inv s' \<and>
    maps_only s s' (virtual_address pg) (Some (physical_address pg)) \<and>
    console s' = console s \<and> TaskManager s' = TaskManager s \<and> cr3 s' = cr3 s \<and>
    refcount (frame_of s' (physical_address pg)) = refcount (frame_of s (physical_address pg)) + 1 \<and>
    (\<forall>g. page_aligned g \<and> g < total_mem s \<and> g \<noteq> physical_address pg \<and> g \<notin> free_frames s \<longrightarrow>
       frame_of s' g = frame_of s g)"
  by (rule alloc_page_user [OF assms]) (use pg in \<open>auto simp: good_page_def\<close>)

section \<open>Memory isolation\<close>

text \<open>
  No user address is translated to a frame of the kernel or to a frame the allocator may
  still hand out, and a frame with a nonzero count is not free.
\<close>

definition user_isolated :: "kst \<Rightarrow> bool" where
  "user_isolated s \<longleftrightarrow>
     (\<forall>v f. v < 0x800000000000 \<and> tbl (ram s) (va_path v) (cr3 s) = Some f \<longrightarrow>
        f < total_mem s \<and> \<not> frame_kernel s f \<and> f \<notin> free_frames s) \<and>
     (\<forall>g. page_aligned g \<and> refcount (frame_of s g) \<noteq> 0 \<longrightarrow> g \<notin> free_frames s)"

lemma va_path_page_base:
  obtains b where "va_path b = va_path a" "b AND 0xFFF = 0"
proof
  have d: "drop_bit n (a AND NOT 0xFFF) = drop_bit n a" if "12 \<le> n" for n
    by (rule bit_eqI) (use that in \<open>auto simp: bit_simps mask12_bit' dest: bit_imp_le_length\<close>)
  have "drop_bit 39 (a AND NOT 0xFFF) = drop_bit 39 a" "drop_bit 30 (a AND NOT 0xFFF) = drop_bit 30 a"
    "drop_bit 21 (a AND NOT 0xFFF) = drop_bit 21 a" "drop_bit 12 (a AND NOT 0xFFF) = drop_bit 12 a"
    by (rule d, simp)+
  then show "va_path (a AND NOT 0xFFF) = va_path a" by (simp only: va_path_def)
  show "(a AND NOT 0xFFF) AND 0xFFF = 0" by (rule bit_eqI) (auto simp: bit_simps)
qed

lemma maps_only_tbl:
  assumes "paging_inv s" "paging_inv s'" "cr3 s' = cr3 s" "maps_only s s' v (Some p)" "page_aligned p"
    and "tbl (ram s') (va_path a) (cr3 s) = Some f"
  shows "if va_path a = va_path v then f = p else tbl (ram s) (va_path a) (cr3 s) = Some f"
proof -
  have len: "va_path a \<noteq> []" by (metis length_va_path list.size(3) zero_neq_numeral)
  obtain b where pa: "va_path b = va_path a" and z: "b AND 0xFFF = 0" by (rule va_path_page_base)
  have "walk s' b = Some f" using assms(6) by (simp add: walk_inv [OF assms(2)] assms(3) pa z)
  moreover have "walk s' b = (if va_path a = va_path v then Some p else walk s b)"
    using assms(4) by (simp add: maps_only_def pa z)
  ultimately show ?thesis
    using z pa by (auto simp: walk_inv [OF assms(1)])
qed


end
