(* ===== verification/Sample_Machine.thy ===== *)
theory Sample_Machine
  imports Alloc
begin

text \<open>
  A concrete machine that satisfies the paging invariant: 64 KiB of memory, the tables of the
  direct map in frames 1 to 4, the first five frames marked as the kernel's. It shows that
  the hypotheses of the paging theorems can hold.
\<close>

definition sample_cell :: "u64 \<Rightarrow> u64" where
  "sample_cell a =
     (if a = 0x1800 then 0x2003 else if a = 0x2000 then 0x3003 else if a = 0x3000 then 0x4003
      else if 0x4000 \<le> a \<and> a < 0x4080 then push_bit 9 (a - 0x4000) OR 3 else 0)"

text \<open>The memory whose quadwords are given by a function of their address.\<close>

definition cell_ram :: "(u64 \<Rightarrow> u64) \<Rightarrow> ram" where
  "cell_ram c x = byte64 (c (8 * (x div 8))) (x mod 8)"

definition sample_ram :: ram where
  "sample_ram = cell_ram sample_cell"

definition sample_kst :: kst where
  "sample_kst = \<lparr>ram = sample_ram, cr3 = 0x1000, interrupts = False, PML4_Physical = 0x1000,
     Kernel_PML4_Physical = 0x1000, VirtualMemorySize = 32, total_mem = 0x10000,
     available_mem = 0x10000, PhysicalPagesUsed = 5,
     phys_frames = (\<lambda>i. \<lparr>refcount = 0, fr_flags = (if i < 5 then 0b101 else 0)\<rparr>),
     TaskManager = (\<lambda>pid. zero_task), cur_pid = 0, ActiveTSS = zero_tss, TimerWindow = 0,
     SecondsSinceBoot = 0, BiosTime = 0, Frequency = 0, tasks_enabled = False, dr0 = 0,
     console = [], ports = [], devices = (\<lambda>h p. 0)\<rparr>"

lemma sample_fields [simp]:
  "ram sample_kst = sample_ram" "cr3 sample_kst = 0x1000" "PML4_Physical sample_kst = 0x1000"
  "total_mem sample_kst = 0x10000" "VirtualMemorySize sample_kst = 32"
  "frame_of sample_kst a = \<lparr>refcount = 0, fr_flags = (if a div 0x1000 < 5 then 0b101 else 0)\<rparr>"
  by (simp_all add: sample_kst_def frame_of_def)

lemma rd64_cell_ram:
  assumes "page_aligned t" "i < 512"
  shows "rd64 (cell_ram c) (entry_at t i) = c (entry_at t i)"
proof -
  obtain k where k: "unat t = 4096 * k" using assms(1) by (rule page_alignedE)
  have "cell_ram c (entry_at t i + b) = byte64 (c (entry_at t i)) b" if b: "b < 8" for b
  proof -
    have u: "unat (entry_at t i + b) = 8 * (512 * k + unat i) + unat b"
      using unat_entry_byte [OF assms b] k by simp
    have e: "unat (entry_at t i) = 8 * (512 * k + unat i)" using unat_entry_at [OF assms] k by simp
    have b8: "unat b < 8" using b by (simp add: word_less_nat_alt)
    have "unat ((entry_at t i + b) div 8) = 512 * k + unat i" using b8 by (simp add: unat_div u)
    then have "8 * ((entry_at t i + b) div 8) = entry_at t i"
      using e unat_lt_64 [of "entry_at t i"] by (simp add: word_unat_eq_iff unat_word_ariths)
    moreover have "(entry_at t i + b) mod 8 = b"
    proof -
      have m: "(8 * m + unat b) mod 8 = unat b" for m using b8 by simp
      have n: "unat (8 :: u64) = 8" by simp
      show ?thesis by (simp only: word_unat_eq_iff unat_mod u n m)
    qed
    ultimately show ?thesis by (simp add: cell_ram_def)
  qed
  then have "rd64 (cell_ram c) (entry_at t i) = le64 (byte64 (c (entry_at t i)))"
    unfolding rd64_def by (intro le64_cong) simp
  then show ?thesis by (simp add: le64_byte64)
qed

lemma rd64_sample_ram:
  "page_aligned t \<Longrightarrow> i < 512 \<Longrightarrow> rd64 sample_ram (entry_at t i) = sample_cell (entry_at t i)"
  by (simp add: sample_ram_def rd64_cell_ram)

text \<open>An entry of the direct map.\<close>

lemma direct_entry:
  fixes i :: u64
  assumes "i < 512"
  shows "(push_bit 12 i OR 3) AND 1 \<noteq> 0" "(push_bit 12 i OR 3) AND PTE_ADDR = push_bit 12 i"
proof -
  have lt: "bit i n \<Longrightarrow> n < 9" for n using small_word_bit [of i 9 n] assms by (simp add: word_less_nat_alt)
  have "bit ((push_bit 12 i OR 3) AND 1) 0" by (simp add: bit_simps bit_numeral_word_iff)
  then show "(push_bit 12 i OR 3) AND 1 \<noteq> 0" by auto
  have "(3 :: u64) AND PTE_ADDR = 0" by (simp add: PTE_ADDR_def)
  then show "(push_bit 12 i OR 3) AND PTE_ADDR = push_bit 12 i"
    by (intro bit_eqI) (auto simp: bit.conj_disj_distrib2 page_bits dest: lt)
qed

lemma sample_steps:
  assumes "i < 512"
  shows "tbl_step sample_ram i 0x1000 = (if i = 256 then Some 0x2000 else None)"
    and "tbl_step sample_ram i 0x2000 = (if i = 0 then Some 0x3000 else None)"
    and "tbl_step sample_ram i 0x3000 = (if i = 0 then Some 0x4000 else None)"
    and "tbl_step sample_ram i 0x4000 = (if i < 16 then Some (push_bit 12 i) else None)"
proof -
  have i: "unat i < 512" using assms by (simp add: word_less_nat_alt)
  have al: "page_aligned 0x1000" "page_aligned 0x2000" "page_aligned 0x3000" "page_aligned 0x4000"
    by (simp_all add: page_aligned_def)
  have e: "unat (entry_at 0x1000 i) = 0x1000 + 8 * unat i" "unat (entry_at 0x2000 i) = 0x2000 + 8 * unat i"
    "unat (entry_at 0x3000 i) = 0x3000 + 8 * unat i" "unat (entry_at 0x4000 i) = 0x4000 + 8 * unat i"
    using al assms by (simp_all add: unat_entry_at)
  have c1: "sample_cell (entry_at 0x1000 i) = (if i = 256 then 0x2003 else 0)"
    using e i by (auto simp: sample_cell_def word_unat_eq_iff word_less_nat_alt word_le_nat_alt)
  have c2: "sample_cell (entry_at 0x2000 i) = (if i = 0 then 0x3003 else 0)"
    using e i by (auto simp: sample_cell_def word_unat_eq_iff word_less_nat_alt word_le_nat_alt)
  have c3: "sample_cell (entry_at 0x3000 i) = (if i = 0 then 0x4003 else 0)"
    using e i by (auto simp: sample_cell_def word_unat_eq_iff word_less_nat_alt word_le_nat_alt)
  have c4: "sample_cell (entry_at 0x4000 i) = (if i < 16 then push_bit 12 i OR 3 else 0)"
  proof -
    have "entry_at 0x4000 i - 0x4000 = push_bit 3 i" by (simp add: entry_at_def push_bit_eq_mult)
    then have "push_bit 9 (entry_at 0x4000 i - 0x4000) = push_bit 12 i" by simp
    moreover have "entry_at 0x4000 i \<noteq> 0x1800" "entry_at 0x4000 i \<noteq> 0x2000"
      "entry_at 0x4000 i \<noteq> 0x3000" "0x4000 \<le> entry_at 0x4000 i"
      "entry_at 0x4000 i < 0x4080 \<longleftrightarrow> i < 16"
      using e by (auto simp: word_unat_eq_iff word_less_nat_alt word_le_nat_alt)
    ultimately show ?thesis by (simp add: sample_cell_def)
  qed
  show "tbl_step sample_ram i 0x1000 = (if i = 256 then Some 0x2000 else None)"
    "tbl_step sample_ram i 0x2000 = (if i = 0 then Some 0x3000 else None)"
    "tbl_step sample_ram i 0x3000 = (if i = 0 then Some 0x4000 else None)"
    using al assms by (simp_all add: tbl_step_def rd64_sample_ram c1 c2 c3 PTE_ADDR_def)
  show "tbl_step sample_ram i 0x4000 = (if i < 16 then Some (push_bit 12 i) else None)"
    using al assms direct_entry [OF assms] by (simp add: tbl_step_def rd64_sample_ram c4)
qed

lemma tbl_Cons_step: "tbl m (i # p) t = Option.bind (tbl_step m i t) (tbl m p)"
  by (simp add: tbl_step_def Let_def)

lemma length_le_3_cases:
  "length p \<le> 3 \<Longrightarrow> p = [] \<or> (\<exists>a. p = [a]) \<or> (\<exists>a b. p = [a, b]) \<or> (\<exists>a b c. p = [a, b, c])"
  by (cases p rule: remdups_adj.cases) (auto simp: le_Suc_eq length_Suc_conv)

lemma sample_tables:
  "length p \<le> 3 \<Longrightarrow> idx_ok p \<Longrightarrow> tbl sample_ram p 0x1000 = Some t \<longleftrightarrow>
    (p, t) \<in> {([], 0x1000), ([256], 0x2000), ([256, 0], 0x3000), ([256, 0, 0], 0x4000)}"
  by (drule length_le_3_cases, elim disjE exE)
    (auto simp: tbl_Cons_step sample_steps simp del: tbl.simps(2) split: if_splits)

lemma sample_is_table: "is_table sample_ram 0x1000 t \<longleftrightarrow> t \<in> {0x1000, 0x2000, 0x3000, 0x4000}"
proof
  assume "is_table sample_ram 0x1000 t"
  then obtain p where "length p \<le> 3" "idx_ok p" "tbl sample_ram p 0x1000 = Some t"
    by (auto simp: is_table_def)
  then show "t \<in> {0x1000, 0x2000, 0x3000, 0x4000}" by (auto simp: sample_tables)
next
  assume "t \<in> {0x1000, 0x2000, 0x3000, 0x4000}"
  then show "is_table sample_ram 0x1000 t"
    using is_tableI [of sample_ram "[]" "0x1000" t] is_tableI [of sample_ram "[256]" "0x1000" t]
      is_tableI [of sample_ram "[256, 0]" "0x1000" t] is_tableI [of sample_ram "[256, 0, 0]" "0x1000" t]
    by (auto simp: sample_tables simp del: tbl.simps)
qed

text \<open>The indices of the first 2 MiB of the direct map.\<close>

lemma direct_path:
  assumes "page_aligned x" "x < 0x200000"
  shows "va_path (x + VIRTUAL_MEMORY_BARRIER) = [256, 0, 0, drop_bit 12 x]"
    "drop_bit 12 x < 512" "push_bit 12 (drop_bit 12 x) = x"
proof -
  obtain k where k: "unat x = 4096 * k" using assms(1) by (rule page_alignedE)
  have k512: "k < 512" using assms(2) k by (simp add: word_less_nat_alt)
  have d: "unat (drop_bit n w) = unat w div 2 ^ n" for n and w :: u64
    using unat_drop_bit_eq [of n w] by (simp add: drop_bit_eq_div)
  have m: "unat (w AND 0x1FF) = unat w mod 512" for w :: u64
  proof -
    have "w AND 0x1FF = take_bit 9 w" by (simp add: take_bit_eq_mask mask_eq_exp_minus_1)
    then have "unat (w AND 0x1FF) = take_bit 9 (unat w)" by (simp only: unsigned_take_bit_eq)
    then show ?thesis by (simp add: take_bit_eq_mod)
  qed
  have u: "unat (x + VIRTUAL_MEMORY_BARRIER) = 4096 * k + 18446603336221196288"
    using k k512 by (simp add: VIRTUAL_MEMORY_BARRIER_def unat_word_ariths)
  have D: "(4096 * k + a * q) div a = q" if "4096 * k < a" for a q :: nat using that by simp
  have "4096 * k + 18446603336221196288 = 4096 * (4503565267632128 + k)" by simp
  then have d12: "(4096 * k + 18446603336221196288) div 4096 = 4503565267632128 + k" by simp
  have d39: "(4096 * k + 18446603336221196288) div 549755813888 = 33554176"
    using D [of 549755813888 33554176] k512 by simp
  have d30: "(4096 * k + 18446603336221196288) div 1073741824 = 17179738112"
    using D [of 1073741824 17179738112] k512 by simp
  have d21: "(4096 * k + 18446603336221196288) div 2097152 = 8796025913344"
    using D [of 2097152 8796025913344] k512 by simp
  have "(512 * 8796025913344 + k) mod 512 = k mod 512" by (rule mod_mult_self4)
  then have "(4503565267632128 + k) mod 512 = k" using k512 by simp
  note div = d12 d39 d30 d21 this
  show "va_path (x + VIRTUAL_MEMORY_BARRIER) = [256, 0, 0, drop_bit 12 x]"
    by (simp add: va_path_def word_unat_eq_iff m d u k div)
  show "drop_bit 12 x < 512" using k512 by (simp add: word_less_nat_alt d k)
  show "push_bit 12 (drop_bit 12 x) = x"
    using k512 by (simp add: word_unat_eq_iff push_bit_eq_mult unat_word_ariths d k)
qed

lemma sample_path:
  assumes "page_aligned x" "x < 0x10000"
  shows "va_path (x + VIRTUAL_MEMORY_BARRIER) = [256, 0, 0, drop_bit 12 x]" "drop_bit 12 x < 16"
    "push_bit 12 (drop_bit 12 x) = x"
proof -
  have "x < 0x200000" using assms(2) by (simp add: word_less_nat_alt)
  note d = direct_path [OF assms(1) this]
  show "va_path (x + VIRTUAL_MEMORY_BARRIER) = [256, 0, 0, drop_bit 12 x]" "push_bit 12 (drop_bit 12 x) = x"
    by (rule d)+
  show "drop_bit 12 x < 16"
    using assms(2) unat_drop_bit_eq [of 12 x] by (simp add: word_less_nat_alt drop_bit_eq_div)
qed

lemma sample_paging_inv: "paging_inv sample_kst"
  unfolding paging_inv_def
proof (intro conjI allI impI)
  show "frame_addr (cr3 sample_kst)" by (simp add: frame_addr_def PTE_ADDR_def)
  show "pt_tree (ram sample_kst) (cr3 sample_kst)"
    by (auto simp: pt_tree_def page_aligned_def sample_tables)
  fix t
  assume "is_table (ram sample_kst) (cr3 sample_kst) t"
  then have "t \<in> {0x1000, 0x2000, 0x3000, 0x4000}" by (simp add: sample_is_table)
  then show "t < total_mem sample_kst" "frame_kernel sample_kst t"
    by (auto simp: frame_kernel_def)
next
  show "direct_map sample_kst"
    unfolding direct_map_def
  proof (intro allI impI)
    fix x assume "page_aligned x \<and> x < total_mem sample_kst"
    then have x: "page_aligned x" "x < 0x10000" by simp_all
    have "(x + VIRTUAL_MEMORY_BARRIER) AND 0xFFF = 0"
      using page_aligned_add [OF x(1) page_aligned_BARRIER] by (simp add: page_aligned_def)
    moreover have "drop_bit 12 x < 512" using sample_path(2) [OF x] by (simp add: word_less_nat_alt)
    ultimately show "walk sample_kst (x + VIRTUAL_MEMORY_BARRIER) = Some x"
      using sample_path [OF x]
      by (simp add: walk_def mmu_walk_def tbl_Cons_step sample_steps PTE_ADDR_def del: tbl.simps(2))
  qed
qed simp_all

lemma sample_free:
  "f \<in> free_frames sample_kst \<longleftrightarrow> page_aligned f \<and> f < 0x10000 \<and> 5 \<le> f div 0x1000"
  by (auto simp: free_frames_def free_frame_def linorder_not_less [symmetric])

lemma sample_free_card: "4 \<le> card (free_frames sample_kst)"
proof -
  have "{0x8000, 0x9000, 0xA000, 0xB000} \<subseteq> free_frames sample_kst"
    by (auto simp: sample_free page_aligned_def)
  then have "card {0x8000, 0x9000, 0xA000, 0xB000 :: u64} \<le> card (free_frames sample_kst)"
    by (intro card_mono) simp_all
  then show ?thesis by simp
qed

section \<open>Allocator and entry format on the sample machine\<close>

theorem FindNextFreePhysical_lowest_free_witness: "FindNextFreePhysical sample_kst = Some 0x5000"
proof -
  have m: "0x5000 \<in> free_frames sample_kst" by (simp add: sample_free page_aligned_def)
  have "0x5000 \<le> f" if "f \<in> free_frames sample_kst" for f
  proof -
    have "5 \<le> unat f div 4096" using that by (simp add: sample_free word_le_nat_alt unat_div)
    then show ?thesis by (simp add: word_le_nat_alt)
  qed
  then have "Min (free_frames sample_kst) = 0x5000" using m by (intro Min_eqI) simp_all
  then show ?thesis using FindNextFreePhysical_lowest_free [of sample_kst] m by auto
qed

theorem FindNextFreePhysicalContinuous_block_witness:
  "\<exists>f. FindNextFreePhysicalContinuous sample_kst 2 = Some f \<and>
    (f = 0 \<or> (f < 0x10000 \<and> (\<forall>i < 2. free_frame sample_kst (f + 0x1000 * of_nat i))))"
  using FindNextFreePhysicalContinuous_block [of sample_kst 2] by simp

theorem ParsePTE_new_entry_witness:
  "ParsePTE 0x1000 0x4028 (new_entry \<lparr>pg_flags = 3, pg_Execute_Disable = True, virtual_address = 0,
     physical_address = 0x5000\<rparr>) = \<lparr>pg_flags = 3, pg_Execute_Disable = True,
     virtual_address = 0x3028, physical_address = 0x5000\<rparr>"
  using ParsePTE_new_entry [of "\<lparr>pg_flags = 3, pg_Execute_Disable = True, virtual_address = 0,
     physical_address = 0x5000\<rparr>" "0x1000" "0x4028"]
  by (simp add: frame_addr_def PTE_ADDR_def)

end
