(* ===== verification/Address_Space.thy ===== *)
theory Address_Space
  imports Sample_Machine
begin

text \<open>
  The other entry points of the page allocator: translating an address in software, freeing
  a page, allocating a page for the kernel, and building the tables of a new address space.
\<close>

section \<open>phys_addr\<close>

lemma tbl_snoc_SomeD:
  "tbl m (p @ [i]) root = Some t \<Longrightarrow> \<exists>T. tbl m p root = Some T \<and> tbl_step m i T = Some t"
  by (simp add: tbl_snoc bind_eq_Some_conv)

lemma CalculatePagePhysicalEntryAddress_present:
  assumes inv: "paging_inv s" and ok: "idx_ok (entry_path e)"
    and T: "tbl (ram s) [ucast (PML4_Entry e), ucast (PDPT_Entry e), ucast (PD_Entry e)] (cr3 s) = Some T"
  shows "CalculatePagePhysicalEntryAddress s e = Some (dmap (entry_at T (ucast (PT_Entry e))), s)"
proof -
  let ?i = "ucast (PML4_Entry e) :: u64" and ?j = "ucast (PDPT_Entry e) :: u64"
    and ?k = "ucast (PD_Entry e) :: u64"
  have i: "?i < 512" "?j < 512" "?k < 512" using ok by simp_all
  obtain t2 where t2: "tbl (ram s) [?i, ?j] (cr3 s) = Some t2"
    using T tbl_snoc_SomeD [of "ram s" "[?i, ?j]" ?k "cr3 s" T] by (auto simp del: tbl.simps(2))
  obtain t1 where t1: "tbl (ram s) [?i] (cr3 s) = Some t1"
    using t2 tbl_snoc_SomeD [of "ram s" "[?i]" ?j "cr3 s" t2] by (auto simp del: tbl.simps(2))
  have E: "EnsureEntry s (dmap (entry_at (cr3 s) ?i)) fl True = Some s"
    "EnsureEntry s (dmap (entry_at t1 ?j)) fl True = Some s"
    "EnsureEntry s (dmap (entry_at t2 ?k)) fl True = Some s" for fl
    using EnsureEntry_present [OF inv, of "[]" "cr3 s" ?i t1] EnsureEntry_present [OF inv t1, of ?j t2]
      EnsureEntry_present [OF inv t2, of ?k T] i t1 t2 T
    by (simp_all del: tbl.simps(2))
  obtain e1 e2 e3 where "vread64 s (dmap (entry_at (cr3 s) ?i)) = Some e1" "e1 AND PTE_ADDR = t1"
    "vread64 s (dmap (entry_at t1 ?j)) = Some e2" "e2 AND PTE_ADDR = t2"
    "vread64 s (dmap (entry_at t2 ?k)) = Some e3" "e3 AND PTE_ADDR = T"
    using entry_read [OF inv, of "[]" "cr3 s" ?i t1] entry_read [OF inv t1, of ?j t2]
      entry_read [OF inv t2, of ?k T] i t1 t2 T
    by (auto simp del: tbl.simps(2))
  then show ?thesis
    using E paging_invD(1) [OF inv]
    by (simp add: CalculatePagePhysicalEntryAddress_def entry_pointer_dmap Let_def)
qed

lemma page_base_ExtractPageEntries:
  "entry_path (ExtractPageEntries (v AND NOT 0xFFF)) = va_path v"
proof -
  have d: "drop_bit n (v AND NOT 0xFFF) = drop_bit n v" if "12 \<le> n" for n
    by (rule bit_eqI) (use that in \<open>auto simp: bit_simps mask12_bit' dest: bit_imp_le_length\<close>)
  have "drop_bit 39 (v AND NOT 0xFFF) = drop_bit 39 v" "drop_bit 30 (v AND NOT 0xFFF) = drop_bit 30 v"
    "drop_bit 21 (v AND NOT 0xFFF) = drop_bit 21 v" "drop_bit 12 (v AND NOT 0xFFF) = drop_bit 12 v"
    by (rule d, simp)+
  then show ?thesis unfolding va_path_ExtractPageEntries [symmetric] by (simp only: va_path_def)
qed

lemma phys_addr_walk:
  assumes inv: "paging_inv s" and w: "walk s v = Some pa"
  shows "phys_addr s v = Some (pa, s)"
proof -
  define b where "b = v AND NOT 0xFFF"
  let ?E = "ExtractPageEntries b"
  have path: "entry_path ?E = va_path v" unfolding b_def by (rule page_base_ExtractPageEntries)
  let ?p = "[ucast (PML4_Entry ?E), ucast (PDPT_Entry ?E), ucast (PD_Entry ?E)] :: u64 list"
  let ?i = "ucast (PT_Entry ?E) :: u64"
  have sp: "va_path v = ?p @ [?i]" using path by simp
  have ok: "idx_ok (entry_path ?E)" unfolding path by simp
  obtain f where f: "tbl (ram s) (?p @ [?i]) (cr3 s) = Some f" "pa = f OR (v AND 0xFFF)"
    using w unfolding walk_inv [OF inv] sp by auto
  obtain T where T: "tbl (ram s) ?p (cr3 s) = Some T" "tbl_step (ram s) ?i T = Some f"
    using tbl_snoc_SomeD [OF f(1)] by blast
  have Tt: "page_aligned T" "T < total_mem s" using paging_inv_table [OF inv T(1)] ok by simp_all
  have e: "vread64 s (dmap (entry_at T ?i)) = Some (rd64 (ram s) (entry_at T ?i))"
    using entry_access(1) [OF inv Tt, of ?i] ok by simp
  have pte: "rd64 (ram s) (entry_at T ?i) AND PTE_ADDR = f"
    using T(2) by (auto simp: tbl_step_def Let_def split: if_splits)
  have off: "ucast (ucast (v AND 0xFFF) :: u16) = v AND 0xFFF"
    by (rule bit_eqI) (auto simp: page_bits)
  show ?thesis
    using CalculatePagePhysicalEntryAddress_present [OF inv ok T(1)] e pte f(2)
    unfolding phys_addr_def Let_def b_def [symmetric] off by simp
qed

text \<open>C9. For a mapped address, \<open>phys_addr\<close> returns what the processor's own translation gives,
  and changes nothing.\<close>

theorem phys_addr_is_walk:
  assumes "paging_inv s" and "walk s v = Some pa"
  shows "phys_addr s v = Some (pa, s)"
  by (rule phys_addr_walk [OF assms])

section \<open>free_page\<close>

text \<open>The frame bookkeeping of \<open>free_page\<close>.\<close>

definition release_frame :: "kst \<Rightarrow> u64 \<Rightarrow> kst" where
  "release_frame s p =
     (let s = (if refcount (frame_of s p) = 1 then mem_ClearBit s p else s)
      in set_frame s p ((frame_of s p)\<lparr>refcount := refcount (frame_of s p) - 1\<rparr>))"

lemma release_frame_fields [simp]:
  "ram (release_frame s p) = ram s" "cr3 (release_frame s p) = cr3 s"
  "PML4_Physical (release_frame s p) = PML4_Physical s" "total_mem (release_frame s p) = total_mem s"
  "VirtualMemorySize (release_frame s p) = VirtualMemorySize s"
  "console (release_frame s p) = console s" "TaskManager (release_frame s p) = TaskManager s"
  by (simp_all add: release_frame_def Let_def mem_ClearBit_def set_frame_def set_frame_flags_def)

lemma frame_of_release_frame:
  assumes "page_aligned p" "page_aligned g"
  shows "frame_of (release_frame s p) g =
    (if g = p then \<lparr>refcount = refcount (frame_of s p) - 1,
       fr_flags = (if refcount (frame_of s p) = 1 then fr_flags (frame_of s p) AND NOT 1
                   else fr_flags (frame_of s p))\<rparr>
     else frame_of s g)"
proof -
  have u: "frame_of (s\<lparr>PhysicalPagesUsed := n\<rparr>) = frame_of s" for s :: kst and n
    by (simp add: frame_of_def fun_eq_iff)
  show ?thesis
    using assms
    by (cases "frame_of s p")
      (auto simp: release_frame_def Let_def mem_ClearBit_def frame_of_set_frame
        frame_of_set_frame_flags u)
qed

lemma mapped_tables:
  assumes inv: "paging_inv s" and w: "walk s v \<noteq> None"
  obtains T where
    "CalculatePagePhysicalEntryAddress s (ExtractPageEntries v) =
       Some (dmap (entry_at T (ucast (PT_Entry (ExtractPageEntries v)))), s)"
    "tbl (ram s) (butlast (va_path v)) (cr3 s) = Some T" "dmap (entry_at T (last (va_path v))) \<noteq> 0"
proof -
  let ?E = "ExtractPageEntries v"
  let ?p = "[ucast (PML4_Entry ?E), ucast (PDPT_Entry ?E), ucast (PD_Entry ?E)] :: u64 list"
  let ?i = "ucast (PT_Entry ?E) :: u64"
  have sp: "va_path v = ?p @ [?i]" by (simp add: va_path_ExtractPageEntries)
  have ok: "idx_ok (entry_path ?E)" using idx_ok_va_path [of v] by (simp add: sp)
  obtain f where "tbl (ram s) (?p @ [?i]) (cr3 s) = Some f"
    using w unfolding walk_inv [OF inv] sp by auto
  then obtain T where T: "tbl (ram s) ?p (cr3 s) = Some T" using tbl_snoc_SomeD by blast
  have Tt: "page_aligned T" "T < total_mem s" using paging_inv_table [OF inv T] ok by simp_all
  have "entry_at T ?i < 0x800000000000"
    using Tt(2) paging_invD(3) [OF inv] ok by (intro page_offset_lt [OF Tt(1)]) simp_all
  then have nz: "dmap (entry_at T ?i) \<noteq> 0" by (rule dmap_nonzero)
  show thesis
    by (rule that [OF CalculatePagePhysicalEntryAddress_present [OF inv ok T]])
      (use T nz in \<open>simp_all add: sp del: tbl.simps(2)\<close>)
qed

lemma free_page_mapped:
  assumes inv: "paging_inv s" and v: "virtual_address pg < 0x800000000000"
    and w: "walk s (virtual_address pg) \<noteq> None" and p: "page_aligned (physical_address pg)"
    and guard: "ucast (PT_Entry (ExtractPageEntries (virtual_address pg))) *
        ucast (PD_Entry (ExtractPageEntries (virtual_address pg))) + 2 \<le> VirtualMemorySize s"
  obtains s' where "free_page s pg = Some (virtual_address pg, s')" "paging_inv s'"
    "maps_only s s' (virtual_address pg) None" "cr3 s' = cr3 s" "total_mem s' = total_mem s"
    "console s' = console s"
    "\<forall>g. frame_of s' g = frame_of (release_frame s (physical_address pg)) g"
proof -
  let ?v = "virtual_address pg" and ?p = "physical_address pg"
  let ?E = "ExtractPageEntries ?v"
  let ?q = "[ucast (PML4_Entry ?E), ucast (PDPT_Entry ?E), ucast (PD_Entry ?E)] :: u64 list"
  let ?i = "ucast (PT_Entry ?E) :: u64"
  define r where "r = release_frame s ?p"
  have sp: "va_path ?v = ?q @ [?i]" by (simp add: va_path_ExtractPageEntries)
  have ok: "idx_ok (entry_path ?E)" using idx_ok_va_path [of ?v] by (simp add: sp)
  have K: "frame_kernel r t" if "is_table (ram s) (cr3 s) t" for t
  proof -
    have a: "page_aligned t" using that paging_invD(6) [OF inv] by (rule is_table_aligned)
    have "frame_kernel s t" using that inv by (simp add: paging_inv_def)
    then show ?thesis
      using frame_of_release_frame [OF p a, of s]
      by (auto simp: r_def frame_flag_bits bit_and_iff bit_not_iff bit_1_iff)
  qed
  have inv_r: "paging_inv r"
    by (rule paging_inv_same_walks [OF inv _ _ _ _ K]) (simp_all add: r_def same_walks_def)
  have wr: "walk r ?v \<noteq> None" using w by (simp add: r_def walk_def)
  obtain T where c: "CalculatePagePhysicalEntryAddress r ?E = Some (dmap (entry_at T ?i), r)"
    "tbl (ram r) ?q (cr3 r) = Some T" "dmap (entry_at T ?i) \<noteq> 0"
    using mapped_tables [OF inv_r wr] unfolding sp by (metis butlast_snoc last_snoc)
  have safe: "\<forall>x. page_aligned x \<and> x < total_mem r \<and> va_path (x + VIRTUAL_MEMORY_BARRIER) = ?q @ [?i] \<longrightarrow>
      0 AND 1 \<noteq> (0 :: u64) \<and> 0 AND PTE_ADDR = x"
    using user_not_direct [OF v paging_invD(3) [OF inv_r]] unfolding sp by auto
  have q: "length ?q = 3" "idx_ok ?q" "?i < 512" using ok by simp_all
  note l = write_leaf [OF inv_r c(2) q safe]
  let ?s = "r\<lparr>ram := wr64 (ram r) (entry_at T ?i) 0\<rparr>"
  have m: "maps_only r ?s ?v None"
    by (rule leaf_maps_only [OF inv_r l(2)]) (use l(3) in \<open>simp_all add: sp\<close>)
  show thesis
  proof (rule that)
    have n: "\<not> VirtualMemorySize s < ucast (PT_Entry ?E) * ucast (PD_Entry ?E) + 2"
      using guard by (simp add: linorder_not_less)
    have rel: "(let s = (if refcount (frame_of s ?p) = 1 then mem_ClearBit s ?p else s)
        in set_frame s ?p ((frame_of s ?p)\<lparr>refcount := refcount (frame_of s ?p) - 1\<rparr>)) = r"
      by (simp add: r_def release_frame_def)
    show "free_page s pg = Some (?v, ?s)"
      using n c(1,3) l(1) rel by (simp add: free_page_def Let_def)
    show "maps_only s ?s ?v None" by (rule maps_only_same_ram [OF m]) (simp_all add: r_def)
    show "\<forall>g. frame_of ?s g = frame_of (release_frame s ?p) g"
      by (simp add: frame_of_def r_def)
  qed (use l(2) in \<open>simp_all add: r_def\<close>)
qed


text \<open>The guard of \<open>free_page\<close> multiplies two table indices and compares the product with
  the number of page tables: for every other page, freeing returns \<open>NULL\<close> and the page stays
  mapped and its frame in use.\<close>

theorem free_page_guard_leaks:
  assumes inv: "paging_inv s" and pg: "good_page s pg" and v: "virtual_address pg < 0x800000000000"
    and p: "\<not> frame_dirty s (physical_address pg)" "\<not> frame_kernel s (physical_address pg)"
    and free: "4 \<le> card (free_frames s)"
    and guard: "VirtualMemorySize s < ucast (PT_Entry (ExtractPageEntries (virtual_address pg))) *
        ucast (PD_Entry (ExtractPageEntries (virtual_address pg))) + 2"
  shows "\<exists>s1. alloc_page s pg = Some (virtual_address pg, s1) \<and> free_page s1 pg = Some (0, s1) \<and>
    walk s1 (virtual_address pg) = Some (physical_address pg OR (virtual_address pg AND 0xFFF))"
proof -
  obtain s1 where "alloc_page s pg = Some (virtual_address pg, s1)"
    "maps_only s s1 (virtual_address pg) (Some (physical_address pg))"
    "VirtualMemorySize s1 = VirtualMemorySize s"
    by (rule alloc_page_user [OF inv pg v p free]) simp
  then show ?thesis using guard by (simp add: maps_only_def free_page_def Let_def)
qed

section \<open>The theorems on the sample machine\<close>

definition sample_page :: page_details where
  "sample_page = \<lparr>pg_flags = USER_FLAGS, pg_Execute_Disable = False,
     virtual_address = 0x400000, physical_address = 0x8000\<rparr>"

definition sample_page_far :: page_details where
  "sample_page_far = sample_page\<lparr>virtual_address := 0x3F0000\<rparr>"

lemma sample_page_fields [simp]:
  "virtual_address sample_page = 0x400000" "physical_address sample_page = 0x8000"
  "virtual_address sample_page_far = 0x3F0000" "physical_address sample_page_far = 0x8000"
  by (simp_all add: sample_page_def sample_page_far_def)

lemma sample_page_good: "good_page sample_kst sample_page" "good_page sample_kst sample_page_far"
  by (simp_all add: good_page_def sample_page_def sample_page_far_def USER_FLAGS_def page_aligned_def)

lemma sample_page_clean:
  "\<not> frame_dirty sample_kst 0x8000" "\<not> frame_kernel sample_kst 0x8000" "0x8000 \<in> free_frames sample_kst"
  by (simp_all add: frame_dirty_def frame_kernel_def sample_free page_aligned_def)

lemma sample_user_unmapped:
  assumes "v < 0x800000000000"
  shows "tbl sample_ram (va_path v) 0x1000 = None"
proof -
  have "\<not> bit (drop_bit 39 v AND 0x1FF) 8"
    using small_word_bit [of v 47 47] assms
    by (auto simp: bit_and_iff bit_drop_bit_eq word_less_nat_alt)
  moreover have "bit (256 :: u64) 8" by (simp add: bit_numeral_word_iff)
  ultimately have "drop_bit 39 v AND 0x1FF \<noteq> 256" by metis
  then show ?thesis
    using and_mask_less_64 [of "drop_bit 39 v"]
    by (simp add: va_path_def tbl_Cons_step sample_steps del: tbl.simps(2))
qed

lemma sample_isolated: "user_isolated sample_kst"
  by (auto simp: user_isolated_def sample_user_unmapped)

theorem alloc_page_maps_witness:
  "\<exists>s'. alloc_page sample_kst sample_page = Some (0x400000, s') \<and> walk s' 0x400123 = Some 0x8123"
  using alloc_page_maps [OF sample_paging_inv sample_page_good(1)]
  by (auto simp: sample_page_clean sample_free_card maps_only_def va_path_def)


lemma sample_direct_walk: "walk sample_kst 0xffff800000005123 = Some 0x5123"
proof -
  have "walk sample_kst (0x5000 + 0x123 + VIRTUAL_MEMORY_BARRIER) = Some (0x5000 + 0x123)"
    by (rule direct_map_offset [OF paging_invD(7) [OF sample_paging_inv] paging_invD(5) [OF sample_paging_inv]])
      (simp_all add: page_aligned_def)
  then show ?thesis by (simp add: VIRTUAL_MEMORY_BARRIER_def)
qed

theorem phys_addr_is_walk_witness:
  "phys_addr sample_kst 0xffff800000005123 = Some (0x5123, sample_kst)"
  by (rule phys_addr_is_walk [OF sample_paging_inv sample_direct_walk])

lemma sample_fresh: "walk sample_kst 0x400000 = None"
  using sample_user_unmapped [of "0x400000"] by (simp add: walk_inv [OF sample_paging_inv])


theorem free_page_guard_leaks_witness:
  "\<exists>s1. alloc_page sample_kst sample_page_far = Some (0x3F0000, s1) \<and>
     free_page s1 sample_page_far = Some (0, s1) \<and> walk s1 0x3F0000 = Some 0x8000"
  using free_page_guard_leaks [OF sample_paging_inv sample_page_good(2)]
  by (auto simp: sample_page_clean sample_free_card ExtractPageEntries_def)

end
