(* ===== verification/Tasks.thy ===== *)
theory Tasks
  imports Address_Space
begin

text \<open>
  The task table of \<open>Userland/Tasks.c\<close>: creating and ending tasks, the regions a task may
  name in a system call, its user stack, and giving its memory back. The table is a map from
  PIDs to entries; the code never bounds a PID, and an entry outside 0 to 511 stands for the
  memory beyond the C array.
\<close>

definition TASK_COUNT :: int where "TASK_COUNT = 512"

definition NULL_PROCESS_STATE :: u8 where "NULL_PROCESS_STATE = 0x00"
definition CREATION_PROCESS_STATE :: u8 where "CREATION_PROCESS_STATE = 0x01"
definition READY_PROCESS_STATE :: u8 where "READY_PROCESS_STATE = 0x02"
definition WAITING_PROCESS_STATE :: u8 where "WAITING_PROCESS_STATE = 0x03"
definition KILL_PROCESS_STATE :: u8 where "KILL_PROCESS_STATE = 0x04"

lemmas process_states = NULL_PROCESS_STATE_def CREATION_PROCESS_STATE_def READY_PROCESS_STATE_def
  WAITING_PROCESS_STATE_def KILL_PROCESS_STATE_def

definition WAITING_REASON_NULL :: u16 where "WAITING_REASON_NULL = 0x00"
definition WAITING_REASON_INPUT :: u16 where "WAITING_REASON_INPUT = 0x01"
definition WAITING_REASON_SLEEP :: u16 where "WAITING_REASON_SLEEP = 0x02"
definition WAITING_REASON_CHILD :: u16 where "WAITING_REASON_CHILD = 0x03"

text \<open>The members of \<open>enum ChildWaitReasons\<close>, stored as an unsigned number.\<close>

definition CHILD_WAIT_EXIT :: u32 where "CHILD_WAIT_EXIT = 0"
definition CHILD_WAIT_WAIT :: u32 where "CHILD_WAIT_WAIT = 1"
definition CHILD_WAIT_OPEN :: u32 where "CHILD_WAIT_OPEN = 2"
definition CHILD_WAIT_WRITE :: u32 where "CHILD_WAIT_WRITE = 3"
definition CHILD_WAIT_READ :: u32 where "CHILD_WAIT_READ = 4"

text \<open>Assignments to fields of \<open>TaskManager[pid]\<close>.\<close>

definition upd_task :: "kst \<Rightarrow> int \<Rightarrow> (task \<Rightarrow> task) \<Rightarrow> kst" where
  "upd_task s pid f = s\<lparr>TaskManager := (TaskManager s)(pid := f (TaskManager s pid))\<rparr>"

definition upd_regs :: "kst \<Rightarrow> int \<Rightarrow> (regs \<Rightarrow> regs) \<Rightarrow> kst" where
  "upd_regs s pid f = upd_task s pid (\<lambda>t. t\<lparr>SavedRegisters := f (SavedRegisters t)\<rparr>)"

definition upd_mem :: "kst \<Rightarrow> int \<Rightarrow> (mem_def \<Rightarrow> mem_def) \<Rightarrow> kst" where
  "upd_mem s pid f = upd_task s pid (\<lambda>t. t\<lparr>MemoryData := f (MemoryData t)\<rparr>)"

definition set_state :: "kst \<Rightarrow> int \<Rightarrow> u8 \<Rightarrow> kst" where
  "set_state s pid st = upd_task s pid (\<lambda>t. t\<lparr>ProcessState := st\<rparr>)"

definition task_regs :: "kst \<Rightarrow> int \<Rightarrow> regs" where
  "task_regs s pid = SavedRegisters (TaskManager s pid)"

definition TASKMGR_get_current :: "kst \<Rightarrow> int" where
  "TASKMGR_get_current s = cur_pid s"

definition TASKMGR_set_current :: "kst \<Rightarrow> int \<Rightarrow> kst" where
  "TASKMGR_set_current s pid = s\<lparr>cur_pid := pid\<rparr>"

definition KERNEL_T :: nat where "KERNEL_T = 0"
definition BASIC_T :: nat where "BASIC_T = 1"

section \<open>The regions of a task\<close>

definition get_mem_low_high :: "u64 \<Rightarrow> u64 \<Rightarrow> bool \<Rightarrow> u64" where
  "get_mem_low_high vaddr page_count fwd =
     (let offset = (if fwd then 0x1000 else - 0x1000) in vaddr + page_count * offset)"

definition mem_access_ok :: "kst \<Rightarrow> u64 \<Rightarrow> int \<Rightarrow> bool" where
  "mem_access_ok s vaddr pid =
     (let m = task_mem s pid;
          in_code_region = vaddr > BaseVirtualAddress m \<and>
            vaddr < get_mem_low_high (BaseVirtualAddress m) (PageCount m) True;
          in_stack_region = vaddr < StackBaseVirtualAddress m + 0x1000 \<and>
            vaddr > get_mem_low_high (StackBaseVirtualAddress m) (StackPageCount m) False;
          in_kernel_stack_region = vaddr < KernelStackBaseVirtualAddress m + 0x1000 \<and>
            vaddr > get_mem_low_high (KernelStackBaseVirtualAddress m) (KernelStackPageCount m) False
      in in_code_region \<or> in_stack_region \<or> in_kernel_stack_region)"

definition copy_from_user :: "kst \<Rightarrow> u64 \<Rightarrow> u64 \<Rightarrow> u64 \<Rightarrow> (u64 \<times> kst) option" where
  "copy_from_user s dest src n =
     (if \<not> mem_access_ok s src (cur_pid s) then Some (n, s)
      else map_option (\<lambda>s. (0, s)) (memcpy s dest src n))"

text \<open>
  The loop of \<open>strcpy_from_user\<close>, with \<open>fuel\<close> bytes still to go until \<open>count\<close>. The counter is
  an \<open>int\<close>, so it cannot pass \<open>2^31 - 1\<close>.
\<close>

primrec strcpy_loop :: "nat \<Rightarrow> kst \<Rightarrow> u64 \<Rightarrow> u64 \<Rightarrow> nat \<Rightarrow> (nat \<times> kst) option" where
  "strcpy_loop 0 s cdest cur i = do { c \<leftarrow> vread8 s cur; Some (i, s) }"
| "strcpy_loop (Suc fuel) s cdest cur i = do {
     c \<leftarrow> vread8 s cur;
     if c = 0 then Some (i, s)
     else if i = 0x7FFFFFFF then None
     else do { s \<leftarrow> vwrite8 s cdest c; strcpy_loop fuel s (cdest + 1) (cur + 1) (i + 1) } }"

definition strcpy_from_user :: "kst \<Rightarrow> u64 \<Rightarrow> u64 \<Rightarrow> u64 \<Rightarrow> (u64 \<times> kst) option" where
  "strcpy_from_user s dest src count =
     (if \<not> mem_access_ok s src (cur_pid s) then Some (0, s)
      else map_option (\<lambda>(i, s). (of_nat i, s)) (strcpy_loop (unat count) s dest src 0))"

section \<open>Creating and ending tasks\<close>

definition KillTask :: "kst \<Rightarrow> int \<Rightarrow> kst" where
  "KillTask s PID = set_state s PID KILL_PROCESS_STATE"

definition FindFreePID :: "kst \<Rightarrow> int" where
  "FindFreePID s =
     (case List.find (\<lambda>i. \<not> task_Exists (TaskManager s i)) (map int [0..<512]) of
        Some i \<Rightarrow> i | None \<Rightarrow> TASK_COUNT + 1)"

text \<open>\<open>FindFreeFileDescriptor\<close> has no \<open>return\<close> when every descriptor is in use.\<close>

definition FindFreeFileDescriptor :: "kst \<Rightarrow> int \<Rightarrow> nat option" where
  "FindFreeFileDescriptor s PID =
     List.find (\<lambda>i. \<not> fd_used (Descriptors (TaskManager s PID) ! i)) [0..<64]"

definition new_task :: "u64 \<Rightarrow> u64 \<Rightarrow> u64 \<Rightarrow> u8 \<Rightarrow> u64 \<Rightarrow> u64 \<Rightarrow> task" where
  "new_task base_vaddr entry_point page_count maxticks stack_start pml4 =
     zero_task\<lparr>MemoryData := zero_mem_def\<lparr>BaseVirtualAddress := base_vaddr, PageCount := page_count\<rparr>,
       MaxTicks := maxticks,
       SavedRegisters := zero_regs\<lparr>rg_cs := 0x18 OR 0x3, rg_rsp := stack_start,
         rg_rbp := stack_start, rg_rip := entry_point, rg_ss := 0x20 OR 0x3\<rparr>,
       Base_PML4 := pml4,
       Descriptors := (replicate 64 zero_fdesc)[0 := zero_fdesc\<lparr>fd_used := True\<rparr>,
         1 := zero_fdesc\<lparr>fd_used := True\<rparr>],
       task_Exists := True\<rparr>"

definition RegisterTask :: "kst \<Rightarrow> u64 \<Rightarrow> u64 \<Rightarrow> u64 \<Rightarrow> u8 \<Rightarrow> u64 \<Rightarrow> u64 \<Rightarrow> int \<times> kst" where
  "RegisterTask s base_vaddr entry_point page_count maxticks stack_start pml4 =
     (let s = say s (VirtualPrint KERNEL_T ''[task.reg] reg''); free = FindFreePID s
      in if free = TASK_COUNT + 1 then (1, s)
         else (free, upd_task s free
                (\<lambda>_. new_task base_vaddr entry_point page_count maxticks stack_start pml4)))"

definition RegisterTaskStrict ::
  "kst \<Rightarrow> u64 \<Rightarrow> u64 \<Rightarrow> u64 \<Rightarrow> u8 \<Rightarrow> u64 \<Rightarrow> u64 \<Rightarrow> int \<Rightarrow> int \<times> kst" where
  "RegisterTaskStrict s base_vaddr entry_point page_count maxticks stack_start pml4 pid =
     (let s = say s (VirtualPrint KERNEL_T ''[task.reg] reg strict'')
      in (pid, upd_task s pid
            (\<lambda>_. new_task base_vaddr entry_point page_count maxticks stack_start pml4)))"

text \<open>\<open>ret\<close> is an \<open>int\<close>; storing it in RAX extends the sign.\<close>

definition SignalOwner :: "kst \<Rightarrow> task \<Rightarrow> u32 \<Rightarrow> u32 \<Rightarrow> kst" where
  "SignalOwner s Origin Reason ret =
     (if Owner_PID Origin = 0 then s
      else let own = TaskManager s (Owner_PID Origin)
        in if ProcessState own = WAITING_PROCESS_STATE \<and> WaitingReason own = WAITING_REASON_CHILD \<and>
              ChildWaitingReason own = Reason
           then upd_task s (Owner_PID Origin) (\<lambda>t. t\<lparr>SavedRegisters :=
                    (SavedRegisters t)\<lparr>rg_rax := scast ret\<rparr>,
                  ProcessState := READY_PROCESS_STATE, WaitingReason := WAITING_REASON_NULL\<rparr>)
           else s)"

section \<open>The user stack of a task\<close>

definition TaskStack_Push :: "kst \<Rightarrow> int \<Rightarrow> u64 \<Rightarrow> bool \<Rightarrow> kst option" where
  "TaskStack_Push s pid v setcr3 =
     (if \<not> task_Exists (TaskManager s pid) then Some s
      else do {
        let s = upd_regs s pid (\<lambda>r. r\<lparr>rg_rsp := rg_rsp r - 8\<rparr>);
        let last = PML4_Physical s;
        let s = (if setcr3 then mem_set_cr3 s (Base_PML4 (TaskManager s pid)) True else s);
        s \<leftarrow> vwrite64 s (rg_rsp (task_regs s pid)) v;
        Some (if setcr3 then mem_set_cr3 s last True else s) })"

text \<open>The value popped is read after CR3 has been set back.\<close>

definition TaskStack_Pop :: "kst \<Rightarrow> int \<Rightarrow> bool \<Rightarrow> (u64 \<times> kst) option" where
  "TaskStack_Pop s pid setcr3 =
     (if \<not> task_Exists (TaskManager s pid) then Some (0, s)
      else do {
        let last = PML4_Physical s;
        let s = (if setcr3 then mem_set_cr3 s (Base_PML4 (TaskManager s pid)) True else s);
        let ret = rg_rsp (task_regs s pid);
        let s = upd_regs s pid (\<lambda>r. r\<lparr>rg_rsp := rg_rsp r + 8\<rparr>);
        let s = (if setcr3 then mem_set_cr3 s last True else s);
        v \<leftarrow> vread64 s ret;
        Some (v, s) })"

text \<open>
  \<open>SetupTaskStack\<close>. The kernel strings \<open>argv[0..argc-1]\<close> are given by their bytes, without
  the final NUL. Pushing a string writes the NUL first and then the bytes from the last to
  the first; the pointer kept is the address of the first byte.
\<close>

primrec push_bytes :: "u8 list \<Rightarrow> kst \<Rightarrow> u64 \<Rightarrow> (u64 \<times> kst) option" where
  "push_bytes [] s stack = Some (stack, s)"
| "push_bytes (b # bs) s stack = do { s \<leftarrow> vwrite8 s (stack - 1) b; push_bytes bs s (stack - 1) }"

primrec push_strings :: "u8 list list \<Rightarrow> kst \<Rightarrow> u64 \<Rightarrow> (u64 list \<times> u64 \<times> kst) option" where
  "push_strings [] s stack = Some ([], stack, s)"
| "push_strings (a # as) s stack = do {
     (ptrs, stack, s) \<leftarrow> push_strings as s stack;
     (stack, s) \<leftarrow> push_bytes (rev (a @ [0])) s stack;
     Some (stack # ptrs, stack, s) }"

primrec push_words :: "u64 list \<Rightarrow> kst \<Rightarrow> u64 \<Rightarrow> (u64 \<times> kst) option" where
  "push_words [] s stack = Some (stack, s)"
| "push_words (w # ws) s stack = do {
     (stack, s) \<leftarrow> push_words ws s stack;
     s \<leftarrow> vwrite64 s (stack - 8) w; Some (stack - 8, s) }"

definition SetupTaskStack :: "kst \<Rightarrow> int \<Rightarrow> u8 list list \<Rightarrow> kst option" where
  "SetupTaskStack s pid argv = do {
     let last_pml4 = PML4_Physical s;
     let last_pid = TASKMGR_get_current s;
     let s = TASKMGR_set_current s pid;
     let s = mem_set_cr3 s (Base_PML4 (TaskManager s pid)) True;
     (argv_pointers, stack, s) \<leftarrow> push_strings argv s (rg_rsp (task_regs s pid));
     (stack, s) \<leftarrow> push_words (argv_pointers @ [0]) s stack;
     let stack = stack - 8;
     s \<leftarrow> vwrite64 s stack (of_nat (length argv));
     let s = upd_regs s pid (\<lambda>r. r\<lparr>rg_rsp := stack\<rparr>);
     let s = mem_set_cr3 s last_pml4 True;
     Some (TASKMGR_set_current s last_pid) }"

section \<open>Giving the memory of a task back\<close>

text \<open>
  The three nested loops of \<open>free_task_memory\<close>. \<open>table_page\<close> is the \<open>PageDetails\<close> built for
  the frame an entry points to: its address in the direct map. The loops end when no entry
  is present, and a loop that never gets there has no result.
\<close>

definition entry_address :: "u64 \<Rightarrow> nat \<Rightarrow> u64" where
  "entry_address table i = table + 8 * of_nat i"

definition table_page :: "u64 \<Rightarrow> page_details" where
  "table_page e = \<lparr>pg_flags = 0, pg_Execute_Disable = False,
     virtual_address = (e AND PTE_ADDR) + VIRTUAL_MEMORY_BARRIER, physical_address = e AND PTE_ADDR\<rparr>"

partial_function (option) free_pt_loop :: "kst \<Rightarrow> u64 \<Rightarrow> kst option" where
  "free_pt_loop s pd_virt = do {
     pt_index \<leftarrow> find_first_present s pd_virt;
     if pt_index < 512 then do {
       e \<leftarrow> vread64 s (entry_address pd_virt pt_index);
       (r, s) \<leftarrow> free_page s (table_page e);
       s \<leftarrow> memset s (entry_address pd_virt pt_index) 0 8;
       free_pt_loop s pd_virt }
     else Some s }"

partial_function (option) free_pd_loop :: "kst \<Rightarrow> u64 \<Rightarrow> kst option" where
  "free_pd_loop s pdpt_virt = do {
     pd_index \<leftarrow> find_first_present s pdpt_virt;
     if pd_index < 512 then do {
       e \<leftarrow> vread64 s (entry_address pdpt_virt pd_index);
       let pd_virt = (e AND PTE_ADDR) + VIRTUAL_MEMORY_BARRIER;
       s \<leftarrow> free_pt_loop s pd_virt;
       e \<leftarrow> vread64 s (entry_address pdpt_virt pd_index);
       (r, s) \<leftarrow> free_page s ((table_page e)\<lparr>virtual_address := pd_virt\<rparr>);
       s \<leftarrow> vwrite64 s (entry_address pdpt_virt pd_index) 0;
       free_pd_loop s pdpt_virt }
     else Some s }"

partial_function (option) free_pdpt_loop :: "kst \<Rightarrow> u64 \<Rightarrow> kst option" where
  "free_pdpt_loop s pml4_virt = do {
     pdpt_index \<leftarrow> find_first_present s pml4_virt;
     if pdpt_index < 256 then do {
       e \<leftarrow> vread64 s (entry_address pml4_virt pdpt_index);
       let pdpt_virt = (e AND PTE_ADDR) + VIRTUAL_MEMORY_BARRIER;
       s \<leftarrow> free_pd_loop s pdpt_virt;
       e \<leftarrow> vread64 s (entry_address pml4_virt pdpt_index);
       (r, s) \<leftarrow> free_page s ((table_page e)\<lparr>virtual_address := pdpt_virt\<rparr>);
       s \<leftarrow> memset s (entry_address pml4_virt pdpt_index) 0 8;
       free_pdpt_loop s pml4_virt }
     else Some s }"

text \<open>The end both functions share: back to the kernel's tables, and the PML4 is cleared.\<close>

definition free_pml4 :: "kst \<Rightarrow> u64 \<Rightarrow> kst option" where
  "free_pml4 s pml4_virt = do {
     let s = mem_set_cr3 s (Kernel_PML4_Physical s) False;
     s \<leftarrow> memset s pml4_virt 0 0x1000;
     (phys, s) \<leftarrow> phys_addr s pml4_virt;
     (r, s) \<leftarrow> free_page s \<lparr>pg_flags = 0, pg_Execute_Disable = False,
                  virtual_address = pml4_virt, physical_address = phys\<rparr>;
     Some s }"

definition free_task_memory :: "kst \<Rightarrow> int \<Rightarrow> kst option" where
  "free_task_memory s pid = do {
     let last_pml4 = PML4_Physical s;
     let s = TASKMGR_set_current s pid;
     let task_pml4 = Base_PML4 (TaskManager s pid);
     let s = mem_set_cr3 s task_pml4 False;
     let pml4_virt = task_pml4 + VIRTUAL_MEMORY_BARRIER;
     s \<leftarrow> free_pdpt_loop s pml4_virt;
     s \<leftarrow> free_pml4 s pml4_virt;
     Some (if last_pml4 \<noteq> Base_PML4 (TaskManager s pid) then mem_set_cr3 s last_pml4 False else s) }"

definition free_task_memory_by_pml4 :: "kst \<Rightarrow> u64 \<Rightarrow> kst option" where
  "free_task_memory_by_pml4 s pml4 = do {
     let last_pml4 = PML4_Physical s;
     let s = mem_set_cr3 s pml4 True;
     let pml4_virt = pml4 + VIRTUAL_MEMORY_BARRIER;
     s \<leftarrow> free_pdpt_loop s pml4_virt;
     s \<leftarrow> free_pml4 s pml4_virt;
     Some (if last_pml4 \<noteq> pml4 then mem_set_cr3 s last_pml4 True else sti s) }"

section \<open>Properties\<close>

lemma unat_pages:
  assumes "unat (n :: u64) * 4096 < 2 ^ 64"
  shows "unat (n * 0x1000) = unat n * 4096"
  using assms by (simp add: unat_word_ariths)


text \<open>The lengths of the arrays in a task entry.\<close>

definition task_wf :: "task \<Rightarrow> bool" where
  "task_wf t \<longleftrightarrow> length (Descriptors t) = 64 \<and> length (Signals t) = 16"

lemma FindFreePID_cases:
  "(FindFreePID s = 513 \<and> (\<forall>i. 0 \<le> i \<and> i < 512 \<longrightarrow> task_Exists (TaskManager s i))) \<or>
   (0 \<le> FindFreePID s \<and> FindFreePID s < 512 \<and> \<not> task_Exists (TaskManager s (FindFreePID s)) \<and>
    (\<forall>i. 0 \<le> i \<and> i < FindFreePID s \<longrightarrow> task_Exists (TaskManager s i)))"
proof (cases "List.find (\<lambda>i. \<not> task_Exists (TaskManager s i)) (map int [0..<512])")
  case None
  then have a: "\<forall>i < 512. task_Exists (TaskManager s (int i))"
    by (auto simp: find_None_iff)
  have "task_Exists (TaskManager s i)" if "0 \<le> i \<and> i < 512" for i
    using a [rule_format, of "nat i"] that by (simp add: nat_less_iff)
  then show ?thesis using None by (simp add: FindFreePID_def TASK_COUNT_def)
next
  case (Some x)
  then obtain n where n: "n < 512" "x = int n" "\<not> task_Exists (TaskManager s x)"
    "\<forall>j < n. task_Exists (TaskManager s (int j))"
    by (auto simp: find_Some_iff)
  have "task_Exists (TaskManager s i)" if "0 \<le> i \<and> i < x" for i
    using n(4) [rule_format, of "nat i"] that n(2) by (simp add: nat_less_iff)
  then show ?thesis using Some n by (simp add: FindFreePID_def)
qed

lemma FindFreePID_free: "FindFreePID s \<noteq> TASK_COUNT + 1 \<Longrightarrow> \<not> task_Exists (TaskManager s (FindFreePID s))"
  using FindFreePID_cases [of s] by (auto simp: TASK_COUNT_def)

text \<open>C24. \<open>RegisterTask\<close> puts the new task into the lowest free entry and touches no other; the
  task starts in user mode with descriptors 0 and 1 open and its process id field 0. When the
  table is full it changes no entry and returns 1, which is also a valid PID.\<close>

theorem RegisterTask_entry:
  assumes "RegisterTask s base entry pages ticks stack pml4 = (pid, s')"
  shows "if \<forall>i. 0 \<le> i \<and> i < 512 \<longrightarrow> task_Exists (TaskManager s i)
    then pid = 1 \<and> TaskManager s' = TaskManager s
    else 0 \<le> pid \<and> pid < 512 \<and> \<not> task_Exists (TaskManager s pid) \<and>
      (\<forall>i. 0 \<le> i \<and> i < pid \<longrightarrow> task_Exists (TaskManager s i)) \<and>
      (\<forall>i. i \<noteq> pid \<longrightarrow> TaskManager s' i = TaskManager s i) \<and>
      task_wf (TaskManager s' pid) \<and> task_Exists (TaskManager s' pid) \<and>
      ProcessState (TaskManager s' pid) = NULL_PROCESS_STATE \<and> ProcessID (TaskManager s' pid) = 0 \<and>
      rg_cs (task_regs s' pid) AND 3 = 3 \<and> rg_ss (task_regs s' pid) AND 3 = 3 \<and>
      (\<forall>fd < 64. fd_used (Descriptors (TaskManager s' pid) ! fd) \<longleftrightarrow> fd < 2) \<and>
      FindFreeFileDescriptor s' pid = Some 2"
proof -
  let ?t = "new_task base entry pages ticks stack pml4"
  have free: "FindFreePID (say s c) = FindFreePID s" for c by (simp add: FindFreePID_def say_def)
  have desc: "fd_used (Descriptors ?t ! fd) \<longleftrightarrow> fd < 2" if "fd < 64" for fd
    using that by (auto simp: new_task_def nth_list_update zero_fdesc_def nth_Cons' zero_task_def)
  have d: "[0..<64] = [0, 1] @ [2..<64]" by (simp add: upt_conv_Cons numeral_2_eq_2)
  have ff: "List.find (\<lambda>i. \<not> fd_used (Descriptors ?t ! i)) [0..<64] = Some 2"
    by (simp add: find_Some_iff desc) (rule exI [of _ 2], simp add: desc)
  have t: "task_wf ?t" "task_Exists ?t" "ProcessState ?t = NULL_PROCESS_STATE" "ProcessID ?t = 0"
    "rg_cs (SavedRegisters ?t) AND 3 = 3" "rg_ss (SavedRegisters ?t) AND 3 = 3"
    by (simp_all add: new_task_def task_wf_def zero_task_def process_states)
  show ?thesis
  proof (cases "FindFreePID s = 513")
    case True
    have "RegisterTask s base entry pages ticks stack pml4 =
        (1, say s (VirtualPrint KERNEL_T ''[task.reg] reg''))"
      using True by (simp add: RegisterTask_def Let_def free TASK_COUNT_def)
    then have "pid = 1" "TaskManager s' = TaskManager s" using assms by (simp_all add: say_def)
    then show ?thesis using True FindFreePID_cases [of s] by (auto simp del: One_nat_def)
  next
    case False
    have "RegisterTask s base entry pages ticks stack pml4 =
        (FindFreePID s, upd_task (say s (VirtualPrint KERNEL_T ''[task.reg] reg'')) (FindFreePID s) (\<lambda>_. ?t))"
      using False by (simp add: RegisterTask_def Let_def free TASK_COUNT_def)
    then have p: "pid = FindFreePID s" "TaskManager s' = (TaskManager s)(pid := ?t)"
      using assms by (auto simp: say_def upd_task_def)
    have e: "0 \<le> pid \<and> pid < 512 \<and> \<not> task_Exists (TaskManager s pid) \<and>
        (\<forall>i. 0 \<le> i \<and> i < pid \<longrightarrow> task_Exists (TaskManager s i))"
      using FindFreePID_cases [of s] False p(1) by blast
    then have nfull: "\<not> (\<forall>i. 0 \<le> i \<and> i < 512 \<longrightarrow> task_Exists (TaskManager s i))" by blast
    show ?thesis
      unfolding if_not_P [OF nfull] task_regs_def FindFreeFileDescriptor_def p(2) fun_upd_same
      using e t desc ff by simp
  qed
qed

text \<open>Both properties on the sample machine, whose task table is empty.\<close>

definition sample_owner :: kst where
  "sample_owner = upd_mem sample_kst 3 (\<lambda>m. m\<lparr>BaseVirtualAddress := 0x400000, PageCount := 2,
     StackBaseVirtualAddress := 0x7000, StackPageCount := 1, KernelStackBaseVirtualAddress := 0x9000,
     KernelStackPageCount := 1\<rparr>)"


theorem RegisterTask_entry_witness:
  "fst (RegisterTask sample_kst 0x400000 0x400000 1 20 0x7ff0 0x8000) = 0 \<and>
   ProcessID (TaskManager (snd (RegisterTask sample_kst 0x400000 0x400000 1 20 0x7ff0 0x8000)) 0) = 0"
proof -
  have all: "\<not> task_Exists (TaskManager sample_kst i)" for i
    by (simp add: sample_kst_def zero_task_def)
  obtain pid s' where r: "RegisterTask sample_kst 0x400000 0x400000 1 20 0x7ff0 0x8000 = (pid, s')"
    by fastforce
  have "\<not> (\<forall>i. 0 \<le> i \<and> i < 512 \<longrightarrow> task_Exists (TaskManager sample_kst i))"
    by (simp add: all exI [of _ 0])
  note t = RegisterTask_entry [OF r, unfolded if_not_P [OF this]]
  have "pid = 0" using t all by (metis order_le_less)
  then show ?thesis using t r by simp
qed

end
