(* ===== verification/Low_Level.thy ===== *)
theory Low_Level
  imports Kstate
begin

text \<open>
  The drivers of the interrupt controller (\<open>Devices/PIC.c\<close>) and the descriptor tables
  (\<open>LowLevel/GDT.c\<close>, \<open>LowLevel/IDT.c\<close>): sequences of port accesses, and the packing of
  addresses into descriptors, with the packing undone again the way the processor does it.
\<close>

section \<open>Interrupt controller\<close>

definition PIC1_COMMAND :: u16 where "PIC1_COMMAND = 0x20"
definition PIC1_DATA :: u16 where "PIC1_DATA = 0x21"
definition PIC2_COMMAND :: u16 where "PIC2_COMMAND = 0xA0"
definition PIC2_DATA :: u16 where "PIC2_DATA = 0xA1"
definition PIC_EOI :: u8 where "PIC_EOI = 0x20"
definition ICW1_ICW4 :: u8 where "ICW1_ICW4 = 0x01"
definition ICW1_INIT :: u8 where "ICW1_INIT = 0x10"
definition ICW4_8086 :: u8 where "ICW4_8086 = 0x01"

definition io_wait :: "kst \<Rightarrow> kst" where "io_wait s = outb s 0x80 0"

definition pic_send_eoi :: "kst \<Rightarrow> u8 \<Rightarrow> kst" where
  "pic_send_eoi s irq =
     (let s = (if irq \<ge> 8 then outb s PIC2_COMMAND PIC_EOI else s) in outb s PIC1_COMMAND PIC_EOI)"

definition outb_wait :: "kst \<Rightarrow> u16 \<Rightarrow> u8 \<Rightarrow> kst" where
  "outb_wait s port v = io_wait (outb s port v)"

definition pic_remap :: "kst \<Rightarrow> u8 \<Rightarrow> u8 \<Rightarrow> kst" where
  "pic_remap s offset1 offset2 =
     (let s = outb_wait s PIC1_COMMAND (ICW1_INIT OR ICW1_ICW4);
          s = outb_wait s PIC2_COMMAND (ICW1_INIT OR ICW1_ICW4);
          s = outb_wait s PIC1_DATA offset1;
          s = outb_wait s PIC2_DATA offset2;
          s = outb_wait s PIC1_DATA (push_bit 2 1);
          s = outb_wait s PIC2_DATA 0x02;
          s = outb_wait s PIC1_DATA ICW4_8086;
          s = outb_wait s PIC2_DATA ICW4_8086;
          s = outb s PIC1_DATA 0xFF
      in outb s PIC2_DATA 0xFF)"

text \<open>
  The shift \<open>1 << irq\<close> is of an \<open>int\<close>: from 32 on it is undefined, and so is any result the
  code has for such an \<open>irq\<close>.
\<close>

definition pic_mask :: "kst \<Rightarrow> u8 \<Rightarrow> kst option" where
  "pic_mask s irq =
     (let (port, irq) = (if irq < 8 then (PIC1_DATA, irq) else (PIC2_DATA, irq - 8))
      in if irq < 32 then
           let (v, s) = inb s port; value = v OR push_bit (unat irq) 1 in Some (outb s port value)
         else None)"

definition pic_unmask :: "kst \<Rightarrow> u8 \<Rightarrow> kst option" where
  "pic_unmask s irq =
     (let (port, irq, s) =
        (if irq < 8 then (PIC1_DATA, irq, s)
         else let (v, s) = inb s PIC1_DATA; value = v AND NOT (push_bit 2 1)
              in (PIC2_DATA, irq - 8, outb s PIC1_DATA value))
      in if irq < 32 then
           let (v, s) = inb s port; value = v AND NOT (push_bit (unat irq) 1)
           in Some (outb s port value)
         else None)"

section \<open>Global descriptor table\<close>

record gdt_entry =
  ge_limit :: u16
  ge_base_0 :: u16
  ge_base_1 :: u8
  ge_access :: u8
  ge_flags_limits :: u8
  ge_base_2 :: u8

record tss_gdt = gdt_entry +
  ge_base_3 :: u32
  ge_reserved :: u32

text \<open>The packed structures as the bytes of \<open>Main_GDT\<close>; a store outside the 64 bytes is undefined.\<close>

definition bytes16 :: "u16 \<Rightarrow> u8 list" where
  "bytes16 w = [ucast w, ucast (drop_bit 8 w)]"

definition bytes32 :: "u32 \<Rightarrow> u8 list" where
  "bytes32 w = [ucast w, ucast (drop_bit 8 w), ucast (drop_bit 16 w), ucast (drop_bit 24 w)]"

definition gdt_entry_bytes :: "'a gdt_entry_scheme \<Rightarrow> u8 list" where
  "gdt_entry_bytes e = bytes16 (ge_limit e) @ bytes16 (ge_base_0 e) @
     [ge_base_1 e, ge_access e, ge_flags_limits e, ge_base_2 e]"

definition tss_gdt_bytes :: "tss_gdt \<Rightarrow> u8 list" where
  "tss_gdt_bytes e = gdt_entry_bytes e @ bytes32 (ge_base_3 e) @ bytes32 (ge_reserved e)"

definition store_bytes :: "u8 list \<Rightarrow> nat \<Rightarrow> u8 list \<Rightarrow> u8 list option" where
  "store_bytes mem off bs =
     (if off + length bs \<le> length mem then Some (take off mem @ bs @ drop (off + length bs) mem)
      else None)"

text \<open>\<open>Flags << 4 | ...\<close> is stored in one byte.\<close>

definition SetGDTEntry :: "u8 list \<Rightarrow> u32 \<Rightarrow> u32 \<Rightarrow> u8 \<Rightarrow> u8 \<Rightarrow> u16 \<Rightarrow> u8 list option" where
  "SetGDTEntry Main_GDT Base Limit Flags Access Offset =
     store_bytes Main_GDT (unat Offset) (gdt_entry_bytes \<lparr>
       ge_limit = ucast (Limit AND 0xff),
       ge_base_0 = ucast (Base AND 0xffff),
       ge_base_1 = ucast (drop_bit 16 Base AND 0xff),
       ge_access = Access,
       ge_flags_limits = push_bit 4 Flags OR ucast (drop_bit 16 Limit AND 0xf),
       ge_base_2 = ucast (drop_bit 24 Base AND 0xff)\<rparr>)"

definition SetGDTSystemEntry :: "u8 list \<Rightarrow> u64 \<Rightarrow> u32 \<Rightarrow> u8 \<Rightarrow> u8 \<Rightarrow> u16 \<Rightarrow> u8 list option" where
  "SetGDTSystemEntry Main_GDT Base Limit Flags Access Offset =
     store_bytes Main_GDT (unat Offset) (tss_gdt_bytes \<lparr>
       ge_limit = ucast (Limit AND 0xff),
       ge_base_0 = ucast (Base AND 0xffff),
       ge_base_1 = ucast (drop_bit 16 Base AND 0xff),
       ge_access = Access,
       ge_flags_limits = push_bit 4 Flags OR ucast (drop_bit 16 Limit AND 0xf),
       ge_base_2 = ucast (drop_bit 24 Base AND 0xff),
       ge_base_3 = ucast (drop_bit 32 Base AND 0xffffffff),
       ge_reserved = 0\<rparr>)"

definition SetActiveTSS ::
  "kst \<Rightarrow> u64 \<Rightarrow> u64 \<Rightarrow> u64 \<Rightarrow> u64 \<Rightarrow> u64 \<Rightarrow> u64 \<Rightarrow> u64 \<Rightarrow> u64 \<Rightarrow> u64 \<Rightarrow> u64 \<Rightarrow> u16 \<Rightarrow> kst" where
  "SetActiveTSS s RSP0 RSP1 RSP2 IST1 IST2 IST3 IST4 IST5 IST6 IST7 IO_Base =
     s\<lparr>ActiveTSS := zero_tss\<lparr>tss_rsp0 := RSP0, tss_rsp1 := RSP1, tss_rsp2 := RSP2,
       tss_ist1 := IST1, tss_ist2 := IST2, tss_ist3 := IST3, tss_ist4 := IST4,
       tss_ist5 := IST5, tss_ist6 := IST6, tss_ist7 := IST7, tss_io_map_base := IO_Base\<rparr>\<rparr>"

definition UpdateActiveTSS :: "kst \<Rightarrow> tss \<Rightarrow> kst" where
  "UpdateActiveTSS s NewTSS = s\<lparr>ActiveTSS := NewTSS\<rparr>"

section \<open>Interrupt descriptor table\<close>

record idt_entry =
  ie_offset_low :: u16
  ie_selector :: u16
  ie_ist :: u8
  ie_flags :: u8
  ie_offset_middle :: u16
  ie_offset_high :: u32
  ie_zero :: u32

definition SetIDTEntry :: "(u8 \<Rightarrow> idt_entry) \<Rightarrow> u8 \<Rightarrow> u64 \<Rightarrow> u16 \<Rightarrow> u8 \<Rightarrow> u8 \<Rightarrow> u8 \<Rightarrow> idt_entry" where
  "SetIDTEntry idt entry_num handler_address selector flags ist = idt(entry_num := \<lparr>
     ie_offset_low = ucast (handler_address AND 0xFFFF),
     ie_selector = selector,
     ie_ist = ist AND 0b111,
     ie_flags = flags,
     ie_offset_middle = ucast (drop_bit 16 handler_address AND 0xFFFF),
     ie_offset_high = ucast (drop_bit 32 handler_address AND 0xFFFFFFFF),
     ie_zero = 0\<rparr>)"

section \<open>What the processor reads back\<close>

definition desc_base :: "u8 list \<Rightarrow> nat \<Rightarrow> u32" where
  "desc_base m off = ucast (m ! (off + 2)) OR push_bit 8 (ucast (m ! (off + 3))) OR
     push_bit 16 (ucast (m ! (off + 4))) OR push_bit 24 (ucast (m ! (off + 7)))"

definition desc_limit :: "u8 list \<Rightarrow> nat \<Rightarrow> u32" where
  "desc_limit m off = ucast (m ! off) OR push_bit 8 (ucast (m ! (off + 1))) OR
     push_bit 16 (ucast (m ! (off + 6) AND 0xF))"

definition desc_base64 :: "u8 list \<Rightarrow> nat \<Rightarrow> u64" where
  "desc_base64 m off = ucast (desc_base m off) OR push_bit 32 (ucast (m ! (off + 8))) OR
     push_bit 40 (ucast (m ! (off + 9))) OR push_bit 48 (ucast (m ! (off + 10))) OR
     push_bit 56 (ucast (m ! (off + 11)))"

definition idt_offset :: "idt_entry \<Rightarrow> u64" where
  "idt_offset e = ucast (ie_offset_low e) OR push_bit 16 (ucast (ie_offset_middle e)) OR
     push_bit 32 (ucast (ie_offset_high e))"

lemma store_bytes_nth:
  assumes "store_bytes m off bs = Some m'"
  shows "i < length bs \<Longrightarrow> m' ! (off + i) = bs ! i"
    and "length m' = length m" and "i < off \<or> off + length bs \<le> i \<Longrightarrow> m' ! i = m ! i"
proof -
  have ok: "off + length bs \<le> length m" and m': "m' = take off m @ bs @ drop (off + length bs) m"
    using assms by (simp_all add: store_bytes_def split: if_splits)
  show "i < length bs \<Longrightarrow> m' ! (off + i) = bs ! i" using ok by (simp add: m' nth_append)
  show "length m' = length m" using ok by (simp add: m')
  show "i < off \<or> off + length bs \<le> i \<Longrightarrow> m' ! i = m ! i" using ok by (auto simp: m' nth_append)
qed

lemma mask8_bit: "bit (0xFF :: 'a::len word) n \<longleftrightarrow> n < LENGTH('a) \<and> n < 8"
proof -
  have "bit (0xFF :: 'a word) n = bit (mask 8 :: 'a word) n"
    by (rule arg_cong [of _ _ "\<lambda>w. bit w n"]) (simp add: mask_eq_exp_minus_1)
  then show ?thesis by (auto simp: bit_simps)
qed

lemma mask16_bit: "bit (0xFFFF :: 'a::len word) n \<longleftrightarrow> n < LENGTH('a) \<and> n < 16"
proof -
  have "bit (0xFFFF :: 'a word) n = bit (mask 16 :: 'a word) n"
    by (rule arg_cong [of _ _ "\<lambda>w. bit w n"]) (simp add: mask_eq_exp_minus_1)
  then show ?thesis by (auto simp: bit_simps)
qed

lemma mask4_bit: "bit (0xF :: 'a::len word) n \<longleftrightarrow> n < LENGTH('a) \<and> n < 4"
proof -
  have "bit (0xF :: 'a word) n = bit (mask 4 :: 'a word) n"
    by (rule arg_cong [of _ _ "\<lambda>w. bit w n"]) (simp add: mask_eq_exp_minus_1)
  then show ?thesis by (auto simp: bit_simps)
qed

lemma mask32_bit: "bit (0xFFFFFFFF :: 'a::len word) n \<longleftrightarrow> n < LENGTH('a) \<and> n < 32"
proof -
  have "bit (0xFFFFFFFF :: 'a word) n = bit (mask 32 :: 'a word) n"
    by (rule arg_cong [of _ _ "\<lambda>w. bit w n"]) (simp add: mask_eq_exp_minus_1)
  then show ?thesis by (auto simp: bit_simps)
qed

lemmas field_bits = bit_or_iff bit_and_iff bit_push_bit_iff bit_ucast_iff bit_drop_bit_eq
  mask4_bit mask8_bit mask16_bit mask32_bit

lemma byte_ranges32: "n < 32 \<Longrightarrow> n < 8 \<or> (8 \<le> n \<and> n < 16) \<or> (16 \<le> n \<and> n < 24) \<or> (24 \<le> n \<and> n < (32 :: nat))"
  by arith

lemma join_bytes32:
  "ucast (ucast w :: u8) OR push_bit 8 (ucast (ucast (drop_bit 8 w) :: u8)) OR
   push_bit 16 (ucast (ucast (drop_bit 16 w) :: u8)) OR push_bit 24 (ucast (ucast (drop_bit 24 w) :: u8)) = (w :: u32)"
proof (rule bit_word_eqI)
  fix n assume "n < LENGTH(32)"
  then have "n < 32" by simp
  from byte_ranges32 [OF this]
  show "bit ((ucast (ucast w :: u8) :: u32) OR push_bit 8 (ucast (ucast (drop_bit 8 w) :: u8)) OR
     push_bit 16 (ucast (ucast (drop_bit 16 w) :: u8)) OR push_bit 24 (ucast (ucast (drop_bit 24 w) :: u8))) n = bit w n"
    by (elim disjE) (auto simp: bit_simps dest: bit_imp_le_length)
qed

lemma low_byte: "(ucast (ucast (w AND 0xffff) :: u16) :: u8) = ucast (w :: 'a::len word)"
  "(ucast (drop_bit 8 (ucast (w AND 0xffff) :: u16)) :: u8) = ucast (drop_bit 8 w)"
  "(ucast (w AND 0xff) :: u8) = ucast w" "(ucast (ucast (w AND 0xff) :: u16) :: u8) = ucast w"
  "(ucast (drop_bit 8 (ucast (w AND 0xff) :: u16)) :: u8) = 0"
  by (rule bit_word_eqI, auto simp: field_bits dest: bit_imp_le_length)+

definition gdt_image :: "u32 \<Rightarrow> u32 \<Rightarrow> u8 \<Rightarrow> u8 \<Rightarrow> u8 list" where
  "gdt_image Base Limit Flags Access = [ucast Limit, 0, ucast Base, ucast (drop_bit 8 Base),
     ucast (drop_bit 16 Base), Access, push_bit 4 Flags OR ucast (drop_bit 16 Limit AND 0xf),
     ucast (drop_bit 24 Base)]"

lemma SetGDTEntry_image:
  "SetGDTEntry gdt Base Limit Flags Access Offset =
     store_bytes gdt (unat Offset) (gdt_image Base Limit Flags Access)"
  by (simp add: SetGDTEntry_def gdt_entry_bytes_def bytes16_def gdt_image_def low_byte)

lemma limit_bits:
  "ucast (ucast L :: u8) OR push_bit 8 (ucast (0 :: u8)) OR
     push_bit 16 (ucast ((push_bit 4 F OR ucast (drop_bit 16 L AND 0xf)) AND 0xF :: u8)) = (L :: u32) AND 0xF00FF"
proof -
  have m: "bit (0xF00FF :: u32) n \<longleftrightarrow> n < 8 \<or> (16 \<le> n \<and> n < 20)" for n
  proof -
    have "bit (0xF00FF :: u32) n = bit (mask 8 OR push_bit 16 (mask 4) :: u32) n"
      by (rule arg_cong [of _ _ "\<lambda>w. bit w n"]) (simp add: mask_eq_exp_minus_1 push_bit_eq_mult)
    then show ?thesis by (auto simp: bit_simps)
  qed
  have r: "n < 8 \<or> (8 \<le> n \<and> n < 16) \<or> (16 \<le> n \<and> n < 20) \<or> 20 \<le> n" for n :: nat by arith
  show ?thesis
  proof (rule bit_word_eqI)
    fix n assume "n < LENGTH(32)"
    then show "bit ((ucast (ucast L :: u8) :: u32) OR push_bit 8 (ucast (0 :: u8)) OR
     push_bit 16 (ucast ((push_bit 4 F OR ucast (drop_bit 16 L AND 0xf)) AND 0xF :: u8))) n = bit (L AND 0xF00FF) n"
      using r [of n] by (elim disjE) (auto simp: field_bits m dest: bit_imp_le_length)
  qed
qed

text \<open>The descriptor written by \<open>SetGDTEntry\<close> reads back with the base address it was
  given, but with bits 8 to 15 of the limit cleared; no other descriptor changes.\<close>

theorem SetGDTEntry_base_limit:
  assumes "SetGDTEntry gdt Base Limit Flags Access Offset = Some gdt'"
  shows "desc_base gdt' (unat Offset) = Base \<and> desc_limit gdt' (unat Offset) = Limit AND 0xF00FF \<and>
    (\<forall>i. i < unat Offset \<or> unat Offset + 8 \<le> i \<longrightarrow> gdt' ! i = gdt ! i)"
proof -
  note st = store_bytes_nth [OF assms [unfolded SetGDTEntry_image]]
  have b: "gdt' ! (unat Offset + i) = gdt_image Base Limit Flags Access ! i" if "i < 8" for i
    using st(1) [of i] that by (simp add: gdt_image_def)
  have "desc_base gdt' (unat Offset) = Base"
    using b [of 2] b [of 3] b [of 4] b [of 7] by (simp add: desc_base_def gdt_image_def join_bytes32)
  moreover have "desc_limit gdt' (unat Offset) = Limit AND 0xF00FF"
    using b [of 0] b [of 1] b [of 6] limit_bits [of Limit Flags]
    by (simp add: desc_limit_def gdt_image_def)
  moreover have "\<forall>i. i < unat Offset \<or> unat Offset + 8 \<le> i \<longrightarrow> gdt' ! i = gdt ! i"
    using st(3) by (simp add: gdt_image_def)
  ultimately show ?thesis by blast
qed

theorem SetGDTEntry_base_limit_witness:
  "\<exists>gdt'. SetGDTEntry (replicate 64 0) 0 0xFFFFF 2 0x9A 8 = Some gdt' \<and>
     desc_base gdt' 8 = 0 \<and> desc_limit gdt' 8 = 0xF00FF"
proof -
  obtain gdt' where g: "SetGDTEntry (replicate 64 0) 0 0xFFFFF 2 0x9A 8 = Some gdt'"
    by (simp add: SetGDTEntry_image store_bytes_def gdt_image_def)
  then show ?thesis using SetGDTEntry_base_limit [OF g] by simp
qed

text \<open>The entry \<open>SetIDTEntry\<close> writes holds the whole 64 bit handler address, the selector
  and the flags; the interrupt stack index is cut to three bits and no other vector changes.\<close>

theorem SetIDTEntry_offset:
  "idt_offset (SetIDTEntry idt n h sel fl ist n) = h \<and> ie_selector (SetIDTEntry idt n h sel fl ist n) = sel \<and>
   ie_flags (SetIDTEntry idt n h sel fl ist n) = fl \<and> ie_ist (SetIDTEntry idt n h sel fl ist n) < 8 \<and>
   (SetIDTEntry idt n h sel fl ist)(n := idt n) = idt"
proof -
  have "ucast (ucast (h AND 0xFFFF) :: u16) OR push_bit 16 (ucast (ucast (drop_bit 16 h AND 0xFFFF) :: u16)) OR
      push_bit 32 (ucast (ucast (drop_bit 32 h AND 0xFFFFFFFF) :: u32)) = h"
  proof (rule bit_word_eqI)
    fix n assume "n < LENGTH(64)"
    then have "n < 16 \<or> (16 \<le> n \<and> n < 32) \<or> (32 \<le> n \<and> n < 64)" by simp arith
    then show "bit ((ucast (ucast (h AND 0xFFFF) :: u16) :: u64) OR push_bit 16 (ucast (ucast (drop_bit 16 h AND 0xFFFF) :: u16)) OR
      push_bit 32 (ucast (ucast (drop_bit 32 h AND 0xFFFFFFFF) :: u32))) n = bit h n"
      by (elim disjE) (auto simp: field_bits dest: bit_imp_le_length)
  qed
  moreover have "ist AND 0b111 < 8"
    using and_mask_less' [of 3 ist] by (simp add: mask_eq_exp_minus_1)
  ultimately show ?thesis by (simp add: SetIDTEntry_def idt_offset_def)
qed

end
