(* ===== verification/Sched.thy ===== *)
theory Sched
  imports Tasks Low_Level
begin

text \<open>
  The timer and the scheduler of \<open>LowLevel/Timer.c\<close>. The interrupt frame is the register
  record the stub pushed: a handler takes it and returns it updated.
\<close>

section \<open>Switching tasks\<close>

definition task_switch :: "kst \<Rightarrow> int \<Rightarrow> regs \<Rightarrow> regs \<times> kst" where
  "task_switch s pid frame =
     (let cur = TASKMGR_get_current s;
          s = upd_regs s cur (\<lambda>_. frame);
          s = TASKMGR_set_current s pid;
          s = s\<lparr>dr0 := word_of_int pid\<rparr>;
          s = mem_set_cr3 s (Base_PML4 (TaskManager s pid)) True;
          frame = task_regs s pid
      in (frame, UpdateActiveTSS s (UserTSS (TaskManager s pid))))"

definition find_next_task :: "kst \<Rightarrow> int \<Rightarrow> int" where
  "find_next_task s cur =
     (if cur = 511 then 0
      else case List.find (\<lambda>i. task_Exists (TaskManager s i) \<and>
                ProcessState (TaskManager s i) = READY_PROCESS_STATE) [cur + 1..511] of
          Some i \<Rightarrow> i | None \<Rightarrow> 0)"

text \<open>The two debug messages of \<open>TimerInterrupt\<close>, for PID 2 only.\<close>

definition note_pid :: "kst \<Rightarrow> int \<Rightarrow> string \<Rightarrow> kst" where
  "note_pid s pid msg = (if pid = 2 then say s (VirtualPrint KERNEL_T msg) else s)"

text \<open>The branch of \<open>TimerInterrupt\<close> for a task that has to leave the processor.\<close>

definition end_slice :: "kst \<Rightarrow> int \<Rightarrow> regs \<Rightarrow> (regs \<times> kst) option" where
  "end_slice s cur frame = do {
     let s = note_pid s cur ''[timer] was pid 2'';
     let s = upd_task s cur (\<lambda>t. t\<lparr>UsedTicks := 0\<rparr>);
     s \<leftarrow> (if ProcessState (TaskManager s cur) = KILL_PROCESS_STATE
          then free_task_memory (upd_task s cur
                 (\<lambda>t. t\<lparr>ProcessState := NULL_PROCESS_STATE, task_Exists := False\<rparr>)) cur
          else Some s);
     let next_pid = find_next_task s cur;
     let s = note_pid s next_pid ''[timer] now pid 2'';
     Some (task_switch s next_pid frame) }"

definition TimerInterrupt :: "kst \<Rightarrow> regs \<Rightarrow> (regs \<times> kst) option" where
  "TimerInterrupt s frame = do {
     let s = s\<lparr>TimerWindow := TimerWindow s + 1\<rparr>;
     let cur = TASKMGR_get_current s;
     if ProcessState (TaskManager s cur) = CREATION_PROCESS_STATE then Some (frame, pic_send_eoi s 0x00)
     else do {
       let s = upd_regs s cur (\<lambda>_. frame);
       let t = TaskManager s cur;
       (frame, s) \<leftarrow>
         (if UsedTicks t \<ge> MaxTicks t \<or> ProcessState t = KILL_PROCESS_STATE \<or>
             ProcessState t = WAITING_PROCESS_STATE
          then end_slice s cur frame
          else Some (frame, upd_task s cur (\<lambda>t. t\<lparr>UsedTicks := UsedTicks t + 1\<rparr>)));
       let s = s\<lparr>dr0 := word_of_int (TASKMGR_get_current s)\<rparr>;
       Some (frame, pic_send_eoi s 0x00) } }"

definition ForceSwitch :: "kst \<Rightarrow> regs \<Rightarrow> regs \<times> kst" where
  "ForceSwitch s frame =
     (let cur = TASKMGR_get_current s;
          s = upd_task s cur (\<lambda>t. t\<lparr>UsedTicks := 0\<rparr>);
          s = (if ProcessState (TaskManager s cur) = KILL_PROCESS_STATE
               then upd_task s cur (\<lambda>_. zero_task) else s);
          next_pid = find_next_task s cur;
          s = upd_regs s cur (\<lambda>_. frame)
      in task_switch s next_pid frame)"

definition EnableTasks :: "kst \<Rightarrow> kst option" where
  "EnableTasks s = do {
     s \<leftarrow> pic_mask s 0x00;
     let s = s\<lparr>tasks_enabled := True\<rparr>;
     let s = say s (Printf ''Tasks Enabled!'' []);
     pic_unmask s 0x00 }"

section \<open>Time\<close>

definition BASE_FREQUENCY :: u32 where "BASE_FREQUENCY = 1193180"

text \<open>Division by a zero frequency is undefined.\<close>

definition SetTimerFrequency :: "kst \<Rightarrow> u16 \<Rightarrow> kst option" where
  "SetTimerFrequency s hz =
     (if hz = 0 then None
      else let divisor = (ucast (BASE_FREQUENCY div ucast hz) :: u16);
               s = s\<lparr>Frequency := hz\<rparr>;
               s = outb s 0x43 0x36;
               s = outb s 0x40 (ucast (divisor AND 0xFF))
        in Some (outb s 0x40 (ucast (drop_bit 8 divisor AND 0xFF))))"

definition IsLeapYear :: "int \<Rightarrow> bool" where
  "IsLeapYear y \<longleftrightarrow> (y mod 4 = 0 \<and> y mod 100 \<noteq> 0) \<or> y mod 400 = 0"

record date_data =
  second :: u16
  minute :: u16
  hour :: u16
  day :: u16

definition ParseSeconds :: "u64 \<Rightarrow> date_data" where
  "ParseSeconds t =
     (let s = ucast (t mod 60); t = t div 60;
          m = ucast (t mod 60); t = t div 60;
          h = ucast (t mod 60); t = t div 24
      in \<lparr>second = s, minute = m, hour = h, day = ucast t\<rparr>)"

definition read_cmos :: "kst \<Rightarrow> u8 \<Rightarrow> u8 \<times> kst" where
  "read_cmos s reg = inb (outb s 0x70 (push_bit 7 1 OR reg)) 0x71"

definition SyncTime :: "kst \<Rightarrow> kst option" where
  "SyncTime s = do {
     let s = s\<lparr>BiosTime := 0, SecondsSinceBoot := 0\<rparr>;
     let (seconds, s) = read_cmos s 0x00;
     let (minutes, s) = read_cmos s 0x02;
     let (hours, s) = read_cmos s 0x04;
     let (day, s) = read_cmos s 0x07;
     let s = s\<lparr>BiosTime := BiosTime s + ucast seconds + ucast minutes * 60 +
                 ucast hours * (60 * 60) + ucast day * 86400\<rparr>;
     let s = pic_send_eoi s 0x08;
     s \<leftarrow> pic_mask s 0x08;
     pic_unmask s 0x00 }"

section \<open>The next task\<close>

definition runnable :: "kst \<Rightarrow> int \<Rightarrow> bool" where
  "runnable s i \<longleftrightarrow> task_Exists (TaskManager s i) \<and> ProcessState (TaskManager s i) = READY_PROCESS_STATE"

definition ready_pids :: "kst \<Rightarrow> int list" where
  "ready_pids s = filter (runnable s) [1..511]"

lemma find_eq_filter: "List.find P xs = (case filter P xs of [] \<Rightarrow> None | x # _ \<Rightarrow> Some x)"
  by (induction xs) auto

lemma find_next_task_filter:
  assumes "0 \<le> c" "c \<le> 511"
  shows "find_next_task s c = (case filter (\<lambda>p. c < p) (ready_pids s) of [] \<Rightarrow> 0 | p # _ \<Rightarrow> p)"
proof -
  have "[1..511] = [1..c] @ [c + 1..511]"
    using assms upto_split2 [of 1 c 511] by (cases "c = 0") simp_all
  then have "filter (\<lambda>p. c < p) (ready_pids s) = filter (runnable s) [c + 1..511]"
    by (simp add: ready_pids_def filter_id_conv conj_commute filter_empty_conv)
      (rule filter_cong, auto)
  moreover have r: "(\<lambda>i. task_Exists (TaskManager s i) \<and>
      ProcessState (TaskManager s i) = READY_PROCESS_STATE) = runnable s"
    by (simp add: fun_eq_iff runnable_def)
  ultimately show ?thesis
    using assms by (auto simp: find_next_task_def find_eq_filter r split: list.splits)
qed

lemma ready_pids_sorted: "sorted_wrt (<) (ready_pids s)" "set (ready_pids s) \<subseteq> {1..511}"
  by (auto simp: ready_pids_def intro: sorted_wrt_filter)

text \<open>
  The contract between the scheduler and its choice function: given the candidates in
  increasing order, the choice is the first candidate above the current one, else 0.
\<close>

locale round_robin =
  fixes nxt :: "int \<Rightarrow> int" and rs :: "int list"
  assumes sorted: "sorted_wrt (<) rs" and pos: "p \<in> set rs \<Longrightarrow> 0 < p"
    and nxt: "c = 0 \<or> c \<in> set rs \<Longrightarrow>
      nxt c = (case filter (\<lambda>p. c < p) rs of [] \<Rightarrow> 0 | p # _ \<Rightarrow> p)"
begin

lemma above_nth: "k < length rs \<Longrightarrow> filter (\<lambda>p. rs ! k < p) rs = drop (Suc k) rs"
proof -
  assume k: "k < length rs"
  have le: "\<not> rs ! k < p" if "p \<in> set (take (Suc k) rs)" for p
  proof -
    obtain j where "j < Suc k" "p = rs ! j" using \<open>p \<in> set (take (Suc k) rs)\<close> k
      by (auto simp: in_set_conv_nth)
    then show ?thesis using sorted_wrt_nth_less [OF sorted, of j k] k by (cases "j = k") auto
  qed
  have gt: "rs ! k < p" if "p \<in> set (drop (Suc k) rs)" for p
    using that sorted_wrt_nth_less [OF sorted, of k] by (auto simp: in_set_conv_nth)
  have "filter (\<lambda>p. rs ! k < p) rs =
      filter (\<lambda>p. rs ! k < p) (take (Suc k) rs) @ filter (\<lambda>p. rs ! k < p) (drop (Suc k) rs)"
    by (metis append_take_drop_id filter_append)
  also have "filter (\<lambda>p. rs ! k < p) (take (Suc k) rs) = []" using le by (simp add: filter_empty_conv)
  also have "filter (\<lambda>p. rs ! k < p) (drop (Suc k) rs) = drop (Suc k) rs"
    using gt by (simp add: filter_id_conv)
  finally show ?thesis by simp
qed

lemma nxt_nth: "k < length rs \<Longrightarrow> nxt (rs ! k) = (if Suc k < length rs then rs ! Suc k else 0)"
  by (simp add: nxt above_nth Cons_nth_drop_Suc [symmetric])

lemma nxt_0: "nxt 0 = (if rs = [] then 0 else rs ! 0)"
proof -
  have "filter (\<lambda>p. 0 < p) rs = rs" using pos by (simp add: filter_id_conv)
  then show ?thesis by (simp add: nxt) (cases rs; simp)
qed

lemma iterate: "k < length rs \<Longrightarrow> (nxt ^^ Suc k) 0 = rs ! k"
proof (induction k)
  case 0
  then show ?case by (auto simp: nxt_0)
next
  case (Suc k)
  then have "(nxt ^^ Suc (Suc k)) 0 = nxt (rs ! k)" by simp
  then show ?case using Suc.prems by (simp add: nxt_nth)
qed

lemma wrap: "(nxt ^^ Suc (length rs)) 0 = 0"
proof (cases rs rule: rev_cases)
  case Nil
  then show ?thesis by (simp add: nxt_0)
next
  case (snoc ys y)
  then have k: "length rs - 1 < length rs" "Suc (length rs - 1) = length rs" by simp_all
  have "(nxt ^^ Suc (length rs)) 0 = nxt ((nxt ^^ Suc (length rs - 1)) 0)" using k(2) by simp
  also have "\<dots> = nxt (rs ! (length rs - 1))" by (simp only: iterate [OF k(1)])
  also have "\<dots> = 0" using nxt_nth [OF k(1)] k(2) by simp
  finally show ?thesis .
qed

end

interpretation rr: round_robin "find_next_task s" "ready_pids s" for s
proof unfold_locales
  show "sorted_wrt (<) (ready_pids s)" by (rule ready_pids_sorted)
  show "p \<in> set (ready_pids s) \<Longrightarrow> 0 < p" for p using ready_pids_sorted(2) [of s] by auto
  show "find_next_task s c = (case filter (\<lambda>p. c < p) (ready_pids s) of [] \<Rightarrow> 0 | p # _ \<Rightarrow> p)"
    if "c = 0 \<or> c \<in> set (ready_pids s)" for c
    using that ready_pids_sorted(2) [of s] by (intro find_next_task_filter) auto
qed

text \<open>C14. The scheduler is round robin: from the idle task 0 on, with the table unchanged, the
  successive choices of \<open>find_next_task\<close> are the ready tasks in order of their PIDs, each
  exactly once, and then task 0 again: no ready task is passed over.\<close>

theorem find_next_task_round_robin:
  "map (\<lambda>k. (find_next_task s ^^ Suc k) 0) [0..<Suc (length (ready_pids s))] = ready_pids s @ [0] \<and>
   set (ready_pids s) = {p. 1 \<le> p \<and> p \<le> 511 \<and> runnable s p} \<and> distinct (ready_pids s)"
proof (intro conjI)
  show "map (\<lambda>k. (find_next_task s ^^ Suc k) 0) [0..<Suc (length (ready_pids s))] = ready_pids s @ [0]"
  proof (rule nth_equalityI)
    fix k assume "k < length (map (\<lambda>k. (find_next_task s ^^ Suc k) 0) [0..<Suc (length (ready_pids s))])"
    then have k: "k < length (ready_pids s) \<or> k = length (ready_pids s)" by auto
    then show "map (\<lambda>k. (find_next_task s ^^ Suc k) 0) [0..<Suc (length (ready_pids s))] ! k =
        (ready_pids s @ [0]) ! k"
      using rr.iterate [of k s] rr.wrap [of s] by (auto simp: nth_append simp del: upt_Suc funpow.simps(2))
  qed simp
  show "set (ready_pids s) = {p. 1 \<le> p \<and> p \<le> 511 \<and> runnable s p}" by (auto simp: ready_pids_def)
  show "distinct (ready_pids s)" by (simp add: ready_pids_def)
qed

text \<open>The choice does not depend on the entry of the current task.\<close>

lemma find_next_task_other:
  assumes "\<And>i. i \<noteq> c \<Longrightarrow> TaskManager s' i = TaskManager s i"
  shows "find_next_task s' c = find_next_task s c"
proof -
  have "List.find (\<lambda>i. task_Exists (TaskManager s' i) \<and> ProcessState (TaskManager s' i) = READY_PROCESS_STATE) [c + 1..511] =
      List.find (\<lambda>i. task_Exists (TaskManager s i) \<and> ProcessState (TaskManager s i) = READY_PROCESS_STATE) [c + 1..511]"
    using assms by (intro find_cong) auto
  then show ?thesis by (simp add: find_next_task_def)
qed

section \<open>Switching\<close>

lemmas task_upd = upd_task_def upd_regs_def upd_mem_def set_state_def task_regs_def task_mem_def
  TASKMGR_set_current_def TASKMGR_get_current_def mem_set_cr3_def mem_sync_cr3_def Let_def

text \<open>C16. Switching to another task and later back gives a task its registers back exactly,
  runs it in its own address space with its own TSS, and keeps the registers of the other
  task for its next turn.\<close>

theorem task_switch_roundtrip:
  assumes "a = cur_pid s" "b \<noteq> a" "task_switch s b frame = (f1, s1)" "task_switch s1 a f2 = (f3, s2)"
  shows "f1 = task_regs s b \<and> cr3 s1 = Base_PML4 (TaskManager s b) \<and> PML4_Physical s1 = cr3 s1 \<and>
    f3 = frame \<and> cr3 s2 = Base_PML4 (TaskManager s a) \<and> cur_pid s2 = a \<and>
    ActiveTSS s2 = UserTSS (TaskManager s a) \<and> task_regs s2 b = f2 \<and> interrupts s2"
  using assms by (auto simp: task_switch_def UpdateActiveTSS_def task_upd)

text \<open>The process that exits through \<open>ForceSwitch\<close> leaves its memory behind: the table
  entry is cleared, and with it the only record of its page tables, but no frame is given
  back.\<close>

theorem ForceSwitch_leaks_memory:
  assumes "ProcessState (TaskManager s (cur_pid s)) = KILL_PROCESS_STATE" "cur_pid s \<noteq> 0"
    and "ForceSwitch s frame = (frame', s')"
  shows "phys_frames s' = phys_frames s \<and> ram s' = ram s \<and>
    \<not> task_Exists (TaskManager s' (cur_pid s)) \<and> Base_PML4 (TaskManager s' (cur_pid s)) = 0 \<and>
    cur_pid s' \<noteq> cur_pid s"
proof -
  let ?z = "(TaskManager s)(cur_pid s := zero_task)"
  let ?s = "s\<lparr>TaskManager := ?z\<rparr>"
  have z: "zero_task\<lparr>SavedRegisters := frame\<rparr> = zero_task\<lparr>SavedRegisters := frame\<rparr>" ..
  have n: "find_next_task ?s (cur_pid s) \<noteq> cur_pid s"
    using assms(2) by (auto simp: find_next_task_def find_Some_iff split: option.splits)
  show ?thesis
    using assms n
    by (auto simp: ForceSwitch_def task_switch_def UpdateActiveTSS_def task_upd zero_task_def)
qed

section \<open>Time slices\<close>

text \<open>A row of timer interrupts that hit the current task, with the frame each one finds.\<close>

primrec timer_ticks :: "regs list \<Rightarrow> kst \<Rightarrow> kst option" where
  "timer_ticks [] s = Some s"
| "timer_ticks (f # fs) s = do { (f', s) \<leftarrow> TimerInterrupt s f; timer_ticks fs s }"

definition in_slice :: "kst \<Rightarrow> kst \<Rightarrow> nat \<Rightarrow> bool" where
  "in_slice s s' n \<longleftrightarrow> cur_pid s' = cur_pid s \<and>
     ProcessState (TaskManager s' (cur_pid s)) = READY_PROCESS_STATE \<and>
     MaxTicks (TaskManager s' (cur_pid s)) = MaxTicks (TaskManager s (cur_pid s)) \<and>
     unat (UsedTicks (TaskManager s' (cur_pid s))) = unat (UsedTicks (TaskManager s (cur_pid s))) + n"

lemma outb_fields [simp]:
  "TaskManager (outb s p v) = TaskManager s" "cur_pid (outb s p v) = cur_pid s"
  by (simp_all add: outb_def)

lemma pic_send_eoi_fields [simp]:
  "TaskManager (pic_send_eoi s i) = TaskManager s" "cur_pid (pic_send_eoi s i) = cur_pid s"
  by (simp_all add: pic_send_eoi_def Let_def)

lemma tick_in_slice:
  assumes "ProcessState (TaskManager s (cur_pid s)) = READY_PROCESS_STATE"
    and "UsedTicks (TaskManager s (cur_pid s)) < MaxTicks (TaskManager s (cur_pid s))"
  shows "\<exists>s'. TimerInterrupt s f = Some (f, s') \<and> in_slice s s' 1 \<and> task_regs s' (cur_pid s) = f"
proof -
  have "unat (UsedTicks (TaskManager s (cur_pid s))) < 255"
    using assms(2) unsigned_less [of "MaxTicks (TaskManager s (cur_pid s))", where 'a = nat]
    by (simp add: word_less_nat_alt)
  then have "unat (UsedTicks (TaskManager s (cur_pid s)) + 1) = unat (UsedTicks (TaskManager s (cur_pid s))) + 1"
    by (subst unat_plus_no_wrap) simp_all
  then show ?thesis
    using assms
    by (simp add: TimerInterrupt_def task_upd in_slice_def process_states linorder_not_le [symmetric])
qed

lemma ticks_in_slice:
  "ProcessState (TaskManager s (cur_pid s)) = READY_PROCESS_STATE \<Longrightarrow>
   unat (UsedTicks (TaskManager s (cur_pid s))) + length fs \<le> unat (MaxTicks (TaskManager s (cur_pid s))) \<Longrightarrow>
   \<exists>s'. timer_ticks fs s = Some s' \<and> in_slice s s' (length fs)"
proof (induction fs arbitrary: s)
  case Nil
  then show ?case by (simp add: in_slice_def)
next
  case (Cons f fs)
  then have "UsedTicks (TaskManager s (cur_pid s)) < MaxTicks (TaskManager s (cur_pid s))"
    by (simp add: word_less_nat_alt)
  from tick_in_slice [OF Cons.prems(1) this, of f] obtain s1 where
    s1: "TimerInterrupt s f = Some (f, s1)" "in_slice s s1 1" by blast
  then have "\<exists>s'. timer_ticks fs s1 = Some s' \<and> in_slice s1 s' (length fs)"
    using Cons.prems by (intro Cons.IH) (simp_all add: in_slice_def)
  then show ?case using s1 by (auto simp: in_slice_def)
qed

text \<open>C15. Preemption: a ready task that has used \<open>u\<close> of its \<open>m\<close> ticks keeps the processor for
  \<open>m - u\<close> timer interrupts and loses it at the next one, to the task the scheduler picks,
  with the registers it had saved and its tick count back at zero.\<close>

theorem TimerInterrupt_preempts:
  assumes ready: "ProcessState (TaskManager s (cur_pid s)) = READY_PROCESS_STATE"
    and len: "unat (UsedTicks (TaskManager s (cur_pid s))) + length fs = unat (MaxTicks (TaskManager s (cur_pid s)))"
  shows "\<exists>s' f' s''. timer_ticks fs s = Some s' \<and> cur_pid s' = cur_pid s \<and>
    TimerInterrupt s' f = Some (f', s'') \<and> cur_pid s'' = find_next_task s' (cur_pid s) \<and>
    task_regs s'' (cur_pid s) = f \<and> UsedTicks (TaskManager s'' (cur_pid s)) = 0"
proof -
  obtain s' where s': "timer_ticks fs s = Some s'" "in_slice s s' (length fs)"
    using ticks_in_slice [OF ready, of fs] len by auto
  have e: "\<not> UsedTicks (TaskManager s' (cur_pid s')) < MaxTicks (TaskManager s' (cur_pid s'))"
    using s'(2) len by (simp add: in_slice_def word_less_nat_alt)
  have st: "ProcessState (TaskManager s' (cur_pid s')) = READY_PROCESS_STATE"
    using s'(2) by (simp add: in_slice_def)
  have st': "ProcessState (TaskManager s' (cur_pid s')) \<noteq> CREATION_PROCESS_STATE"
    "ProcessState (TaskManager s' (cur_pid s')) \<noteq> KILL_PROCESS_STATE"
    using st by (simp_all add: process_states)
  let ?c = "cur_pid s'"
  define s0 where "s0 = upd_regs (s'\<lparr>TimerWindow := TimerWindow s' + 1\<rparr>) ?c (\<lambda>_. f)"
  define s1 where "s1 = upd_task (note_pid s0 ?c ''[timer] was pid 2'') ?c (\<lambda>t. t\<lparr>UsedTicks := 0\<rparr>)"
  let ?n = "find_next_task s1 ?c"
  define s2 where "s2 = note_pid s1 ?n ''[timer] now pid 2''"
  have n: "?n = find_next_task s' ?c"
    by (rule find_next_task_other) (auto simp: s1_def s0_def note_pid_def task_upd say_def)
  have s0: "ProcessState (TaskManager s0 ?c) = ProcessState (TaskManager s' ?c)"
    "UsedTicks (TaskManager s0 ?c) = UsedTicks (TaskManager s' ?c)"
    "MaxTicks (TaskManager s0 ?c) = MaxTicks (TaskManager s' ?c)"
    by (auto simp: s0_def task_upd)
  have s1: "ProcessState (TaskManager s1 ?c) = ProcessState (TaskManager s' ?c)"
    "UsedTicks (TaskManager s1 ?c) = 0" "cur_pid s2 = ?c" "TaskManager s2 = TaskManager s1"
    by (auto simp: s1_def s2_def s0_def note_pid_def task_upd say_def)
  obtain f' s3 where ts: "task_switch s2 ?n f = (f', s3)" by fastforce
  have s3: "cur_pid s3 = ?n" "task_regs s3 ?c = f" "UsedTicks (TaskManager s3 ?c) = 0"
    using ts s1 by (auto simp: task_switch_def UpdateActiveTSS_def task_upd)
  have "end_slice s0 ?c f = Some (f', s3)"
    using st' s1(1) ts by (simp add: end_slice_def s1_def [symmetric] s2_def [symmetric] Let_def)
  then have "TimerInterrupt s' f = Some (f', pic_send_eoi (s3\<lparr>dr0 := word_of_int (cur_pid s3)\<rparr>) 0x00)"
    using st' e s0
    by (simp add: linorder_not_less TimerInterrupt_def s0_def [symmetric] Let_def TASKMGR_get_current_def)
  then show ?thesis using s'(1,2) s3 n by (auto simp: in_slice_def task_regs_def)
qed

section \<open>Calendar\<close>

text \<open>\<open>ParseSeconds\<close> splits a time into minutes and seconds correctly, but reduces the
  hours modulo 60 instead of 24, so that the hour it gives ranges over 0 to 59. The day is right
  as long as it fits 16 bits.\<close>

theorem ParseSeconds_fields:
  assumes "t < 86400 * 65536"
  shows "unat (second (ParseSeconds t)) = unat t mod 60 \<and>
    unat (minute (ParseSeconds t)) = unat t div 60 mod 60 \<and>
    unat (hour (ParseSeconds t)) = unat t div 3600 mod 60 \<and>
    unat (day (ParseSeconds t)) = unat t div 86400"
proof -
  have m: "unat (ucast (a :: u64) :: u16) = unat a" if "unat a < 65536" for a
    using that by (simp add: unsigned_ucast_eq take_bit_nat_eq_self)
  have "unat t < 86400 * 65536" using assms by (simp add: word_less_nat_alt)
  then have d: "unat t div 86400 < 65536" by (simp add: less_mult_imp_div_less)
  have u: "unat (t mod 60) = unat t mod 60" "unat (t div 60 mod 60) = unat t div 60 mod 60"
    "unat (t div 60 div 60 mod 60) = unat t div 3600 mod 60"
    "unat (t div 60 div 60 div 24) = unat t div 86400"
    by (simp_all add: unat_mod unat_div div_mult2_eq [symmetric])
  show ?thesis unfolding ParseSeconds_def Let_def date_data.simps
    using u d by (simp add: m)
qed

theorem ParseSeconds_fields_witness:
  "unat (hour (ParseSeconds 86400)) = 24 \<and> unat (day (ParseSeconds 86400)) = 1"
  using ParseSeconds_fields [of 86400] by simp

section \<open>The theorems on a small task table\<close>

text \<open>Task 3 is running and task 5 is ready, in the address space of the sample machine.\<close>

definition sample_tasks :: "int \<Rightarrow> task" where
  "sample_tasks pid =
     (if pid = 3 \<or> pid = 5
      then zero_task\<lparr>ProcessState := READY_PROCESS_STATE, task_Exists := True, Base_PML4 := 0x1000,
             MaxTicks := 1\<rparr>
      else zero_task)"

definition sample_run :: kst where
  "sample_run = sample_kst\<lparr>TaskManager := sample_tasks, cur_pid := 3\<rparr>"

lemma sample_run_fields [simp]:
  "TaskManager sample_run = sample_tasks" "cur_pid sample_run = 3" "phys_frames sample_run = phys_frames sample_kst"
  by (simp_all add: sample_run_def)

theorem task_switch_roundtrip_witness:
  "\<exists>f1 s1 f3 s2. task_switch sample_run 5 zero_regs = (f1, s1) \<and>
     task_switch s1 3 (zero_regs\<lparr>rg_rax := 7\<rparr>) = (f3, s2) \<and> f3 = zero_regs \<and> cr3 s2 = 0x1000 \<and>
     task_regs s2 5 = zero_regs\<lparr>rg_rax := 7\<rparr>"
proof -
  obtain f1 s1 where 1: "task_switch sample_run 5 zero_regs = (f1, s1)" by fastforce
  obtain f3 s2 where 2: "task_switch s1 3 (zero_regs\<lparr>rg_rax := 7\<rparr>) = (f3, s2)" by fastforce
  from task_switch_roundtrip [OF _ _ 1 2] have "f3 = zero_regs" "cr3 s2 = 0x1000"
    "task_regs s2 5 = zero_regs\<lparr>rg_rax := 7\<rparr>"
    by (simp_all add: sample_tasks_def)
  then show ?thesis using 1 2 by blast
qed

theorem ForceSwitch_leaks_memory_witness:
  "\<exists>frame' s'. ForceSwitch (KillTask sample_run 3) zero_regs = (frame', s') \<and>
     phys_frames s' = phys_frames sample_kst \<and> \<not> task_Exists (TaskManager s' 3)"
proof -
  obtain f s' where 1: "ForceSwitch (KillTask sample_run 3) zero_regs = (f, s')" by fastforce
  from ForceSwitch_leaks_memory [OF _ _ 1] have "phys_frames s' = phys_frames sample_kst"
    "\<not> task_Exists (TaskManager s' 3)"
    by (simp_all add: KillTask_def task_upd)
  then show ?thesis using 1 by blast
qed

theorem TimerInterrupt_preempts_witness:
  "\<exists>s' f' s''. timer_ticks [zero_regs] sample_run = Some s' \<and> cur_pid s' = 3 \<and>
     TimerInterrupt s' zero_regs = Some (f', s'') \<and> cur_pid s'' = find_next_task s' 3"
  using TimerInterrupt_preempts [of sample_run "[zero_regs]" zero_regs]
  by (auto simp: sample_tasks_def zero_task_def)

end
