(* ===== verification/Signals.thy ===== *)
theory Signals
  imports Tasks
begin

text \<open>
  Signal delivery (\<open>Userland/signals.c\<close>): the registers of a task are pushed on its own
  stack, its entry point is replaced by the handler, and \<open>SignalReturn\<close> pops them again.
\<close>

section \<open>The code\<close>

text \<open>Runs of \<open>TaskStack_Push\<close> and \<open>TaskStack_Pop\<close>, one per saved register.\<close>

primrec push_regs :: "(regs \<Rightarrow> u64) list \<Rightarrow> int \<Rightarrow> kst \<Rightarrow> kst option" where
  "push_regs [] pid s = Some s"
| "push_regs (g # gs) pid s = do {
     s \<leftarrow> TaskStack_Push s pid (g (task_regs s pid)) False; push_regs gs pid s }"

primrec pop_regs :: "(u64 \<Rightarrow> regs \<Rightarrow> regs) list \<Rightarrow> int \<Rightarrow> kst \<Rightarrow> kst option" where
  "pop_regs [] pid s = Some s"
| "pop_regs (u # us) pid s = do {
     (v, s) \<leftarrow> TaskStack_Pop s pid False; pop_regs us pid (upd_regs s pid (u v)) }"

text \<open>The registers \<open>EstablishSignalStack\<close> pushes, and the ones \<open>SignalReturn\<close> pops into.\<close>

definition signal_pushes :: "(regs \<Rightarrow> u64) list" where
  "signal_pushes = [rg_rsp, rg_rip, rg_rax, rg_rbx, rg_rcx, rg_rdx, rg_rbp, rg_rdi, rg_rsi,
     rg_r9, rg_r10, rg_r11, rg_r12, rg_r13, rg_r14, rg_r15]"

definition signal_pops :: "(u64 \<Rightarrow> regs \<Rightarrow> regs) list" where
  "signal_pops = [\<lambda>v. rg_r15_update (\<lambda>_. v), \<lambda>v. rg_r14_update (\<lambda>_. v),
     \<lambda>v. rg_r13_update (\<lambda>_. v), \<lambda>v. rg_r12_update (\<lambda>_. v), \<lambda>v. rg_r11_update (\<lambda>_. v),
     \<lambda>v. rg_r10_update (\<lambda>_. v), \<lambda>v. rg_r9_update (\<lambda>_. v), \<lambda>v. rg_rsi_update (\<lambda>_. v),
     \<lambda>v. rg_rdi_update (\<lambda>_. v), \<lambda>v. rg_rbp_update (\<lambda>_. v), \<lambda>v. rg_rdx_update (\<lambda>_. v),
     \<lambda>v. rg_rcx_update (\<lambda>_. v), \<lambda>v. rg_rbx_update (\<lambda>_. v), \<lambda>v. rg_rax_update (\<lambda>_. v),
     \<lambda>v. rg_rip_update (\<lambda>_. v), \<lambda>v. rg_rsp_update (\<lambda>_. v)]"

definition EstablishSignalStack :: "kst \<Rightarrow> int \<Rightarrow> kst option" where
  "EstablishSignalStack s pid =
     (if \<not> task_Exists (TaskManager s pid) then Some s
      else do {
        let curPid = TASKMGR_get_current s;
        let isCurrent = (ProcessID (TaskManager s pid) = word_of_int curPid);
        let last = PML4_Physical s;
        let s = (if isCurrent then s else mem_set_cr3 s (Base_PML4 (TaskManager s pid)) True);
        let s = set_state s pid CREATION_PROCESS_STATE;
        s \<leftarrow> push_regs signal_pushes pid s;
        let s = upd_regs s pid (\<lambda>r. r\<lparr>rg_r12 := rg_rsp r\<rparr>);
        let s = (if isCurrent then s else mem_set_cr3 s last True);
        Some (set_state s pid READY_PROCESS_STATE) })"

definition SignalReturn :: "kst \<Rightarrow> int \<Rightarrow> kst option" where
  "SignalReturn s pid =
     (if \<not> task_Exists (TaskManager s pid) then Some s
      else do {
        let isCurrent = (pid = TASKMGR_get_current s);
        let last = PML4_Physical s;
        let s = (if isCurrent then s else mem_set_cr3 s (Base_PML4 (TaskManager s pid)) True);
        let s = set_state s pid CREATION_PROCESS_STATE;
        let s = upd_regs s pid (\<lambda>r. r\<lparr>rg_rsp := rg_r12 r\<rparr>);
        s \<leftarrow> pop_regs signal_pops pid s;
        let s = (if isCurrent then s else mem_set_cr3 s last True);
        Some (set_state s pid READY_PROCESS_STATE) })"

text \<open>A signal number outside the 16 entries of \<open>Signals\<close> is undefined.\<close>

definition msg_no_signal :: string where
  "msg_no_signal = ''Couldn't find signal %x registered to task %i''"

definition SendSignal :: "kst \<Rightarrow> int \<Rightarrow> nat \<Rightarrow> u64 \<Rightarrow> u64 \<Rightarrow> u64 \<Rightarrow> u64 \<Rightarrow> kst option" where
  "SendSignal s pid ident arg0 arg1 arg2 arg3 =
     (if \<not> task_Exists (TaskManager s pid) then Some s
      else if \<not> ident < 16 then None
      else let sg = Signals (TaskManager s pid) ! ident
        in if \<not> registered sg then Some s
           else let s = set_state s pid CREATION_PROCESS_STATE
             in if \<not> mem_access_ok s (sig_entry sg) pid
                then Some (say s (Printf msg_no_signal [of_nat ident, word_of_int pid]))
                else do {
                  s \<leftarrow> EstablishSignalStack s pid;
                  let s = upd_regs s pid (\<lambda>r. r\<lparr>rg_rdi := arg0, rg_rsi := arg1, rg_rdx := arg2,
                    rg_rcx := arg3, rg_rip := sig_entry (Signals (TaskManager s pid) ! ident)\<rparr>);
                  Some (set_state s pid READY_PROCESS_STATE) })"

definition RegisterSignal :: "kst \<Rightarrow> int \<Rightarrow> nat \<Rightarrow> u64 \<Rightarrow> kst option" where
  "RegisterSignal s pid ident entry =
     (if \<not> task_Exists (TaskManager s pid) \<or> \<not> mem_access_ok s entry pid then Some s
      else if \<not> ident < 16 then None
      else Some (upd_task s pid (\<lambda>t. t\<lparr>Signals := (Signals t)[ident :=
             \<lparr>registered = True, sig_entry = entry\<rparr>]\<rparr>)))"

section \<open>A stack inside one page\<close>

text \<open>
  The stack pointer is at word \<open>m\<close> of the page at \<open>P\<close>, which the address space maps to the
  frame \<open>f\<close>, and \<open>f\<close> holds no table of that address space.
\<close>

definition stack_page :: "kst \<Rightarrow> u64 \<Rightarrow> u64 \<Rightarrow> u64 \<Rightarrow> bool" where
  "stack_page s pml4 P f \<longleftrightarrow> page_aligned P \<and> page_aligned f \<and> page_aligned pml4 \<and>
     pml4 AND PTE_ADDR = pml4 \<and> tbl (ram s) (va_path P) pml4 = Some f \<and> \<not> is_table (ram s) pml4 f"

lemma word_in_page:
  assumes "i < (512 :: u64)"
  shows "8 * i < 0x1000" "8 * i \<le> 0xFF8"
proof -
  have "unat i < 512" using assms by (simp add: word_less_nat_alt)
  then show "8 * i < 0x1000" "8 * i \<le> 0xFF8"
    by (simp_all add: word_less_nat_alt word_le_nat_alt unat_word_ariths)
qed

lemma stack_access:
  assumes "stack_page s (cr3 s) P f" "i < 512"
  shows "vread64 s (P + 8 * i) = Some (rd64 (ram s) (entry_at f i))"
    and "vwrite64 s (P + 8 * i) v = Some (s\<lparr>ram := wr64 (ram s) (entry_at f i) v\<rparr>)"
proof -
  note a = assms(1) [unfolded stack_page_def]
  note k = word_in_page [OF assms(2)]
  have P: "page_aligned P" using a by simp
  have w: "walk s (P + 8 * i) = Some (f OR 8 * i)"
    using a page_offset_split [OF P k(1)] by (simp add: walk_def mmu_walk_def)
  have "f OR 8 * i = entry_at f i"
    using page_plus_or [of f "8 * i"] a k(1) by (simp add: entry_at_def)
  moreover have "in_one_page8 (P + 8 * i)"
    using page_offset_split(1) [OF P k(1)] k(2) by (simp add: in_one_page8_def)
  ultimately show "vread64 s (P + 8 * i) = Some (rd64 (ram s) (entry_at f i))"
    and "vwrite64 s (P + 8 * i) v = Some (s\<lparr>ram := wr64 (ram s) (entry_at f i) v\<rparr>)"
    using w by (simp_all add: vread64_def vwrite64_def)
qed

lemma stack_page_write:
  assumes "stack_page s pml4 P f" "i < 512"
  shows "stack_page (s\<lparr>ram := wr64 (ram s) (entry_at f i) v\<rparr>) pml4 P f"
proof -
  note a = assms(1) [unfolded stack_page_def]
  have f: "page_aligned f" using a by simp
  have out: "wr64 (ram s) (entry_at f i) v x = ram s x" if "\<not> in_page f x" for x
  proof (rule ccontr)
    assume "wr64 (ram s) (entry_at f i) v x \<noteq> ram s x"
    then have b: "x - entry_at f i < 8" by (auto simp: wr64_def split: if_splits)
    then have "in_page f (entry_at f i + (x - entry_at f i))"
      using entry_byte_in_page [OF f f assms(2) b] by simp
    then show False using that by simp
  qed
  have "same_walks (ram s) (wr64 (ram s) (entry_at f i) v) pml4"
    by (rule same_walks_page [OF _ f _ out]) (use a in simp_all)
  then show ?thesis using a by (simp add: stack_page_def same_walksD same_walks_is_table)
qed

section \<open>Runs of pushes and pops\<close>

lemmas task_fields = upd_task_def upd_regs_def set_state_def task_regs_def

lemma vread64_same: "ram s' = ram s \<Longrightarrow> cr3 s' = cr3 s \<Longrightarrow> vread64 s' a = vread64 s a"
  by (simp add: vread64_def walk_def)

lemma stack_page_upd [simp]: "stack_page (upd_regs s pid g) pml4 P f = stack_page s pml4 P f"
  by (simp add: stack_page_def task_fields)

lemma push_one:
  assumes "task_Exists (TaskManager s pid)" "stack_page s (cr3 s) P f"
    and "rg_rsp (task_regs s pid) = P + 8 * of_nat (Suc m)" "m < 512"
  shows "TaskStack_Push s pid v False =
    Some (upd_regs (s\<lparr>ram := wr64 (ram s) (entry_at f (of_nat m)) v\<rparr>) pid
      (\<lambda>r. r\<lparr>rg_rsp := P + 8 * of_nat m\<rparr>))"
proof -
  have m: "(of_nat m :: u64) < 512" using assms(4) by (simp add: word_less_nat_alt unat_of_nat)
  let ?s = "upd_regs s pid (\<lambda>r. r\<lparr>rg_rsp := rg_rsp r - 8\<rparr>)"
  have e: "rg_rsp (task_regs s pid) - 8 = P + 8 * of_nat m" using assms(3) by (simp add: algebra_simps)
  have sp: "stack_page ?s (cr3 ?s) P f" using assms(2) by (simp add: task_fields stack_page_def)
  have "vwrite64 ?s (P + 8 * of_nat m) v = Some (?s\<lparr>ram := wr64 (ram ?s) (entry_at f (of_nat m)) v\<rparr>)"
    by (rule stack_access(2) [OF sp m])
  then show ?thesis using assms(1) e by (simp add: TaskStack_Push_def task_fields Let_def)
qed

lemma upd_rsp_same: "upd_regs s pid (\<lambda>r. r\<lparr>rg_rsp := rg_rsp (task_regs s pid)\<rparr>) = s"
  by (simp add: task_fields)

lemma push_regs_spec:
  "task_Exists (TaskManager s pid) \<Longrightarrow> stack_page s (cr3 s) P f \<Longrightarrow>
   rg_rsp (task_regs s pid) = P + 8 * of_nat m \<Longrightarrow> m \<le> 512 \<Longrightarrow> length gs \<le> m \<Longrightarrow>
   (\<forall>g \<in> set (tl gs). \<forall>r x. g (r\<lparr>rg_rsp := x\<rparr>) = g r) \<Longrightarrow>
   \<exists>mem. push_regs gs pid s = Some (upd_regs (s\<lparr>ram := mem\<rparr>) pid
       (\<lambda>r. r\<lparr>rg_rsp := P + 8 * of_nat (m - length gs)\<rparr>)) \<and>
     stack_page (s\<lparr>ram := mem\<rparr>) (cr3 s) P f \<and>
     (\<forall>i < 512. rd64 mem (entry_at f (of_nat i)) =
        (if m - length gs \<le> i \<and> i < m then (gs ! (m - 1 - i)) (task_regs s pid)
         else rd64 (ram s) (entry_at f (of_nat i))))"
proof (induction gs arbitrary: s m)
  case Nil
  have "upd_regs s pid (\<lambda>r. r\<lparr>rg_rsp := P + 8 * of_nat m\<rparr>) = s"
    unfolding Nil.prems(3) [symmetric] by (rule upd_rsp_same)
  then show ?case using Nil.prems(2) by (intro exI [of _ "ram s"]) auto
next
  case (Cons g gs)
  then obtain k where k: "m = Suc k" "k < 512" by (cases m) auto
  have kw: "(of_nat k :: u64) < 512" using k(2) by (simp add: word_less_nat_alt unat_of_nat)
  let ?v = "g (task_regs s pid)"
  let ?m = "wr64 (ram s) (entry_at f (of_nat k)) ?v"
  define s1 where "s1 = upd_regs (s\<lparr>ram := ?m\<rparr>) pid (\<lambda>r. r\<lparr>rg_rsp := P + 8 * of_nat k\<rparr>)"
  have push: "TaskStack_Push s pid ?v False = Some s1"
    unfolding s1_def using push_one [OF Cons.prems(1,2) _ k(2)] Cons.prems(3) k(1) by simp
  have s1: "task_Exists (TaskManager s1 pid)" "cr3 s1 = cr3 s" "ram s1 = ?m"
    "task_regs s1 pid = (task_regs s pid)\<lparr>rg_rsp := P + 8 * of_nat k\<rparr>"
    using Cons.prems(1) by (simp_all add: s1_def task_fields)
  have compose: "upd_regs (s1\<lparr>ram := mem\<rparr>) pid (\<lambda>r. r\<lparr>rg_rsp := x\<rparr>) =
      upd_regs (s\<lparr>ram := mem\<rparr>) pid (\<lambda>r. r\<lparr>rg_rsp := x\<rparr>)" for mem x
    by (simp add: s1_def task_fields)
  have sp: "stack_page s1 (cr3 s1) P f"
    unfolding s1(2) unfolding s1_def stack_page_upd by (rule stack_page_write [OF Cons.prems(2) kw])
  have ind: "\<forall>g \<in> set gs. \<forall>r x. g (r\<lparr>rg_rsp := x\<rparr>) = g r" using Cons.prems(6) by simp
  then have indt: "\<forall>g \<in> set (tl gs). \<forall>r x. g (r\<lparr>rg_rsp := x\<rparr>) = g r" by (cases gs) auto
  have len: "length gs \<le> k" using Cons.prems(5) k(1) by simp
  have rsp: "rg_rsp (task_regs s1 pid) = P + 8 * of_nat k" by (simp add: s1(4))
  obtain mem where mem: "push_regs gs pid s1 = Some (upd_regs (s1\<lparr>ram := mem\<rparr>) pid
       (\<lambda>r. r\<lparr>rg_rsp := P + 8 * of_nat (k - length gs)\<rparr>))"
     and sp2: "stack_page (s1\<lparr>ram := mem\<rparr>) (cr3 s1) P f"
     and w: "\<forall>i < 512. rd64 mem (entry_at f (of_nat i)) =
        (if k - length gs \<le> i \<and> i < k then (gs ! (k - 1 - i)) (task_regs s1 pid)
         else rd64 (ram s1) (entry_at f (of_nat i)))"
    using Cons.IH [OF s1(1) sp rsp less_imp_le [OF k(2)] len indt] by (elim exE conjE) (rule that)
  have regs: "(gs ! j) (task_regs s1 pid) = (gs ! j) (task_regs s pid)" if "j < length gs" for j
    unfolding s1(4) using ind nth_mem [OF that] by simp
  have f: "page_aligned f" using Cons.prems(2) by (simp add: stack_page_def)
  have cell: "rd64 ?m (entry_at f (of_nat i)) = (if i = k then ?v else rd64 (ram s) (entry_at f (of_nat i)))"
    if i: "i < 512" for i
  proof -
    have iw: "(of_nat i :: u64) < 512" using i by (simp add: word_less_nat_alt unat_of_nat)
    have "(of_nat k :: u64) = of_nat i \<longleftrightarrow> i = k"
      using i k(2) by (auto simp: word_unat_eq_iff unat_of_nat)
    then show ?thesis using rd64_wr64_entry [OF f f kw iw] by simp
  qed
  have words: "rd64 mem (entry_at f (of_nat i)) =
        (if m - length (g # gs) \<le> i \<and> i < m then ((g # gs) ! (m - 1 - i)) (task_regs s pid)
         else rd64 (ram s) (entry_at f (of_nat i)))" if i: "i < 512" for i
  proof -
    have wi: "rd64 mem (entry_at f (of_nat i)) =
        (if k - length gs \<le> i \<and> i < k then (gs ! (k - 1 - i)) (task_regs s1 pid)
         else if i = k then ?v else rd64 (ram s) (entry_at f (of_nat i)))"
      using spec [OF w, of i] i unfolding s1(3) cell [OF i] by simp
    consider "i = k" | "k - length gs \<le> i" "i < k" | "i < k - length gs" | "k < i" by linarith
    then show ?thesis
    proof cases
      case 2
      then have j: "k - 1 - i < length gs" "m - 1 - i = Suc (k - 1 - i)" using k len by simp_all
      have in_m: "m - length (g # gs) \<le> i \<and> i < m" using 2 k(1) by simp
      show ?thesis unfolding wi j(2) using 2 in_m regs [OF j(1)] by simp
    next
      case 1
      then show ?thesis using wi k(1) len by simp
    next
      case 3
      then have "i \<noteq> k" by simp
      then show ?thesis using 3 wi k(1) len by simp
    next
      case 4
      then show ?thesis using wi k(1) len by simp
    qed
  qed
  have "push_regs (g # gs) pid s = Some (upd_regs (s\<lparr>ram := mem\<rparr>) pid
       (\<lambda>r. r\<lparr>rg_rsp := P + 8 * of_nat (m - length (g # gs))\<rparr>))"
    using push mem k(1) by (simp add: compose)
  moreover have "stack_page (s\<lparr>ram := mem\<rparr>) (cr3 s) P f"
    using sp2 by (simp add: stack_page_def s1)
  ultimately show ?case using words by (intro exI [of _ mem]) simp
qed

text \<open>Popping reads the words upwards; each but the last leaves RSP to the increment.\<close>

primrec pops :: "(u64 \<Rightarrow> regs \<Rightarrow> regs) list \<Rightarrow> u64 list \<Rightarrow> regs \<Rightarrow> regs" where
  "pops [] vs r = r"
| "pops (u # us) vs r = pops us (tl vs) (u (hd vs) (r\<lparr>rg_rsp := rg_rsp r + 8\<rparr>))"

lemma pop_regs_spec:
  "task_Exists (TaskManager s pid) \<Longrightarrow> length vs = length us \<Longrightarrow>
   (\<forall>k < length us. vread64 s (rg_rsp (task_regs s pid) + 8 * of_nat k) = Some (vs ! k)) \<Longrightarrow>
   (\<forall>u \<in> set (butlast us). \<forall>v r. rg_rsp (u v r) = rg_rsp r) \<Longrightarrow>
   pop_regs us pid s = Some (upd_regs s pid (\<lambda>_. pops us vs (task_regs s pid)))"
proof (induction us arbitrary: s vs)
  case Nil
  then show ?case by (simp add: task_fields)
next
  case (Cons u us)
  then obtain v vs' where vs: "vs = v # vs'" by (cases vs) auto
  let ?s = "upd_regs s pid (\<lambda>r. r\<lparr>rg_rsp := rg_rsp r + 8\<rparr>)"
  let ?t = "upd_regs ?s pid (u v)"
  have "vread64 s (rg_rsp (task_regs s pid)) = Some v" using Cons.prems(3) vs by force
  then have pop: "TaskStack_Pop s pid False = Some (v, ?s)"
    using Cons.prems(1) vread64_same [of ?s s] by (simp add: TaskStack_Pop_def task_fields Let_def)
  have "pop_regs us pid ?t = Some (upd_regs ?t pid (\<lambda>_. pops us vs' (task_regs ?t pid)))"
  proof (cases "us = []")
    case True
    then show ?thesis by (simp add: task_fields)
  next
    case False
    then have keep: "rg_rsp (u v r) = rg_rsp r" for r using Cons.prems(4) by simp
    show ?thesis
    proof (rule Cons.IH)
      show "\<forall>k < length us. vread64 ?t (rg_rsp (task_regs ?t pid) + 8 * of_nat k) = Some (vs' ! k)"
      proof (intro allI impI)
        fix k assume k: "k < length us"
        have "vread64 s (rg_rsp (task_regs s pid) + 8 * of_nat (Suc k)) = Some (vs ! Suc k)"
          using spec [OF Cons.prems(3), of "Suc k"] k by (simp del: of_nat_Suc)
        moreover have "rg_rsp (task_regs ?t pid) + 8 * of_nat k = rg_rsp (task_regs s pid) + 8 * of_nat (Suc k)"
          using keep by (simp add: task_fields algebra_simps)
        ultimately show "vread64 ?t (rg_rsp (task_regs ?t pid) + 8 * of_nat k) = Some (vs' ! k)"
          using vread64_same [of ?t s] by (simp add: vs task_fields add.assoc)
      qed
    qed (use Cons.prems vs False in \<open>simp_all add: task_fields\<close>)
  qed
  then show ?case using pop by (simp add: vs task_fields)
qed

section \<open>Delivery and return\<close>

text \<open>The word at \<open>a\<close> in the address space \<open>pml4\<close>.\<close>

definition user_word :: "kst \<Rightarrow> u64 \<Rightarrow> u64 \<Rightarrow> u64 option" where
  "user_word s pml4 a = vread64 (s\<lparr>cr3 := pml4\<rparr>) a"

lemma EstablishSignalStack_spec:
  assumes ex: "task_Exists (TaskManager s pid)"
    and nc: "ProcessID (TaskManager s pid) \<noteq> word_of_int (cur_pid s)"
    and st: "stack_page s (Base_PML4 (TaskManager s pid)) P f"
      "rg_rsp (task_regs s pid) = P + 8 * of_nat m" "16 \<le> m" "m \<le> 512"
  obtains s1 where "EstablishSignalStack s pid = Some s1"
    "TaskManager s1 pid = (TaskManager s pid)\<lparr>ProcessState := READY_PROCESS_STATE,
       SavedRegisters := (task_regs s pid)\<lparr>rg_rsp := P + 8 * of_nat (m - 16),
         rg_r12 := P + 8 * of_nat (m - 16)\<rparr>\<rparr>"
    "cr3 s1 = PML4_Physical s" "PML4_Physical s1 = PML4_Physical s" "cur_pid s1 = cur_pid s"
    "\<forall>k < 16. user_word s1 (Base_PML4 (TaskManager s pid)) (P + 8 * of_nat (m - 16) + 8 * of_nat k) =
       Some ((signal_pushes ! (15 - k)) (task_regs s pid))"
proof -
  let ?b = "Base_PML4 (TaskManager s pid)"
  define s0 where "s0 = set_state (mem_set_cr3 s ?b True) pid CREATION_PROCESS_STATE"
  have s0: "task_Exists (TaskManager s0 pid)" "cr3 s0 = ?b" "task_regs s0 pid = task_regs s pid"
    "cur_pid s0 = cur_pid s" "stack_page s0 (cr3 s0) P f"
    using ex st(1) by (simp_all add: s0_def task_fields mem_set_cr3_def mem_sync_cr3_def stack_page_def Let_def)
  have indep: "\<forall>g \<in> set (tl signal_pushes). \<forall>r x. g (r\<lparr>rg_rsp := x\<rparr>) = g r"
    by (simp add: signal_pushes_def)
  have len16: "length signal_pushes = 16" by (simp add: signal_pushes_def)
  have len: "length signal_pushes \<le> m" using st(3) by (simp add: len16)
  have rsp: "rg_rsp (task_regs s0 pid) = P + 8 * of_nat m" using st(2) by (simp add: s0)
  obtain mem where mem: "push_regs signal_pushes pid s0 = Some (upd_regs (s0\<lparr>ram := mem\<rparr>) pid
       (\<lambda>r. r\<lparr>rg_rsp := P + 8 * of_nat (m - length signal_pushes)\<rparr>))"
     and sp: "stack_page (s0\<lparr>ram := mem\<rparr>) (cr3 s0) P f"
     and w: "\<forall>i < 512. rd64 mem (entry_at f (of_nat i)) =
        (if m - length signal_pushes \<le> i \<and> i < m then (signal_pushes ! (m - 1 - i)) (task_regs s0 pid)
         else rd64 (ram s0) (entry_at f (of_nat i)))"
    using push_regs_spec [OF s0(1) s0(5) rsp st(4) len indep] by (elim exE conjE) (rule that)
  define s1 where "s1 = set_state (mem_set_cr3 (upd_regs (upd_regs (s0\<lparr>ram := mem\<rparr>) pid
       (\<lambda>r. r\<lparr>rg_rsp := P + 8 * of_nat (m - 16)\<rparr>)) pid (\<lambda>r. r\<lparr>rg_r12 := rg_rsp r\<rparr>))
       (PML4_Physical s) True) pid READY_PROCESS_STATE"
  have E: "EstablishSignalStack s pid = Some s1"
    using ex nc mem [unfolded len16]
    by (simp add: EstablishSignalStack_def TASKMGR_get_current_def s0_def [symmetric] s1_def Let_def)
  have words: "user_word s1 ?b (P + 8 * of_nat (m - 16) + 8 * of_nat k) =
       Some ((signal_pushes ! (15 - k)) (task_regs s pid))" if k: "k < 16" for k
  proof -
    have i: "m - 16 + k < 512" "m - 16 + k < m" "m - 1 - (m - 16 + k) = 15 - k" using st(3,4) k by simp_all
    have iw: "(of_nat (m - 16 + k) :: u64) < 512"
      using i(1) by (simp add: word_less_nat_alt unat_of_nat del: of_nat_add)
    have ra: "ram s1 = mem" by (simp add: s1_def task_fields mem_set_cr3_def mem_sync_cr3_def Let_def)
    have sp1: "stack_page (s1\<lparr>cr3 := ?b\<rparr>) (cr3 (s1\<lparr>cr3 := ?b\<rparr>)) P f"
      using sp by (simp add: stack_page_def ra s0)
    have "P + 8 * of_nat (m - 16) + 8 * of_nat k = P + 8 * (of_nat (m - 16 + k) :: u64)"
      by (simp add: algebra_simps)
    moreover have "rd64 mem (entry_at f (of_nat (m - 16 + k))) = (signal_pushes ! (15 - k)) (task_regs s pid)"
    proof -
      have c: "m - length signal_pushes \<le> m - 16 + k \<and> m - 16 + k < m" unfolding len16 using i(2) by arith
      from mp [OF spec [OF w] i(1)] show ?thesis by (simp only: c if_True simp_thms i(3) s0(3))
    qed
    ultimately show ?thesis
      using stack_access(1) [OF sp1 iw] unfolding user_word_def by (simp add: ra add.assoc)
  qed
  show thesis
    by (rule that [OF E]) (use words in \<open>simp_all add: s1_def s0_def task_fields mem_set_cr3_def
        mem_sync_cr3_def Let_def\<close>)
qed

text \<open>
  What the handler may do before it returns: change every register but R12, and all memory
  but the sixteen words the signal was delivered with.
\<close>

definition handler_returned :: "kst \<Rightarrow> kst \<Rightarrow> int \<Rightarrow> regs \<Rightarrow> bool" where
  "handler_returned s1 s2 pid r \<longleftrightarrow>
     (let b = Base_PML4 (TaskManager s1 pid)
      in TaskManager s2 pid = (TaskManager s1 pid)\<lparr>SavedRegisters := r\<rparr> \<and>
         rg_r12 r = rg_r12 (task_regs s1 pid) \<and> (cur_pid s2 = pid \<longrightarrow> cr3 s2 = b) \<and>
         (\<forall>k < 16. user_word s2 b (rg_r12 r + 8 * of_nat k) = user_word s1 b (rg_r12 r + 8 * of_nat k)))"

text \<open>C13. Signal delivery and return are inverse: for any handler that keeps R12 and the
  saved words, \<open>SignalReturn\<close> gives the task back every general register, RIP and RSP as they
  were when the signal arrived, except R8, which is not saved and keeps the handler's value.\<close>

theorem signal_roundtrip:
  assumes ex: "task_Exists (TaskManager s pid)"
    and nc: "ProcessID (TaskManager s pid) \<noteq> word_of_int (cur_pid s)"
    and st: "stack_page s (Base_PML4 (TaskManager s pid)) P f"
      "rg_rsp (task_regs s pid) = P + 8 * of_nat m" "16 \<le> m" "m \<le> 512"
  shows "\<exists>s1. EstablishSignalStack s pid = Some s1 \<and> cr3 s1 = PML4_Physical s \<and>
    (\<forall>s2 r. handler_returned s1 s2 pid r \<longrightarrow>
      (\<exists>s3. SignalReturn s2 pid = Some s3 \<and> ram s3 = ram s2 \<and>
        task_regs s3 pid = r\<lparr>rg_rsp := rg_rsp (task_regs s pid), rg_rip := rg_rip (task_regs s pid),
          rg_rax := rg_rax (task_regs s pid), rg_rbx := rg_rbx (task_regs s pid),
          rg_rcx := rg_rcx (task_regs s pid), rg_rdx := rg_rdx (task_regs s pid),
          rg_rbp := rg_rbp (task_regs s pid), rg_rdi := rg_rdi (task_regs s pid),
          rg_rsi := rg_rsi (task_regs s pid), rg_r9 := rg_r9 (task_regs s pid),
          rg_r10 := rg_r10 (task_regs s pid), rg_r11 := rg_r11 (task_regs s pid),
          rg_r12 := rg_r12 (task_regs s pid), rg_r13 := rg_r13 (task_regs s pid),
          rg_r14 := rg_r14 (task_regs s pid), rg_r15 := rg_r15 (task_regs s pid)\<rparr>))"
proof -
  let ?b = "Base_PML4 (TaskManager s pid)" and ?a = "P + 8 * of_nat (m - 16)"
  obtain s1 where s1: "EstablishSignalStack s pid = Some s1" "cr3 s1 = PML4_Physical s"
    and t1: "TaskManager s1 pid = (TaskManager s pid)\<lparr>ProcessState := READY_PROCESS_STATE,
       SavedRegisters := (task_regs s pid)\<lparr>rg_rsp := ?a, rg_r12 := ?a\<rparr>\<rparr>"
    and w1: "\<forall>k < 16. user_word s1 ?b (?a + 8 * of_nat k) = Some ((signal_pushes ! (15 - k)) (task_regs s pid))"
    by (rule EstablishSignalStack_spec [OF assms])
  let ?R = "task_regs s pid"
  let ?vs = "[rg_r15 ?R, rg_r14 ?R, rg_r13 ?R, rg_r12 ?R, rg_r11 ?R, rg_r10 ?R, rg_r9 ?R, rg_rsi ?R,
    rg_rdi ?R, rg_rbp ?R, rg_rdx ?R, rg_rcx ?R, rg_rbx ?R, rg_rax ?R, rg_rip ?R, rg_rsp ?R]"
  have vs: "?vs ! k = (signal_pushes ! (15 - k)) ?R" if "k < 16" for k
  proof -
    have "k = 0 \<or> k = 1 \<or> k = 2 \<or> k = 3 \<or> k = 4 \<or> k = 5 \<or> k = 6 \<or> k = 7 \<or> k = 8 \<or> k = 9 \<or>
        k = 10 \<or> k = 11 \<or> k = 12 \<or> k = 13 \<or> k = 14 \<or> k = 15" using that by arith
    then show ?thesis by (elim disjE) (simp_all add: signal_pushes_def)
  qed
  {
    fix s2 r
    assume h: "handler_returned s1 s2 pid r"
    have t2: "TaskManager s2 pid = (TaskManager s1 pid)\<lparr>SavedRegisters := r\<rparr>" "rg_r12 r = ?a"
      "cur_pid s2 = pid \<longrightarrow> cr3 s2 = ?b"
      and w2: "\<forall>k < 16. user_word s2 ?b (?a + 8 * of_nat k) = user_word s1 ?b (?a + 8 * of_nat k)"
      using h by (auto simp: handler_returned_def Let_def t1 task_regs_def)
    define q where "q = (if pid = cur_pid s2 then s2 else mem_set_cr3 s2 ?b True)"
    define s0 where "s0 = upd_regs (set_state q pid CREATION_PROCESS_STATE) pid (\<lambda>r. r\<lparr>rg_rsp := rg_r12 r\<rparr>)"
    have q: "cr3 q = ?b" "ram q = ram s2" "TaskManager q = TaskManager s2"
      using t2(3) by (auto simp: q_def mem_set_cr3_def mem_sync_cr3_def Let_def)
    have s0: "task_Exists (TaskManager s0 pid)" "cr3 s0 = ?b" "ram s0 = ram s2"
      "task_regs s0 pid = r\<lparr>rg_rsp := ?a\<rparr>"
      using ex by (simp_all add: s0_def task_fields q t2 t1)
    have read: "\<forall>k < 16. vread64 s0 (rg_rsp (task_regs s0 pid) + 8 * of_nat k) = Some (?vs ! k)"
    proof (intro allI impI)
      fix k :: nat assume k: "k < 16"
      have "vread64 s0 (?a + 8 * of_nat k) = user_word s2 ?b (?a + 8 * of_nat k)"
        unfolding user_word_def by (rule vread64_same) (simp_all add: s0)
      then show "vread64 s0 (rg_rsp (task_regs s0 pid) + 8 * of_nat k) = Some (?vs ! k)"
        using w1 w2 k vs [OF k] by (simp add: s0(4))
    qed
    have l: "length signal_pops = 16" "length ?vs = length signal_pops" by (simp_all add: signal_pops_def)
    have keep: "\<forall>u \<in> set (butlast signal_pops). \<forall>v r. rg_rsp (u v r) = rg_rsp r"
      by (simp add: signal_pops_def)
    have pop: "pop_regs signal_pops pid s0 = Some (upd_regs s0 pid (\<lambda>_. pops signal_pops ?vs (task_regs s0 pid)))"
      by (rule pop_regs_spec [OF s0(1) l(2) _ keep]) (use read in \<open>simp only: l(1)\<close>)
    define s3 where "s3 = set_state (if pid = cur_pid s2
        then upd_regs s0 pid (\<lambda>_. pops signal_pops ?vs (task_regs s0 pid))
        else mem_set_cr3 (upd_regs s0 pid (\<lambda>_. pops signal_pops ?vs (task_regs s0 pid))) (PML4_Physical s2) True)
      pid READY_PROCESS_STATE"
    have ex2: "task_Exists (TaskManager s2 pid)" and b2: "Base_PML4 (TaskManager s2 pid) = ?b"
      using ex by (simp_all add: t2 t1)
    have "SignalReturn s2 pid = Some s3"
      using pop ex2
      by (simp add: SignalReturn_def Let_def TASKMGR_get_current_def b2 q_def [symmetric] s0_def [symmetric]
          s3_def split del: if_split cong del: if_weak_cong)
    moreover have "ram s3 = ram s2"
      by (simp add: s3_def task_fields mem_set_cr3_def mem_sync_cr3_def Let_def s0(3))
    moreover have "task_regs s3 pid = pops signal_pops ?vs (task_regs s0 pid)"
      unfolding s3_def by (simp add: task_fields mem_set_cr3_def mem_sync_cr3_def Let_def)
    ultimately have "SignalReturn s2 pid = Some s3 \<and> ram s3 = ram s2 \<and>
        task_regs s3 pid = r\<lparr>rg_rsp := rg_rsp ?R, rg_rip := rg_rip ?R,
          rg_rax := rg_rax ?R, rg_rbx := rg_rbx ?R, rg_rcx := rg_rcx ?R, rg_rdx := rg_rdx ?R,
          rg_rbp := rg_rbp ?R, rg_rdi := rg_rdi ?R, rg_rsi := rg_rsi ?R, rg_r9 := rg_r9 ?R,
          rg_r10 := rg_r10 ?R, rg_r11 := rg_r11 ?R, rg_r12 := rg_r12 ?R, rg_r13 := rg_r13 ?R,
          rg_r14 := rg_r14 ?R, rg_r15 := rg_r15 ?R\<rparr>"
      by (simp add: s0(4) signal_pops_def)
  }
  then show ?thesis using s1 by blast
qed

text \<open>Task 5 of the sample machine, with its stack in the page at \<open>0xffff800000005000\<close>.\<close>

definition sample_sig :: kst where
  "sample_sig = sample_kst\<lparr>TaskManager := (\<lambda>pid. if pid = 5
     then zero_task\<lparr>task_Exists := True, Base_PML4 := 0x1000,
            SavedRegisters := zero_regs\<lparr>rg_rsp := 0xffff800000006000, rg_r8 := 8, rg_rbx := 11\<rparr>\<rparr>
     else zero_task), cur_pid := 3\<rparr>"

lemma sample_sig_stack:
  "stack_page sample_sig 0x1000 0xffff800000005000 0x5000"
proof -
  have "tbl sample_ram (va_path (0x5000 + VIRTUAL_MEMORY_BARRIER)) 0x1000 = Some 0x5000"
    using direct_map_tbl [OF paging_invD(7) [OF sample_paging_inv] paging_invD(5) [OF sample_paging_inv], of "0x5000"]
    by (simp add: page_aligned_def)
  then show ?thesis
    by (simp add: stack_page_def sample_sig_def page_aligned_def PTE_ADDR_def sample_is_table
        VIRTUAL_MEMORY_BARRIER_def)
qed

theorem signal_roundtrip_witness:
  "\<exists>s1 s3. EstablishSignalStack sample_sig 5 = Some s1 \<and> SignalReturn (s1\<lparr>cur_pid := 3\<rparr>) 5 = Some s3 \<and>
     rg_rbx (task_regs s3 5) = 11 \<and> rg_rsp (task_regs s3 5) = 0xffff800000006000"
proof -
  have ex: "task_Exists (TaskManager sample_sig 5)"
    and nc: "ProcessID (TaskManager sample_sig 5) \<noteq> word_of_int (cur_pid sample_sig)"
    and st: "stack_page sample_sig (Base_PML4 (TaskManager sample_sig 5)) 0xffff800000005000 0x5000"
    and rsp: "rg_rsp (task_regs sample_sig 5) = 0xffff800000005000 + 8 * of_nat 512"
    using sample_sig_stack by (simp_all add: sample_sig_def zero_task_def task_regs_def)
  obtain s1 where s1: "EstablishSignalStack sample_sig 5 = Some s1"
    and ret: "\<And>s2 r. handler_returned s1 s2 5 r \<Longrightarrow> \<exists>s3. SignalReturn s2 5 = Some s3 \<and>
      rg_rbx (task_regs s3 5) = rg_rbx (task_regs sample_sig 5) \<and>
      rg_rsp (task_regs s3 5) = rg_rsp (task_regs sample_sig 5)"
    using signal_roundtrip [OF ex nc st rsp] by fastforce
  have "handler_returned s1 (s1\<lparr>cur_pid := 3\<rparr>) 5 (task_regs s1 5)"
    by (simp add: handler_returned_def task_regs_def user_word_def vread64_def walk_def Let_def)
  from ret [OF this] show ?thesis using s1 by (auto simp: sample_sig_def task_regs_def)
qed

end
