(* ===== verification/Keyboard.thy ===== *)
theory Keyboard
  imports Tasks Low_Level
begin

text \<open>
  The keyboard driver \<open>Devices/PS2/Keyboard.c\<close>: scan codes to characters, the line buffer, and
  the delivery of a finished line to the task that waits for input. The key buffer and the
  modifier flags are globals of the driver, apart from the kernel state.
\<close>

record keyboard =
  capslock :: bool
  upper :: bool
  key_buffer :: "u8 list"
  key_buffer_pos :: int

text \<open>The members of \<open>enum PS2_KeyCodesPressed\<close> the driver tests for.\<close>

definition NULL_CODE :: nat where "NULL_CODE = 0"
definition ENTER :: nat where "ENTER = 28"
definition L_SHIFT :: nat where "L_SHIFT = 42"
definition R_SHIFT :: nat where "R_SHIFT = 54"
definition CAPSLOCK :: nat where "CAPSLOCK = 58"
definition KEYPAD_7 :: nat where "KEYPAD_7 = 71"
definition FU12 :: nat where "FU12 = 85"

lemmas key_codes = NULL_CODE_def ENTER_def L_SHIFT_def R_SHIFT_def CAPSLOCK_def KEYPAD_7_def FU12_def

definition KeyCodeLookupTable :: "u8 list" where
  "KeyCodeLookupTable =
     [0, 27, 49, 50, 51, 52, 53, 54, 55, 56, 57, 48, 45, 61, 8, 9, 113, 119, 101, 114, 116, 121, 117,
      105, 111, 112, 91, 93, 0, 0, 97, 115, 100, 102, 103, 104, 106, 107, 108, 59, 39, 96, 0, 92, 122,
      120, 99, 118, 98, 110, 109, 44, 46, 47, 0, 42, 0, 32, 0, 0, 0, 0, 0, 0, 0, 0, 0, 0, 0, 0, 55, 56,
      57, 45, 52, 53, 54, 43, 49, 50, 51, 48, 46, 0, 0]"

definition KeyCodeLookupTable_Shift :: "u8 list" where
  "KeyCodeLookupTable_Shift =
     [0, 27, 33, 64, 35, 36, 37, 94, 38, 42, 40, 41, 95, 43, 8, 9, 81, 87, 69, 82, 84, 89, 85, 73, 79,
      80, 123, 125, 0, 0, 65, 83, 68, 70, 71, 72, 74, 75, 76, 58, 34, 126, 0, 124, 90, 88, 67, 86, 66,
      78, 77, 60, 62, 63, 0, 42, 0, 32, 0, 0, 0, 0, 0, 0, 0, 0, 0, 0, 0, 0, 55, 56, 57, 45, 52, 53, 54,
      43, 49, 50, 51, 48, 46, 0, 0]"

text \<open>An index past a table reads other memory: no result.\<close>

definition table_get :: "u8 list \<Rightarrow> nat \<Rightarrow> u8 option" where
  "table_get t i = (if i < length t then Some (t ! i) else None)"

definition KeyCode_To_Char :: "keyboard \<Rightarrow> nat \<Rightarrow> u8 option" where
  "KeyCode_To_Char k Keycode =
     (if upper k \<noteq> capslock k then table_get KeyCodeLookupTable_Shift Keycode
      else table_get KeyCodeLookupTable Keycode)"

definition KeycodeIsPrintable :: "nat \<Rightarrow> bool option" where
  "KeycodeIsPrintable Keycode = map_option (\<lambda>c. c \<noteq> 0) (table_get KeyCodeLookupTable Keycode)"

definition canonicalize_arithmetic :: "u64 \<Rightarrow> u64" where
  "canonicalize_arithmetic addr = (addr AND (push_bit 48 1 - 1)) OR NOT ((addr AND push_bit 47 1) - 1)"

definition GetWaitingProgram :: "kst \<Rightarrow> int" where
  "GetWaitingProgram s =
     (case List.find (\<lambda>i. task_Exists (TaskManager s i) \<and>
             ProcessState (TaskManager s i) = WAITING_PROCESS_STATE \<and>
             WaitingReason (TaskManager s i) = WAITING_REASON_INPUT) (map int [0..<512]) of
        Some i \<Rightarrow> i | None \<Rightarrow> 512)"

text \<open>\<open>memcpy\<close> from a kernel array to a user address.\<close>

primrec copy_out :: "u8 list \<Rightarrow> kst \<Rightarrow> u64 \<Rightarrow> kst option" where
  "copy_out [] s dest = Some s"
| "copy_out (b # bs) s dest = do { s \<leftarrow> vwrite8 s dest b; copy_out bs s (dest + 1) }"

definition text_of :: "u8 list \<Rightarrow> string" where
  "text_of bs = map (\<lambda>b. char_of (unat b)) bs"

text \<open>A printable key. The buffer has 256 bytes.\<close>

definition key_typed :: "kst \<Rightarrow> keyboard \<Rightarrow> nat \<Rightarrow> (kst \<times> keyboard) option" where
  "key_typed s k Keycode = do {
     to_print \<leftarrow> KeyCode_To_Char k Keycode;
     if to_print = 8 \<and> key_buffer_pos k > 0 then
       Some (say s (VirtualPrint BASIC_T (text_of [8])), k\<lparr>key_buffer_pos := key_buffer_pos k - 1\<rparr>)
     else if to_print = 9 \<and> key_buffer_pos k < 252 then
       let p = nat (key_buffer_pos k)
       in Some (say s (Print (text_of [9])),
            k\<lparr>key_buffer := (key_buffer k)[p + 1 := 32, p + 2 := 32, p + 3 := 32, p + 4 := 32],
              key_buffer_pos := key_buffer_pos k + 4\<rparr>)
     else if key_buffer_pos k < 256 then
       Some (say s (VirtualPrint BASIC_T (text_of [to_print])),
         k\<lparr>key_buffer := (key_buffer k)[nat (key_buffer_pos k) := to_print],
           key_buffer_pos := key_buffer_pos k + 1\<rparr>)
     else Some (s, k) }"

text \<open>The enter key with a task waiting: the line goes to the address in the task's RBX, cut to
  the length in its RCX.\<close>

definition deliver_line :: "kst \<Rightarrow> keyboard \<Rightarrow> int \<Rightarrow> (kst \<times> keyboard) option" where
  "deliver_line s k pid = do {
     let buffer = rg_rbx (task_regs s pid);
     let buffer_len = rg_rcx (task_regs s pid);
     let prev_pml4 = PML4_Physical s;
     let s = mem_set_cr3 s (Base_PML4 (TaskManager s pid)) False;
     s \<leftarrow> (if word_of_int (key_buffer_pos k) > buffer_len
          then copy_out (take (unat buffer_len) (key_buffer k)) s buffer
          else copy_out (take (nat (key_buffer_pos k)) (key_buffer k)) s buffer);
     let k = k\<lparr>key_buffer := replicate 256 0, key_buffer_pos := 0\<rparr>;
     let s = upd_task s pid (\<lambda>t. t\<lparr>WaitingReason := WAITING_REASON_NULL, ProcessState := READY_PROCESS_STATE\<rparr>);
     Some (mem_set_cr3 s prev_pml4 True, k) }"

text \<open>What a key code does; \<open>True\<close> in the first part is the early return, which has sent the end
  of interrupt already.\<close>

definition handle_key :: "kst \<Rightarrow> keyboard \<Rightarrow> nat \<Rightarrow> (bool \<times> kst \<times> keyboard) option" where
  "handle_key s k code =
     (let release = (0x81 \<le> code \<and> code \<le> 0xD8);
          Keycode = (if release then code - 0x80 else code)
      in if Keycode = L_SHIFT \<or> Keycode = R_SHIFT then Some (False, s, k\<lparr>upper := \<not> release\<rparr>)
         else if Keycode = CAPSLOCK then Some (False, s, k\<lparr>capslock := \<not> capslock k\<rparr>)
         else if Keycode > NULL_CODE \<and> Keycode \<le> FU12 \<and> \<not> release then do {
           let pid = GetWaitingProgram s;
           p \<leftarrow> KeycodeIsPrintable Keycode;
           if p then map_option (\<lambda>(s, k). (False, s, k)) (key_typed s k Keycode)
           else if Keycode = ENTER then
             if pid = 512 then Some (True, pic_send_eoi s 0x01, k)
             else map_option (\<lambda>(s, k). (False, s, k)) (deliver_line s k pid)
           else Some (False, s, k) }
         else Some (False, s, k))"

definition HandleKeyboardInterrupt :: "kst \<Rightarrow> keyboard \<Rightarrow> regs \<Rightarrow> (kst \<times> keyboard) option" where
  "HandleKeyboardInterrupt s k regs = do {
     let s = upd_regs s (TASKMGR_get_current s) (\<lambda>_. regs);
     let (status, s) = inb s 0x64;
     if status AND 1 \<noteq> 0 then do {
       let (code, s) = inb s 0x60;
       (done, s, k) \<leftarrow> handle_key s k (unat code);
       Some (if done then s else pic_send_eoi s 0x01, k) }
     else Some (pic_send_eoi s 0x01, k) }"

section \<open>The line buffer\<close>

definition kbd_ok :: "keyboard \<Rightarrow> bool" where
  "kbd_ok k \<longleftrightarrow> length (key_buffer k) = 256 \<and> 0 \<le> key_buffer_pos k \<and> key_buffer_pos k \<le> 256"

definition typed :: "keyboard \<Rightarrow> u8 list" where
  "typed k = take (nat (key_buffer_pos k)) (key_buffer k)"

lemma key_typed_ok:
  assumes "key_typed s k c = Some (s', k')" "kbd_ok k"
  shows "kbd_ok k'"
proof -
  obtain ch where ch: "KeyCode_To_Char k c = Some ch"
    using assms(1) by (cases "KeyCode_To_Char k c") (simp_all add: key_typed_def)
  consider "ch = 8" "0 < key_buffer_pos k" | "\<not> (ch = 8 \<and> 0 < key_buffer_pos k)" "ch = 9" "key_buffer_pos k < 252"
    | "\<not> (ch = 8 \<and> 0 < key_buffer_pos k)" "\<not> (ch = 9 \<and> key_buffer_pos k < 252)" "key_buffer_pos k < 256"
    | "\<not> key_buffer_pos k < 256" "\<not> (ch = 8 \<and> 0 < key_buffer_pos k)"
    by linarith
  then show ?thesis
    by cases (use assms ch in \<open>auto simp: key_typed_def kbd_ok_def Let_def split: if_splits\<close>)
qed

lemma deliver_line_ok: "deliver_line s k pid = Some (s', k') \<Longrightarrow> kbd_ok k'"
  by (auto simp: deliver_line_def kbd_ok_def Let_def bind_eq_Some_conv)

lemma handle_key_ok: "handle_key s k c = Some (d, s', k') \<Longrightarrow> kbd_ok k \<Longrightarrow> kbd_ok k'"
  by (auto simp: handle_key_def Let_def bind_eq_Some_conv split: if_splits
      dest: key_typed_ok deliver_line_ok) (auto simp: kbd_ok_def)

lemma HandleKeyboardInterrupt_ok:
  assumes "kbd_ok k" and "HandleKeyboardInterrupt s k regs = Some (s', k')"
  shows "kbd_ok k'"
  using assms
  by (auto simp: HandleKeyboardInterrupt_def Let_def bind_eq_Some_conv split: if_splits prod.splits
      dest: handle_key_ok)


lemma take_update_snoc: "n < length xs \<Longrightarrow> take (Suc n) (xs[n := x]) = take n xs @ [x]"
  by (simp add: take_Suc_conv_app_nth)

text \<open>Line editing: pressing a key with a character other than backspace and tab appends
  the character to the line, backspace removes the last one, and no task is affected.\<close>

theorem handle_key_edits_line:
  assumes "kbd_ok k" and "code \<le> 0x53" and "code \<notin> {42, 54, 58}"
    and "KeyCode_To_Char k code = Some c" "KeycodeIsPrintable code = Some True" "c \<noteq> 9"
    and "key_buffer_pos k < 256" and "c = 8 \<longrightarrow> 0 < key_buffer_pos k"
  shows "\<exists>s' k'. handle_key s k code = Some (False, s', k') \<and> kbd_ok k' \<and>
    typed k' = (if c = 8 then butlast (typed k) else typed k @ [c]) \<and>
    TaskManager s' = TaskManager s \<and> ram s' = ram s"
proof -
  have nz: "0 < code" using assms(5) by (cases code) (simp_all add: KeycodeIsPrintable_def table_get_def KeyCodeLookupTable_def)
  have h: "handle_key s k code = map_option (\<lambda>(s, k). (False, s, k)) (key_typed s k code)"
    using assms(2,3,5) nz by (simp add: handle_key_def key_codes Let_def)
  show ?thesis
  proof (cases "c = 8")
    case True
    have "take (nat (key_buffer_pos k - 1)) (key_buffer k) = butlast (take (nat (key_buffer_pos k)) (key_buffer k))"
    proof -
      have "nat (key_buffer_pos k - 1) = nat (key_buffer_pos k) - 1" by arith
      then show ?thesis using assms(1) by (auto simp: kbd_ok_def butlast_take)
    qed
    then show ?thesis using True assms(1,4,8) h
      by (auto simp: key_typed_def kbd_ok_def typed_def say_def)
  next
    case False
    have "take (nat (key_buffer_pos k + 1)) ((key_buffer k)[nat (key_buffer_pos k) := c]) = typed k @ [c]"
      using assms(1,7) take_update_snoc [of "nat (key_buffer_pos k)" "key_buffer k" c]
      by (simp add: kbd_ok_def typed_def nat_add_distrib)
    then show ?thesis using False assms(1,4,6,7) h
      by (auto simp: key_typed_def kbd_ok_def typed_def say_def)
  qed
qed

text \<open>Caps lock only holds while its key is down: the driver toggles the flag on the press
  and again on the release.\<close>

theorem capslock_toggles_twice:
  "\<exists>k'. handle_key s k 0x3A = Some (False, s, k') \<and> capslock k' = (\<not> capslock k) \<and>
     handle_key s k' 0xBA = Some (False, s, k)"
  by (simp add: handle_key_def key_codes Let_def)

text \<open>Both tables lack one entry before the keypad: each keypad key types the character of its
  right neighbour, the keypad's full stop types nothing, and F12 reads past the table.\<close>

theorem keypad_shifted:
  "map (KeyCode_To_Char k) [KEYPAD_7 - 1, KEYPAD_7, KEYPAD_7 + 1, KEYPAD_7 + 2] =
     [Some 55, Some 56, Some 57, Some 45] \<and>
   KeycodeIsPrintable 83 = Some False \<and> KeycodeIsPrintable FU12 = None"
  by (simp add: KeyCode_To_Char_def KeycodeIsPrintable_def table_get_def key_codes
      KeyCodeLookupTable_def KeyCodeLookupTable_Shift_def)

text \<open>\<open>canonicalize_arithmetic\<close> extends bit 47 into the upper bits.\<close>

theorem canonicalize_arithmetic_canonical: "canonicalize_arithmetic addr = canonical addr"
proof -
  have m: "push_bit 48 1 - 1 = (mask 48 :: u64)" by (simp add: mask_eq_exp_minus_1 push_bit_eq_mult)
  define K where "K = (push_bit 47 1 :: u64)"
  have Kb: "bit K n \<longleftrightarrow> n = 47" for n unfolding K_def bit_push_bit_iff bit_1_iff by auto
  have Km: "K - 1 = mask 47" by (simp add: K_def mask_eq_exp_minus_1 push_bit_eq_mult)
  have b: "NOT ((addr AND K) - 1) = (if bit addr 47 then NOT (mask 47) else (0 :: u64))"
  proof (cases "bit addr 47")
    case True
    have "addr AND K = K" by (rule bit_word_eqI) (use True in \<open>auto simp: bit_simps Kb\<close>)
    then show ?thesis using True Km by simp
  next
    case False
    have "addr AND K = 0" by (rule bit_word_eqI) (use False in \<open>auto simp: bit_simps Kb\<close>)
    then show ?thesis using False by simp
  qed
  show ?thesis
    unfolding canonicalize_arithmetic_def K_def [symmetric] m b
  proof (rule bit_word_eqI)
    fix n assume "n < LENGTH(64)"
    then show "bit (addr AND mask 48 OR (if bit addr 47 then NOT (mask 47) else 0)) n = bit (canonical addr) n"
      by (cases n "47 :: nat" rule: linorder_cases) (auto simp: canonical_bit bit_simps)
  qed
qed

text \<open>A finished line is written wherever the RBX of the waiting task points, without asking
  \<open>mem_access_ok\<close>: the enter key writes the first character to that address, kernel memory
  included, and makes the task ready.\<close>

theorem deliver_line_unchecked:
  assumes "GetWaitingProgram s = pid" "pid \<noteq> 512" "kbd_ok k" "typed k = [c]"
    and "0 < rg_rcx (task_regs s pid)"
    and "walk (mem_set_cr3 s (Base_PML4 (TaskManager s pid)) False) (rg_rbx (task_regs s pid)) = Some pa"
  shows "\<exists>s' k'. handle_key s k ENTER = Some (False, s', k') \<and> ram s' = (ram s)(pa := c) \<and>
    ProcessState (TaskManager s' pid) = READY_PROCESS_STATE \<and> cr3 s' = PML4_Physical s \<and> typed k' = []"
proof -
  have len: "length (typed k) = nat (key_buffer_pos k)" using assms(3) by (auto simp: typed_def kbd_ok_def)
  then have p1: "key_buffer_pos k = 1" using assms(3,4) by (simp add: kbd_ok_def)
  have t1: "take 1 (key_buffer k) = [c]" using assms(4) p1 by (simp add: typed_def)
  have rc: "\<not> 1 > rg_rcx (task_regs s pid)"
    using assms(5) by (simp add: word_less_nat_alt linorder_not_less)
  have w: "vwrite8 (mem_set_cr3 s (Base_PML4 (TaskManager s pid)) False) (rg_rbx (task_regs s pid)) c =
      Some ((mem_set_cr3 s (Base_PML4 (TaskManager s pid)) False)\<lparr>ram := (ram s)(pa := c)\<rparr>)"
    using assms(6) by (simp add: vwrite8_def mem_set_cr3_def mem_sync_cr3_def Let_def)
  have pr: "KeycodeIsPrintable 28 = Some False"
    by (simp add: KeycodeIsPrintable_def table_get_def KeyCodeLookupTable_def)
  show ?thesis
    using assms(1,2) w rc t1
    by (simp add: handle_key_def key_codes deliver_line_def p1 pr Let_def mem_set_cr3_def mem_sync_cr3_def
        upd_task_def typed_def)
qed

section \<open>Witnesses\<close>

definition sample_kbd :: keyboard where
  "sample_kbd = \<lparr>capslock = False, upper = False, key_buffer = 97 # replicate 255 0, key_buffer_pos = 1\<rparr>"

lemma sample_kbd_ok: "kbd_ok sample_kbd" by (simp add: sample_kbd_def kbd_ok_def)


theorem handle_key_edits_line_witness:
  "\<exists>s' k'. handle_key sample_kst sample_kbd 0x30 = Some (False, s', k') \<and> typed k' = [97, 98]"
  using handle_key_edits_line [OF sample_kbd_ok, of "0x30" 98 sample_kst]
  by (auto simp: KeyCode_To_Char_def KeycodeIsPrintable_def table_get_def sample_kbd_def typed_def
      KeyCodeLookupTable_def KeyCodeLookupTable_Shift_def)

text \<open>Task 5 waits for input, in the address space of the sample machine, with a kernel address in
  its RBX.\<close>

definition sample_reader :: kst where
  "sample_reader = upd_task sample_kst 5 (\<lambda>t. t\<lparr>task_Exists := True, ProcessState := WAITING_PROCESS_STATE,
     WaitingReason := WAITING_REASON_INPUT, Base_PML4 := 0x1000,
     SavedRegisters := zero_regs\<lparr>rg_rbx := 0xffff800000006000, rg_rcx := 16\<rparr>\<rparr>)"

theorem deliver_line_unchecked_witness:
  "\<exists>s' k'. handle_key sample_reader sample_kbd ENTER = Some (False, s', k') \<and> ram s' 0x6000 = 97 \<and>
    \<not> mem_access_ok sample_reader 0xffff800000006000 5"
proof -
  have t: "TaskManager sample_reader i = (if i = 5 then zero_task\<lparr>task_Exists := True,
      ProcessState := WAITING_PROCESS_STATE, WaitingReason := WAITING_REASON_INPUT, Base_PML4 := 0x1000,
     SavedRegisters := zero_regs\<lparr>rg_rbx := 0xffff800000006000, rg_rcx := 16\<rparr>\<rparr> else zero_task)" for i
    by (simp add: sample_reader_def upd_task_def sample_kst_def)
  have "List.find (\<lambda>i :: int. i = 5) (map int [0..<512]) = Some 5"
    by (auto simp: find_Some_iff intro!: exI [of _ 5])
  moreover have "(\<lambda>i. task_Exists (TaskManager sample_reader i) \<and>
      ProcessState (TaskManager sample_reader i) = WAITING_PROCESS_STATE \<and>
      WaitingReason (TaskManager sample_reader i) = WAITING_REASON_INPUT) = (\<lambda>i. i = 5)"
    by (auto simp: t zero_task_def)
  ultimately have g: "GetWaitingProgram sample_reader = 5" unfolding GetWaitingProgram_def by simp
  have "walk sample_kst 0xffff800000006000 = Some 0x6000"
    using sample_paging_inv [THEN paging_invD(5), unfolded direct_map_def, rule_format, of "0x6000"]
    by (simp add: VIRTUAL_MEMORY_BARRIER_def page_aligned_def)
  then have w: "walk (mem_set_cr3 sample_reader 0x1000 False) 0xffff800000006000 = Some 0x6000"
    by (simp add: walk_def sample_reader_def upd_task_def mem_set_cr3_def mem_sync_cr3_def Let_def sample_kst_def)
  have "\<not> mem_access_ok sample_reader 0xffff800000006000 5"
    by (simp add: mem_access_ok_def task_mem_def t zero_task_def zero_mem_def_def get_mem_low_high_def Let_def)
  then show ?thesis
    using deliver_line_unchecked [OF g _ sample_kbd_ok, of 97 "0x6000"] w
    by (auto simp: t task_regs_def sample_kbd_def typed_def)
qed

end
