(* ===== verification/Strings.thy ===== *)
theory Strings
  imports Prelude
begin

text \<open>
  The number printing of \<open>Libraries/std.c\<close>. A buffer is the list of its bytes and a write
  outside it, on which the C code corrupts the memory behind the buffer, has no result; so
  has a read outside it. The parameter \<open>buffer_size\<close> is separate from the buffer, as it is
  in the code.
\<close>

section \<open>Buffers\<close>

definition buf_put :: "u8 list \<Rightarrow> nat \<Rightarrow> u8 \<Rightarrow> u8 list option" where
  "buf_put b i c = (if i < length b then Some (b[i := c]) else None)"

definition buf_get :: "u8 list \<Rightarrow> nat \<Rightarrow> u8 option" where
  "buf_get b i = (if i < length b then Some (b ! i) else None)"

primrec buf_puts :: "u8 list \<Rightarrow> nat \<Rightarrow> u8 list \<Rightarrow> u8 list option" where
  "buf_puts b i [] = Some b"
| "buf_puts b i (c # cs) = do { b \<leftarrow> buf_put b i c; buf_puts b (i + 1) cs }"

text \<open>The scan for the final NUL, from index \<open>i\<close> on.\<close>

function find_nul :: "u8 list \<Rightarrow> nat \<Rightarrow> nat option" where
  "find_nul b i = (if i < length b then if b ! i = 0 then Some i else find_nul b (i + 1) else None)"
  by pat_completeness auto
termination by (relation "measure (\<lambda>(b, i). length b - i)") auto

declare find_nul.simps [simp del]

definition calculate_string_length :: "u8 list \<Rightarrow> nat option" where
  "calculate_string_length str = find_nul str 0"

definition get_string_length :: "u8 list \<Rightarrow> nat option" where
  "get_string_length str = find_nul str 0"

text \<open>A buffer as the string up to its final NUL.\<close>

definition buffer_string :: "u8 list \<Rightarrow> string option" where
  "buffer_string b = map_option (\<lambda>n. map (\<lambda>c. char_of (unat c)) (take n b)) (find_nul b 0)"

section \<open>Padding\<close>

text \<open>
  \<open>pad_string\<close> builds the padded string in \<open>tempBuffer\<close>, an array of \<open>buffer_size\<close> bytes that
  starts with no value. An element that was never set is \<open>None\<close>; copying it back has no
  defined result.
\<close>

primrec copy_shifted :: "nat \<Rightarrow> nat \<Rightarrow> u8 option list \<Rightarrow> u8 list \<Rightarrow> nat \<Rightarrow> nat \<Rightarrow> u8 option list option" where
  "copy_shifted 0 i temp buf dst src = Some temp"
| "copy_shifted (Suc n) i temp buf dst src = do {
     c \<leftarrow> buf_get buf (i + src);
     if i + dst < length temp then copy_shifted n (i + 1) (temp[i + dst := Some c]) buf dst src
     else None }"

primrec fill_zeros :: "nat \<Rightarrow> nat \<Rightarrow> u8 option list \<Rightarrow> nat \<Rightarrow> u8 option list option" where
  "fill_zeros 0 i temp start = Some temp"
| "fill_zeros (Suc n) i temp start =
     (if i + start < length temp then fill_zeros n (i + 1) (temp[i + start := Some 48]) start else None)"

primrec copy_back :: "nat \<Rightarrow> nat \<Rightarrow> u8 list \<Rightarrow> u8 option list \<Rightarrow> u8 list option" where
  "copy_back 0 i buf temp = Some buf"
| "copy_back (Suc n) i buf temp = do {
     c \<leftarrow> (if i < length temp then temp ! i else None);
     buf \<leftarrow> buf_put buf i c;
     copy_back n (i + 1) buf temp }"

definition pad_string :: "nat \<Rightarrow> u8 list \<Rightarrow> nat \<Rightarrow> u8 \<Rightarrow> nat \<Rightarrow> u8 list option" where
  "pad_string padding buffer buffer_size filler start =
     (if buffer_size = 0 then Some buffer
      else if buffer_size \<le> start then Some buffer
      else if buffer_size < padding then Some buffer
      else do {
        n \<leftarrow> find_nul buffer 0;
        if int n - int start \<le> 0 then Some buffer
        else if int padding - (int n - int start) \<le> 0 then Some buffer
        else do {
          let size = n - start;
          let temp = replicate buffer_size None;
          temp \<leftarrow> copy_shifted start 0 temp buffer 0 0;
          temp \<leftarrow> copy_shifted buffer_size 0 temp buffer (padding + start - size) start;
          temp \<leftarrow> fill_zeros (padding - size) 0 temp start;
          copy_back buffer_size 0 buffer temp } })"

section \<open>Digits\<close>

text \<open>The function \<open>abs\<close> of Math.c takes and returns an unsigned number.\<close>

definition abs_c :: "u64 \<Rightarrow> u64" where
  "abs_c n = (if n < 0 then - n else n)"

function count_digits :: "u64 \<Rightarrow> u64 \<Rightarrow> nat" where
  "count_digits base n = (if n = 0 \<or> base \<le> 1 then 0 else Suc (count_digits base (n div base)))"
  by pat_completeness auto
termination
proof (relation "measure (\<lambda>(base, n). unat n)")
  fix base n :: u64
  assume a: "\<not> (n = 0 \<or> base \<le> 1)"
  then have n: "0 < unat n" and b: "1 < unat base"
    by (auto simp: unat_gt_0 word_le_nat_alt)
  have "unat n div unat base < unat n" using n b by (intro div_less_dividend) simp_all
  then show "((base, n div base), (base, n)) \<in> measure (\<lambda>(base, n). unat n)" by (simp add: unat_div)
qed simp

declare count_digits.simps [simp del]

definition digit_char :: "u64 \<Rightarrow> u8" where
  "digit_char r = (if r < 10 then ucast r + 48 else ucast (r - 10) + 65)"

text \<open>The loop that writes the digits from the last to the first, at \<open>buffer[i + off]\<close>.\<close>

primrec put_digits :: "nat \<Rightarrow> u64 \<Rightarrow> u64 \<Rightarrow> u8 list \<Rightarrow> nat \<Rightarrow> u8 list option" where
  "put_digits 0 base n buf off = Some buf"
| "put_digits (Suc i) base n buf off = do {
     buf \<leftarrow> buf_put buf (i + off) (digit_char (n mod base));
     put_digits i base (n div base) buf off }"

section \<open>Number printing\<close>

text \<open>In all three functions \<open>n < 0\<close> compares an unsigned number, so \<open>negative\<close> is false. After the
  digit loop \<open>lastI\<close> is 0.\<close>

definition int_to_char_array :: "u64 \<Rightarrow> u8 list \<Rightarrow> nat \<Rightarrow> nat \<Rightarrow> u8 list option" where
  "int_to_char_array n buffer buffer_size padding =
     (let negative = (n < 0); n = abs_c n in
      if n = 0 \<and> padding = 0 then buf_puts buffer 0 [48, 0]
      else if n = 0 \<and> padding \<noteq> 0 then do {
        buffer \<leftarrow> buf_puts buffer 0 [48, 0];
        pad_string padding buffer buffer_size 48 0 }
      else let digits = count_digits 10 n in
        if buffer_size < digits then Some buffer
        else if negative then do {
          buffer \<leftarrow> buf_put buffer (digits + 1) 0;
          buffer \<leftarrow> put_digits digits 10 n buffer 1;
          buffer \<leftarrow> buf_put buffer 0 45;
          pad_string padding buffer buffer_size 48 1 }
        else do {
          buffer \<leftarrow> buf_put buffer digits 0;
          buffer \<leftarrow> put_digits digits 10 n buffer 0;
          pad_string padding buffer buffer_size 48 0 })"

definition int_to_char_array_hex :: "u64 \<Rightarrow> u8 list \<Rightarrow> nat \<Rightarrow> nat \<Rightarrow> u8 list option" where
  "int_to_char_array_hex n buffer buffer_size padding =
     (let negative = (n < 0); n = abs_c n in
      if n = 0 \<and> padding = 0 then buf_puts buffer 0 [48, 120, 48, 0]
      else if n = 0 \<and> padding \<noteq> 0 then do {
        buffer \<leftarrow> buf_puts buffer 0 [48, 120, 48, 0];
        pad_string padding buffer buffer_size 48 2 }
      else let digits = count_digits 16 n; required_size = digits + 2 + (if negative then 1 else 0) in
        if buffer_size < required_size then Some buffer
        else if negative then do {
          buffer \<leftarrow> buf_put buffer (required_size + 1) 0;
          buffer \<leftarrow> put_digits digits 16 n buffer 3;
          buffer \<leftarrow> buf_puts buffer 0 [45, 48, 120];
          pad_string padding buffer buffer_size 48 3 }
        else do {
          buffer \<leftarrow> buf_put buffer required_size 0;
          buffer \<leftarrow> put_digits digits 16 n buffer 2;
          buffer \<leftarrow> buf_puts buffer 0 [48, 120];
          pad_string padding buffer buffer_size 48 2 })"

definition int_to_char_array_binary :: "u64 \<Rightarrow> u8 list \<Rightarrow> nat \<Rightarrow> nat \<Rightarrow> u8 list option" where
  "int_to_char_array_binary n buffer buffer_size padding =
     (let negative = (n < 0); n = abs_c n in
      if n = 0 \<and> padding = 0 then buf_puts buffer 0 [48, 98, 48, 0]
      else if n = 0 \<and> padding \<noteq> 0 then do {
        buffer \<leftarrow> buf_puts buffer 0 [48, 98, 48, 0];
        pad_string padding buffer buffer_size 48 2 }
      else let digits = count_digits 2 n in
        if buffer_size < digits then Some buffer
        else if negative then do {
          buffer \<leftarrow> buf_put buffer (digits + 2) 0;
          buffer \<leftarrow> put_digits digits 2 n buffer 3;
          buffer \<leftarrow> buf_puts buffer 0 [45, 48, 98];
          if padding = 0 then Some buffer else pad_string padding buffer buffer_size 48 3 }
        else do {
          buffer \<leftarrow> buf_put buffer (digits + 2) 0;
          buffer \<leftarrow> put_digits digits 2 n buffer 2;
          buffer \<leftarrow> buf_puts buffer 0 [48, 98];
          if padding = 0 then Some buffer else pad_string padding buffer buffer_size 48 2 })"

section \<open>What the digits say\<close>

text \<open>The value of a digit character, and of a list of them, the most significant one first.\<close>

definition char_digit :: "u8 \<Rightarrow> nat" where
  "char_digit c = (if c < 58 then unat c - 48 else unat c - 55)"

definition numeral_value :: "nat \<Rightarrow> u8 list \<Rightarrow> nat" where
  "numeral_value base cs = foldl (\<lambda>a c. a * base + char_digit c) 0 cs"

lemma numeral_value_snoc [simp]:
  "numeral_value base (cs @ [c]) = numeral_value base cs * base + char_digit c"
  by (simp add: numeral_value_def)

lemma digit_char_unat:
  assumes "r < 16"
  shows "unat (digit_char r) = (if unat r < 10 then unat r + 48 else unat r + 55)"
proof -
  have r: "unat r < 16" using assms by (simp add: word_less_nat_alt)
  have u: "unat (ucast x :: u8) = unat x" if "unat x < 16" for x :: u64
    using that by (simp add: unsigned_ucast_eq take_bit_nat_eq_self)
  show ?thesis
  proof (cases "r < 10")
    case True
    then show ?thesis using r u [of r] by (simp add: digit_char_def word_less_nat_alt unat_word_ariths)
  next
    case False
    then have s: "unat (r - 10) = unat r - 10"
      by (simp add: linorder_not_less unat_sub word_le_nat_alt)
    then show ?thesis using False r u [of "r - 10"]
      by (simp add: digit_char_def word_less_nat_alt unat_word_ariths)
  qed
qed

lemma char_digit_char: "r < 16 \<Longrightarrow> char_digit (digit_char r) = unat r"
  using digit_char_unat [of r] by (auto simp: char_digit_def word_less_nat_alt split: if_splits)

lemma digit_char_not_0: "r < 16 \<Longrightarrow> digit_char r \<noteq> 0"
  using digit_char_unat [of r] by (auto split: if_splits)

lemma count_digits_bounds:
  assumes "1 < base"
  shows "unat n < unat base ^ count_digits base n \<and>
    (n \<noteq> 0 \<longrightarrow> 0 < count_digits base n \<and> unat base ^ (count_digits base n - 1) \<le> unat n)"
  using assms
proof (induction base n rule: count_digits.induct)
  case (1 base n)
  show ?case
  proof (cases "n = 0")
    case True then show ?thesis by (simp add: count_digits.simps)
  next
    case False
    have b: "\<not> base \<le> 1" using 1(2) by (simp add: linorder_not_le)
    let ?k = "count_digits base (n div base)"
    have e: "count_digits base n = Suc ?k" using False b by (simp add: count_digits.simps [of base n])
    have ih: "unat n div unat base < unat base ^ ?k"
      "n div base \<noteq> 0 \<longrightarrow> 0 < ?k \<and> unat base ^ (?k - 1) \<le> unat n div unat base"
      using 1 False b by (auto simp: unat_div)
    have ub: "0 < unat base" using 1(2) by (simp add: word_less_nat_alt)
    have up: "unat n < unat base ^ Suc ?k"
      using ih(1) ub by (simp add: div_less_iff_less_mult mult.commute)
    have "unat base ^ ?k \<le> unat n"
    proof (cases "n div base = 0")
      case True
      then have "?k = 0" by (simp add: count_digits.simps [of base 0])
      then show ?thesis using False by (simp add: unat_gt_0 Suc_leI)
    next
      case nz: False
      then obtain k where k: "?k = Suc k" using ih(2) by (auto simp: gr0_conv_Suc)
      then have "unat base ^ k \<le> unat n div unat base" using ih(2) nz by simp
      then have "unat base ^ k * unat base \<le> unat n" using ub by (simp add: less_eq_div_iff_mult_less_eq)
      then show ?thesis by (simp add: k mult.commute)
    qed
    then show ?thesis using up e by simp
  qed
qed

lemma put_digits_spec:
  assumes "1 < base" "base \<le> 16" "i + off \<le> length buf"
  shows "\<exists>buf'. put_digits i base n buf off = Some buf' \<and> length buf' = length buf \<and>
    (\<forall>k. k < off \<or> off + i \<le> k \<longrightarrow> buf' ! k = buf ! k) \<and>
    (\<forall>k < i. buf' ! (off + k) \<noteq> 0) \<and>
    numeral_value (unat base) (take i (drop off buf')) = unat n mod unat base ^ i"
  using assms(3)
proof (induction i arbitrary: n buf)
  case 0 then show ?case by (simp add: numeral_value_def)
next
  case (Suc i)
  let ?c = "digit_char (n mod base)"
  have r: "n mod base < 16"
  proof -
    have "unat n mod unat base < unat base" using assms(1) by (intro mod_less_divisor) (simp add: word_less_nat_alt)
    then show ?thesis using assms(2) by (simp add: word_less_nat_alt word_le_nat_alt unat_mod)
  qed
  obtain buf' where b: "put_digits i base (n div base) (buf[i + off := ?c]) off = Some buf'"
    "length buf' = length buf" "\<forall>k. k < off \<or> off + i \<le> k \<longrightarrow> buf' ! k = buf[i + off := ?c] ! k"
    "\<forall>k < i. buf' ! (off + k) \<noteq> 0"
    "numeral_value (unat base) (take i (drop off buf')) = unat (n div base) mod unat base ^ i"
    using Suc.IH [of "buf[i + off := ?c]" "n div base"] Suc.prems by auto
  have c: "buf' ! (off + i) = ?c" using b(3) Suc.prems by (simp add: add.commute)
  have "take (Suc i) (drop off buf') = take i (drop off buf') @ [?c]"
    using Suc.prems b(2) c by (simp add: take_Suc_conv_app_nth)
  then have v: "numeral_value (unat base) (take (Suc i) (drop off buf')) = unat n mod unat base ^ Suc i"
    using b(5) char_digit_char [OF r]
    by (simp add: unat_div unat_mod mod_mult2_eq [of _ "unat base"])
  have "put_digits (Suc i) base n buf off = Some buf'"
    using b(1) Suc.prems by (simp add: buf_put_def)
  moreover have "\<forall>k. k < off \<or> off + Suc i \<le> k \<longrightarrow> buf' ! k = buf ! k"
    using b(3) by (auto simp: nth_list_update)
  moreover have "\<forall>k < Suc i. buf' ! (off + k) \<noteq> 0"
    using b(4) c digit_char_not_0 [OF r] by (auto simp: less_Suc_eq)
  ultimately show ?case using b(2) v by blast
qed

lemma find_nul_at:
  assumes "i \<le> n" "n < length b" "b ! n = 0" "\<forall>k. i \<le> k \<and> k < n \<longrightarrow> b ! k \<noteq> 0"
  shows "find_nul b i = Some n"
  using assms
proof (induction "n - i" arbitrary: i)
  case 0 then show ?case by (simp add: find_nul.simps [of b i])
next
  case (Suc d)
  then show ?case by (subst find_nul.simps) simp
qed

lemma find_nul_0_length: "find_nul b 0 = Some n \<Longrightarrow> pad_string 0 b bsize c start = Some b"
  by (simp add: pad_string_def)

lemma digits_string:
  assumes "1 < base" "base \<le> 16" "n \<noteq> 0" "count_digits base n + off < length buf"
    "\<forall>k < off. pre ! k \<noteq> 0" "length pre = off"
  obtains buf' where "put_digits (count_digits base n) base n (buf[count_digits base n + off := 0]) off = Some buf'"
    "length buf' = length buf" "find_nul (pre @ drop off buf') 0 = Some (count_digits base n + off)"
    "numeral_value (unat base) (take (count_digits base n) (drop off buf')) = unat n"
proof -
  let ?d = "count_digits base n"
  obtain buf' where b: "put_digits ?d base n (buf[?d + off := 0]) off = Some buf'"
    "length buf' = length buf" "\<forall>k. k < off \<or> off + ?d \<le> k \<longrightarrow> buf' ! k = buf[?d + off := 0] ! k"
    "\<forall>k < ?d. buf' ! (off + k) \<noteq> 0"
    "numeral_value (unat base) (take ?d (drop off buf')) = unat n mod unat base ^ ?d"
    using put_digits_spec [OF assms(1,2), of ?d off "buf[?d + off := 0]" n] assms(4) by auto
  have v: "numeral_value (unat base) (take ?d (drop off buf')) = unat n"
    using b(5) count_digits_bounds [OF assms(1), of n] by simp
  have nz: "(pre @ drop off buf') ! k \<noteq> 0" if "k < ?d + off" for k
  proof (cases "k < off")
    case True then show ?thesis using assms(5,6) by (simp add: nth_append)
  next
    case False
    define j where "j = k - off"
    then have "k = off + j" "j < ?d" using False that by simp_all
    then show ?thesis using b(2,4) assms(4,6) by (simp add: nth_append)
  qed
  have "find_nul (pre @ drop off buf') 0 = Some (?d + off)"
    using b(2,3) assms(4,6) nz by (intro find_nul_at) (auto simp: nth_append add.commute)
  then show thesis using b(1,2) v by (intro that)
qed

text \<open>C31. Into a buffer with room for the digits and the final NUL, \<open>int_to_char_array\<close>
  writes the decimal numeral of the number, of the least length, as a C string.\<close>

theorem int_to_char_array_decimal:
  assumes "count_digits 10 n < length buf" "2 \<le> length buf"
  shows "\<exists>buf' k. int_to_char_array n buf (length buf) 0 = Some buf' \<and> length buf' = length buf \<and>
    calculate_string_length buf' = Some k \<and> 0 < k \<and> numeral_value 10 (take k buf') = unat n \<and>
    (k = 1 \<or> 10 ^ (k - 1) \<le> unat n)"
proof (cases "n = 0")
  case True
  obtain a b c where buf: "buf = a # b # c" using assms(2) by (auto simp: numeral_2_eq_2 Suc_le_length_iff)
  show ?thesis
    by (rule exI [of _ "48 # 0 # c"], rule exI [of _ 1])
      (simp add: True buf int_to_char_array_def abs_c_def buf_put_def calculate_string_length_def
        find_nul.simps [of _ 0] find_nul.simps [of _ "Suc 0"] numeral_value_def char_digit_def)
next
  case False
  obtain buf' where b: "put_digits (count_digits 10 n) 10 n (buf[count_digits 10 n := 0]) 0 = Some buf'"
    "length buf' = length buf" "find_nul buf' 0 = Some (count_digits 10 n)"
    "numeral_value 10 (take (count_digits 10 n) buf') = unat n"
    by (rule digits_string [of 10 n 0 buf "[]"]) (use False assms(1) in auto)
  have "int_to_char_array n buf (length buf) 0 = Some buf'"
    using False assms(1) b(1) find_nul_0_length [OF b(3)]
    by (simp add: int_to_char_array_def abs_c_def buf_put_def Let_def)
  then show ?thesis
    using b(2-4) False count_digits_bounds [of 10 n] by (auto simp: calculate_string_length_def)
qed

text \<open>\<open>int_to_char_array_hex\<close> writes \<open>0x\<close> and the hexadecimal numeral of the least length,
  into a buffer with room for both and the final NUL.\<close>

theorem int_to_char_array_hex_numeral:
  assumes "count_digits 16 n + 2 < length buf" "4 \<le> length buf"
  shows "\<exists>buf' k. int_to_char_array_hex n buf (length buf) 0 = Some buf' \<and> length buf' = length buf \<and>
    calculate_string_length buf' = Some (k + 2) \<and> 0 < k \<and> take 2 buf' = [48, 120] \<and>
    numeral_value 16 (take k (drop 2 buf')) = unat n \<and> (k = 1 \<or> 16 ^ (k - 1) \<le> unat n)"
proof (cases "n = 0")
  case True
  obtain a b c d e where buf: "buf = a # b # c # d # e"
    using assms(2) by (auto simp: eval_nat_numeral Suc_le_length_iff)
  have nul: "find_nul (48 # 120 # 48 # 0 # e) 0 = Some 3"
  proof (rule find_nul_at)
    show "\<forall>k. 0 \<le> k \<and> k < 3 \<longrightarrow> (48 # 120 # 48 # 0 # e) ! k \<noteq> 0"
    proof (intro allI impI)
      fix k :: nat assume "0 \<le> k \<and> k < 3"
      then have "k = 0 \<or> k = 1 \<or> k = 2" by arith
      then show "(48 # 120 # 48 # 0 # e) ! k \<noteq> 0" by auto
    qed
  qed simp_all
  show ?thesis
    by (rule exI [of _ "48 # 120 # 48 # 0 # e"], rule exI [of _ 1])
      (simp add: True buf int_to_char_array_hex_def abs_c_def buf_put_def calculate_string_length_def
        nul numeral_value_def char_digit_def)
next
  case False
  let ?d = "count_digits 16 n"
  obtain buf' where b: "put_digits ?d 16 n (buf[?d + 2 := 0]) 2 = Some buf'"
    "length buf' = length buf" "find_nul ([48, 120] @ drop 2 buf') 0 = Some (?d + 2)"
    "numeral_value 16 (take ?d (drop 2 buf')) = unat n"
    by (rule digits_string [of 16 n 2 buf "[48, 120]"]) (use False assms(1) in \<open>auto simp: less_2_cases_iff\<close>)
  obtain x y z where z: "buf' = x # y # z"
    using assms(2) b(2) by (cases buf'; cases "tl buf'") auto
  have "int_to_char_array_hex n buf (length buf) 0 = Some ([48, 120] @ drop 2 buf')"
    using False assms(1) b(1) find_nul_0_length [OF b(3)]
    by (simp add: int_to_char_array_hex_def abs_c_def buf_put_def Let_def z)
  then show ?thesis
    using b(2-4) False count_digits_bounds [of 16 n]
    by (intro exI [of _ "[48, 120] @ drop 2 buf'"] exI [of _ ?d]) (auto simp: z calculate_string_length_def)
qed

section \<open>Writes past the end\<close>

lemma copy_shifted_overrun:
  "0 < n \<Longrightarrow> length temp < i + n + dst \<Longrightarrow> copy_shifted n i temp buf dst src = None"
proof (induction n arbitrary: i temp)
  case (Suc n)
  show ?case
  proof (cases "buf_get buf (i + src)")
    case None then show ?thesis by simp
  next
    case (Some c)
    show ?thesis
    proof (cases "i + dst < length temp")
      case True
      then have "0 < n" using Suc.prems by (cases n) auto
      then show ?thesis using Suc.IH [of "temp[i + dst := Some c]" "i + 1"] Suc.prems Some True by simp
    qed (simp add: Some)
  qed
qed simp

lemma copy_shifted_length: "copy_shifted n i temp buf dst src = Some t \<Longrightarrow> length t = length temp"
  by (induction n arbitrary: i temp) (auto simp: bind_eq_Some_conv split: if_splits)

text \<open>\<open>pad_string\<close> never pads: on a C string it either returns the buffer as it was, or,
  whenever its guards let it go on, its copy loop writes past the end of \<open>tempBuffer\<close>.\<close>

theorem pad_string_overruns:
  assumes "find_nul buf 0 = Some n"
  shows "pad_string padding buf bsize c start =
    (if bsize \<le> start \<or> bsize < padding \<or> n \<le> start \<or> padding + start \<le> n then Some buf else None)"
proof (cases "bsize \<le> start \<or> bsize < padding \<or> n \<le> start \<or> padding + start \<le> n")
  case True
  then show ?thesis using assms by (auto simp: pad_string_def)
next
  case False
  have over: "copy_shifted bsize 0 temp buf (padding + start - (n - start)) start = None"
    if "length temp = bsize" for temp
    using False that by (intro copy_shifted_overrun) auto
  have "pad_string padding buf bsize c start = None"
  proof (cases "copy_shifted start 0 (replicate bsize None) buf 0 0")
    case None
    then show ?thesis using False assms by (simp add: pad_string_def Let_def)
  next
    case (Some temp)
    then have "copy_shifted bsize 0 temp buf (padding + start - (n - start)) start = None"
      using copy_shifted_length [OF Some] over by simp
    then show ?thesis using False assms Some by (simp add: pad_string_def Let_def)
  qed
  then show ?thesis using False by simp
qed

theorem pad_string_overruns_witness: "pad_string 8 ([48, 120, 55] @ replicate 61 0) 64 48 2 = None"
proof -
  have "find_nul ([48, 120, 55] @ replicate 61 0) 0 = Some 3" by code_simp
  then show ?thesis by (simp add: pad_string_overruns)
qed

text \<open>\<open>int_to_char_array_binary\<close> compares the buffer size with the number of digits alone:
  into the 64 byte buffer of \<open>printf\<close>, a number of 62 digits or more is written past the
  end.\<close>

theorem int_to_char_array_binary_overflow:
  assumes "0x2000000000000000 \<le> n" "length buf = 64"
  shows "int_to_char_array_binary n buf 64 0 = None"
proof -
  let ?d = "count_digits 2 n"
  have n: "2 ^ 61 \<le> unat n" using assms(1) by (simp add: word_le_nat_alt)
  then have nz: "n \<noteq> 0" by auto
  have b: "unat n < 2 ^ ?d" "2 ^ (?d - 1) \<le> unat n"
    using count_digits_bounds [of 2 n] nz by auto
  have "(2::nat) ^ 61 < 2 ^ ?d" using n b(1) by linarith
  then have lo: "61 < ?d" by (rule power_less_imp_less_exp [rotated]) simp
  have "(2::nat) ^ (?d - 1) < 2 ^ 64" using b(2) unat_lt_64 [of n] by simp
  then have "?d - 1 < 64" by (rule power_less_imp_less_exp [rotated]) simp
  then show ?thesis
    using lo nz assms(2) by (simp add: int_to_char_array_binary_def abs_c_def Let_def buf_put_def)
qed

theorem int_to_char_array_binary_overflow_witness:
  "int_to_char_array_binary 0xFFFFFFFFFFFFFFFF (replicate 64 0) 64 0 = None"
  by (rule int_to_char_array_binary_overflow) simp_all

theorem int_to_char_array_decimal_witness:
  "\<exists>buf' k. int_to_char_array 1234 (replicate 64 0) 64 0 = Some buf' \<and>
    calculate_string_length buf' = Some k \<and> numeral_value 10 (take k buf') = 1234"
proof -
  have "count_digits 10 1234 = 4" by code_simp
  then show ?thesis using int_to_char_array_decimal [of 1234 "replicate 64 0"] by auto
qed

theorem int_to_char_array_hex_numeral_witness:
  "\<exists>buf' k. int_to_char_array_hex 0xBEEF (replicate 64 0) 64 0 = Some buf' \<and>
    take 2 buf' = [48, 120] \<and> numeral_value 16 (take k (drop 2 buf')) = 0xBEEF"
proof -
  have "count_digits 16 0xBEEF = 4" by code_simp
  then show ?thesis using int_to_char_array_hex_numeral [of "0xBEEF" "replicate 64 0"] by fastforce
qed

end
