(* ===== verification/Console.thy ===== *)
theory Console
  imports Strings "HOL-Library.Signed_Division"
begin

text \<open>
  The text screen: the VGA driver of \<open>Display/VGA.c\<close> and the printing functions of
  \<open>Libraries/std.c\<close>. The screen memory is a map from byte offsets to bytes; an offset past the
  25 rows is memory behind the visible screen. A string is the list of its bytes with the
  final NUL.
\<close>

record screen =
  vga :: "u64 \<Rightarrow> u8"
  VGA_CUR_COLOR :: u8
  curX :: int
  curY :: int
  snapshotX :: int
  snapshotY :: int

definition BLACK :: u8 where "BLACK = 0x0"
definition LGREEN :: u8 where "LGREEN = 0xA"
definition LCYAN :: u8 where "LCYAN = 0xB"
definition LRED :: u8 where "LRED = 0xC"
definition WHITE :: u8 where "WHITE = 0xF"

section \<open>The VGA driver\<close>

definition SetTextColor :: "u8 \<Rightarrow> u8 \<Rightarrow> screen \<Rightarrow> screen" where
  "SetTextColor foreground background s = s\<lparr>VGA_CUR_COLOR := push_bit 4 background OR foreground\<rparr>"

definition WriteCharacter :: "u8 \<Rightarrow> u8 \<Rightarrow> u8 \<Rightarrow> screen \<Rightarrow> screen" where
  "WriteCharacter c x y s =
     (let offset = (ucast y * 80 + ucast x) * 2
      in s\<lparr>vga := (vga s)(offset := c, offset + 1 := VGA_CUR_COLOR s)\<rparr>)"

text \<open>A call with \<open>int\<close> coordinates, which are cut to eight bits.\<close>

definition write_at :: "u8 \<Rightarrow> int \<Rightarrow> int \<Rightarrow> screen \<Rightarrow> screen" where
  "write_at c x y = WriteCharacter c (word_of_int x) (word_of_int y)"

definition ReadCharacter :: "screen \<Rightarrow> int \<Rightarrow> int \<Rightarrow> u8" where
  "ReadCharacter s x y = vga s (word_of_int ((y * 80 + x) * 2))"

definition WriteString :: "u8 list \<Rightarrow> int \<Rightarrow> int \<Rightarrow> screen \<Rightarrow> screen option" where
  "WriteString str x y s = do {
     n \<leftarrow> calculate_string_length str;
     Some (fold (\<lambda>i. write_at (str ! i) (x + int i) y) [0..<n] s) }"

definition ClearLine :: "int \<Rightarrow> screen \<Rightarrow> screen" where
  "ClearLine y s = fold (\<lambda>i. write_at 32 i y) [0..79] s"

definition ClearScreen :: "screen \<Rightarrow> screen" where
  "ClearScreen s = fold ClearLine [0..24] s"

text \<open>\<open>memcpy\<close> on screen memory, byte by byte in ascending order.\<close>

definition vga_copy :: "u64 \<Rightarrow> u64 \<Rightarrow> nat \<Rightarrow> (u64 \<Rightarrow> u8) \<Rightarrow> u64 \<Rightarrow> u8" where
  "vga_copy dst src n m = fold (\<lambda>k m. m(dst + of_nat k := m (src + of_nat k))) [0..<n] m"

definition VGA_Scroll :: "int \<Rightarrow> screen \<Rightarrow> screen" where
  "VGA_Scroll n s =
     (if n \<le> 0 then s
      else s\<lparr>vga := fold (\<lambda>i. vga_copy (of_nat (i * 160)) (of_nat (i * 160) + word_of_int (n * 160)) 160)
                      [0..<80] (vga s)\<rparr>)"

text \<open>The character \<open>DrawBox\<close> writes into a cell of the box, if any.\<close>

definition box_char :: "int \<Rightarrow> int \<Rightarrow> int \<Rightarrow> int \<Rightarrow> u8 option" where
  "box_char w h cx cy =
     (if cx = 0 \<and> cy = 0 then Some 0xC9
      else if cx = w - 1 \<and> cy = 0 then Some 0xBB
      else if cx = 0 \<and> cy = h - 1 then Some 0xC8
      else if cx = w - 1 \<and> cy = h - 1 then Some 0xBC
      else if cx = 0 \<or> cx = w - 1 then Some 0xBA
      else if cy = 0 \<or> cy = h - 1 then Some 0xCD
      else None)"

text \<open>The centred title both drawing functions write, in the inverted colour.\<close>

definition draw_title :: "int \<Rightarrow> int \<Rightarrow> int \<Rightarrow> u8 list \<Rightarrow> nat \<Rightarrow> screen \<Rightarrow> screen option" where
  "draw_title x y w title n s =
     (let pad = (w - int n) sdiv 2; pad = (if pad < 0 then 0 else pad); init = VGA_CUR_COLOR s
      in do {
        s \<leftarrow> WriteString title (x + pad) y s;
        Some (fold (\<lambda>i s. write_at (title ! i) (int i + (x + pad)) y (s\<lparr>VGA_CUR_COLOR := NOT init\<rparr>)) [0..<n] s) })"

definition DrawBox :: "int \<Rightarrow> int \<Rightarrow> int \<Rightarrow> int \<Rightarrow> u8 list \<Rightarrow> screen \<Rightarrow> screen option" where
  "DrawBox x y w h title s = do {
     n \<leftarrow> calculate_string_length title;
     let init = VGA_CUR_COLOR s;
     let s = fold (\<lambda>cy. fold (\<lambda>cx s. case box_char w h cx cy of
               Some c \<Rightarrow> write_at c (cx + x) (cy + y) s | None \<Rightarrow> s) [0..w - 1]) [0..h - 1] s;
     s \<leftarrow> (if n = 0 then Some s else draw_title x y w title n s);
     Some (s\<lparr>VGA_CUR_COLOR := init\<rparr>) }"

definition divider_char :: "int \<Rightarrow> int \<Rightarrow> u8 \<Rightarrow> u8 \<Rightarrow> u8" where
  "divider_char w cx up down =
     (if cx = 0 then
        if up = 0xBA \<and> down = 0xBA then 0xCC else if up = 0xBA then 0xC8
        else if down = 0xBA then 0xC9 else 0xCD
      else if cx = w - 1 then
        if up = 0xBA \<and> down = 0xBA then 0xB9 else if up = 0xBA then 0xC8
        else if down = 0xBA then 0xC9 else 0xCD
      else 0xCD)"

definition DrawDivider :: "int \<Rightarrow> int \<Rightarrow> int \<Rightarrow> u8 list \<Rightarrow> screen \<Rightarrow> screen option" where
  "DrawDivider x y w title s = do {
     let init = VGA_CUR_COLOR s;
     n \<leftarrow> calculate_string_length title;
     let s = fold (\<lambda>cx s. write_at
               (divider_char w cx (ReadCharacter s (cx + x) (y - 1)) (ReadCharacter s (cx + x) (y + 1)))
               (cx + x) y s) [0..w - 1] s;
     s \<leftarrow> (if n = 0 then Some s else draw_title x y w title n s);
     Some (s\<lparr>VGA_CUR_COLOR := init\<rparr>) }"

section \<open>The cursor\<close>

definition Scroll :: "int \<Rightarrow> screen \<Rightarrow> screen" where
  "Scroll n s = VGA_Scroll n (s\<lparr>curX := 0, snapshotY := snapshotY s - 1\<rparr>)"

definition NewLine :: "screen \<Rightarrow> screen" where
  "NewLine s = (if curY s = 24 then Scroll 1 s else s\<lparr>curX := 0, curY := curY s + 1\<rparr>)"

definition cls :: "screen \<Rightarrow> screen" where
  "cls s = ClearScreen (s\<lparr>curX := 0, curY := 0\<rparr>)"

definition setCursor :: "int \<Rightarrow> int \<Rightarrow> screen \<Rightarrow> screen" where
  "setCursor x y s =
     (let x = (if x > 79 then 79 else x); y = (if y > 24 then 24 else y);
          x = (if x < 0 then 0 else x); y = (if y < 0 then 0 else y)
      in s\<lparr>curX := x, curY := y\<rparr>)"

section \<open>Printing\<close>

text \<open>The look-ahead after a space: the length of the next word, its closing space included.\<close>

primrec next_word :: "nat \<Rightarrow> u8 list \<Rightarrow> nat \<Rightarrow> int \<Rightarrow> int option" where
  "next_word 0 str b len = Some len"
| "next_word (Suc n) str b len = do {
     c \<leftarrow> buf_get str b;
     if c = 32 then Some (len + 1) else next_word n str (b + 1) (len + 1) }"

text \<open>The scan of the row up when a backspace leaves column 0.\<close>

primrec back_scan :: "nat \<Rightarrow> int \<Rightarrow> screen \<Rightarrow> screen" where
  "back_scan 0 i s = s"
| "back_scan (Suc n) i s =
     (let scan = ReadCharacter s i (curY s); nextScan = ReadCharacter s (i + 1) (curY s)
      in if scan = 32 \<and> nextScan = 32 then s\<lparr>curX := i\<rparr>
         else if scan = 32 \<and> i = 79 then s\<lparr>curX := i\<rparr>
         else back_scan n (i + 1) (s\<lparr>curX := 79\<rparr>))"

definition print_backspace :: "screen \<Rightarrow> screen" where
  "print_backspace s =
     (if curX s = 0 \<and> curY s = 0 then s
      else let s = (if curX s = 0 then back_scan 80 0 (s\<lparr>curY := curY s - 1\<rparr>)
                    else s\<lparr>curX := curX s - 1\<rparr>)
        in write_at 32 (curX s) (curY s) s)"

definition print_tab :: "screen \<Rightarrow> screen" where
  "print_tab s =
     (if curX s > 79 - 8 \<and> curY s = 24 then let s = NewLine s in s\<lparr>curX := 4 - (79 - curX s)\<rparr>
      else if curX s > 79 - 8 then let s = NewLine s in s\<lparr>curX := 4 - (79 - curX s)\<rparr>
      else s\<lparr>curX := curX s + 4\<rparr>)"

text \<open>The two tests at the head of the loop of \<open>print\<close>.\<close>

definition print_wrap :: "screen \<Rightarrow> screen" where
  "print_wrap s =
     (let s = (if curX s > 79 then s\<lparr>curX := 0, curY := curY s + 1\<rparr> else s)
      in if curX s = 79 \<and> curY s = 24 then Scroll 1 s else s)"

text \<open>\<open>print_loop n str len i\<close>: the iterations from \<open>i\<close> on, \<open>n = len - i\<close> of them at most.\<close>

primrec print_loop :: "nat \<Rightarrow> u8 list \<Rightarrow> nat \<Rightarrow> nat \<Rightarrow> screen \<Rightarrow> screen option" where
  "print_loop 0 str len i s = Some s"
| "print_loop (Suc n) str len i s = do {
     let s = print_wrap s;
     c \<leftarrow> buf_get str i;
     if c = 32 then do {
       let s = write_at 32 (curX s) (curY s) s;
       word \<leftarrow> next_word (len - (i + 1)) str (i + 1) 0;
       print_loop n str len (i + 1)
         (if word + curX s > 79 then NewLine s else s\<lparr>curX := curX s + 1\<rparr>) }
     else if c = 10 then print_loop n str len (i + 1) (NewLine s)
     else if c = 0 then Some s
     else if c = 8 then print_loop n str len (i + 1) (print_backspace s)
     else if c = 9 then print_loop n str len (i + 1) (print_tab s)
     else if c = 13 then print_loop n str len (i + 1) (s\<lparr>curX := 0\<rparr>)
     else if c = 12 then print_loop n str len (i + 1) (cls s)
     else do {
       let s = write_at c (curX s) (curY s) s;
       print_loop n str len (i + 1)
         (if curX s = 79 \<and> curY s = 24 then NewLine s
          else if curX s = 79 then NewLine s else s\<lparr>curX := curX s + 1\<rparr>) } }"

text \<open>A negative length makes no iteration.\<close>

definition print :: "u8 list \<Rightarrow> int \<Rightarrow> screen \<Rightarrow> screen option" where
  "print toPrint len s = do {
     n \<leftarrow> (if len = 0 then map_option int (calculate_string_length toPrint) else Some len);
     print_loop (nat n) toPrint (nat n) 0 s }"

definition print_centered :: "u8 list \<Rightarrow> int \<Rightarrow> screen \<Rightarrow> screen option" where
  "print_centered toPrint len s = do {
     n \<leftarrow> (if len = 0 then map_option int (calculate_string_length toPrint) else Some len);
     print toPrint n (setCursor ((79 - n) sdiv 2) (curY s) s) }"

definition print_in :: "u8 \<Rightarrow> (screen \<Rightarrow> screen option) \<Rightarrow> screen \<Rightarrow> screen option" where
  "print_in color p s = do { s \<leftarrow> p (SetTextColor color BLACK s); Some (SetTextColor WHITE BLACK s) }"

definition print_debug :: "u8 list \<Rightarrow> int \<Rightarrow> screen \<Rightarrow> screen option" where
  "print_debug str n = print_in LCYAN (print str n)"

definition print_error :: "u8 list \<Rightarrow> int \<Rightarrow> screen \<Rightarrow> screen option" where
  "print_error str n = print_in LRED (print str n)"

definition print_success :: "u8 list \<Rightarrow> int \<Rightarrow> screen \<Rightarrow> screen option" where
  "print_success str n = print_in LGREEN (print str n)"

definition take_print_snapshot :: "screen \<Rightarrow> screen" where
  "take_print_snapshot s = s\<lparr>snapshotX := curX s, snapshotY := curY s\<rparr>"

definition print_snapshot :: "u8 list \<Rightarrow> int \<Rightarrow> screen \<Rightarrow> screen option" where
  "print_snapshot str n s =
     (if snapshotX s = curX s \<or> snapshotY s = curY s then print str n s
      else do {
        s' \<leftarrow> print str n (s\<lparr>curX := snapshotX s, curY := snapshotY s\<rparr>);
        Some (s'\<lparr>curX := curX s, curY := curY s\<rparr>) })"

definition print_debug_snapshot :: "u8 list \<Rightarrow> int \<Rightarrow> screen \<Rightarrow> screen option" where
  "print_debug_snapshot str n = print_in LCYAN (print_snapshot str n)"

definition print_error_snapshot :: "u8 list \<Rightarrow> int \<Rightarrow> screen \<Rightarrow> screen option" where
  "print_error_snapshot str n = print_in LRED (print_snapshot str n)"

definition print_success_snapshot :: "u8 list \<Rightarrow> int \<Rightarrow> screen \<Rightarrow> screen option" where
  "print_success_snapshot str n = print_in LGREEN (print_snapshot str n)"

section \<open>printf\<close>

text \<open>
  The scanning functions of \<open>printf\<close> read up to two bytes in front of the string;
  \<open>before k\<close> is the byte \<open>k\<close> places before its first one.
\<close>

definition fmt_get :: "(nat \<Rightarrow> u8) \<Rightarrow> u8 list \<Rightarrow> int \<Rightarrow> u8 option" where
  "fmt_get before str i = (if i < 0 then Some (before (nat (- i))) else buf_get str (nat i))"

datatype printf_type = PT_NULL | PT_INT | PT_HEX | PT_BIN | PT_CHAR | PT_STR | PT_PERCENT

definition printf_type_of :: "u8 \<Rightarrow> printf_type" where
  "printf_type_of c =
     (if c = 105 \<or> c = 100 then PT_INT else if c = 120 then PT_HEX else if c = 98 then PT_BIN
      else if c = 99 then PT_CHAR else if c = 115 then PT_STR else if c = 37 then PT_PERCENT
      else PT_NULL)"

text \<open>Leaving the loop of \<open>printf_get_type\<close> without a match returns no value.\<close>

primrec get_type_loop :: "nat \<Rightarrow> u8 list \<Rightarrow> nat \<Rightarrow> nat \<Rightarrow> nat \<Rightarrow> printf_type option" where
  "get_type_loop 0 str cur seen index = None"
| "get_type_loop (Suc n) str cur seen index = do {
     prev \<leftarrow> (if cur = 0 then Some 0 else buf_get str (cur - 1));
     if cur \<noteq> 0 \<and> prev = 37 then
       if seen + 1 \<noteq> index then get_type_loop n str (cur + 1) (seen + 1) index
       else map_option printf_type_of (buf_get str cur)
     else get_type_loop n str (cur + 1) seen index }"

definition printf_get_type :: "u8 list \<Rightarrow> nat \<Rightarrow> nat \<Rightarrow> printf_type option" where
  "printf_get_type toScan len index = get_type_loop len toScan 0 0 (index + 1)"

primrec scan_length_loop :: "nat \<Rightarrow> (nat \<Rightarrow> u8) \<Rightarrow> u8 list \<Rightarrow> nat \<Rightarrow> nat option" where
  "scan_length_loop 0 before str ret = Some ret"
| "scan_length_loop (Suc len) before str ret = do {
     a \<leftarrow> fmt_get before str (int len - 1);
     b \<leftarrow> (if a = 37 then fmt_get before str (int len - 2) else Some 0);
     scan_length_loop len before str (ret + (if a = 37 \<and> b \<noteq> 37 then 1 else 0)) }"

definition printf_scan_length :: "(nat \<Rightarrow> u8) \<Rightarrow> u8 list \<Rightarrow> nat \<Rightarrow> nat option" where
  "printf_scan_length before toScan len = scan_length_loop len before toScan 0"

text \<open>
  The search loop of \<open>printf_print_from\<close>: the index of the next conversion, if there is one,
  and the number of iterations before it.
\<close>

primrec next_conversion :: "nat \<Rightarrow> (nat \<Rightarrow> u8) \<Rightarrow> u8 list \<Rightarrow> nat \<Rightarrow> nat \<Rightarrow> (nat option \<times> nat) option" where
  "next_conversion 0 before str i loop = Some (None, loop)"
| "next_conversion (Suc n) before str i loop = do {
     a \<leftarrow> buf_get str i;
     b \<leftarrow> (if a = 37 then buf_get str (i + 1) else Some 37);
     c \<leftarrow> (if a = 37 \<and> b \<noteq> 37 then fmt_get before str (int i - 1) else Some 37);
     if a = 37 \<and> b \<noteq> 37 \<and> c \<noteq> 37 then Some (Some i, loop)
     else next_conversion n before str (i + 1) (loop + 1) }"

text \<open>The result is \<open>None\<close> in its first part when \<open>ret\<close> was never assigned.\<close>

definition printf_print_from ::
  "(nat \<Rightarrow> u8) \<Rightarrow> u8 list \<Rightarrow> nat \<Rightarrow> nat \<Rightarrow> screen \<Rightarrow> (nat option \<times> screen) option" where
  "printf_print_from before toPrint len start s = do {
     (found, loop) \<leftarrow> next_conversion (len - start) before toPrint start 0;
     let ret = map_option (\<lambda>i. i + 2) found;
     let len = (case found of Some i \<Rightarrow> i | None \<Rightarrow> len);
     if loop = 0 then Some (ret, s)
     else do {
       s \<leftarrow> print (drop start toPrint) (int len - int start) s;
       Some (ret, s) } }"

text \<open>
  The loop over the arguments. \<open>variable_print\<close> is the 64 byte array the numbers are printed
  into; every use writes a string into it first. Taking an argument that was not passed is
  undefined.
\<close>

primrec printf_loop ::
  "nat \<Rightarrow> (nat \<Rightarrow> u8) \<Rightarrow> u8 list \<Rightarrow> nat \<Rightarrow> nat \<Rightarrow> u64 list \<Rightarrow> u8 list \<Rightarrow> nat option \<Rightarrow> screen \<Rightarrow>
     (nat option \<times> screen) option" where
  "printf_loop 0 before str len i args var cur s = Some (cur, s)"
| "printf_loop (Suc n) before str len i args var cur s = do {
     cur \<leftarrow> cur;
     (cur, s) \<leftarrow> printf_print_from before str len cur s;
     type \<leftarrow> printf_get_type str len i;
     case type of
       PT_INT \<Rightarrow> do {
         v \<leftarrow> (case args of v # _ \<Rightarrow> Some v | [] \<Rightarrow> None);
         var \<leftarrow> int_to_char_array v var 64 0;
         s \<leftarrow> print var 0 s;
         printf_loop n before str len (i + 1) (tl args) var cur s }
     | PT_HEX \<Rightarrow> do {
         v \<leftarrow> (case args of v # _ \<Rightarrow> Some v | [] \<Rightarrow> None);
         var \<leftarrow> int_to_char_array_hex v var 64 0;
         s \<leftarrow> print var 0 s;
         printf_loop n before str len (i + 1) (tl args) var cur s }
     | PT_BIN \<Rightarrow> do {
         v \<leftarrow> (case args of v # _ \<Rightarrow> Some v | [] \<Rightarrow> None);
         var \<leftarrow> int_to_char_array_binary v var 64 0;
         s \<leftarrow> print var 0 s;
         printf_loop n before str len (i + 1) (tl args) var cur s }
     | PT_CHAR \<Rightarrow> do {
         v \<leftarrow> (case args of v # _ \<Rightarrow> Some v | [] \<Rightarrow> None);
         s \<leftarrow> print [ucast v, 0] 0 s;
         printf_loop n before str len (i + 1) (tl args) var cur s }
     | _ \<Rightarrow> printf_loop n before str len (i + 1) args var cur s }"

definition printf :: "(nat \<Rightarrow> u8) \<Rightarrow> u8 list \<Rightarrow> u64 list \<Rightarrow> screen \<Rightarrow> screen option" where
  "printf before toPrint args s = do {
     len \<leftarrow> get_string_length toPrint;
     args_length \<leftarrow> printf_scan_length before toPrint len;
     if args_length = 0 then print toPrint 0 s
     else do {
       (cur, s) \<leftarrow> printf_loop args_length before toPrint len 0 args (replicate 64 0) (Some 0) s;
       cur \<leftarrow> cur;
       (_, s) \<leftarrow> printf_print_from before toPrint len cur s;
       Some s } }"

section \<open>The cursor stays on the screen\<close>

text \<open>Column 80 is the cursor past the last column of a row that is not the last.\<close>

definition cursor_ok :: "screen \<Rightarrow> bool" where
  "cursor_ok s \<longleftrightarrow> 0 \<le> curX s \<and> 0 \<le> curY s \<and> curY s \<le> 24 \<and> (curX s \<le> 79 \<or> curX s = 80 \<and> curY s < 24)"

lemma curXY_simps [simp]:
  "curX (write_at c x y s) = curX s" "curY (write_at c x y s) = curY s"
  "curX (VGA_Scroll n s) = curX s" "curY (VGA_Scroll n s) = curY s"
  "curX (Scroll n s) = 0" "curY (Scroll n s) = curY s"
  "curX (NewLine s) = 0" "curY (NewLine s) = (if curY s = 24 then 24 else curY s + 1)"
  by (simp_all add: write_at_def WriteCharacter_def Let_def VGA_Scroll_def Scroll_def NewLine_def)

lemma fold_cursor:
  assumes "\<And>i s. curX (f i s) = curX s \<and> curY (f i s) = curY s"
  shows "curX (fold f xs s) = curX s \<and> curY (fold f xs s) = curY s"
  using assms by (induction xs arbitrary: s) auto

lemma cls_cursor [simp]: "curX (cls s) = 0" "curY (cls s) = 0"
proof -
  have l: "curX (ClearLine y s) = curX s \<and> curY (ClearLine y s) = curY s" for y s
    unfolding ClearLine_def by (rule fold_cursor) simp
  have "curX (ClearScreen s) = curX s \<and> curY (ClearScreen s) = curY s" for s
    unfolding ClearScreen_def by (rule fold_cursor) (rule l)
  then show "curX (cls s) = 0" "curY (cls s) = 0" by (simp_all add: cls_def)
qed

lemma back_scan_cursor:
  "0 \<le> i \<Longrightarrow> i + int n = 80 \<Longrightarrow> 0 < n \<Longrightarrow>
     curY (back_scan n i s) = curY s \<and> 0 \<le> curX (back_scan n i s) \<and> curX (back_scan n i s) \<le> 79"
proof (induction n arbitrary: i s)
  case (Suc n)
  then show ?case
    by (cases "n = 0") (auto simp: Let_def)
qed simp

lemma print_wrap_cursor:
  assumes "cursor_ok s"
  shows "0 \<le> curX (print_wrap s) \<and> curX (print_wrap s) \<le> 79 \<and> 0 \<le> curY (print_wrap s) \<and>
    curY (print_wrap s) \<le> 24 \<and> \<not> (curX (print_wrap s) = 79 \<and> curY (print_wrap s) = 24)"
  using assms by (auto simp: cursor_ok_def print_wrap_def Let_def)

lemma print_backspace_cursor:
  assumes "0 \<le> curX s" "curX s \<le> 79" "0 \<le> curY s" "curY s \<le> 24"
  shows "cursor_ok (print_backspace s)"
  using assms back_scan_cursor [of 0 80 "s\<lparr>curY := curY s - 1\<rparr>"]
  by (auto simp: cursor_ok_def print_backspace_def Let_def)

lemma print_loop_cursor:
  "print_loop n str len i s = Some s' \<Longrightarrow> cursor_ok s \<Longrightarrow> \<forall>c \<in> set str. c \<noteq> 9 \<Longrightarrow> cursor_ok s'"
proof (induction n arbitrary: i s)
  case (Suc n)
  note w = print_wrap_cursor [OF Suc.prems(2)]
  define t where "t = print_wrap s"
  note w = w [folded t_def]
  note ih = Suc.IH [OF _ _ Suc.prems(3)]
  obtain c where c: "buf_get str i = Some c" using Suc.prems(1) by (cases "buf_get str i") auto
  have "c \<in> set str" using c by (auto simp: buf_get_def split: if_splits)
  then have "c \<noteq> 9" using Suc.prems(3) by blast
  note step = Suc.prems(1) [unfolded print_loop.simps Let_def t_def [symmetric] c Option.bind.bind_lunit]
  have sp: "0 \<le> word" if "next_word k str j 0 = Some word" for k j word
  proof -
    have "next_word k str j a = Some word \<Longrightarrow> a \<le> word" for a
      by (induction k arbitrary: j a) (fastforce simp: bind_eq_Some_conv split: if_splits)+
    then show ?thesis using that by blast
  qed
  consider "c = 32" | "c = 10" | "c = 0" | "c = 8" | "c = 13" | "c = 12"
    | "c \<notin> {32, 10, 0, 8, 9, 13, 12}" using \<open>c \<noteq> 9\<close> by blast
  then show ?case
  proof cases
    case 1
    let ?u = "write_at 32 (curX t) (curY t) t"
    obtain word where "next_word (len - (i + 1)) str (i + 1) 0 = Some word"
      "print_loop n str len (i + 1) (if word + curX ?u > 79 then NewLine ?u
         else ?u\<lparr>curX := curX ?u + 1\<rparr>) = Some s'"
      using step [unfolded if_P [OF 1]] by (elim bind_SomeE) (rule that)
    note n = this sp [OF this(1)]
    show ?thesis using w n(3) by (intro ih [OF n(2)]) (auto simp: cursor_ok_def)
  next
    case 2 then show ?thesis using step w by (intro ih [of "i + 1" "NewLine t"]) (auto simp: cursor_ok_def)
  next
    case 3 then show ?thesis using step w by (auto simp: cursor_ok_def)
  next
    case 4 then show ?thesis using step w
      by (intro ih [of "i + 1" "print_backspace t"]) (auto intro: print_backspace_cursor)
  next
    case 5 then show ?thesis using step w by (intro ih [of "i + 1" "t\<lparr>curX := 0\<rparr>"]) (auto simp: cursor_ok_def)
  next
    case 6 then show ?thesis using step w by (intro ih [of "i + 1" "cls t"]) (auto simp: cursor_ok_def)
  next
    case 7
    then have "print_loop n str len (i + 1)
         (if curX (write_at c (curX t) (curY t) t) = 79 \<and> curY (write_at c (curX t) (curY t) t) = 24
          then NewLine (write_at c (curX t) (curY t) t)
          else if curX (write_at c (curX t) (curY t) t) = 79 then NewLine (write_at c (curX t) (curY t) t)
          else write_at c (curX t) (curY t) t\<lparr>curX := curX (write_at c (curX t) (curY t) t) + 1\<rparr>) = Some s'"
      using step by auto
    then show ?thesis by (rule ih) (use w in \<open>auto simp: cursor_ok_def\<close>)
  qed
qed simp

lemma buf_get_in: "i < length str \<Longrightarrow> \<exists>c. buf_get str i = Some c"
  by (simp add: buf_get_def)

lemma next_word_total: "b + n \<le> length str \<Longrightarrow> \<exists>w. next_word n str b a = Some w"
proof (induction n arbitrary: b a)
  case (Suc n)
  then show ?case using buf_get_in [of b str] by (auto simp del: One_nat_def)
qed simp

lemma print_loop_total:
  "i + n = len \<Longrightarrow> len \<le> length str \<Longrightarrow> \<exists>s'. print_loop n str len i s = Some s'"
proof (induction n arbitrary: i s)
  case (Suc n)
  then have ih: "\<exists>s'. print_loop n str len (i + 1) t = Some s'" for t by simp
  obtain c where "buf_get str i = Some c" using buf_get_in [of i str] Suc.prems by auto
  moreover obtain w where "next_word (len - (i + 1)) str (i + 1) 0 = Some w"
    using next_word_total [of "i + 1" "len - (i + 1)" str 0] Suc.prems by auto
  ultimately show ?case using ih by (simp add: Let_def)
qed simp

lemma find_nul_bound: "find_nul b i = Some n \<Longrightarrow> n < length b"
  by (induction b i rule: find_nul.induct) (auto simp: find_nul.simps split: if_splits)


text \<open>A tab in the last eight columns moves the cursor to column -75: the next character is
  written outside its row.\<close>

theorem print_tab_leaves_screen:
  assumes "71 < curX s" "curX s < 79" "0 \<le> curY s" "curY s \<le> 24"
  shows "\<exists>s'. print [9, 0] 0 s = Some s' \<and> curX s' = - 75 \<and> \<not> cursor_ok s'"
proof -
  have "find_nul [9, 0] 0 = Some 1" by (rule find_nul_at) auto
  moreover have "print_wrap s = s" using assms by (simp add: print_wrap_def)
  ultimately show ?thesis
    using assms by (simp add: print_def calculate_string_length_def buf_get_def print_tab_def Let_def cursor_ok_def)
qed

definition blank_screen :: screen where
  "blank_screen = \<lparr>vga = (\<lambda>_. 0), VGA_CUR_COLOR = WHITE, curX = 0, curY = 0, snapshotX = 0, snapshotY = 0\<rparr>"


theorem print_tab_leaves_screen_witness:
  "\<exists>s'. print [9, 0] 0 (blank_screen\<lparr>curX := 75\<rparr>) = Some s' \<and> curX s' = - 75"
  using print_tab_leaves_screen [of "blank_screen\<lparr>curX := 75\<rparr>"] by (auto simp: blank_screen_def)

end
