(* ===== verification/Terminal.thy ===== *)
theory Terminal
  imports Console
begin

text \<open>
  The virtual terminals of \<open>Userland/terminal.c\<close>: eight buffers, the visible ones drawn on the
  text screen after every write, and the owner of the screen. Reading or writing outside
  the 2000 bytes of a buffer has no result.
\<close>

record terminal =
  bytes :: "u8 list"
  lastPos :: u64
  tm_w :: int
  tm_h :: int
  visible :: bool
  tm_x :: u8
  tm_y :: u8
  tm_name :: "u8 list"
  nameLen :: u8
  fg :: u8
  bg :: u8

definition zero_terminal :: terminal where
  "zero_terminal = \<lparr>bytes = replicate 2000 0, lastPos = 0, tm_w = 0, tm_h = 0, visible = False,
     tm_x = 0, tm_y = 0, tm_name = replicate 16 0, nameLen = 0, fg = 0, bg = 0\<rparr>"

record tty =
  terminals :: "terminal list"
  scr :: screen
  screenOwner :: int
  TTY :: bool

definition VGA_WIDTH :: int where "VGA_WIDTH = 80"
definition VGA_HEIGHT :: int where "VGA_HEIGHT = 25"

section \<open>Initial state\<close>

text \<open>
  The six bytes copied from the five byte literal \<open>"USER"\<close> include one behind it, \<open>stray\<close>.
\<close>

definition initVirtualTerminals :: "bool \<Rightarrow> u8 \<Rightarrow> tty \<Rightarrow> tty" where
  "initVirtualTerminals debug stray t =
     (let base = zero_terminal\<lparr>tm_h := VGA_HEIGHT\<rparr>;
          k = (if debug then base\<lparr>visible := True, tm_w := VGA_WIDTH div 2, tm_x := 40, tm_y := 0\<rparr>
               else base\<lparr>visible := False, tm_w := VGA_WIDTH, tm_x := 0, tm_y := 0\<rparr>);
          u = (if debug then base\<lparr>visible := True, tm_w := VGA_WIDTH div 2, tm_x := 0, tm_y := 0\<rparr>
               else base\<lparr>visible := True, tm_w := VGA_WIDTH, tm_x := 0, tm_y := 0\<rparr>);
          k = k\<lparr>tm_name := [75, 69, 82, 78, 69, 76] @ replicate 10 0, nameLen := 6, bg := WHITE, fg := BLACK\<rparr>;
          u = u\<lparr>tm_name := [85, 83, 69, 82, 0, stray] @ replicate 10 0, nameLen := 4, bg := BLACK, fg := WHITE\<rparr>
      in t\<lparr>terminals := k # u # replicate 6 zero_terminal\<rparr>)"

section \<open>Drawing\<close>

definition draw_header :: "terminal \<Rightarrow> screen \<Rightarrow> screen" where
  "draw_header t s =
     fold (\<lambda>n s.
        let nx = uint (tm_x t) + n
        in if nx \<le> VGA_WIDTH \<and> n < uint (nameLen t) then write_at (tm_name t ! nat n) nx (uint (tm_y t)) s
           else if nx \<le> VGA_WIDTH then write_at 32 nx (uint (tm_y t)) s
           else s) [0..tm_w t - 1] s"

text \<open>The variables of the drawing loops. \<open>cx\<close>, \<open>cy\<close> and \<open>ci\<close> are \<open>curX\<close>, \<open>curY\<close> and \<open>curI\<close>.\<close>

record draw =
  cx :: int
  cy :: int
  ci :: nat
  skip :: int
  tlen :: int
  firstnewline :: nat
  d_term :: terminal
  d_scr :: screen

text \<open>One iteration at column \<open>x\<close>: the new state and the column before the increment of the loop.\<close>

definition draw_step :: "draw \<Rightarrow> int \<Rightarrow> u8 \<Rightarrow> draw \<times> int" where
  "draw_step d x c =
     (if cy d > VGA_HEIGHT \<or> cx d > VGA_WIDTH then (d\<lparr>cx := cx d + 1\<rparr>, x)
      else if skip d > 1 then
        (d\<lparr>skip := skip d - 1, d_scr := write_at 0 (cx d) (cy d) (d_scr d), cx := cx d + 1,
           tlen := tlen d + 1\<rparr>, x)
      else if c = 10 then
        (let diff = tm_w (d_term d) - x
         in (d\<lparr>skip := diff, ci := ci d + 1, tlen := tlen d + diff,
               firstnewline := (if firstnewline d = 0 then ci d + 1 else firstnewline d)\<rparr>, x))
      else if c = 8 then (d\<lparr>cx := cx d - 1, ci := ci d + 1, tlen := tlen d - 1\<rparr>, x - 1)
      else if c = 9 then (d\<lparr>skip := skip d + 4, ci := ci d + 1, tlen := tlen d + 4\<rparr>, x)
      else if c = 13 then (d, x)
      else if c = 0 then
        (d\<lparr>d_scr := write_at c (cx d) (cy d) (d_scr d), cx := cx d + 1, ci := ci d + 1\<rparr>, x)
      else
        (d\<lparr>d_scr := write_at c (cx d) (cy d) (d_scr d), cx := cx d + 1, ci := ci d + 1,
           tlen := tlen d + 1\<rparr>, x))"

text \<open>Deleting the first line when the text has grown past the terminal.\<close>

definition draw_trim :: "draw \<Rightarrow> draw" where
  "draw_trim d =
     (let t = d_term d
      in if tlen d > tm_w t * tm_h t
         then d\<lparr>d_term := t\<lparr>lastPos := 0,
                bytes := drop (firstnewline d) (bytes t) @ drop (2000 - firstnewline d) (bytes t)\<rparr>\<rparr>
         else d)"

lemma draw_step_column: "draw_step d x c = (d', x') \<Longrightarrow> x' = x \<or> (x' = x - 1 \<and> ci d' = ci d + 1)"
  by (auto simp: draw_step_def Let_def split: if_splits)

lemma draw_step_ci: "draw_step d x c = (d', x') \<Longrightarrow> ci d \<le> ci d' \<and> d_term d' = d_term d"
  by (auto simp: draw_step_def Let_def split: if_splits)

lemma draw_trim_simps [simp]: "ci (draw_trim d) = ci d" "tm_w (d_term (draw_trim d)) = tm_w (d_term d)"
  by (simp_all add: draw_trim_def Let_def)

function draw_row :: "draw \<Rightarrow> int \<Rightarrow> draw option" where
  "draw_row d x =
     (if x < tm_w (d_term d) then
        if ci d < 2000 then
          (case draw_step d x (bytes (d_term d) ! ci d) of (d, x) \<Rightarrow> draw_row (draw_trim d) (x + 1))
        else None
      else Some d)"
  by pat_completeness auto
termination
proof (relation "measure (\<lambda>(d, x). nat (tm_w (d_term d) - x) + (2000 - ci d))", goal_cases)
  case (2 d x d' x')
  then have s: "draw_step d x (bytes (d_term d) ! ci d) = (d', x')" by simp
  show ?case using draw_step_column [OF s] draw_step_ci [OF s] 2(1,2) by auto
qed simp

declare draw_row.simps [simp del]

text \<open>The rows of one terminal: \<open>n\<close> of them are left.\<close>

primrec draw_rows :: "nat \<Rightarrow> draw \<Rightarrow> draw option" where
  "draw_rows 0 d = Some d"
| "draw_rows (Suc n) d = do {
     d \<leftarrow> draw_row d 0;
     draw_rows n (d\<lparr>cx := uint (tm_x (d_term d)), cy := cy d + 1\<rparr>) }"

definition draw_terminal :: "terminal \<Rightarrow> screen \<Rightarrow> (terminal \<times> screen) option" where
  "draw_terminal t s =
     (if \<not> visible t then Some (t, s)
      else do {
        let s = SetTextColor (NOT (fg t) AND 0xF) (NOT (bg t) AND 0xF) s;
        let s = draw_header t s;
        let s = SetTextColor (fg t) (bg t) s;
        d \<leftarrow> draw_rows (nat (tm_h t)) \<lparr>cx = uint (tm_x t), cy = uint (tm_y t) + 1, ci = 0, skip = 0, tlen = 0,
              firstnewline = 0, d_term = t, d_scr = s\<rparr>;
        Some (d_term d, d_scr d) })"

primrec draw_terminals :: "terminal list \<Rightarrow> screen \<Rightarrow> (terminal list \<times> screen) option" where
  "draw_terminals [] s = Some ([], s)"
| "draw_terminals (t # ts) s = do {
     (t, s) \<leftarrow> draw_terminal t s;
     (ts, s) \<leftarrow> draw_terminals ts s;
     Some (t # ts, s) }"

definition refreshTerminals :: "tty \<Rightarrow> tty option" where
  "refreshTerminals t = do {
     (ts, s) \<leftarrow> draw_terminals (terminals t) (ClearScreen (scr t));
     Some (t\<lparr>terminals := ts, scr := s\<rparr>) }"

section \<open>Writing\<close>

text \<open>The length of the string, cut at 128.\<close>

primrec vp_len :: "nat \<Rightarrow> u8 list \<Rightarrow> nat \<Rightarrow> nat option" where
  "vp_len 0 src i = Some i"
| "vp_len (Suc n) src i = do { c \<leftarrow> buf_get src i; if c = 0 then Some i else vp_len n src (i + 1) }"

definition append_bytes :: "terminal \<Rightarrow> u8 list \<Rightarrow> terminal option" where
  "append_bytes t bs =
     (let n = length bs;
          nadd = (lastPos t + of_nat n > of_int (tm_w t * tm_h t));
          t = (if nadd then t\<lparr>lastPos := 0\<rparr> else t)
      in if unat (lastPos t) + n \<le> 2000
         then Some (t\<lparr>bytes := take (unat (lastPos t)) (bytes t) @ bs @ drop (unat (lastPos t) + n) (bytes t),
                      lastPos := (if nadd then lastPos t else lastPos t + of_nat n)\<rparr>)
         else None)"

definition virtualprint :: "nat \<Rightarrow> u8 list \<Rightarrow> tty \<Rightarrow> tty option" where
  "virtualprint tid src t =
     (if tid < length (terminals t) then do {
        len \<leftarrow> vp_len 128 src 0;
        term \<leftarrow> append_bytes (terminals t ! tid) (take len src);
        refreshTerminals (t\<lparr>terminals := (terminals t)[tid := term]\<rparr>) }
      else None)"

section \<open>The owner of the screen\<close>

definition requestScreenOwnership :: "int \<Rightarrow> tty \<Rightarrow> bool \<times> tty" where
  "requestScreenOwnership pid t = (if screenOwner t = 0 then (True, t\<lparr>screenOwner := pid\<rparr>) else (False, t))"

definition relinquishScreenOwnership :: "int \<Rightarrow> tty \<Rightarrow> tty" where
  "relinquishScreenOwnership pid t = (if screenOwner t = pid then t\<lparr>screenOwner := 0\<rparr> else t)"

definition setTTY :: "int \<Rightarrow> bool \<Rightarrow> tty \<Rightarrow> tty" where
  "setTTY pid new t = (if screenOwner t = pid then t\<lparr>TTY := new\<rparr> else t)"

section \<open>Writing stays inside the buffers\<close>

text \<open>
  A well-formed terminal. Its text has no backspace: drawing one more backspace than the
  terminal has cells left reads past the buffer.
\<close>

definition term_ok :: "terminal \<Rightarrow> bool" where
  "term_ok t \<longleftrightarrow> length (bytes t) = 2000 \<and> 0 \<le> tm_w t \<and> 0 \<le> tm_h t \<and> tm_w t * tm_h t \<le> 2000 \<and>
     int (unat (lastPos t)) \<le> tm_w t * tm_h t \<and> 8 \<notin> set (bytes t)"

definition draw_ok :: "terminal \<Rightarrow> draw \<Rightarrow> bool" where
  "draw_ok t d \<longleftrightarrow> firstnewline d \<le> ci d \<and> ci d \<le> 2000 \<and> term_ok (d_term d) \<and>
     tm_w (d_term d) = tm_w t \<and> tm_h (d_term d) = tm_h t"

lemma draw_trim_ok:
  assumes "draw_ok t d"
  shows "draw_ok t (draw_trim d)"
proof (cases "tlen d > tm_w (d_term d) * tm_h (d_term d)")
  case True
  let ?b = "drop (firstnewline d) (bytes (d_term d)) @ drop (2000 - firstnewline d) (bytes (d_term d))"
  have "length ?b = 2000" using assms by (auto simp: draw_ok_def term_ok_def)
  moreover have "8 \<notin> set ?b" using assms by (auto simp: draw_ok_def term_ok_def dest: in_set_dropD)
  ultimately show ?thesis using assms True by (auto simp: draw_ok_def term_ok_def draw_trim_def Let_def)
qed (use assms in \<open>simp add: draw_trim_def Let_def\<close>)

lemma draw_step_ok:
  assumes "draw_step d x c = (d', x')" "c \<noteq> 8" "firstnewline d \<le> ci d"
  shows "x' = x \<and> firstnewline d' \<le> ci d' \<and> ci d' \<le> ci d + 1 \<and> d_term d' = d_term d"
  using assms by (auto simp: draw_step_def Let_def split: if_splits)

lemma draw_row_total:
  assumes "draw_ok t d" "0 \<le> x" "x \<le> tm_w t" "int (ci d) + (tm_w t - x) \<le> 2000"
  shows "\<exists>d'. draw_row d x = Some d' \<and> draw_ok t d' \<and> int (ci d') \<le> int (ci d) + (tm_w t - x)"
  using assms
proof (induction d x rule: draw_row.induct)
  case (1 d x)
  have w: "tm_w (d_term d) = tm_w t" using 1(2) by (simp add: draw_ok_def)
  show ?case
  proof (cases "x < tm_w t")
    case False
    then show ?thesis using 1(2-4) w by (intro exI [of _ d]) (simp add: draw_row.simps [of d])
  next
    case True
    then have ci: "ci d < 2000" using 1(5) by linarith
    obtain d1 x1 where s: "draw_step d x (bytes (d_term d) ! ci d) = (d1, x1)" by fastforce
    have "bytes (d_term d) ! ci d \<in> set (bytes (d_term d))"
      by (rule nth_mem) (use 1(2) ci in \<open>simp add: draw_ok_def term_ok_def\<close>)
    then have "bytes (d_term d) ! ci d \<noteq> 8" using 1(2) unfolding draw_ok_def term_ok_def by metis
    then have d1: "x1 = x" "firstnewline d1 \<le> ci d1" "ci d1 \<le> ci d + 1" "d_term d1 = d_term d"
      using draw_step_ok [OF s] 1(2) by (simp_all add: draw_ok_def)
    have ok: "draw_ok t (draw_trim d1)"
      by (rule draw_trim_ok) (use 1(2) d1 ci in \<open>simp add: draw_ok_def\<close>)
    have "\<exists>d'. draw_row (draw_trim d1) (x + 1) = Some d' \<and> draw_ok t d' \<and>
        int (ci d') \<le> int (ci (draw_trim d1)) + (tm_w t - (x + 1))"
      using 1(1) [OF _ ci s [symmetric]] True w ok d1 1(3,5) by (simp add: d1(1))
    then show ?thesis using True ci d1 s w by (simp add: draw_row.simps [of d x]) force
  qed
qed

lemma draw_rows_total:
  assumes "draw_ok t d" "int (ci d) + int n * tm_w t \<le> 2000" "0 \<le> tm_w t"
  shows "\<exists>d'. draw_rows n d = Some d' \<and> draw_ok t d'"
  using assms
proof (induction n arbitrary: d)
  case (Suc n)
  have "0 \<le> int n * tm_w t" using Suc.prems(3) by simp
  then have b: "int (ci d) + tm_w t \<le> 2000" "int (ci d) + tm_w t + int n * tm_w t \<le> 2000"
    using Suc.prems(2) by (simp_all add: distrib_right)
  then obtain d' where d': "draw_row d 0 = Some d'" "draw_ok t d'" "int (ci d') \<le> int (ci d) + tm_w t"
    using draw_row_total [OF Suc.prems(1), of 0] Suc.prems(3) by auto
  have "\<exists>d''. draw_rows n (d'\<lparr>cx := uint (tm_x (d_term d')), cy := cy d' + 1\<rparr>) = Some d'' \<and> draw_ok t d''"
    using d'(2,3) b Suc.prems(3) by (intro Suc.IH) (simp_all add: draw_ok_def)
  then show ?case using d'(1) by simp
qed simp

lemma draw_terminal_total:
  assumes "term_ok t"
  shows "\<exists>t' s'. draw_terminal t s = Some (t', s') \<and> term_ok t' \<and> tm_w t' = tm_w t \<and> tm_h t' = tm_h t"
proof (cases "visible t")
  case False then show ?thesis using assms by (simp add: draw_terminal_def)
next
  case True
  let ?d = "\<lambda>s. \<lparr>cx = uint (tm_x t), cy = uint (tm_y t) + 1, ci = 0, skip = 0, tlen = 0,
     firstnewline = 0, d_term = t, d_scr = s\<rparr>"
  have "\<exists>d'. draw_rows (nat (tm_h t)) (?d s) = Some d' \<and> draw_ok t d'" for s
    using assms by (intro draw_rows_total) (simp_all add: draw_ok_def term_ok_def mult.commute)
  from this [of "SetTextColor (fg t) (bg t) (draw_header t (SetTextColor (NOT (fg t) AND 0xF) (NOT (bg t) AND 0xF) s))"]
  obtain d' where "draw_rows (nat (tm_h t)) (?d (SetTextColor (fg t) (bg t)
      (draw_header t (SetTextColor (NOT (fg t) AND 0xF) (NOT (bg t) AND 0xF) s)))) = Some d'" "draw_ok t d'"
    by blast
  then show ?thesis using True by (simp add: draw_terminal_def Let_def draw_ok_def)
qed

lemma draw_terminals_total:
  "\<forall>t \<in> set ts. term_ok t \<Longrightarrow> \<exists>ts' s'. draw_terminals ts s = Some (ts', s') \<and> length ts' = length ts \<and>
     (\<forall>t \<in> set ts'. term_ok t) \<and> map tm_w ts' = map tm_w ts \<and> map tm_h ts' = map tm_h ts"
proof (induction ts arbitrary: s)
  case (Cons t ts)
  obtain t' s1 where t': "draw_terminal t s = Some (t', s1)" "term_ok t'" "tm_w t' = tm_w t" "tm_h t' = tm_h t"
    using draw_terminal_total [of t s] Cons.prems by auto
  obtain ts' s' where "draw_terminals ts s1 = Some (ts', s')" "length ts' = length ts"
    "\<forall>t \<in> set ts'. term_ok t" "map tm_w ts' = map tm_w ts" "map tm_h ts' = map tm_h ts"
    using Cons.IH [of s1] Cons.prems by auto
  then show ?case using t' by simp
qed simp

lemma unat_of_int_small: "0 \<le> k \<Longrightarrow> k \<le> 2000 \<Longrightarrow> unat (of_int k :: u64) = nat k"
  by (simp add: unat_eq_nat_uint uint_word_of_int_eq take_bit_int_eq_self)

lemma append_bytes_ok:
  assumes "term_ok t" "length bs \<le> 128" "128 \<le> tm_w t * tm_h t" "8 \<notin> set bs"
  shows "\<exists>t'. append_bytes t bs = Some t' \<and> term_ok t' \<and> tm_w t' = tm_w t \<and> tm_h t' = tm_h t"
proof -
  have wh: "tm_w t * tm_h t \<le> 2000" "int (unat (lastPos t)) \<le> tm_w t * tm_h t" "length (bytes t) = 2000"
    "8 \<notin> set (bytes t)" using assms(1) by (simp_all add: term_ok_def)
  have un: "unat (of_nat (length bs) :: u64) = length bs"
    using assms(2) by (simp add: unsigned_of_nat take_bit_nat_eq_self)
  have "unat (lastPos t) \<le> 2000" using wh(1,2) by linarith
  then have lp: "unat (lastPos t + of_nat (length bs)) = unat (lastPos t) + length bs"
    using assms(2) un by (subst unat_plus_no_wrap) simp_all
  have w64: "unat (of_int (tm_w t * tm_h t) :: u64) = nat (tm_w t * tm_h t)"
    by (rule unat_of_int_small) (use wh(1) assms(3) in linarith)+
  define p where "p = (if lastPos t + of_nat (length bs) > of_int (tm_w t * tm_h t) then 0 else lastPos t)"
  have p: "unat p + length bs \<le> nat (tm_w t * tm_h t)"
    using assms(2,3) wh lp w64 by (auto simp: p_def word_less_nat_alt)
  let ?b = "take (unat p) (bytes t) @ bs @ drop (unat p + length bs) (bytes t)"
  have p2: "unat p + length bs \<le> 2000" using p wh(1) by linarith
  have b: "length ?b = 2000" "8 \<notin> set ?b"
    using p2 wh(3,4) assms(4) by (auto dest: in_set_takeD in_set_dropD)
  define q where "q = (if lastPos t + of_nat (length bs) > of_int (tm_w t * tm_h t) then 0
     else lastPos t + of_nat (length bs))"
  have "unat q \<le> nat (tm_w t * tm_h t)" using lp w64 by (auto simp: q_def word_less_nat_alt)
  then have q: "int (unat q) \<le> tm_w t * tm_h t" using assms(3) by linarith
  have "append_bytes t bs = Some (t\<lparr>bytes := ?b, lastPos := q\<rparr>)"
    using p2 by (auto simp: append_bytes_def Let_def p_def q_def)
  moreover have "term_ok (t\<lparr>bytes := ?b, lastPos := q\<rparr>)"
    using assms(1) b(1,2) q by (simp add: term_ok_def)
  ultimately show ?thesis by (intro exI [of _ "t\<lparr>bytes := ?b, lastPos := q\<rparr>"]) simp
qed

lemma vp_len_total:
  "i + n \<le> length src \<or> (\<exists>k < length src. i \<le> k \<and> src ! k = 0) \<Longrightarrow>
    \<exists>l. vp_len n src i = Some l \<and> l \<le> i + n"
proof (induction n arbitrary: i)
  case (Suc n)
  then have i: "i < length src" by auto
  show ?case
  proof (cases "src ! i = 0")
    case True then show ?thesis using i by (simp add: buf_get_def)
  next
    case False
    have "Suc i + n \<le> length src \<or> (\<exists>k < length src. Suc i \<le> k \<and> src ! k = 0)"
      using Suc.prems False by (metis Suc_leI add_Suc_shift le_eq_less_or_eq)
    then show ?thesis using Suc.IH [of "Suc i"] i False by (auto simp: buf_get_def)
  qed
qed simp


text \<open>The terminals as \<open>initVirtualTerminals\<close> sets them up.\<close>

definition sample_tty :: tty where
  "sample_tty = initVirtualTerminals False 0
     \<lparr>terminals = [], scr = blank_screen, screenOwner = 0, TTY = True\<rparr>"


end
