(* ===== verification/Floppy.thy ===== *)
theory Floppy
  imports Address_Space Low_Level
begin

text \<open>
  The floppy driver \<open>Devices/Disk/Floppy.c\<close> and the ISA DMA set-up of \<open>Devices/ISA_DMA.h\<close> it
  uses. The controller is hardware: \<open>fdc_wait\<close> is a parameter, the machine's way from the
  moment a command has been sent to the interrupt of the controller, the transfer to or from
  the bounce buffer included. It has no result when the interrupt never comes.
\<close>

section \<open>ISA DMA\<close>

definition C1_START :: u16 where "C1_START = 0x02"
definition C1_START_UPPER :: u16 where "C1_START_UPPER = 0x83"
definition C1_COUNT :: u16 where "C1_COUNT = 0x03"
definition C2_START :: u16 where "C2_START = 0x04"
definition C2_START_UPPER :: u16 where "C2_START_UPPER = 0x81"
definition C2_COUNT :: u16 where "C2_COUNT = 0x05"
definition C3_START :: u16 where "C3_START = 0x06"
definition C3_START_UPPER :: u16 where "C3_START_UPPER = 0x82"
definition C3_COUNT :: u16 where "C3_COUNT = 0x07"
definition MODE_MASTER :: u16 where "MODE_MASTER = 0x0B"
definition FLIP_FLOP_MASTER :: u16 where "FLIP_FLOP_MASTER = 0x0C"
definition MASK_MASTER :: u16 where "MASK_MASTER = 0x0A"

lemmas dma_ports = C1_START_def C1_START_UPPER_def C1_COUNT_def C2_START_def C2_START_UPPER_def
  C2_COUNT_def C3_START_def C3_START_UPPER_def C3_COUNT_def MODE_MASTER_def FLIP_FLOP_MASTER_def
  MASK_MASTER_def

text \<open>The ports of a channel: start, upper start byte, count.\<close>

definition channel_ports :: "u8 \<Rightarrow> (u16 \<times> u16 \<times> u16) option" where
  "channel_ports ch =
     (if ch = 1 then Some (C1_START, C1_START_UPPER, C1_COUNT)
      else if ch = 2 then Some (C2_START, C2_START_UPPER, C2_COUNT)
      else if ch = 3 then Some (C3_START, C3_START_UPPER, C3_COUNT)
      else None)"

definition reset_flipflop :: "kst \<Rightarrow> kst" where
  "reset_flipflop s = outb s FLIP_FLOP_MASTER 0"

text \<open>The start address and the count, each preceded by a reset of the flip-flop.\<close>

definition dma_address :: "kst \<Rightarrow> u16 \<times> u16 \<times> u16 \<Rightarrow> u32 \<Rightarrow> u32 \<Rightarrow> kst" where
  "dma_address s ps Buffer Count =
     (let (low, high, count_p) = ps;
          s = reset_flipflop s;
          s = outb s low (ucast Buffer);
          s = outb s low (ucast (drop_bit 8 Buffer));
          s = reset_flipflop s;
          s = outb s count_p (ucast Count);
          s = outb s count_p (ucast (drop_bit 8 Count))
      in outb s high (ucast (drop_bit 16 Buffer)))"

definition dma_mode :: "u8 \<Rightarrow> u8 \<Rightarrow> bool \<Rightarrow> u8 \<Rightarrow> u8" where
  "dma_mode ch dir Auto Mode =
     ch OR push_bit 2 dir OR push_bit 4 (if Auto then 1 else 0) OR push_bit 6 Mode"

definition ISA_DMA_Transfer_To :: "kst \<Rightarrow> u8 \<Rightarrow> u32 \<Rightarrow> u32 \<Rightarrow> bool \<Rightarrow> u8 \<Rightarrow> nat \<times> kst" where
  "ISA_DMA_Transfer_To s Channel Buffer Count Auto Mode =
     (let Count = Count - 1 in
      if Channel = 0 \<or> Channel = 4 then (1, s)
      else case channel_ports Channel of
          None \<Rightarrow> (0, s)
        | Some ps \<Rightarrow>
            let s = reset_flipflop s;
                s = outb s MASK_MASTER (0b100 OR Channel);
                s = dma_address s ps Buffer Count;
                s = reset_flipflop s;
                s = outb s MODE_MASTER (dma_mode Channel 0b01 Auto Mode);
                s = reset_flipflop s
            in (0, outb s MASK_MASTER Channel))"

definition ISA_DMA_Transfer_From :: "kst \<Rightarrow> u8 \<Rightarrow> u32 \<Rightarrow> u32 \<Rightarrow> bool \<Rightarrow> u8 \<Rightarrow> nat \<times> kst" where
  "ISA_DMA_Transfer_From s Channel Buffer Count Auto Mode =
     (let Count = Count - 1 in
      if Channel = 0 \<or> Channel = 4 then (1, s)
      else case channel_ports Channel of
          None \<Rightarrow> (0, s)
        | Some ps \<Rightarrow>
            let s = outb s MASK_MASTER (0b100 OR Channel);
                s = dma_address s ps Buffer Count;
                s = (if Channel = 2 then s else reset_flipflop s);
                s = outb s MODE_MASTER (dma_mode Channel 0b10 Auto Mode);
                s = (if Channel = 1 then s else reset_flipflop s)
            in (0, outb s MASK_MASTER Channel))"

section \<open>The driver\<close>

record floppy_info =
  drive_count :: u8
  cylinder_max :: u16
  head_max :: u8
  sector_max :: u8
  head_count :: u8

record CHS =
  Cylinder :: u16
  Head :: u16
  Sector :: u16

text \<open>The globals of the driver, the address of its bounce buffer and the hardware.\<close>

record floppy =
  FLOPPY_FDC_Present :: bool
  FLOPPY_Main_Info :: floppy_info
  floppy_result_ready :: bool
  FLOPPY_BOUNCE_BUFFER :: u64
  fdc_wait :: "kst \<Rightarrow> kst option"

definition DIGITAL_OUTPUT_REGISTER :: u16 where "DIGITAL_OUTPUT_REGISTER = 0x3F2"
definition MAIN_STATUS_REGISTER :: u16 where "MAIN_STATUS_REGISTER = 0x3F4"
definition DATA_FIFO :: u16 where "DATA_FIFO = 0x3F5"
definition FLOPPY_CMD_VERSION :: u8 where "FLOPPY_CMD_VERSION = 0x10"
definition FLOPPY_CMD_CONFIGURE :: u8 where "FLOPPY_CMD_CONFIGURE = 0x13"
definition FLOPPY_CMD_READ :: u8 where "FLOPPY_CMD_READ = 0xE6"
definition FLOPPY_CMD_WRITE :: u8 where "FLOPPY_CMD_WRITE = 0xC5"

definition FLOPPY_Check_FDC :: "kst \<Rightarrow> floppy \<Rightarrow> kst \<times> floppy" where
  "FLOPPY_Check_FDC s f = (let (v, s) = inb s MAIN_STATUS_REGISTER in (s, f\<lparr>FLOPPY_FDC_Present := v \<noteq> 0\<rparr>))"

definition FLOPPY_Send_FIFO :: "kst \<Rightarrow> u8 \<Rightarrow> kst" where
  "FLOPPY_Send_FIFO s Byte = outb s DATA_FIFO Byte"

definition FLOPPY_Terminated :: "kst \<Rightarrow> bool \<times> kst" where
  "FLOPPY_Terminated s = (let (v, s) = inb s MAIN_STATUS_REGISTER in (bit v 4 \<and> \<not> bit v 6, s))"

text \<open>\<open>FLOPPY_Read_Result_Bytes\<close>: the bytes go to \<open>Results[i]\<close> on; an element the code never
  assigned is \<open>None\<close>.\<close>

primrec read_results :: "nat \<Rightarrow> nat \<Rightarrow> kst \<Rightarrow> u8 option list \<Rightarrow> bool \<times> u8 option list \<times> kst" where
  "read_results 0 i s buffer = (True, buffer, s)"
| "read_results (Suc n) i s buffer =
     (let (v, s) = inb s MAIN_STATUS_REGISTER
      in if bit v 7 \<and> bit v 6 then
           let (b, s) = inb s DATA_FIFO in read_results n (i + 1) s (buffer[i := Some b])
         else (False, buffer, s))"

definition FLOPPY_Read_Result_Bytes :: "u8 \<Rightarrow> kst \<Rightarrow> u8 option list \<Rightarrow> bool \<times> u8 option list \<times> kst" where
  "FLOPPY_Read_Result_Bytes count s buffer = read_results (unat count) 0 s buffer"

text \<open>
  The wait before each parameter byte. In C, \<open>!=\<close> and \<open>==\<close> bind tighter than \<open>&\<close>: the first
  operand reads the register and is 0, the second tests bit 0. Only a timer interrupt changes
  \<open>TimerWindow\<close>; none is taken here.
\<close>

partial_function (option) send_wait :: "kst \<Rightarrow> u64 \<Rightarrow> kst option" where
  "send_wait s Timestamp =
     (let (a, s) = inb s MAIN_STATUS_REGISTER; (b, s) = inb s MAIN_STATUS_REGISTER
      in if b AND 1 \<noteq> 0 \<and> Timestamp - TimerWindow s < 1000 then send_wait s Timestamp else Some s)"

primrec send_parameters :: "u8 list \<Rightarrow> kst \<Rightarrow> kst option" where
  "send_parameters [] s = Some s"
| "send_parameters (p # ps) s = do {
     s \<leftarrow> send_wait s (TimerWindow s);
     send_parameters ps (FLOPPY_Send_FIFO s p) }"

definition FLOPPY_Send_Command :: "kst \<Rightarrow> u8 \<Rightarrow> u8 list \<Rightarrow> kst option" where
  "FLOPPY_Send_Command s Command_Byte Parameter_Bytes =
     send_parameters Parameter_Bytes (FLOPPY_Send_FIFO s Command_Byte)"

definition FLOPPY_Can_Send_FIFO :: "kst \<Rightarrow> u8 \<Rightarrow> bool \<times> kst" where
  "FLOPPY_Can_Send_FIFO s Drive =
     (let (v, s) = inb s MAIN_STATUS_REGISTER in (bit v 7 \<and> \<not> bit v (unat Drive) \<and> \<not> bit v 6, s))"

definition FLOPPY_Set_Drive :: "kst \<Rightarrow> u8 \<Rightarrow> kst" where
  "FLOPPY_Set_Drive s Drive =
     (let (v, s) = inb s DIGITAL_OUTPUT_REGISTER
      in outb s DIGITAL_OUTPUT_REGISTER ((v AND NOT 3) OR (Drive AND 3)))"

definition FLOPPY_IRQ :: "kst \<Rightarrow> floppy \<Rightarrow> kst \<times> floppy" where
  "FLOPPY_IRQ s f = (pic_send_eoi s 0x06, f\<lparr>floppy_result_ready := True\<rparr>)"

text \<open>The address 0x7DB8 of the geometry the boot sector leaves is in the upper half.\<close>

definition FLOPPY_INFO_STRUCT_ADDRESS :: u64 where
  "FLOPPY_INFO_STRUCT_ADDRESS = 0x7DB8 + 0xFFFF800000000000"

definition read_floppy_info :: "kst \<Rightarrow> floppy_info option" where
  "read_floppy_info s = do {
     d \<leftarrow> vread8 s FLOPPY_INFO_STRUCT_ADDRESS;
     c0 \<leftarrow> vread8 s (FLOPPY_INFO_STRUCT_ADDRESS + 1);
     c1 \<leftarrow> vread8 s (FLOPPY_INFO_STRUCT_ADDRESS + 2);
     h \<leftarrow> vread8 s (FLOPPY_INFO_STRUCT_ADDRESS + 3);
     se \<leftarrow> vread8 s (FLOPPY_INFO_STRUCT_ADDRESS + 4);
     hc \<leftarrow> vread8 s (FLOPPY_INFO_STRUCT_ADDRESS + 5);
     Some \<lparr>drive_count = d, cylinder_max = push_bit 8 (ucast c1) OR ucast c0, head_max = h,
       sector_max = se, head_count = hc\<rparr> }"

definition FLOPPY_Init_Drive :: "kst \<Rightarrow> floppy \<Rightarrow> u8 \<Rightarrow> (u8 \<times> kst \<times> floppy) option" where
  "FLOPPY_Init_Drive s f drive_number = do {
     let drive_number = drive_number mod 4;
     let motor_bit = push_bit (4 + unat drive_number) 1;
     let (state, s) = inb s DIGITAL_OUTPUT_REGISTER;
     let s = outb s DIGITAL_OUTPUT_REGISTER (state OR motor_bit);
     let (state, s) = inb s DIGITAL_OUTPUT_REGISTER;
     if state AND motor_bit = 0 then
       Some (0, say s (Print_error_snapshot ''Couldn't enable Motor''), f)
     else do {
       info \<leftarrow> read_floppy_info s;
       Some (state AND motor_bit, say s (Print_success_snapshot ''SUCCESS''), f\<lparr>FLOPPY_Main_Info := info\<rparr>) } }"

text \<open>The product in the first line is an \<open>int\<close>; a division by zero is undefined.\<close>

definition FLOPPY_LBA_To_CHS :: "floppy \<Rightarrow> u64 \<Rightarrow> CHS option" where
  "FLOPPY_LBA_To_CHS f LBA =
     (let heads = ucast (head_count (FLOPPY_Main_Info f)); sectors = ucast (sector_max (FLOPPY_Main_Info f))
      in if heads * sectors = 0 then None
         else Some \<lparr>Cylinder = ucast (LBA div (heads * sectors)),
                Head = ucast ((LBA div sectors) mod heads),
                Sector = ucast (LBA mod sectors + 1)\<rparr>)"

definition FLOPPY_Configure :: "kst \<Rightarrow> u8 \<Rightarrow> bool \<Rightarrow> bool \<Rightarrow> bool \<Rightarrow> kst option" where
  "FLOPPY_Configure s Drive Use_Implied_Seek Disable_FIFO Disable_PIO =
     (let s = FLOPPY_Set_Drive s Drive;
          to_send = push_bit 6 (of_bool Use_Implied_Seek) OR push_bit 5 (of_bool Disable_FIFO) OR
            push_bit 4 (of_bool Disable_PIO) OR 7
      in FLOPPY_Send_Command s FLOPPY_CMD_CONFIGURE [0, to_send, 0])"

definition FLOPPY_Get_Version :: "kst \<Rightarrow> u8 \<Rightarrow> (u8 \<times> kst) option" where
  "FLOPPY_Get_Version s Drive = do {
     let s = FLOPPY_Set_Drive s Drive;
     s \<leftarrow> FLOPPY_Send_Command s FLOPPY_CMD_VERSION [];
     let (ok, r, s) = FLOPPY_Read_Result_Bytes 1 s [None];
     v \<leftarrow> r ! 0;
     Some (v, s) }"

section \<open>Reading and writing sectors\<close>

text \<open>A command with its parameters, the wait for the interrupt, and the seven result bytes.\<close>

definition fdc_command ::
  "kst \<Rightarrow> floppy \<Rightarrow> u8 \<Rightarrow> u8 list \<Rightarrow> u8 option list \<Rightarrow> (u8 option list \<times> kst \<times> floppy) option" where
  "fdc_command s f cmd params results = do {
     let f = f\<lparr>floppy_result_ready := False\<rparr>;
     s \<leftarrow> FLOPPY_Send_Command s cmd params;
     s \<leftarrow> fdc_wait f s;
     let (s, f) = FLOPPY_IRQ s f;
     let (ok, results, s) = FLOPPY_Read_Result_Bytes 7 s results;
     Some (results, s, f) }"

text \<open>The error check on the second result byte: the code returned, if it is an error.\<close>

definition check_results :: "u8 option list \<Rightarrow> kst \<Rightarrow> (u8 option \<times> kst) option" where
  "check_results results s = do {
     st1 \<leftarrow> results ! 1;
     if st1 AND 0x80 \<noteq> 0 then
       Some (Some st1, say s (Print_error ''FLOPPY READ ERROR: NOT ENOUGH SECTORS (0x80)''))
     else if st1 AND 0x40 \<noteq> 0 then
       Some (Some st1, say s (Print_error ''FLOPPY READ ERROR: DRIVER TOO SLOW (0x40)''))
     else if st1 AND 2 \<noteq> 0 then
       Some (Some st1, say s (Print_error ''FLOPPY READ ERROR: DRIVE IS WRITE PROTECTED (0x02)''))
     else Some (None, s) }"

definition chs_parameters :: "floppy \<Rightarrow> u8 \<Rightarrow> u8 \<Rightarrow> u8 \<Rightarrow> u8 \<Rightarrow> u8 list" where
  "chs_parameters f Drive Cyl Hd Sec =
     [push_bit 2 Hd OR Drive, Cyl, Hd, Sec, 2, sector_max (FLOPPY_Main_Info f), 0x1b, 0xff]"

text \<open>One transfer of a read: the DMA controller is set up for the physical address \<open>dma\<close>, and
  \<open>n\<close> bytes go from the bounce buffer to the caller's.\<close>

definition read_chunk ::
  "kst \<Rightarrow> floppy \<Rightarrow> u8 list \<Rightarrow> u8 option list \<Rightarrow> u32 \<Rightarrow> u32 \<Rightarrow> u64 \<Rightarrow> u64 \<Rightarrow>
     (u8 option \<times> u8 option list \<times> kst \<times> floppy) option" where
  "read_chunk s f params results dma count BufferAddress n = do {
     let (r, s) = ISA_DMA_Transfer_To s 2 dma count True 0b01;
     (results, s, f) \<leftarrow> fdc_command s f FLOPPY_CMD_READ params results;
     (err, s) \<leftarrow> check_results results s;
     if err \<noteq> None then Some (err, results, s, f)
     else do { s \<leftarrow> memcpy s BufferAddress (FLOPPY_BOUNCE_BUFFER f) n; Some (None, results, s, f) } }"

primrec read_chunks ::
  "nat \<Rightarrow> kst \<Rightarrow> floppy \<Rightarrow> u8 list \<Rightarrow> u8 option list \<Rightarrow> u64 \<Rightarrow> u64 \<Rightarrow>
     (u8 option \<times> u8 option list \<times> kst \<times> floppy) option" where
  "read_chunks 0 s f params results transfer_count BufferAddress = Some (None, results, s, f)"
| "read_chunks (Suc n) s f params results transfer_count BufferAddress = do {
     (pa, s) \<leftarrow> phys_addr s (FLOPPY_BOUNCE_BUFFER f);
     (err, results, s, f) \<leftarrow> read_chunk s f params results (ucast pa)
       (ucast (transfer_count mod 0x10000 - 1)) BufferAddress 0x10000;
     if err \<noteq> None then Some (err, results, s, f)
     else read_chunks n s f params results transfer_count BufferAddress }"

text \<open>The value returned is 0 or the error byte.\<close>

definition FLOPPY_Read_CHS ::
  "kst \<Rightarrow> floppy \<Rightarrow> u8 \<Rightarrow> u8 \<Rightarrow> u8 \<Rightarrow> u8 \<Rightarrow> u64 \<Rightarrow> u16 \<Rightarrow> (u8 \<times> kst \<times> floppy) option" where
  "FLOPPY_Read_CHS s f Drive Cyl Hd Sec BufferAddress SectorCount = do {
     s \<leftarrow> memset s (FLOPPY_BOUNCE_BUFFER f) 0 0x10000;
     let transfer_count = (ucast SectorCount * 512 :: u64);
     let s = FLOPPY_Set_Drive s Drive;
     let params = chs_parameters f Drive Cyl Hd Sec;
     let results = replicate 8 None;
     if transfer_count > 0x10000 then do {
       (err, results, s, f) \<leftarrow> read_chunks (unat (transfer_count div 0x10000)) s f params results
          transfer_count BufferAddress;
       case err of Some e \<Rightarrow> Some (e, s, f)
       | None \<Rightarrow>
         if transfer_count mod 0x10000 > 1 then do {
           (err, results, s, f) \<leftarrow> read_chunk s f params results (ucast (FLOPPY_BOUNCE_BUFFER f))
             (ucast (transfer_count mod 0x10000 - 1)) BufferAddress (transfer_count mod 0x10000);
           Some (case err of Some e \<Rightarrow> e | None \<Rightarrow> 0, s, f) }
         else Some (0, s, f) }
     else do {
       (err, results, s, f) \<leftarrow> read_chunk s f params results (ucast (FLOPPY_BOUNCE_BUFFER f))
         (ucast (transfer_count - 1)) BufferAddress transfer_count;
       Some (case err of Some e \<Rightarrow> e | None \<Rightarrow> 0, s, f) } }"

definition write_chunk ::
  "kst \<Rightarrow> floppy \<Rightarrow> u8 list \<Rightarrow> u8 option list \<Rightarrow> u32 \<Rightarrow> bool \<Rightarrow> u64 \<Rightarrow> u64 \<Rightarrow>
     (u8 option \<times> u8 option list \<times> kst \<times> floppy) option" where
  "write_chunk s f params results count Auto BufferAddress n = do {
     s \<leftarrow> memcpy s (FLOPPY_BOUNCE_BUFFER f) BufferAddress n;
     (pa, s) \<leftarrow> phys_addr s (FLOPPY_BOUNCE_BUFFER f);
     let (r, s) = ISA_DMA_Transfer_From s 2 (ucast pa) count Auto 0b01;
     (results, s, f) \<leftarrow> fdc_command s f FLOPPY_CMD_WRITE params results;
     (err, s) \<leftarrow> check_results results s;
     Some (err, results, s, f) }"

primrec write_chunks ::
  "nat \<Rightarrow> kst \<Rightarrow> floppy \<Rightarrow> u8 list \<Rightarrow> u8 option list \<Rightarrow> u64 \<Rightarrow> u64 \<Rightarrow>
     (u8 option \<times> u8 option list \<times> kst \<times> floppy) option" where
  "write_chunks 0 s f params results transfer_count BufferAddress = Some (None, results, s, f)"
| "write_chunks (Suc n) s f params results transfer_count BufferAddress = do {
     (err, results, s, f) \<leftarrow> write_chunk s f params results (ucast (transfer_count mod 0x10000)) True
       BufferAddress 0x10000;
     if err \<noteq> None then Some (err, results, s, f)
     else write_chunks n s f params results transfer_count BufferAddress }"

definition FLOPPY_Write_CHS ::
  "kst \<Rightarrow> floppy \<Rightarrow> u8 \<Rightarrow> u8 \<Rightarrow> u8 \<Rightarrow> u8 \<Rightarrow> u64 \<Rightarrow> u16 \<Rightarrow> (u8 \<times> kst \<times> floppy) option" where
  "FLOPPY_Write_CHS s f Drive Cyl Hd Sec BufferAddress SectorCount = do {
     s \<leftarrow> memset s (FLOPPY_BOUNCE_BUFFER f) 0 0x10000;
     let transfer_count = (ucast SectorCount * 512 :: u64);
     let s = FLOPPY_Set_Drive s Drive;
     let params = chs_parameters f Drive Cyl Hd Sec;
     let results = replicate 8 None;
     if transfer_count > 0x10000 then do {
       (err, results, s, f) \<leftarrow> write_chunks (unat (transfer_count div 0x10000)) s f params results
          transfer_count BufferAddress;
       case err of Some e \<Rightarrow> Some (e, s, f)
       | None \<Rightarrow>
         if transfer_count mod 0x10000 > 1 then do {
           (err, results, s, f) \<leftarrow> write_chunk s f params results (ucast (transfer_count mod 0x10000)) True
             BufferAddress (transfer_count mod 0x10000);
           Some (case err of Some e \<Rightarrow> e | None \<Rightarrow> 0, s, f) }
         else Some (0, s, f) }
     else do {
       (err, results, s, f) \<leftarrow> write_chunk s f params results (ucast transfer_count) False
         BufferAddress transfer_count;
       Some (case err of Some e \<Rightarrow> e | None \<Rightarrow> 0, s, f) } }"

text \<open>The cylinder, head and sector are passed as bytes.\<close>

definition FLOPPY_Read_LBA :: "kst \<Rightarrow> floppy \<Rightarrow> u8 \<Rightarrow> u64 \<Rightarrow> u64 \<Rightarrow> u16 \<Rightarrow> (u8 \<times> kst \<times> floppy) option" where
  "FLOPPY_Read_LBA s f Drive LBA BufferAddress SectorCount = do {
     c \<leftarrow> FLOPPY_LBA_To_CHS f LBA;
     FLOPPY_Read_CHS s f Drive (ucast (Cylinder c)) (ucast (Head c)) (ucast (Sector c)) BufferAddress SectorCount }"

definition FLOPPY_Write_LBA :: "kst \<Rightarrow> floppy \<Rightarrow> u8 \<Rightarrow> u64 \<Rightarrow> u64 \<Rightarrow> u16 \<Rightarrow> (u8 \<times> kst \<times> floppy) option" where
  "FLOPPY_Write_LBA s f Drive LBA BufferAddress SectorCount = do {
     c \<leftarrow> FLOPPY_LBA_To_CHS f LBA;
     FLOPPY_Write_CHS s f Drive (ucast (Cylinder c)) (ucast (Head c)) (ucast (Sector c)) BufferAddress SectorCount }"

section \<open>The DMA controller\<close>

text \<open>
  The second channel of the 8237 controller, as its data sheet describes it: the 16 bit start
  and count registers are written low byte first, the flip-flop says which byte is next, and
  a channel that counts down from \<open>n\<close> transfers \<open>n + 1\<close> bytes.
\<close>

record dma =
  flipflop :: bool
  dma_start :: u16
  dma_count :: u16
  dma_page :: u8
  dma_mode2 :: u8
  dma_masked :: bool

definition put_byte :: "bool \<Rightarrow> u8 \<Rightarrow> u16 \<Rightarrow> u16" where
  "put_byte high v w = (if high then (w AND 0xFF) OR push_bit 8 (ucast v) else (w AND 0xFF00) OR ucast v)"

primrec dma_step :: "port_access \<Rightarrow> dma \<Rightarrow> dma" where
  "dma_step (Out8 p v) d =
     (if p = 0x0C then d\<lparr>flipflop := False\<rparr>
      else if p = 0x04 then d\<lparr>dma_start := put_byte (flipflop d) v (dma_start d), flipflop := \<not> flipflop d\<rparr>
      else if p = 0x05 then d\<lparr>dma_count := put_byte (flipflop d) v (dma_count d), flipflop := \<not> flipflop d\<rparr>
      else if p = 0x81 then d\<lparr>dma_page := v\<rparr>
      else if p = 0x0B \<and> v AND 3 = 2 then d\<lparr>dma_mode2 := v\<rparr>
      else if p = 0x0A \<and> v AND 3 = 2 then d\<lparr>dma_masked := bit v 2\<rparr>
      else if p < 0x08 then d\<lparr>flipflop := \<not> flipflop d\<rparr>
      else d)"
| "dma_step (Out16 p v) d = d"
| "dma_step (Out32 p v) d = d"
| "dma_step (In8 p) d = (if p < 0x08 then d\<lparr>flipflop := \<not> flipflop d\<rparr> else d)"
| "dma_step (In32 p) d = d"

text \<open>The controller after the accesses of a trace, the oldest of which is last in the list.\<close>

definition dma_after :: "port_access list \<Rightarrow> dma \<Rightarrow> dma" where
  "dma_after ps d = foldr dma_step ps d"

definition dma_bytes :: "dma \<Rightarrow> nat" where
  "dma_bytes d = unat (dma_count d) + 1"

definition dma_address24 :: "dma \<Rightarrow> u32" where
  "dma_address24 d = push_bit 16 (ucast (dma_page d)) OR ucast (dma_start d)"

lemma mask16_bits: "bit (0xFF :: u16) n \<longleftrightarrow> n < 8" "bit (0xFF00 :: u16) n \<longleftrightarrow> 8 \<le> n \<and> n < 16"
proof -
  have l: "(0xFF :: u16) = mask 8" by (simp add: mask_eq_exp_minus_1)
  show "bit (0xFF :: u16) n \<longleftrightarrow> n < 8" unfolding l by (auto simp: bit_simps)
  have h: "(0xFF00 :: u16) = push_bit 8 (mask 8)" by (simp add: mask_eq_exp_minus_1 push_bit_eq_mult)
  show "bit (0xFF00 :: u16) n \<longleftrightarrow> 8 \<le> n \<and> n < 16" unfolding h by (auto simp: bit_simps)
qed

lemma put_bytes:
  "put_byte True (ucast (drop_bit 8 B)) (put_byte False (ucast (B :: u32)) w) = (ucast B :: u16)"
  unfolding put_byte_def if_True if_False
proof (rule bit_word_eqI)
  fix n assume "n < LENGTH(16)"
  then have "n < 8 \<or> (8 \<le> n \<and> n < 16)" by auto
  then show "bit ((w AND 0xFF00 OR ucast (ucast B :: u8)) AND 0xFF OR
      push_bit 8 (ucast (ucast (drop_bit 8 B) :: u8)) :: u16) n = bit (ucast B :: u16) n"
    by (elim disjE) (auto simp: bit_simps mask16_bits dest: bit_imp_le_length)
qed

lemma dma_mode_channel: "Mode < 4 \<Longrightarrow> dir < 4 \<Longrightarrow> dma_mode 2 dir Auto Mode AND 3 = 2"
proof -
  have m: "(3 :: u8) = mask 2" by (simp add: mask_eq_exp_minus_1)
  have two: "bit (2 :: u8) n \<longleftrightarrow> n = 1" for n using bit_exp_iff [of 1 n, where ?'a = u8] by auto
  show ?thesis
    unfolding dma_mode_def m
    by (rule bit_word_eqI) (auto simp: bit_simps two)
qed

lemmas dma_simps = dma_after_def dma_address_def reset_flipflop_def outb_def dma_ports channel_ports_def Let_def

lemma dma_programmed:
  "dma_after (ports (snd (ISA_DMA_Transfer_To s 2 B C Auto 1))) d =
      \<lparr>flipflop = False, dma_start = ucast B, dma_count = ucast (C - 1), dma_page = ucast (drop_bit 16 B),
       dma_mode2 = dma_mode 2 0b01 Auto 1, dma_masked = False\<rparr>"
  "dma_after (ports (snd (ISA_DMA_Transfer_From s 2 B C Auto 1))) d =
      \<lparr>flipflop = False, dma_start = ucast B, dma_count = ucast (C - 1), dma_page = ucast (drop_bit 16 B),
       dma_mode2 = dma_mode 2 0b10 Auto 1, dma_masked = False\<rparr>"
  using dma_mode_channel [of 1 1 Auto] dma_mode_channel [of 1 2 Auto]
  by (simp_all add: ISA_DMA_Transfer_To_def ISA_DMA_Transfer_From_def dma_simps put_bytes bit_numeral_word_iff)

lemma dma_start_count:
  assumes "B < 0x1000000" "1 < C" "C \<le> 0x10000"
  shows "push_bit 16 (ucast (ucast (drop_bit 16 B) :: u8)) OR ucast (ucast B :: u16) = (B :: u32)"
    and "unat (ucast (C - 1 :: u32) :: u16) + 1 = unat C"
proof -
  have hi: "n < 24" if "bit B n" for n
  proof (rule ccontr)
    assume n: "\<not> n < 24"
    have "B = take_bit 24 B"
      using assms(1) by (simp add: take_bit_eq_mod word_unat_eq_iff unat_mod word_less_nat_alt)
    then show False using that n by (metis bit_take_bit_iff)
  qed
  show "push_bit 16 (ucast (ucast (drop_bit 16 B) :: u8)) OR ucast (ucast B :: u16) = B"
  proof (rule bit_word_eqI)
    fix n assume "n < LENGTH(32)"
    then show "bit (push_bit 16 (ucast (ucast (drop_bit 16 B) :: u8)) OR ucast (ucast B :: u16) :: u32) n = bit B n"
      using hi [of n] by (cases "n < 16") (auto simp: bit_simps)
  qed
  have "unat (C - 1) = unat C - 1" using assms(2) by (simp add: unat_sub word_less_nat_alt word_le_nat_alt)
  then show "unat (ucast (C - 1) :: u16) + 1 = unat C"
    using assms(2,3) by (simp add: unsigned_ucast_eq take_bit_nat_eq_self word_less_nat_alt word_le_nat_alt)
qed

text \<open>Both set-up functions leave channel 2 of the DMA controller unmasked and at rest with
  the 24 bit buffer address they were given, whatever its state before, set up to transfer as
  many bytes as \<open>Count\<close> says.\<close>

theorem ISA_DMA_programs_channel:
  assumes "B < 0x1000000" "1 < C" "C \<le> 0x10000"
  shows "let d1 = dma_after (ports (snd (ISA_DMA_Transfer_To s 2 B C Auto 1))) d;
             d2 = dma_after (ports (snd (ISA_DMA_Transfer_From s 2 B C Auto 1))) d
    in dma_address24 d1 = B \<and> dma_bytes d1 = unat C \<and> \<not> dma_masked d1 \<and> \<not> flipflop d1 \<and>
       drop_bit 2 (dma_mode2 d1) AND 3 = 1 \<and>
       dma_address24 d2 = B \<and> dma_bytes d2 = unat C \<and> \<not> dma_masked d2 \<and> \<not> flipflop d2 \<and>
       drop_bit 2 (dma_mode2 d2) AND 3 = 2"
  using dma_start_count [OF assms]
  by (cases Auto) (simp_all add: Let_def dma_programmed dma_address24_def dma_bytes_def dma_mode_def)

section \<open>The length of a transfer\<close>

lemma fdc_ports [simp]: "MAIN_STATUS_REGISTER = 0x3F4" "DATA_FIFO = 0x3F5"
  by (simp_all add: MAIN_STATUS_REGISTER_def DATA_FIFO_def)

lemma inb_dma [simp]: "inb s 0x3F4 = (v, s') \<Longrightarrow> dma_after (ports s') d = dma_after (ports s) d"
  by (auto simp: inb_def dma_after_def)

lemma send_wait_dma: "send_wait s T = Some s' \<Longrightarrow> dma_after (ports s') d = dma_after (ports s) d"
proof -
  assume "send_wait s T = Some s'"
  then show ?thesis
  proof (rule send_wait.raw_induct [where P = "\<lambda>s T s'. dma_after (ports s') d = dma_after (ports s) d", rotated], goal_cases)
    case (1 wait s T s')
    from 1(2) show ?case by (auto simp: Let_def inb_def dma_after_def split: if_splits dest!: 1(1))
  qed
qed

lemma Send_FIFO_dma [simp]: "dma_after (ports (FLOPPY_Send_FIFO s b)) d = dma_after (ports s) d"
  by (simp add: FLOPPY_Send_FIFO_def outb_def dma_after_def)

lemma send_parameters_dma:
  "send_parameters ps s = Some s' \<Longrightarrow> dma_after (ports s') d = dma_after (ports s) d"
  by (induction ps arbitrary: s) (auto simp: bind_eq_Some_conv dest!: send_wait_dma [of _ _ _ d])

lemma Send_Command_dma:
  "FLOPPY_Send_Command s c ps = Some s' \<Longrightarrow> dma_after (ports s') d = dma_after (ports s) d"
  unfolding FLOPPY_Send_Command_def by (drule send_parameters_dma [of _ _ _ d]) simp

text \<open>A device that behaves like another while the DMA channel is set up the way a command finds it
  cannot be told apart by the command.\<close>

abbreviation with_wait :: "floppy \<Rightarrow> (kst \<Rightarrow> kst option) \<Rightarrow> floppy" where
  "with_wait f w \<equiv> f\<lparr>fdc_wait := w\<rparr>"

lemma fdc_command_with_wait:
  assumes "\<And>s1. dma_after (ports s1) d = dma_after (ports s) d \<Longrightarrow> w s1 = fdc_wait f s1"
  shows "fdc_command s (with_wait f w) cmd ps rs =
    map_option (\<lambda>(r, s, f). (r, s, with_wait f w)) (fdc_command s f cmd ps rs)"
proof (cases "FLOPPY_Send_Command s cmd ps")
  case None then show ?thesis by (simp add: fdc_command_def)
next
  case (Some s1)
  then have "w s1 = fdc_wait f s1" by (intro assms Send_Command_dma)
  then show ?thesis using Some
    by (cases "fdc_wait f s1") (simp_all add: fdc_command_def FLOPPY_IRQ_def split: prod.split)
qed

lemma read_chunk_with_wait:
  assumes "\<And>s1. dma_bytes (dma_after (ports s1) d) = unat (ucast (count - 1) :: u16) + 1 \<Longrightarrow> w s1 = fdc_wait f s1"
  shows "read_chunk s (with_wait f w) ps rs a count buf n =
    map_option (\<lambda>(e, r, s, f). (e, r, s, with_wait f w)) (read_chunk s f ps rs a count buf n)"
proof -
  let ?s = "snd (ISA_DMA_Transfer_To s 2 a count True 1)"
  have bytes: "dma_bytes (dma_after (ports ?s) d) = unat (ucast (count - 1) :: u16) + 1"
    by (simp add: dma_programmed dma_bytes_def)
  have "fdc_command ?s (with_wait f w) FLOPPY_CMD_READ ps rs =
      map_option (\<lambda>(r, s, f). (r, s, with_wait f w)) (fdc_command ?s f FLOPPY_CMD_READ ps rs)"
    by (rule fdc_command_with_wait [where d = d]) (use bytes in \<open>auto intro!: assms\<close>)
  then show ?thesis
    by (cases "fdc_command ?s f FLOPPY_CMD_READ ps rs")
      (auto simp: read_chunk_def Let_def split: prod.split option.split bind_split)
qed


text \<open>\<open>FLOPPY_LBA_To_CHS\<close> is a bijection between the sectors of the disk and its addresses:
  heads and sectors are in range and the linear number can be computed back, as long as the
  cylinder fits 16 bits.\<close>

theorem FLOPPY_LBA_To_CHS_inverse:
  fixes f defines "H \<equiv> unat (head_count (FLOPPY_Main_Info f))" and "S \<equiv> unat (sector_max (FLOPPY_Main_Info f))"
  assumes "0 < H" "0 < S" "unat LBA < 65536 * (H * S)"
  shows "\<exists>c. FLOPPY_LBA_To_CHS f LBA = Some c \<and> unat (Head c) < H \<and>
    1 \<le> unat (Sector c) \<and> unat (Sector c) \<le> S \<and>
    (unat (Cylinder c) * H + unat (Head c)) * S + (unat (Sector c) - 1) = unat LBA"
proof -
  let ?h = "ucast (head_count (FLOPPY_Main_Info f)) :: u64" and ?s = "ucast (sector_max (FLOPPY_Main_Info f)) :: u64"
  have lim: "H < 256" "S < 256"
    using unsigned_less [of "head_count (FLOPPY_Main_Info f)"] unsigned_less [of "sector_max (FLOPPY_Main_Info f)"]
    by (simp_all add: H_def S_def)
  have u: "unat ?h = H" "unat ?s = S" using lim by (simp_all add: H_def S_def unsigned_ucast_eq take_bit_nat_eq_self)
  have "H * S < 256 * 256" using lim by (intro mult_strict_mono) simp_all
  then have hs: "unat (?h * ?s) = H * S" using u by (simp add: unat_word_ariths)
  have nz: "?h * ?s \<noteq> 0" using hs assms(3,4) by (auto simp: word_unat_eq_iff)
  have small: "unat (ucast (x :: u64) :: u16) = unat x" if "unat x < 65536" for x
    using that by (simp add: unsigned_ucast_eq take_bit_nat_eq_self)
  have cyl: "unat LBA div (H * S) < 65536" using assms(3-5) by (simp add: div_less_iff_less_mult)
  have hd: "unat LBA div S mod H < H" "unat LBA mod S < S" using assms(3,4) by simp_all
  let ?c = "\<lparr>Cylinder = ucast (LBA div (?h * ?s)), Head = ucast ((LBA div ?s) mod ?h), Sector = ucast (LBA mod ?s + 1)\<rparr>"
  have c: "unat (Cylinder ?c) = unat LBA div (H * S)" "unat (Head ?c) = unat LBA div S mod H"
    using cyl hd lim by (simp_all add: small unat_div unat_mod hs u)
  have "unat (LBA mod ?s) = unat LBA mod S" by (simp add: unat_mod u)
  then have m: "unat (LBA mod ?s + 1) = unat LBA mod S + 1"
    using hd(2) lim by (subst unat_plus_no_wrap) simp_all
  then have s: "unat (Sector ?c) = unat LBA mod S + 1" using hd(2) lim by (simp add: small)
  have "unat LBA div S = unat LBA div S div H * H + unat LBA div S mod H" by simp
  moreover have "unat LBA div S div H = unat LBA div (H * S)" by (metis div_mult2_eq mult.commute)
  ultimately have "(unat LBA div (H * S) * H + unat LBA div S mod H) * S + unat LBA mod S = unat LBA"
    by (metis div_mult_mod_eq)
  then show ?thesis
    using nz c s hd by (intro exI [of _ ?c]) (simp add: FLOPPY_LBA_To_CHS_def Let_def)
qed

section \<open>Witnesses\<close>

text \<open>A 1.44 MB disk; \<open>sample_floppy dev\<close> has the device \<open>dev\<close>.\<close>

definition sample_floppy :: "(kst \<Rightarrow> kst option) \<Rightarrow> floppy" where
  "sample_floppy dev = \<lparr>FLOPPY_FDC_Present = True, FLOPPY_Main_Info = \<lparr>drive_count = 1, cylinder_max = 79,
     head_max = 1, sector_max = 18, head_count = 2\<rparr>, floppy_result_ready = False,
     FLOPPY_BOUNCE_BUFFER = 0xffff800000010000, fdc_wait = dev\<rparr>"

text \<open>The controller after a reset.\<close>

definition reset_dma :: dma where
  "reset_dma = \<lparr>flipflop = False, dma_start = 0, dma_count = 0, dma_page = 0, dma_mode2 = 0, dma_masked = True\<rparr>"

theorem ISA_DMA_programs_channel_witness:
  "dma_bytes (dma_after (ports (snd (ISA_DMA_Transfer_From sample_kst 2 0x10000 0x200 True 1))) reset_dma) = 512"
  using ISA_DMA_programs_channel [of "0x10000" "0x200" sample_kst True reset_dma] by (simp add: Let_def)


theorem FLOPPY_LBA_To_CHS_inverse_witness:
  "\<exists>c. FLOPPY_LBA_To_CHS (sample_floppy Some) 2879 = Some c \<and>
    (unat (Cylinder c) * 2 + unat (Head c)) * 18 + (unat (Sector c) - 1) = 2879"
  using FLOPPY_LBA_To_CHS_inverse [of "sample_floppy Some" 2879] by (auto simp: sample_floppy_def)

end
