(* ===== verification/Gemfs_Disk.thy ===== *)
theory Gemfs_Disk
  imports Strings
begin

text \<open>
  The file system \<open>filesys/gemfs.c\<close>, first part: the structures on the disk and their bytes, the
  sectors under the file system, block addresses and the table of used blocks (the FBB).

  A drive is the map from its sectors to their bytes. A read of one to 128 sectors copies them
  into a buffer, unless the driver reports an error: then the buffer keeps its content, and
  the callers do not look at the error code. Longer transfers are the driver's business
  (theory Floppy) and have no result here, as has every access outside a buffer.
\<close>

section \<open>Structures\<close>

record mbr_partition =
  Status :: u8
  Reserved_0 :: u16
  Reserved_1 :: u8
  Part_Type :: u8
  Reserved_2 :: u16
  Reserved_3 :: u8
  LBA_Start :: u32
  Sector_Count :: u32

record gem_entry =
  e_Start :: u64
  e_Size :: u64
  e_Index :: u64
  e_Parent_Index :: u64
  e_Sibling_Index :: u64
  e_Next_Index_Start :: u64
  e_Flags :: u8
  e_ReadingMask :: u8
  e_Name :: "u8 list"

record gem_main =
  check :: "u8 list"
  Block_Size :: u16
  main_Entry :: gem_entry

record drive_data =
  DriveID :: nat
  PartitionTable :: "nat \<Rightarrow> mbr_partition"
  Main_Entries :: "nat \<Rightarrow> gem_main"

text \<open>
  The globals of gemfs.c, with the drives under it. \<open>stack_entry\<close> and \<open>stack_scan\<close> are what the
  local variables \<open>Entry\<close> of \<open>GemFS_CreateEntry\<close> and \<open>scan\<close> of \<open>GemFS_Directory_to_Index\<close>, which the
  code does not initialise, happen to hold. Indices past the arrays of drives and partitions
  stand for the memory past them.
\<close>

record gemfs =
  sectors :: "nat \<Rightarrow> u64 \<Rightarrow> nat \<Rightarrow> u8"
  broken :: "nat \<Rightarrow> u64 \<Rightarrow> bool"
  Drives :: "nat \<Rightarrow> drive_data"
  Entry_Buffer :: "u8 list"
  Enumeration_Buffer :: "u8 list"
  SectorBuffer :: "u8 list"
  FBB_Read :: "u8 list"
  FBB_Block :: "u8 list"
  GemFS_FBB_Size :: u64
  stack_entry :: gem_entry
  stack_scan :: "u8 list"
  messages :: "(string \<times> u64 list) list"

definition F0 :: nat where "F0 = 0"
definition H0 :: nat where "H0 = 4"

section \<open>Bytes\<close>

primrec le_bytes :: "nat \<Rightarrow> 'a::len word \<Rightarrow> u8 list" where
  "le_bytes 0 w = []"
| "le_bytes (Suc n) w = ucast w # le_bytes n (drop_bit 8 w)"

primrec le_word :: "u8 list \<Rightarrow> 'a::len word" where
  "le_word [] = 0"
| "le_word (b # bs) = push_bit 8 (le_word bs) OR ucast b"

definition field :: "nat \<Rightarrow> nat \<Rightarrow> u8 list \<Rightarrow> u8 list" where
  "field off n bs = take n (drop off bs)"

definition encode_entry :: "gem_entry \<Rightarrow> u8 list" where
  "encode_entry e = le_bytes 8 (e_Start e) @ le_bytes 8 (e_Size e) @ le_bytes 8 (e_Index e) @
     le_bytes 8 (e_Parent_Index e) @ le_bytes 8 (e_Sibling_Index e) @
     le_bytes 8 (e_Next_Index_Start e) @ [e_Flags e, e_ReadingMask e] @ e_Name e"

definition decode_entry :: "u8 list \<Rightarrow> gem_entry" where
  "decode_entry bs = \<lparr>e_Start = le_word (field 0 8 bs), e_Size = le_word (field 8 8 bs),
     e_Index = le_word (field 16 8 bs), e_Parent_Index = le_word (field 24 8 bs),
     e_Sibling_Index = le_word (field 32 8 bs), e_Next_Index_Start = le_word (field 40 8 bs),
     e_Flags = bs ! 48, e_ReadingMask = bs ! 49, e_Name = field 50 128 bs\<rparr>"

definition encode_main :: "gem_main \<Rightarrow> u8 list" where
  "encode_main m = check m @ le_bytes 2 (Block_Size m) @ encode_entry (main_Entry m)"

definition decode_main :: "u8 list \<Rightarrow> gem_main" where
  "decode_main bs = \<lparr>check = field 0 4 bs, Block_Size = le_word (field 4 2 bs),
     main_Entry = decode_entry (field 6 178 bs)\<rparr>"

definition decode_mbr :: "u8 list \<Rightarrow> mbr_partition" where
  "decode_mbr bs = \<lparr>Status = bs ! 0, Reserved_0 = le_word (field 1 2 bs), Reserved_1 = bs ! 3,
     Part_Type = bs ! 4, Reserved_2 = le_word (field 5 2 bs), Reserved_3 = bs ! 7,
     LBA_Start = le_word (field 8 4 bs), Sector_Count = le_word (field 12 4 bs)\<rparr>"

definition zero_entry :: gem_entry where
  "zero_entry = \<lparr>e_Start = 0, e_Size = 0, e_Index = 0, e_Parent_Index = 0, e_Sibling_Index = 0,
     e_Next_Index_Start = 0, e_Flags = 0, e_ReadingMask = 0, e_Name = replicate 128 0\<rparr>"

text \<open>\<open>memcpy\<close> of the whole of \<open>src\<close> to the start of a buffer.\<close>

definition blit :: "u8 list \<Rightarrow> u8 list \<Rightarrow> u8 list option" where
  "blit buf src = (if length src \<le> length buf then Some (src @ drop (length src) buf) else None)"

section \<open>Sectors\<close>

definition sector :: "gemfs \<Rightarrow> nat \<Rightarrow> u64 \<Rightarrow> u8 list" where
  "sector g D lba = map (sectors g D lba) [0..<512]"

definition any_broken :: "gemfs \<Rightarrow> nat \<Rightarrow> u64 \<Rightarrow> nat \<Rightarrow> bool" where
  "any_broken g D lba n = list_ex (\<lambda>k. broken g D (lba + of_nat k)) [0..<n]"

definition read_sectors :: "gemfs \<Rightarrow> nat \<Rightarrow> u64 \<Rightarrow> nat \<Rightarrow> u8 list \<Rightarrow> u8 list option" where
  "read_sectors g D lba n buf =
     (if 128 < n \<or> length buf < n * 512 then None
      else if any_broken g D lba n then Some buf
      else Some (concat (map (\<lambda>k. sector g D (lba + of_nat k)) [0..<n]) @ drop (n * 512) buf))"

definition write_sectors :: "gemfs \<Rightarrow> nat \<Rightarrow> u64 \<Rightarrow> nat \<Rightarrow> u8 list \<Rightarrow> gemfs option" where
  "write_sectors g D lba n buf =
     (if 128 < n \<or> length buf < n * 512 then None
      else if any_broken g D lba n then Some g
      else Some (g\<lparr>sectors := (sectors g)(D := \<lambda>x i.
             if x - lba < of_nat n \<and> i < 512 then buf ! (512 * unat (x - lba) + i) else sectors g D x i)\<rparr>))"

section \<open>Blocks\<close>

definition partition_of :: "gemfs \<Rightarrow> nat \<Rightarrow> nat \<Rightarrow> mbr_partition" where
  "partition_of g D P = PartitionTable (Drives g D) P"

definition main_of :: "gemfs \<Rightarrow> nat \<Rightarrow> nat \<Rightarrow> gem_main" where
  "main_of g D P = Main_Entries (Drives g D) P"

definition set_main :: "nat \<Rightarrow> nat \<Rightarrow> gem_main \<Rightarrow> gemfs \<Rightarrow> gemfs" where
  "set_main D P m g = g\<lparr>Drives := (Drives g)
     (D := (Drives g D)\<lparr>Main_Entries := (Main_Entries (Drives g D))(P := m)\<rparr>)\<rparr>"

definition GemFS_BlockToLBA :: "gemfs \<Rightarrow> nat \<Rightarrow> nat \<Rightarrow> u64 \<Rightarrow> u64" where
  "GemFS_BlockToLBA g D P Block =
     (let BS = Block_Size (main_of g D P); BS = (if BS = 0 then 1 else BS) in
      Block * ucast BS + ucast (LBA_Start (partition_of g D P)))"

definition GemFS_LBAToBlock :: "gemfs \<Rightarrow> nat \<Rightarrow> nat \<Rightarrow> u64 \<Rightarrow> u64" where
  "GemFS_LBAToBlock g D P LBA =
     (let BS = Block_Size (main_of g D P); BS = (if BS = 0 then 1 else BS) in
      (LBA - ucast (LBA_Start (partition_of g D P))) div ucast BS)"

definition GemFS_GetFBB :: "nat \<Rightarrow> nat \<Rightarrow> gemfs \<Rightarrow> gemfs option" where
  "GemFS_GetFBB D P g = do {
     buf \<leftarrow> read_sectors g D (GemFS_BlockToLBA g D P 2) 1 (FBB_Read g);
     Some (g\<lparr>FBB_Read := buf, GemFS_FBB_Size := le_word (take 8 buf)\<rparr>) }"

text \<open>A block size of zero makes the division fault.\<close>

definition GemFS_FBB_GetBlock :: "nat \<Rightarrow> nat \<Rightarrow> u64 \<Rightarrow> gemfs \<Rightarrow> (bool \<times> gemfs) option" where
  "GemFS_FBB_GetBlock D P Block g =
     (let BS = Block_Size (main_of g D P) in
      if BS = 0 then None
      else do {
        let t_block = Block div (ucast BS * 512);
        let t_offset = Block div ucast BS;
        let t_bit = Block mod 8;
        buf \<leftarrow> read_sectors g D (GemFS_BlockToLBA g D P (t_block + 4)) (unat BS) (FBB_Block g);
        b \<leftarrow> buf_get buf (unat t_offset);
        Some (drop_bit (unat t_bit) b AND 1 = 1, g\<lparr>FBB_Block := buf\<rparr>) })"

definition GemFS_FBB_SetBlock :: "nat \<Rightarrow> nat \<Rightarrow> u64 \<Rightarrow> gemfs \<Rightarrow> gemfs option" where
  "GemFS_FBB_SetBlock D P Block g =
     (let BS = Block_Size (main_of g D P) in
      if BS = 0 then None
      else do {
        let t_block = Block div (ucast BS * 512);
        let t_offset = Block div ucast BS;
        let t_bit = Block mod 8;
        buf \<leftarrow> read_sectors g D (GemFS_BlockToLBA g D P (t_block + 4)) (unat BS) (FBB_Block g);
        b \<leftarrow> buf_get buf (unat t_offset);
        buf \<leftarrow> buf_put buf (unat t_offset) (b OR push_bit (unat t_bit) 1);
        write_sectors (g\<lparr>FBB_Block := buf\<rparr>) D (GemFS_BlockToLBA g D P (t_block + 4)) (unat BS) buf })"

primrec find_free_block :: "nat \<Rightarrow> u64 \<Rightarrow> u64 \<Rightarrow> nat \<Rightarrow> nat \<Rightarrow> gemfs \<Rightarrow> (u64 \<times> gemfs) option" where
  "find_free_block 0 i limit D P g = Some (limit + 1, g)"
| "find_free_block (Suc n) i limit D P g = do {
     (used, g) \<leftarrow> GemFS_FBB_GetBlock D P i g;
     if \<not> used then Some (i, g) else find_free_block n (i + 1) limit D P g }"

definition GemFS_FindFreeBlock :: "nat \<Rightarrow> nat \<Rightarrow> gemfs \<Rightarrow> (u64 \<times> gemfs) option" where
  "GemFS_FindFreeBlock D P g =
     (let BS = Block_Size (main_of g D P) in
      if BS = 0 then None
      else find_free_block 0x200 0 (ucast (Sector_Count (partition_of g D P)) div ucast BS) D P g)"

end
