(* ===== verification/Gemfs_Entries.thy ===== *)
theory Gemfs_Entries
  imports Gemfs_Disk
begin

text \<open>
  The file system, second part: the entries of a partition. Entry 0 is in the main block, and
  every entry holds the block of the next one, so that the block of an entry is found by
  walking the chain; walking past the end creates the entries on the way.

  The four functions of gemfs.c call each other. They are one recursive function here, on the
  call made; a value of type \<open>gem_val\<close> is what the call returns. The loop of
  \<open>GemFS_GetEntryBlock\<close> is a call of its own.
\<close>

datatype gem_call =
    Get_Entry_Block u64
  | Walk u64 u64 gem_entry u64
  | Create_Entry u64 u8
  | Read_Entry u64
  | Write_Entry u64 gem_entry

datatype gem_val = Block (block_of: u64) | Entry (entry_of: gem_entry) | Done

definition GemFS_ReadMainEntry :: "nat \<Rightarrow> nat \<Rightarrow> gemfs \<Rightarrow> (gem_main \<times> gemfs) option" where
  "GemFS_ReadMainEntry D P g =
     (if D < H0 then do {
        buf \<leftarrow> read_sectors g D (GemFS_BlockToLBA g D P 1) 1 (Entry_Buffer g);
        let ret = decode_main buf;
        Some (ret, set_main D P ret (g\<lparr>Entry_Buffer := buf\<rparr>)) }
      else
        let ret = \<lparr>check = replicate 4 0, Block_Size = 0, main_Entry = zero_entry\<rparr> in
        Some (ret, set_main D P ret g))"

text \<open>The entry in the block \<open>b\<close>, read into the enumeration buffer.\<close>

definition enumerate_block :: "nat \<Rightarrow> nat \<Rightarrow> u64 \<Rightarrow> gemfs \<Rightarrow> (gem_entry \<times> gemfs) option" where
  "enumerate_block D P b g = do {
     buf \<leftarrow> read_sectors g D (GemFS_BlockToLBA g D P b) 1 (Enumeration_Buffer g);
     Some (decode_entry buf, g\<lparr>Enumeration_Buffer := buf\<rparr>) }"

definition read_entry_at :: "nat \<Rightarrow> nat \<Rightarrow> u64 \<Rightarrow> gemfs \<Rightarrow> (gem_entry \<times> gemfs) option" where
  "read_entry_at D P b g = do {
     buf \<leftarrow> read_sectors g D (GemFS_BlockToLBA g D P b) 1 (replicate 512 0);
     Some (decode_entry buf, g\<lparr>Entry_Buffer := buf\<rparr>) }"

definition write_main_entry :: "nat \<Rightarrow> nat \<Rightarrow> gem_entry \<Rightarrow> gemfs \<Rightarrow> gemfs option" where
  "write_main_entry D P entry g = do {
     let main = (main_of g D P)\<lparr>main_Entry := entry\<rparr>;
     buf \<leftarrow> blit (Entry_Buffer g) (encode_main main);
     g \<leftarrow> write_sectors (g\<lparr>Entry_Buffer := buf\<rparr>) D (GemFS_BlockToLBA g D P 1) 1 buf;
     Some (set_main D P main g) }"

definition write_entry_at :: "nat \<Rightarrow> nat \<Rightarrow> u64 \<Rightarrow> gem_entry \<Rightarrow> gemfs \<Rightarrow> gemfs option" where
  "write_entry_at D P b entry g = do {
     buf \<leftarrow> blit (replicate 512 0) (encode_entry entry);
     write_sectors (g\<lparr>Entry_Buffer := buf\<rparr>) D (GemFS_BlockToLBA g D P b) 1 buf }"

partial_function (option) gem_run :: "nat \<Rightarrow> nat \<Rightarrow> gem_call \<Rightarrow> gemfs \<Rightarrow> (gem_val \<times> gemfs) option" where
  "gem_run D P c g = (case c of
     Get_Entry_Block Index \<Rightarrow>
       let entry = main_Entry (main_of g D P) in
       if Index = 0 then Some (Block 1, g)
       else gem_run D P (Walk 1 Index entry (e_Next_Index_Start entry)) g
   | Walk i Index entry last_entry \<Rightarrow>
       if \<not> i < Index + 1 then Some (Block last_entry, g)
       else do {
         (entry, g) \<leftarrow>
           (if e_Next_Index_Start entry = 0 then do {
              (_, g) \<leftarrow> gem_run D P (Create_Entry i 0) g;
              enumerate_block D P last_entry g }
            else Some (entry, g));
         let last_entry = e_Next_Index_Start entry;
         (entry, g) \<leftarrow> enumerate_block D P (e_Next_Index_Start entry) g;
         gem_run D P (Walk (i + 1) Index entry last_entry) g }
   | Create_Entry Index flags \<Rightarrow> do {
       (free_block, g) \<leftarrow> GemFS_FindFreeBlock D P g;
       g \<leftarrow> GemFS_FBB_SetBlock D P free_block g;
       let entry = (stack_entry g)\<lparr>e_Index := Index, e_Flags := flags, e_Next_Index_Start := 0\<rparr>;
       (v, g) \<leftarrow> gem_run D P (Read_Entry (Index - 1)) g;
       (_, g) \<leftarrow> gem_run D P (Write_Entry (Index - 1) ((entry_of v)\<lparr>e_Next_Index_Start := free_block\<rparr>)) g;
       (_, g) \<leftarrow> gem_run D P (Write_Entry Index entry) g;
       Some (Done, g) }
   | Read_Entry Index \<Rightarrow> do {
       (v, g) \<leftarrow> gem_run D P (Get_Entry_Block Index) g;
       if Index = 0 then do {
         (m, g) \<leftarrow> GemFS_ReadMainEntry D P g;
         Some (Entry (main_Entry m), g) }
       else do {
         (entry, g) \<leftarrow> read_entry_at D P (block_of v) g;
         Some (Entry entry, g) } }
   | Write_Entry Index entry \<Rightarrow> do {
       (v, g) \<leftarrow> gem_run D P (Get_Entry_Block Index) g;
       g \<leftarrow> (if Index = 0 then write_main_entry D P entry g else write_entry_at D P (block_of v) entry g);
       Some (Done, g) })"

definition GemFS_GetEntryBlock :: "nat \<Rightarrow> nat \<Rightarrow> u64 \<Rightarrow> gemfs \<Rightarrow> (u64 \<times> gemfs) option" where
  "GemFS_GetEntryBlock D P Index g =
     map_option (\<lambda>(v, g). (block_of v, g)) (gem_run D P (Get_Entry_Block Index) g)"

definition GemFS_CreateEntry :: "nat \<Rightarrow> nat \<Rightarrow> u64 \<Rightarrow> u8 \<Rightarrow> gemfs \<Rightarrow> gemfs option" where
  "GemFS_CreateEntry D P Index flags g = map_option snd (gem_run D P (Create_Entry Index flags) g)"

definition GemFS_ReadEntry :: "nat \<Rightarrow> nat \<Rightarrow> u64 \<Rightarrow> gemfs \<Rightarrow> (gem_entry \<times> gemfs) option" where
  "GemFS_ReadEntry D P Index g =
     map_option (\<lambda>(v, g). (entry_of v, g)) (gem_run D P (Read_Entry Index) g)"

definition GemFS_WriteEntry :: "nat \<Rightarrow> nat \<Rightarrow> u64 \<Rightarrow> gem_entry \<Rightarrow> gemfs \<Rightarrow> gemfs option" where
  "GemFS_WriteEntry D P Index entry g = map_option snd (gem_run D P (Write_Entry Index entry) g)"

text \<open>The scan for the first entry whose first flag bit is not set.\<close>

partial_function (option) find_free_entry ::
  "nat \<Rightarrow> nat \<Rightarrow> gem_entry \<Rightarrow> u64 \<Rightarrow> gemfs \<Rightarrow> (u64 \<times> gemfs) option" where
  "find_free_entry D P entry i g =
     (if e_Flags entry AND 1 \<noteq> 0 then do {
        (entry, g) \<leftarrow> GemFS_ReadEntry D P i g;
        find_free_entry D P entry (i + 1) g }
      else Some (i - 1, g))"

definition GemFS_FindFreeEntry :: "nat \<Rightarrow> nat \<Rightarrow> gemfs \<Rightarrow> (u64 \<times> gemfs) option" where
  "GemFS_FindFreeEntry D P g = find_free_entry D P (main_Entry (main_of g D P)) 1 g"

end
