(* ===== verification/Gemfs_Files.thy ===== *)
theory Gemfs_Files
  imports Gemfs_Entries
begin

text \<open>
  The file system, third part: names, directories and files, and setting up a drive. The
  functions follow \<open>filesys/gemfs.c\<close>; the two functions that name the drive \<open>F0\<close> and the partition
  1 where the caller's were meant do so here.
\<close>

definition report :: "string \<Rightarrow> u64 list \<Rightarrow> gemfs \<Rightarrow> gemfs" where
  "report m args g = g\<lparr>messages := (m, args) # messages g\<rparr>"

section \<open>Names\<close>

primrec names_equal_from :: "nat \<Rightarrow> nat \<Rightarrow> u8 list \<Rightarrow> u8 list \<Rightarrow> bool option" where
  "names_equal_from 0 i name1 name2 = Some True"
| "names_equal_from (Suc n) i name1 name2 = do {
     c1 \<leftarrow> buf_get name1 i;
     c2 \<leftarrow> buf_get name2 i;
     if c1 = 0 \<and> c2 = 0 then Some True
     else if c1 \<noteq> c2 then Some False
     else names_equal_from n (i + 1) name1 name2 }"

definition GemFS_Names_Equal :: "u8 list \<Rightarrow> u8 list \<Rightarrow> nat \<Rightarrow> nat \<Rightarrow> bool option" where
  "GemFS_Names_Equal name1 name2 len1 len2 =
     (if len1 \<noteq> len2 then Some False else names_equal_from len1 0 name1 name2)"

text \<open>The comparison as the callers make it, with the lengths they compute.\<close>

definition same_name :: "u8 list \<Rightarrow> gem_entry \<Rightarrow> bool option" where
  "same_name name e = do {
     len1 \<leftarrow> calculate_string_length name;
     len2 \<leftarrow> calculate_string_length (e_Name e);
     GemFS_Names_Equal name (e_Name e) len1 len2 }"

section \<open>Directories\<close>

partial_function (option) find_sibling ::
  "nat \<Rightarrow> nat \<Rightarrow> u8 list \<Rightarrow> gem_entry \<Rightarrow> gemfs \<Rightarrow> (gem_entry \<times> gemfs) option" where
  "find_sibling D P name child g = do {
     eq \<leftarrow> same_name name child;
     if \<not> eq \<and> e_Sibling_Index child \<noteq> 0 then do {
       (child, g) \<leftarrow> GemFS_ReadEntry D P (e_Sibling_Index child) g;
       find_sibling D P name child g }
     else Some (child, g) }"

definition GemFS_Find_Index_By_Name ::
  "nat \<Rightarrow> nat \<Rightarrow> u8 list \<Rightarrow> u64 \<Rightarrow> gemfs \<Rightarrow> (u64 \<times> gemfs) option" where
  "GemFS_Find_Index_By_Name D P name Parent_Index g = do {
     (Parent_Entry, g) \<leftarrow> GemFS_ReadEntry D P Parent_Index g;
     if e_Start Parent_Entry = e_Index Parent_Entry then Some (0, g)
     else do {
       (child, g) \<leftarrow> GemFS_ReadEntry D P (e_Start Parent_Entry) g;
       (child, g) \<leftarrow> find_sibling D P name child g;
       eq \<leftarrow> same_name name child;
       if e_Sibling_Index child = 0 \<and> \<not> eq then Some (- 1, g)
       else Some (e_Index child, g) } }"

text \<open>The path is taken apart at the slashes into the local array \<open>scan\<close>; the index found so far is
  a C \<open>int\<close>.\<close>

partial_function (option) directory_loop ::
  "nat \<Rightarrow> nat \<Rightarrow> u8 list \<Rightarrow> nat \<Rightarrow> nat \<Rightarrow> u32 \<Rightarrow> u8 list \<Rightarrow> gemfs \<Rightarrow> (u64 \<times> gemfs) option" where
  "directory_loop D P directory i last_i cur_index scan g = do {
     c \<leftarrow> buf_get directory i;
     st \<leftarrow> (if c = 47 \<or> c = 0 then do {
              (r, g) \<leftarrow> GemFS_Find_Index_By_Name D P scan (scast cur_index) g;
              let cur_index = (ucast r :: u32);
              Some (if cur_index = - 1 then Inl (- 1, g)
                    else if c = 0 then Inl (scast cur_index, g)
                    else Inr (i + 1, i + 1, cur_index, replicate 128 0, g)) }
            else Some (Inr (i, last_i, cur_index, scan, g)));
     case st of
       Inl r \<Rightarrow> Some r
     | Inr (i, last_i, cur_index, scan, g) \<Rightarrow> do {
         c \<leftarrow> buf_get directory i;
         scan \<leftarrow> buf_put scan (i - last_i) c;
         directory_loop D P directory (i + 1) last_i cur_index scan g } }"

definition GemFS_Directory_to_Index :: "nat \<Rightarrow> nat \<Rightarrow> u8 list \<Rightarrow> gemfs \<Rightarrow> (u64 \<times> gemfs) option" where
  "GemFS_Directory_to_Index D P directory g = do {
     len \<leftarrow> calculate_string_length directory;
     let i = (if directory ! 0 = 47 then 1 else 0);
     directory_loop D P directory i i 0 (stack_scan g) g }"

text \<open>The last sibling of an entry.\<close>

partial_function (option) last_sibling :: "nat \<Rightarrow> nat \<Rightarrow> gem_entry \<Rightarrow> gemfs \<Rightarrow> (gem_entry \<times> gemfs) option" where
  "last_sibling D P cur g =
     (if e_Sibling_Index cur \<noteq> 0 then do {
        (cur, g) \<leftarrow> GemFS_ReadEntry D P (e_Sibling_Index cur) g;
        last_sibling D P cur g }
      else Some (cur, g))"

text \<open>\<open>parent.Flags & 0x10 != 0x10\<close> is \<open>parent.Flags & 0\<close> in C: the message is never printed.\<close>

definition GemFS_mkdir ::
  "nat \<Rightarrow> nat \<Rightarrow> u8 list \<Rightarrow> nat \<Rightarrow> u8 \<Rightarrow> u64 \<Rightarrow> gemfs \<Rightarrow> (u64 \<times> gemfs) option" where
  "GemFS_mkdir D P name name_len flags ParentIndex g = do {
     (free, g) \<leftarrow> GemFS_FindFreeEntry F0 1 g;
     (free_block, g) \<leftarrow> GemFS_FindFreeBlock D P g;
     g \<leftarrow> GemFS_FBB_SetBlock F0 P free_block g;
     (_, g) \<leftarrow> GemFS_ReadEntry D P free g;
     let new_dir = zero_entry\<lparr>e_Flags := flags, e_Index := free, e_Parent_Index := ParentIndex\<rparr>;
     (parent, g) \<leftarrow> GemFS_ReadEntry D P ParentIndex g;
     g \<leftarrow> (if e_Start parent \<noteq> 0 then do {
            (cur, g) \<leftarrow> GemFS_ReadEntry D P (e_Start parent) g;
            (cur, g) \<leftarrow> last_sibling D P cur g;
            GemFS_WriteEntry D P (e_Index cur) (cur\<lparr>e_Sibling_Index := free\<rparr>) g }
          else Some g);
     new_name \<leftarrow> (if name_len \<le> length name then blit (e_Name new_dir) (List.take name_len name) else None);
     g \<leftarrow> GemFS_WriteEntry F0 P free (new_dir\<lparr>e_Name := new_name\<rparr>) g;
     let parent = (if e_Start parent = 0 then parent\<lparr>e_Start := free\<rparr> else parent);
     g \<leftarrow> GemFS_WriteEntry D P ParentIndex parent g;
     Some (free, g) }"

section \<open>Files\<close>

primrec set_blocks :: "nat \<Rightarrow> nat \<Rightarrow> nat \<Rightarrow> u64 \<Rightarrow> gemfs \<Rightarrow> gemfs option" where
  "set_blocks 0 D P b g = Some g"
| "set_blocks (Suc n) D P b g = do { g \<leftarrow> GemFS_FBB_SetBlock D P b g; set_blocks n D P (b + 1) g }"

definition GemFS_CreateFile ::
  "nat \<Rightarrow> nat \<Rightarrow> u8 list \<Rightarrow> nat \<Rightarrow> u8 \<Rightarrow> u64 \<Rightarrow> nat \<Rightarrow> gemfs \<Rightarrow> (u64 \<times> gemfs) option" where
  "GemFS_CreateFile D P name name_len flags ParentIndex sz g = do {
     (free_block, g) \<leftarrow> GemFS_FindFreeBlock D P g;
     g \<leftarrow> set_blocks sz D P free_block g;
     (free, g) \<leftarrow> GemFS_FindFreeEntry D P g;
     (_, g) \<leftarrow> GemFS_mkdir D P name name_len flags ParentIndex g;
     (entry, g) \<leftarrow> GemFS_ReadEntry D P free g;
     g \<leftarrow> GemFS_WriteEntry D P free (entry\<lparr>e_Start := free_block, e_Size := of_nat sz\<rparr>) g;
     Some (free, g) }"

text \<open>The number of sectors is passed on as a 16 bit number.\<close>

definition GemFS_WriteFile :: "u8 list \<Rightarrow> nat \<Rightarrow> nat \<Rightarrow> u64 \<Rightarrow> gemfs \<Rightarrow> gemfs option" where
  "GemFS_WriteFile buffer D P Index g = do {
     (entry, g) \<leftarrow> GemFS_ReadEntry D P Index g;
     if drop_bit 4 (e_Flags entry) AND 1 \<noteq> 0 then Some g
     else do {
       let BS = Block_Size (main_of g D P);
       g \<leftarrow> write_sectors g D (GemFS_BlockToLBA g D P (e_Start entry)) (unat (ucast (e_Size entry * ucast BS) :: u16)) buffer;
       GemFS_WriteEntry D P Index entry g } }"

definition GemFS_ReadFile ::
  "nat \<Rightarrow> nat \<Rightarrow> u64 \<Rightarrow> u8 list \<Rightarrow> u64 \<Rightarrow> gemfs \<Rightarrow> (u8 list \<times> gemfs) option" where
  "GemFS_ReadFile D P Index buffer Blocks g = do {
     (entry, g) \<leftarrow> GemFS_ReadEntry D P Index g;
     if drop_bit 4 (e_Flags entry) AND 1 \<noteq> 0 then do {
       let g = report ''<GemFS> Tried to read file that was labeled as a directory '' [] g;
       name \<leftarrow> buffer_string (e_Name entry);
       let g = report name [] g;
       Some (buffer, report '' Flags: %b. Index: %i'' [ucast (e_Flags entry), Index] g) }
     else do {
       buffer \<leftarrow> read_sectors g D (GemFS_BlockToLBA g D P (e_Start entry)) (unat (ucast Blocks :: u16)) buffer;
       Some (buffer, g) } }"

section \<open>Formatting a partition\<close>

definition chars :: "string \<Rightarrow> u8 list" where
  "chars s = List.map of_char s @ [0]"

text \<open>A name literal, copied up to its NUL into \<open>buf\<close> from \<open>off\<close> on: the new offset is after it.\<close>

primrec copy_text :: "nat \<Rightarrow> nat \<Rightarrow> nat \<Rightarrow> u8 list \<Rightarrow> u8 list \<Rightarrow> (nat \<times> u8 list) option" where
  "copy_text 0 i off src buf = Some (off, buf)"
| "copy_text (Suc n) i off src buf = do {
     c \<leftarrow> buf_get src i;
     if c = 0 then Some (off + i, buf)
     else do { buf \<leftarrow> buf_put buf (off + i) c; copy_text n (i + 1) off src buf } }"

text \<open>The first number is written to one place, digit over digit.\<close>

primrec copy_major :: "nat \<Rightarrow> nat \<Rightarrow> nat \<Rightarrow> u8 list \<Rightarrow> u8 list \<Rightarrow> (nat \<times> u8 list) option" where
  "copy_major 0 i off src buf = Some (off, buf)"
| "copy_major (Suc n) i off src buf = do {
     c \<leftarrow> buf_get src i;
     if c = 0 then Some (off + i, buf)
     else do { buf \<leftarrow> buf_put buf off c; copy_major n (i + 1) off src buf } }"

definition boot_msg :: "u64 \<Rightarrow> u64 \<Rightarrow> u64 \<Rightarrow> u64 \<Rightarrow> bool \<Rightarrow> u8 list option" where
  "boot_msg major minor patch build release = do {
     let buf = replicate 0x200 0;
     (last_i, buf) \<leftarrow> copy_text 0x200 0 0 (chars ''ChudOS Version '') buf;
     num \<leftarrow> int_to_char_array major (replicate 26 0) 26 0;
     (last_i, buf) \<leftarrow> copy_major 0x200 0 last_i num buf;
     buf \<leftarrow> buf_put buf last_i 46;
     num \<leftarrow> int_to_char_array minor num 26 0;
     (last_i, buf) \<leftarrow> copy_text 0x200 0 (last_i + 1) num buf;
     buf \<leftarrow> buf_put buf last_i 46;
     num \<leftarrow> int_to_char_array patch num 26 0;
     (last_i, buf) \<leftarrow> copy_text 0x200 0 (last_i + 1) num buf;
     buf \<leftarrow> buf_put buf last_i 58;
     num \<leftarrow> int_to_char_array build (replicate 26 0) 26 0;
     (last_i, buf) \<leftarrow> copy_text 0x200 0 (last_i + 1) num buf;
     buf \<leftarrow> buf_put buf last_i (if release then 114 else 117);
     buf_put buf (last_i + 1) 0 }"

definition format_main :: gem_main where
  "format_main = \<lparr>check = [71, 69, 77, 72], Block_Size = 1,
     main_Entry = zero_entry\<lparr>e_Flags := 0b00010111, e_Name := chars ''ROOT'' @ replicate 123 0\<rparr>\<rparr>"

text \<open>A program file: its entry is created and then moved to the place where the image has it.\<close>

definition place_file ::
  "nat \<Rightarrow> nat \<Rightarrow> u8 list \<Rightarrow> nat \<Rightarrow> u64 \<Rightarrow> u64 \<Rightarrow> gemfs \<Rightarrow> gemfs option" where
  "place_file D P name name_len parent lba g = do {
     (index, g) \<leftarrow> GemFS_CreateFile D P name name_len 0b00001111 parent 9 g;
     (entry, g) \<leftarrow> GemFS_ReadEntry D P index g;
     GemFS_WriteEntry F0 P index (entry\<lparr>e_Start := GemFS_LBAToBlock g D P lba\<rparr>) g }"

text \<open>The version numbers come from the build. The message is made before the file for it.\<close>

definition GemFS_FormatPartition ::
  "u64 \<Rightarrow> u64 \<Rightarrow> u64 \<Rightarrow> u64 \<Rightarrow> bool \<Rightarrow> nat \<Rightarrow> nat \<Rightarrow> gemfs \<Rightarrow> gemfs option" where
  "GemFS_FormatPartition major minor patch build release D P g = do {
     let g = set_main D P format_main g;
     buf \<leftarrow> blit (replicate 512 0) (encode_main format_main);
     g \<leftarrow> write_sectors (g\<lparr>Entry_Buffer := buf\<rparr>) D (GemFS_BlockToLBA g D P 1) 1 buf;
     let g = g\<lparr>GemFS_FBB_Size := 8, Entry_Buffer := replicate 512 0\<rparr>;
     g \<leftarrow> write_sectors g D (GemFS_BlockToLBA g D P 2) 1 (Entry_Buffer g);
     g \<leftarrow> set_blocks 6 D P 0 g;
     (dev_entry, g) \<leftarrow> GemFS_mkdir D P (chars ''dev'') 4 0b00010111 0 g;
     (_, g) \<leftarrow> GemFS_mkdir D P (chars ''zero'') 5 0b00010111 1 g;
     (_, g) \<leftarrow> GemFS_mkdir D P (chars ''urand'') 6 0b00010111 1 g;
     (etc_entry, g) \<leftarrow> GemFS_mkdir D P (chars ''etc'') 4 0b00010111 0 g;
     (bin_entry, g) \<leftarrow> GemFS_mkdir D P (chars ''bin'') 4 0b00010111 0 g;
     g \<leftarrow> place_file D P (chars ''shell.elf'') 9 bin_entry 1500 g;
     g \<leftarrow> place_file D P (chars ''hello_world.elf'') 15 bin_entry 1600 g;
     g \<leftarrow> place_file D P (chars ''chudedit.elf'') 12 bin_entry 1800 g;
     msg \<leftarrow> boot_msg major minor patch build release;
     (boot_msg_entry, g) \<leftarrow> GemFS_CreateFile D P (chars ''boot_msg.txt'') 13 0b00001111 etc_entry 1 g;
     GemFS_WriteFile msg D P boot_msg_entry g }"

section \<open>Setting up a drive\<close>

text \<open>The partition table is at offset 446 of the first sector. For the drive ids of hard disks
  nothing is read.\<close>

definition GemFS_LoadPartitionTable :: "nat \<Rightarrow> gemfs \<Rightarrow> gemfs option" where
  "GemFS_LoadPartitionTable D g =
     (if D < H0 then do {
        buf \<leftarrow> read_sectors g D 0 1 (SectorBuffer g);
        Some (g\<lparr>SectorBuffer := buf, Drives := (Drives g)(D := (Drives g D)\<lparr>PartitionTable :=
          \<lambda>k. if k < 4 then decode_mbr (field (446 + 16 * k) 16 buf) else PartitionTable (Drives g D) k\<rparr>)\<rparr>) }
      else Some g)"

definition GemFS_DumpEntryData :: "gem_entry \<Rightarrow> gemfs \<Rightarrow> gemfs" where
  "GemFS_DumpEntryData entry g =
     report ''FLAGS: %b'' [ucast (e_Flags entry)] (report ''INDEX: %i'' [e_Index entry]
       (report ''ENTRY DATA DUMP'' [] g))"

primrec init_partitions ::
  "nat \<Rightarrow> nat \<Rightarrow> u64 \<Rightarrow> u64 \<Rightarrow> u64 \<Rightarrow> u64 \<Rightarrow> bool \<Rightarrow> nat \<Rightarrow> (nat \<Rightarrow> mbr_partition) \<Rightarrow> gemfs \<Rightarrow> gemfs option" where
  "init_partitions 0 i major minor patch build release D parts g = Some g"
| "init_partitions (Suc n) i major minor patch build release D parts g = do {
     g \<leftarrow> (if Part_Type (parts i) = 0xC8 then do {
            (main_entry, g) \<leftarrow> GemFS_ReadMainEntry D i g;
            if check main_entry = [71, 69, 77, 72] then
              Some (GemFS_DumpEntryData (main_Entry main_entry) (report ''ITS FORMATTED'' [] g))
            else GemFS_FormatPartition major minor patch build release D i g }
          else Some g);
     init_partitions n (i + 1) major minor patch build release D parts g }"

definition GemFS_Init :: "u64 \<Rightarrow> u64 \<Rightarrow> u64 \<Rightarrow> u64 \<Rightarrow> bool \<Rightarrow> nat \<Rightarrow> gemfs \<Rightarrow> gemfs option" where
  "GemFS_Init major minor patch build release D g = do {
     g \<leftarrow> GemFS_LoadPartitionTable D g;
     let g = g\<lparr>Drives := (Drives g)(D := (Drives g D)\<lparr>DriveID := D\<rparr>)\<rparr>;
     init_partitions 4 0 major minor patch build release D (PartitionTable (Drives g D)) g }"

end
