(* ===== verification/Gemfs_Blocks.thy ===== *)
theory Gemfs_Blocks
  imports Gemfs_Disk Frames
begin

text \<open>
  The structures on the disk read back as they were written, and the table of used blocks of
  a partition with one sector per block is a set of block numbers: the pool that entries and
  files are allocated from.
\<close>

section \<open>Bytes of a structure\<close>

lemma le_word_take_bit: "(le_word (le_bytes n w) :: 'a::len word) = take_bit (8 * n) w"
proof (induction n arbitrary: w)
  case (Suc n)
  show ?case
  proof (rule bit_word_eqI)
    fix k assume "k < LENGTH('a)"
    then show "bit (le_word (le_bytes (Suc n) w) :: 'a word) k = bit (take_bit (8 * Suc n) w) k"
      by (cases "k < 8") (auto simp: Suc.IH bit_simps)
  qed
qed simp

lemma length_le_bytes [simp]: "length (le_bytes n w) = n"
  by (induction n arbitrary: w) simp_all

lemma le_word_le_bytes [simp]:
  "le_word (le_bytes 8 (w :: u64)) = w" "le_word (le_bytes 2 (v :: u16)) = v"
  by (simp_all add: le_word_take_bit take_bit_word_eq_self)

lemma field_here: "field 0 (length a) (a @ b) = a"
  by (simp add: field_def)

lemma field_append: "field (k + length a) n (a @ b) = field k n b"
  by (simp add: field_def)

lemma length_encode_entry: "length (encode_entry e) = 50 + length (e_Name e)"
  by (simp add: encode_entry_def)

lemma decode_encode_entry:
  assumes "length (e_Name e) = 128"
  shows "decode_entry (encode_entry e @ rest) = e"
  using assms by (cases e) (simp add: decode_entry_def encode_entry_def field_def nth_append)

lemma decode_encode_main:
  assumes "length (check m) = 4" "length (e_Name (main_Entry m)) = 128"
  shows "decode_main (encode_main m @ rest) = m"
proof -
  have "field 6 178 (encode_main m @ rest) = encode_entry (main_Entry m)"
    using assms by (simp add: encode_main_def field_def length_encode_entry)
  then show ?thesis using assms decode_encode_entry [OF assms(2), of "[]"]
    by (cases m) (simp add: decode_main_def encode_main_def field_def)
qed

section \<open>Sectors\<close>

lemma length_sector [simp]: "length (sector g D lba) = 512"
  by (simp add: sector_def)

lemma read_one:
  assumes "\<not> broken g D lba" "512 \<le> length buf"
  shows "read_sectors g D lba (Suc 0) buf = Some (sector g D lba @ drop 512 buf)"
  using assms by (simp add: read_sectors_def any_broken_def)

lemma write_one:
  assumes "\<not> broken g D lba" "512 \<le> length buf"
  shows "write_sectors g D lba (Suc 0) buf = Some (g\<lparr>sectors := (sectors g)(D := (sectors g D)(lba := \<lambda>i. if i < 512 then buf ! i else sectors g D lba i))\<rparr>)"
proof -
  have "x - lba < 1 \<longleftrightarrow> x = lba" for x :: u64 by (simp add: word_less_nat_alt unat_eq_0)
  then have "(\<lambda>x i. if x - lba < of_nat 1 \<and> i < 512 then buf ! (512 * unat (x - lba) + i) else sectors g D x i) =
      (sectors g D)(lba := \<lambda>i. if i < 512 then buf ! i else sectors g D lba i)"
    by (auto simp: fun_eq_iff)
  then show ?thesis using assms by (simp add: write_sectors_def any_broken_def)
qed

section \<open>The table of used blocks\<close>

text \<open>With one sector per block the table is one sector, and the bit of block \<open>b\<close> is bit \<open>b mod 8\<close>
  of byte \<open>b\<close>.\<close>

definition fbb_lba :: "gemfs \<Rightarrow> nat \<Rightarrow> nat \<Rightarrow> u64" where
  "fbb_lba g D P = GemFS_BlockToLBA g D P 4"

definition fbb_ok :: "nat \<Rightarrow> nat \<Rightarrow> gemfs \<Rightarrow> bool" where
  "fbb_ok D P g \<longleftrightarrow> Block_Size (main_of g D P) = 1 \<and> length (FBB_Block g) = 4096 \<and> \<not> broken g D (fbb_lba g D P)"

definition used_blocks :: "nat \<Rightarrow> nat \<Rightarrow> gemfs \<Rightarrow> u64 set" where
  "used_blocks D P g = {b. b < 512 \<and> bit (sectors g D (fbb_lba g D P) (unat b)) (unat (b mod 8))}"

definition free_blocks :: "nat \<Rightarrow> nat \<Rightarrow> gemfs \<Rightarrow> u64 set" where
  "free_blocks D P g = {b. b < 512} - used_blocks D P g"

text \<open>A step of the file system that changes nothing but the buffer of the table and, on the
  drive, the sector of the table.\<close>

definition same_but_fbb :: "nat \<Rightarrow> nat \<Rightarrow> gemfs \<Rightarrow> gemfs \<Rightarrow> bool" where
  "same_but_fbb D P g g' \<longleftrightarrow> (\<exists>buf sec. length buf = 4096 \<and>
     g' = g\<lparr>FBB_Block := buf, sectors := (sectors g)(D := (sectors g D)(fbb_lba g D P := sec))\<rparr>)"

lemma same_but_fbbE:
  assumes "same_but_fbb D P g g'"
  obtains buf sec where "length buf = 4096"
    "g' = g\<lparr>FBB_Block := buf, sectors := (sectors g)(D := (sectors g D)(fbb_lba g D P := sec))\<rparr>"
  using assms by (auto simp only: same_but_fbb_def)

lemma fbb_lba_same [simp]: "same_but_fbb D P g g' \<Longrightarrow> fbb_lba g' D P = fbb_lba g D P"
  by (elim same_but_fbbE) (simp add: fbb_lba_def GemFS_BlockToLBA_def main_of_def partition_of_def)

lemma fbb_ok_same:
  assumes "same_but_fbb D P g g'" "fbb_ok D P g"
  shows "fbb_ok D P g'"
proof -
  obtain buf sec where g': "length buf = 4096"
    "g' = g\<lparr>FBB_Block := buf, sectors := (sectors g)(D := (sectors g D)(fbb_lba g D P := sec))\<rparr>"
    using assms(1) by (rule same_but_fbbE)
  have "main_of g' D P = main_of g D P" "broken g' = broken g" "length (FBB_Block g') = 4096"
    by (simp_all add: g' main_of_def)
  then show ?thesis using assms(2) fbb_lba_same [OF assms(1)] by (simp add: fbb_ok_def)
qed

lemma same_but_fbb_trans:
  assumes "same_but_fbb D P g g1" "same_but_fbb D P g1 g2"
  shows "same_but_fbb D P g g2"
proof -
  obtain buf1 sec1 where 1: "length buf1 = 4096"
    "g1 = g\<lparr>FBB_Block := buf1, sectors := (sectors g)(D := (sectors g D)(fbb_lba g D P := sec1))\<rparr>"
    using assms(1) by (rule same_but_fbbE)
  obtain buf2 sec2 where 2: "length buf2 = 4096"
    "g2 = g1\<lparr>FBB_Block := buf2, sectors := (sectors g1)(D := (sectors g1 D)(fbb_lba g1 D P := sec2))\<rparr>"
    using assms(2) by (rule same_but_fbbE)
  have "g2 = g\<lparr>FBB_Block := buf2, sectors := (sectors g)(D := (sectors g D)(fbb_lba g D P := sec2))\<rparr>"
    unfolding 2(2) fbb_lba_same [OF assms(1)] unfolding 1(2) by simp
  then show ?thesis using 2(1) by (auto simp only: same_but_fbb_def)
qed

lemma block_div [simp]:
  fixes b :: u64
  assumes "b < 512"
  shows "b div 512 = 0" "unat b < 512" "unat b < 4096"
  using assms by (simp_all add: word_unat_eq_iff unat_div word_less_nat_alt)

lemma GetBlock_used:
  assumes "fbb_ok D P g" "b < 512"
  shows "\<exists>g'. GemFS_FBB_GetBlock D P b g = Some (b \<in> used_blocks D P g, g') \<and> same_but_fbb D P g g' \<and>
    sectors g' = sectors g"
proof -
  have ok: "Block_Size (main_of g D P) = 1" "length (FBB_Block g) = 4096"
    "\<not> broken g D (GemFS_BlockToLBA g D P 4)"
    using assms(1) by (simp_all add: fbb_ok_def fbb_lba_def)
  let ?buf = "sector g D (GemFS_BlockToLBA g D P 4) @ drop 512 (FBB_Block g)"
  have "?buf ! unat b = sectors g D (fbb_lba g D P) (unat b)"
    using assms(2) by (simp add: nth_append sector_def fbb_lba_def)
  then have "GemFS_FBB_GetBlock D P b g = Some (b \<in> used_blocks D P g, g\<lparr>FBB_Block := ?buf\<rparr>)"
    using assms(2) ok block_div [OF assms(2)]
    by (simp add: GemFS_FBB_GetBlock_def Let_def read_one buf_get_def used_blocks_def
        bit_iff_and_drop_bit_eq_1)
  moreover have "same_but_fbb D P g (g\<lparr>FBB_Block := ?buf\<rparr>)"
    using ok(2) unfolding same_but_fbb_def
    by (intro exI [of _ ?buf] exI [of _ "sectors g D (fbb_lba g D P)"]) simp
  ultimately show ?thesis by simp
qed

lemma SetBlock_used:
  assumes "fbb_ok D P g" "b < 512"
  shows "\<exists>g'. GemFS_FBB_SetBlock D P b g = Some g' \<and> same_but_fbb D P g g' \<and>
    used_blocks D P g' = insert b (used_blocks D P g)"
proof -
  let ?lba = "GemFS_BlockToLBA g D P 4"
  have ok: "Block_Size (main_of g D P) = 1" "length (FBB_Block g) = 4096" "\<not> broken g D ?lba"
    using assms(1) by (simp_all add: fbb_ok_def fbb_lba_def)
  let ?buf = "sector g D ?lba @ drop 512 (FBB_Block g)"
  let ?buf' = "?buf[unat b := ?buf ! unat b OR push_bit (unat (b mod 8)) 1]"
  let ?g = "g\<lparr>FBB_Block := ?buf'\<rparr>"
  let ?sec = "\<lambda>i. if i < 512 then ?buf' ! i else sectors g D ?lba i"
  have w: "write_sectors ?g D ?lba (Suc 0) ?buf' =
      Some (?g\<lparr>sectors := (sectors ?g)(D := (sectors ?g D)(?lba := ?sec))\<rparr>)"
    using ok write_one [of ?g D ?lba ?buf'] by (simp cong: if_cong)
  define g' where "g' = ?g\<lparr>sectors := (sectors g)(D := (sectors g D)(?lba := ?sec))\<rparr>"
  have "GemFS_FBB_SetBlock D P b g = Some g'"
    using assms(2) ok block_div [OF assms(2)] w
    by (simp add: GemFS_FBB_SetBlock_def Let_def read_one buf_get_def buf_put_def g'_def)
  moreover have s: "same_but_fbb D P g g'"
    using ok(2) unfolding same_but_fbb_def g'_def fbb_lba_def
    by (intro exI [of _ ?buf'] exI [of _ ?sec]) simp
  moreover have "used_blocks D P g' = insert b (used_blocks D P g)"
  proof -
    have nth: "?buf' ! unat x = (if x = b then sectors g D ?lba (unat x) OR push_bit (unat (b mod 8)) 1
        else sectors g D ?lba (unat x))" if "x < 512" for x
      using block_div(2) [OF that] block_div(2) [OF assms(2)]
      by (simp add: nth_append sector_def nth_list_update word_unat_eq_iff [symmetric])
    have "b mod 8 < 8" by (simp add: word_less_nat_alt unat_mod)
    then have m: "unat (b mod 8) < 8" by (simp add: word_less_nat_alt)
    have same: "bit (sectors g D ?lba (unat b) OR push_bit (unat (b mod 8)) 1) (unat (b mod 8))"
      using m by (simp add: bit_simps)
    have "bit (?buf' ! unat x) (unat (x mod 8)) \<longleftrightarrow>
        x = b \<or> bit (sectors g D ?lba (unat x)) (unat (x mod 8))" if "x < 512" for x
      unfolding nth [OF that] using same by (cases "x = b") simp_all
    then show ?thesis using assms(2) fbb_lba_same [OF s]
      by (auto simp: used_blocks_def g'_def fbb_lba_def)
  qed
  ultimately show ?thesis by blast
qed

section \<open>Blocks as a pool\<close>

definition first_free :: "u64 set \<Rightarrow> u64 \<Rightarrow> u64 \<Rightarrow> u64" where
  "first_free F i limit = (if \<exists>b \<in> F. i \<le> b then LEAST b. b \<in> F \<and> i \<le> b else limit + 1)"

lemma first_free_here: "i \<in> F \<Longrightarrow> first_free F i limit = i"
  unfolding first_free_def by (auto intro!: Least_equality)

lemma first_free_next:
  assumes "i \<notin> F" "unat i < 512"
  shows "first_free F (i + 1) limit = first_free F i limit"
proof -
  have "unat (i + 1) = unat i + 1" using assms(2) by (intro trans [OF unat_plus_no_wrap]) simp_all
  then have "i + 1 \<le> b \<longleftrightarrow> i \<le> b \<and> b \<noteq> i" for b
    by (auto simp: word_le_nat_alt word_unat_eq_iff)
  then have "b \<in> F \<and> i + 1 \<le> b \<longleftrightarrow> b \<in> F \<and> i \<le> b" for b
    using assms(1) by blast
  then have eq: "(\<lambda>b. b \<in> F \<and> i + 1 \<le> b) = (\<lambda>b. b \<in> F \<and> i \<le> b)" by blast
  then have "(\<exists>b. b \<in> F \<and> i + 1 \<le> b) = (\<exists>b. b \<in> F \<and> i \<le> b)" by simp
  then show ?thesis unfolding first_free_def Bex_def eq by simp
qed

lemma same_but_fbb_refl: "fbb_ok D P g \<Longrightarrow> same_but_fbb D P g g"
  unfolding same_but_fbb_def fbb_ok_def
  by (intro exI [of _ "FBB_Block g"] exI [of _ "sectors g D (fbb_lba g D P)"]) simp

lemma find_free_block_least:
  assumes "fbb_ok D P g" "unat i + n = 512"
  shows "\<exists>g'. find_free_block n i limit D P g = Some (first_free (free_blocks D P g) i limit, g') \<and>
    same_but_fbb D P g g' \<and> used_blocks D P g' = used_blocks D P g"
  using assms
proof (induction n arbitrary: i g)
  case 0
  have "same_but_fbb D P g g" using 0(1) by (rule same_but_fbb_refl)
  moreover have "\<not> (\<exists>b \<in> free_blocks D P g. i \<le> b)"
    using 0 by (auto simp: free_blocks_def word_le_nat_alt word_less_nat_alt)
  ultimately show ?case by (simp add: first_free_def)
next
  case (Suc n)
  then have i: "i < 512" "unat i < 512" by (simp_all add: word_less_nat_alt)
  obtain g1 where 1: "GemFS_FBB_GetBlock D P i g = Some (i \<in> used_blocks D P g, g1)"
    "same_but_fbb D P g g1" "sectors g1 = sectors g"
    using GetBlock_used [OF Suc.prems(1) i(1)] by blast
  have u: "used_blocks D P g1 = used_blocks D P g"
    by (simp add: used_blocks_def 1(3) fbb_lba_same [OF 1(2)])
  then have f: "free_blocks D P g1 = free_blocks D P g" by (simp add: free_blocks_def)
  show ?case
  proof (cases "i \<in> used_blocks D P g")
    case False
    then have "i \<in> free_blocks D P g" using i by (simp add: free_blocks_def)
    then show ?thesis using 1(1,2) u False by (simp add: first_free_here)
  next
    case True
    then have "i \<notin> free_blocks D P g" by (simp add: free_blocks_def)
    note nxt = first_free_next [OF this i(2)]
    have "unat (i + 1) = unat i + 1" using i(2) by (intro trans [OF unat_plus_no_wrap]) simp_all
    then have "unat (i + 1) + n = 512" using Suc.prems(2) by simp
    from Suc.IH [OF fbb_ok_same [OF 1(2) Suc.prems(1)] this] obtain g2 where 2:
      "find_free_block n (i + 1) limit D P g1 = Some (first_free (free_blocks D P g) i limit, g2)"
      "same_but_fbb D P g1 g2" "used_blocks D P g2 = used_blocks D P g"
      unfolding f u nxt by blast
    show ?thesis using True 1(1) 2(1,3) same_but_fbb_trans [OF 1(2) 2(2)] by simp
  qed
qed

lemma first_free_Min:
  assumes "F \<noteq> {}"
  shows "first_free F 0 limit = Min (F :: u64 set)"
proof -
  have "(LEAST b. b \<in> F) = Min F" using assms by (intro Least_equality) auto
  then show ?thesis using assms by (simp add: first_free_def ex_in_conv)
qed

text \<open>C32. \<open>GemFS_FindFreeBlock\<close> returns the lowest free block of the partition, or, when all 512
  blocks of the table are used, one block more than the partition has; the table stays as
  it is.\<close>

theorem GemFS_FindFreeBlock_lowest:
  assumes "fbb_ok D P g"
  shows "\<exists>g'. GemFS_FindFreeBlock D P g =
      Some (if free_blocks D P g = {} then ucast (Sector_Count (partition_of g D P)) + 1
            else Min (free_blocks D P g), g') \<and>
    same_but_fbb D P g g' \<and> used_blocks D P g' = used_blocks D P g"
proof -
  let ?limit = "ucast (Sector_Count (partition_of g D P)) :: u64"
  have "GemFS_FindFreeBlock D P g = find_free_block 512 0 ?limit D P g"
    using assms by (simp add: GemFS_FindFreeBlock_def fbb_ok_def)
  moreover have "first_free (free_blocks D P g) 0 ?limit =
      (if free_blocks D P g = {} then ?limit + 1 else Min (free_blocks D P g))"
    by (simp add: first_free_Min) (simp add: first_free_def)
  ultimately show ?thesis using find_free_block_least [OF assms, of 0 512 ?limit] by simp
qed

text \<open>Taking a block is what \<open>GemFS_CreateEntry\<close> does: it finds a free block and marks it.\<close>

definition take_block :: "nat \<Rightarrow> nat \<Rightarrow> gemfs \<Rightarrow> (u64 \<times> gemfs) option" where
  "take_block D P g = do { (b, g) \<leftarrow> GemFS_FindFreeBlock D P g; g \<leftarrow> GemFS_FBB_SetBlock D P b g; Some (b, g) }"

lemma find_free_nonempty:
  assumes "fbb_ok D P g" "free_blocks D P g \<noteq> {}"
  obtains g' where "GemFS_FindFreeBlock D P g = Some (Min (free_blocks D P g), g')"
    "same_but_fbb D P g g'" "used_blocks D P g' = used_blocks D P g" "Min (free_blocks D P g) \<in> free_blocks D P g"
proof -
  let ?limit = "ucast (Sector_Count (partition_of g D P)) :: u64"
  have "GemFS_FindFreeBlock D P g = find_free_block 512 0 ?limit D P g"
    using assms by (simp add: GemFS_FindFreeBlock_def fbb_ok_def)
  moreover obtain g' where "find_free_block 512 0 ?limit D P g = Some (Min (free_blocks D P g), g')"
    "same_but_fbb D P g g'" "used_blocks D P g' = used_blocks D P g"
    using find_free_block_least [OF assms(1), of 0 512 ?limit] assms(2) by (auto simp: first_free_Min)
  ultimately show thesis using assms(2) by (intro that [of g'] Min_in) simp_all
qed

lemma take_block_spec:
  assumes "fbb_ok D P g" "free_blocks D P g \<noteq> {}"
  shows "\<exists>g'. take_block D P g = Some (Min (free_blocks D P g), g') \<and> same_but_fbb D P g g' \<and>
    free_blocks D P g' = free_blocks D P g - {Min (free_blocks D P g)}"
proof -
  obtain g1 where 1: "GemFS_FindFreeBlock D P g = Some (Min (free_blocks D P g), g1)"
    "same_but_fbb D P g g1" "used_blocks D P g1 = used_blocks D P g" "Min (free_blocks D P g) \<in> free_blocks D P g"
    using assms by (rule find_free_nonempty)
  then have "Min (free_blocks D P g) < 512" by (simp add: free_blocks_def)
  from SetBlock_used [OF fbb_ok_same [OF 1(2) assms(1)] this] obtain g2 where 2:
    "GemFS_FBB_SetBlock D P (Min (free_blocks D P g)) g1 = Some g2" "same_but_fbb D P g1 g2"
    "used_blocks D P g2 = insert (Min (free_blocks D P g)) (used_blocks D P g1)" by blast
  have "free_blocks D P g2 = free_blocks D P g - {Min (free_blocks D P g)}"
    unfolding free_blocks_def [of D P g2] 2(3) 1(3) by (auto simp: free_blocks_def)
  then show ?thesis using 1(1) 2(1) same_but_fbb_trans [OF 1(2) 2(2)] by (simp add: take_block_def)
qed

interpretation blocks: frame_pool "fbb_ok D P" "free_blocks D P" "take_block D P" for D P
proof (unfold_locales, goal_cases)
  case (1 g)
  then show ?case using take_block_spec [OF 1] by auto
next
  case (2 g f g')
  from take_block_spec [OF 2(1,2)] 2(3) fbb_ok_same [OF _ 2(1)] Min_in [OF _ 2(2)]
  show ?case by auto
qed simp

text \<open>Marking a block used sets its entry in the table on the drive and no other: what
  \<open>GemFS_FBB_GetBlock\<close> reports afterwards is what it reported before, and the marked block as
  used; no other sector changes.\<close>

theorem GemFS_FBB_SetBlock_marks:
  assumes "fbb_ok D P g" "b < 512" "c < 512"
  shows "\<exists>g1 g2. GemFS_FBB_SetBlock D P b g = Some g1 \<and> same_but_fbb D P g g1 \<and>
    GemFS_FBB_GetBlock D P c g1 = Some (c = b \<or> fst (the (GemFS_FBB_GetBlock D P c g)), g2)"
proof -
  obtain g1 where 1: "GemFS_FBB_SetBlock D P b g = Some g1" "same_but_fbb D P g g1"
    "used_blocks D P g1 = insert b (used_blocks D P g)" using SetBlock_used [OF assms(1,2)] by blast
  with GetBlock_used [OF fbb_ok_same [OF 1(2) assms(1)] assms(3)] GetBlock_used [OF assms(1,3)]
  show ?thesis by auto
qed

text \<open>The table has no room for the blocks from 512 on: marking one changes nothing on the
  drive. The byte it sets is past the sector that is read and written.\<close>

theorem GemFS_FBB_SetBlock_far_lost:
  assumes "Block_Size (main_of g D P) = 1" "length (FBB_Block g) = 4096"
    "\<not> broken g D (GemFS_BlockToLBA g D P (b div 512 + 4))" "512 \<le> b" "b < 4096"
  shows "\<exists>g'. GemFS_FBB_SetBlock D P b g = Some g' \<and> sectors g' = sectors g"
proof -
  let ?lba = "GemFS_BlockToLBA g D P (b div 512 + 4)"
  let ?buf = "sector g D ?lba @ drop 512 (FBB_Block g)"
  let ?buf' = "?buf[unat b := ?buf ! unat b OR push_bit (unat (b mod 8)) 1]"
  let ?g = "g\<lparr>FBB_Block := ?buf'\<rparr>"
  have b: "512 \<le> unat b" "unat b < 4096" using assms(4,5) by (simp_all add: word_le_nat_alt word_less_nat_alt)
  have "?buf' ! i = sectors g D ?lba i" if "i < 512" for i
    using b that by (simp add: nth_list_update nth_append sector_def)
  then have sec: "(\<lambda>i. if i < 512 then ?buf' ! i else sectors g D ?lba i) = sectors g D ?lba" by auto
  have w: "write_sectors ?g D ?lba (Suc 0) ?buf' = Some (?g\<lparr>sectors := sectors g\<rparr>)"
    using write_one [of ?g D ?lba ?buf'] sec assms(2,3) by (simp cong: if_cong)
  show ?thesis using assms(1-3) b w by (simp add: GemFS_FBB_SetBlock_def Let_def read_one buf_get_def buf_put_def)
qed

end
