(* ===== verification/Gemfs_Table.thy ===== *)
theory Gemfs_Table
  imports Gemfs_Entries Gemfs_Blocks
begin

text \<open>
  The entries of a partition implement a table: reading and writing an entry that exists act
  on the table as looking up and updating a map, whatever the buffers hold. The table is what
  the chain of blocks says, from the main entry in memory on.
\<close>

section \<open>The chain of entries\<close>

definition entry_in :: "gemfs \<Rightarrow> nat \<Rightarrow> nat \<Rightarrow> u64 \<Rightarrow> gem_entry" where
  "entry_in g D P b = decode_entry (sector g D (GemFS_BlockToLBA g D P b))"

primrec entry_block :: "gemfs \<Rightarrow> nat \<Rightarrow> nat \<Rightarrow> nat \<Rightarrow> u64" where
  "entry_block g D P 0 = 1"
| "entry_block g D P (Suc n) = e_Next_Index_Start
     (if n = 0 then main_Entry (main_of g D P) else entry_in g D P (entry_block g D P n))"

definition entry :: "gemfs \<Rightarrow> nat \<Rightarrow> nat \<Rightarrow> nat \<Rightarrow> gem_entry" where
  "entry g D P n = (if n = 0 then main_Entry (main_of g D P) else entry_in g D P (entry_block g D P n))"

lemma entry_block_Suc: "entry_block g D P (Suc n) = e_Next_Index_Start (entry g D P n)"
  by (simp add: entry_def)

declare entry_block.simps(2) [simp del]
declare entry_block_Suc [simp]

text \<open>The partition has the entries 0 to \<open>N\<close>, in different blocks on a working drive with one
  sector per block, and the main block on the drive is the one in memory.\<close>

definition chain_ok :: "nat \<Rightarrow> nat \<Rightarrow> nat \<Rightarrow> gemfs \<Rightarrow> bool" where
  "chain_ok D P N g \<longleftrightarrow> D < H0 \<and> Block_Size (main_of g D P) = 1 \<and> N < 2 ^ 32 \<and>
     length (check (main_of g D P)) = 4 \<and> length (e_Name (main_Entry (main_of g D P))) = 128 \<and>
     length (Entry_Buffer g) = 512 \<and> length (Enumeration_Buffer g) = 512 \<and>
     decode_main (sector g D (GemFS_BlockToLBA g D P 1)) = main_of g D P \<and>
     (\<forall>n \<le> N. entry_block g D P n \<noteq> 0 \<and> \<not> broken g D (GemFS_BlockToLBA g D P (entry_block g D P n))) \<and>
     inj_on (entry_block g D P) {..N}"

text \<open>A step that changes only the two buffers.\<close>

definition same_fs :: "gemfs \<Rightarrow> gemfs \<Rightarrow> bool" where
  "same_fs g g' \<longleftrightarrow> (\<exists>b1 b2. length b1 = 512 \<and> length b2 = 512 \<and>
     g' = g\<lparr>Entry_Buffer := b1, Enumeration_Buffer := b2\<rparr>)"

lemma same_fsE:
  assumes "same_fs g g'"
  obtains b1 b2 where "length b1 = 512" "length b2 = 512" "g' = g\<lparr>Entry_Buffer := b1, Enumeration_Buffer := b2\<rparr>"
  using assms by (auto simp only: same_fs_def)

lemma same_fs_trans: "same_fs g g1 \<Longrightarrow> same_fs g1 g2 \<Longrightarrow> same_fs g g2"
  by (elim same_fsE) (simp add: same_fs_def, metis)

lemma same_fs_refl: "chain_ok D P N g \<Longrightarrow> same_fs g g"
  unfolding same_fs_def chain_ok_def by (intro exI [of _ "Entry_Buffer g"] exI [of _ "Enumeration_Buffer g"]) simp

lemma buffers_simps [simp]:
  "main_of (g\<lparr>Enumeration_Buffer := b\<rparr>) D P = main_of g D P"
  "main_of (g\<lparr>Entry_Buffer := b\<rparr>) D P = main_of g D P"
  "partition_of (g\<lparr>Enumeration_Buffer := b\<rparr>) D P = partition_of g D P"
  "partition_of (g\<lparr>Entry_Buffer := b\<rparr>) D P = partition_of g D P"
  "GemFS_BlockToLBA (g\<lparr>Enumeration_Buffer := b\<rparr>) D P = GemFS_BlockToLBA g D P"
  "GemFS_BlockToLBA (g\<lparr>Entry_Buffer := b\<rparr>) D P = GemFS_BlockToLBA g D P"
  by (simp_all add: main_of_def partition_of_def GemFS_BlockToLBA_def fun_eq_iff)

lemma entry_in_buffers [simp]:
  "entry_in (g\<lparr>Enumeration_Buffer := b\<rparr>) D P = entry_in g D P"
  "entry_in (g\<lparr>Entry_Buffer := b\<rparr>) D P = entry_in g D P"
  by (simp_all add: entry_in_def sector_def fun_eq_iff)

lemma entry_block_buffers [simp]:
  "entry_block (g\<lparr>Enumeration_Buffer := b\<rparr>) D P = entry_block g D P"
  "entry_block (g\<lparr>Entry_Buffer := b\<rparr>) D P = entry_block g D P"
proof -
  have "entry_block (g\<lparr>Enumeration_Buffer := b\<rparr>) D P n = entry_block g D P n \<and>
      entry_block (g\<lparr>Entry_Buffer := b\<rparr>) D P n = entry_block g D P n" for n
    by (induction n) (simp_all add: entry_def)
  then show "entry_block (g\<lparr>Enumeration_Buffer := b\<rparr>) D P = entry_block g D P"
    "entry_block (g\<lparr>Entry_Buffer := b\<rparr>) D P = entry_block g D P" by auto
qed

lemma unat_index: "n < 2 ^ 64 \<Longrightarrow> unat (of_nat n :: u64) = n"
  by (simp add: unsigned_of_nat take_bit_nat_eq_self)

lemma chain_ok_same: "same_fs g g' \<Longrightarrow> chain_ok D P N g \<Longrightarrow> chain_ok D P N g'"
  by (elim same_fsE) (simp add: chain_ok_def sector_def)

lemma entry_same: "same_fs g g' \<Longrightarrow> entry g' D P = entry g D P"
  by (elim same_fsE) (simp add: entry_def fun_eq_iff)

lemma block_same: "same_fs g g' \<Longrightarrow> entry_block g' D P = entry_block g D P"
  by (elim same_fsE) (simp add: fun_eq_iff)

lemma lba_same: "same_fs g g' \<Longrightarrow> GemFS_BlockToLBA g' D P = GemFS_BlockToLBA g D P"
  by (elim same_fsE) simp

lemma decode_entry_sector:
  "decode_entry (sector g D lba @ rest) = decode_entry (sector g D lba)"
  by (simp add: decode_entry_def field_def nth_append)

lemma enumerate_block_ok:
  assumes "length (Enumeration_Buffer g) = 512" "length (Entry_Buffer g) = 512" "\<not> broken g D (GemFS_BlockToLBA g D P b)"
  shows "\<exists>g'. enumerate_block D P b g = Some (entry_in g D P b, g') \<and> same_fs g g'"
proof -
  have "same_fs g (g\<lparr>Enumeration_Buffer := sector g D (GemFS_BlockToLBA g D P b)\<rparr>)"
    using assms(2) unfolding same_fs_def
    by (intro exI [of _ "Entry_Buffer g"] exI [of _ "sector g D (GemFS_BlockToLBA g D P b)"]) simp
  then show ?thesis using assms by (simp add: enumerate_block_def read_one entry_in_def)
qed

text \<open>Walking the chain of existing entries ends at the block of the one asked for.\<close>

lemma walk_chain:
  assumes "chain_ok D P N g" "n \<le> N" "1 \<le> i" "i \<le> Suc n"
    "i \<le> n \<Longrightarrow> e_Next_Index_Start e = entry_block g D P i" "i = Suc n \<Longrightarrow> l = entry_block g D P n"
  shows "\<exists>g'. gem_run D P (Walk (of_nat i) (of_nat n) e l) g = Some (Block (entry_block g D P n), g') \<and> same_fs g g'"
  using assms
proof (induction "Suc n - i" arbitrary: i e l g)
  case 0
  then have "i = Suc n" "l = entry_block g D P n" by simp_all
  then show ?case using same_fs_refl [OF 0(2)] by (subst gem_run.simps) (simp add: add.commute)
next
  case (Suc k)
  then have i: "i \<le> n" by simp
  have n: "n < 2 ^ 32" using Suc.prems(1,2) by (simp add: chain_ok_def)
  have ok: "entry_block g D P i \<noteq> 0" "\<not> broken g D (GemFS_BlockToLBA g D P (entry_block g D P i))"
    "length (Enumeration_Buffer g) = 512" "length (Entry_Buffer g) = 512"
    using Suc.prems(1,2) i by (simp_all add: chain_ok_def)
  obtain g1 where 1: "enumerate_block D P (entry_block g D P i) g = Some (entry_in g D P (entry_block g D P i), g1)" "same_fs g g1"
    using enumerate_block_ok [OF ok(3,4,2)] by blast
  have lt: "(of_nat i :: u64) < of_nat n + 1"
  proof -
    have "unat (of_nat i :: u64) = i" "unat (of_nat n + 1 :: u64) = n + 1"
      using i n unat_index [of i] unat_index [of "n + 1"] by (simp_all add: add.commute)
    then show ?thesis using i by (simp add: word_less_nat_alt)
  qed
  have e: "entry_in g D P (entry_block g D P i) = entry g D P i" using Suc.prems(3) by (simp add: entry_def)
  have "\<exists>g'. gem_run D P (Walk (of_nat (Suc i)) (of_nat n) (entry g D P i) (entry_block g D P i)) g1 =
      Some (Block (entry_block g1 D P n), g') \<and> same_fs g1 g'"
    using Suc i e by (intro Suc.hyps(1)) (auto intro: chain_ok_same [OF 1(2)] simp: block_same [OF 1(2)] entry_same [OF 1(2)])
  then obtain g2 where 2: "gem_run D P (Walk (of_nat i + 1) (of_nat n) (entry g D P i) (entry_block g D P i)) g1 =
      Some (Block (entry_block g D P n), g2)" "same_fs g1 g2"
    by (auto simp: block_same [OF 1(2)] add.commute)
  have "e_Next_Index_Start e = entry_block g D P i" using Suc.prems(5) i by simp
  then have "gem_run D P (Walk (of_nat i) (of_nat n) e l) g = Some (Block (entry_block g D P n), g2)"
    using ok(1) lt 1(1) 2(1) e by (subst gem_run.simps) simp
  then show ?case using same_fs_trans [OF 1(2) 2(2)] by blast
qed

lemma get_block_chain:
  assumes "chain_ok D P N g" "n \<le> N"
  shows "\<exists>g'. gem_run D P (Get_Entry_Block (of_nat n)) g = Some (Block (entry_block g D P n), g') \<and> same_fs g g'"
proof (cases "n = 0")
  case True
  then show ?thesis using same_fs_refl [OF assms(1)] by (subst gem_run.simps) simp
next
  case False
  have "n < 2 ^ 32" using assms by (simp add: chain_ok_def)
  then have "(of_nat n :: u64) \<noteq> 0" using False by (simp add: word_unat_eq_iff unat_index)
  then show ?thesis using walk_chain [OF assms, of 1 "main_Entry (main_of g D P)" "e_Next_Index_Start (main_Entry (main_of g D P))"] False
    by (subst gem_run.simps) (simp add: Let_def entry_def)
qed

section \<open>Reading an entry\<close>

lemma set_main_simps [simp]:
  "main_of (set_main D P m g) D P = m" "partition_of (set_main D P m g) D P = partition_of g D P"
  "sectors (set_main D P m g) = sectors g" "broken (set_main D P m g) = broken g"
  "Entry_Buffer (set_main D P m g) = Entry_Buffer g" "Enumeration_Buffer (set_main D P m g) = Enumeration_Buffer g"
  "set_main D P (main_of g D P) g = g"
  by (simp_all add: set_main_def main_of_def partition_of_def)

lemma set_main_same: "main_of g D P = m \<Longrightarrow> set_main D P m g = g"
  by auto

lemma decode_main_sector: "decode_main (sector g D lba @ rest) = decode_main (sector g D lba)"
  by (simp add: decode_main_def field_def)

lemma main_block_ok:
  assumes "chain_ok D P N g"
  shows "\<not> broken g D (GemFS_BlockToLBA g D P 1)" "length (Entry_Buffer g) = 512" "D < H0"
    "decode_main (sector g D (GemFS_BlockToLBA g D P 1)) = main_of g D P"
proof -
  have "\<forall>n \<le> N. entry_block g D P n \<noteq> 0 \<and> \<not> broken g D (GemFS_BlockToLBA g D P (entry_block g D P n))"
    using assms by (simp add: chain_ok_def)
  then have "\<not> broken g D (GemFS_BlockToLBA g D P (entry_block g D P 0))" by blast
  then show "\<not> broken g D (GemFS_BlockToLBA g D P 1)" "length (Entry_Buffer g) = 512" "D < H0"
    "decode_main (sector g D (GemFS_BlockToLBA g D P 1)) = main_of g D P"
    using assms by (simp_all add: chain_ok_def)
qed

lemma of_nat_index_0: "n < 2 ^ 64 \<Longrightarrow> (of_nat n :: u64) = 0 \<longleftrightarrow> n = 0"
  by (simp add: word_unat_eq_iff unat_index)

lemma chain_index: "chain_ok D P N g \<Longrightarrow> n \<le> N \<Longrightarrow> n < 2 ^ 64"
  by (simp add: chain_ok_def)

lemma read_entry_ok:
  assumes "chain_ok D P N g" "n \<le> N"
  shows "\<exists>g'. GemFS_ReadEntry D P (of_nat n) g = Some (entry g D P n, g') \<and> same_fs g g'"
proof -
  obtain g1 where 1: "gem_run D P (Get_Entry_Block (of_nat n)) g = Some (Block (entry_block g D P n), g1)" "same_fs g g1"
    using get_block_chain [OF assms] by blast
  note ok1 = chain_ok_same [OF 1(2) assms(1)]
  note index = of_nat_index_0 [OF chain_index [OF assms]]
  obtain b1 b2 where g1: "length b1 = 512" "length b2 = 512" "g1 = g\<lparr>Entry_Buffer := b1, Enumeration_Buffer := b2\<rparr>"
    using 1(2) by (rule same_fsE)
  show ?thesis
  proof (cases "n = 0")
    case True
    let ?sec = "sector g1 D (GemFS_BlockToLBA g1 D P 1)"
    have "GemFS_ReadMainEntry D P g1 = Some (main_of g1 D P, g1\<lparr>Entry_Buffer := ?sec\<rparr>)"
      using main_block_ok [OF ok1]
      by (simp add: GemFS_ReadMainEntry_def read_one Let_def set_main_same)
    then have "GemFS_ReadEntry D P (of_nat n) g = Some (entry g D P n, g1\<lparr>Entry_Buffer := ?sec\<rparr>)"
      using 1(1) True g1(3)
      by (simp add: GemFS_ReadEntry_def) (subst gem_run.simps, simp add: entry_def)
    moreover have "same_fs g (g1\<lparr>Entry_Buffer := ?sec\<rparr>)"
      unfolding same_fs_def g1(3) by (intro exI [of _ ?sec] exI [of _ b2]) (simp add: g1 sector_def)
    ultimately show ?thesis by blast
  next
    case False
    let ?b = "entry_block g D P n"
    let ?sec = "sector g1 D (GemFS_BlockToLBA g1 D P ?b)"
    have "\<not> broken g1 D (GemFS_BlockToLBA g1 D P ?b)"
      using assms by (simp add: chain_ok_def g1(3))
    then have "read_entry_at D P ?b g1 = Some (entry g D P n, g1\<lparr>Entry_Buffer := ?sec\<rparr>)"
      using False by (simp add: read_entry_at_def read_one entry_def entry_in_def g1(3) sector_def)
    then have "GemFS_ReadEntry D P (of_nat n) g = Some (entry g D P n, g1\<lparr>Entry_Buffer := ?sec\<rparr>)"
      using 1(1) False index
      by (simp add: GemFS_ReadEntry_def) (subst gem_run.simps, auto)
    moreover have "same_fs g (g1\<lparr>Entry_Buffer := ?sec\<rparr>)"
      unfolding same_fs_def g1(3) by (intro exI [of _ ?sec] exI [of _ b2]) (simp add: g1 sector_def)
    ultimately show ?thesis by blast
  qed
qed

section \<open>Writing an entry\<close>

lemma block_lba_inj: "Block_Size (main_of g D P) = 1 \<Longrightarrow> GemFS_BlockToLBA g D P a = GemFS_BlockToLBA g D P b \<longleftrightarrow> a = b"
  by (simp add: GemFS_BlockToLBA_def)

text \<open>The state after an entry is written: one sector, the main entry in memory and the buffers
  have changed.\<close>

definition written :: "nat \<Rightarrow> nat \<Rightarrow> u64 \<Rightarrow> (nat \<Rightarrow> u8) \<Rightarrow> gem_main \<Rightarrow> gemfs \<Rightarrow> gemfs \<Rightarrow> bool" where
  "written D P b sec m g g' \<longleftrightarrow> (\<exists>b1 b2. length b1 = 512 \<and> length b2 = 512 \<and>
     g' = set_main D P m (g\<lparr>Entry_Buffer := b1, Enumeration_Buffer := b2,
       sectors := (sectors g)(D := (sectors g D)(GemFS_BlockToLBA g D P b := sec))\<rparr>))"

lemma writtenD:
  assumes "written D P b sec m g g'"
  shows "main_of g' D P = m" "partition_of g' D P = partition_of g D P" "broken g' = broken g"
    "sectors g' = (sectors g)(D := (sectors g D)(GemFS_BlockToLBA g D P b := sec))"
    "length (Entry_Buffer g') = 512" "length (Enumeration_Buffer g') = 512"
  using assms by (auto simp: written_def partition_of_def) (simp_all add: main_of_def set_main_def)

lemma chain_after_write:
  assumes ok: "chain_ok D P N g" and n: "n \<le> N" and w: "written D P (entry_block g D P n) sec m g g'"
    and m: "m = (if n = 0 then (main_of g D P)\<lparr>main_Entry := e\<rparr> else main_of g D P)"
    and sec: "if n = 0 then decode_main (map sec [0..<512]) = m else decode_entry (map sec [0..<512]) = e"
    and name: "length (e_Name e) = 128" and nxt: "n < N \<Longrightarrow> e_Next_Index_Start e = e_Next_Index_Start (entry g D P n)"
  shows "k \<le> N \<Longrightarrow> entry_block g' D P k = entry_block g D P k \<and> entry g' D P k = (if k = n then e else entry g D P k)"
    and "chain_ok D P N g'"
proof -
  note w' = writtenD [OF w]
  have bs: "Block_Size (main_of g D P) = 1" using ok by (simp add: chain_ok_def)
  have inj: "inj_on (entry_block g D P) {..N}" using ok by (simp add: chain_ok_def)
  have lba: "GemFS_BlockToLBA g' D P = GemFS_BlockToLBA g D P"
    by (simp add: GemFS_BlockToLBA_def fun_eq_iff w'(1,2) m)
  have at: "entry_in g' D P (entry_block g D P k) = (if k = n then decode_entry (map sec [0..<512]) else entry_in g D P (entry_block g D P k))"
    if "k \<le> N" for k
    using inj_onD [OF inj, of k n] that n by (auto simp: entry_in_def sector_def lba w'(4) block_lba_inj [OF bs])
  have *: "entry_block g' D P k = entry_block g D P k \<and> entry g' D P k = (if k = n then e else entry g D P k)"
    if "k \<le> N" for k
    using that
  proof (induction k)
    case 0
    then show ?case using sec m by (auto simp: entry_def w'(1))
  next
    case (Suc k)
    then have IH: "entry g' D P k = (if k = n then e else entry g D P k)" by simp
    have "entry_block g' D P (Suc k) = entry_block g D P (Suc k)"
      using IH nxt Suc.prems by (cases "k = n") simp_all
    then show ?case using at [OF Suc.prems] sec by (auto simp: entry_def)
  qed
  then show "k \<le> N \<Longrightarrow> entry_block g' D P k = entry_block g D P k \<and> entry g' D P k = (if k = n then e else entry g D P k)" .
  have "inj_on (entry_block g' D P) {..N}" using inj * by (simp add: inj_on_def)
  moreover have "decode_main (sector g' D (GemFS_BlockToLBA g' D P 1)) = m"
  proof (cases "n = 0")
    case True
    then show ?thesis using sec by (simp add: sector_def w'(4) lba)
  next
    case False
    then have "entry_block g D P n \<noteq> 1" using inj_onD [OF inj, of n 0] n by auto
    then show ?thesis using False ok m by (simp add: sector_def w'(4) lba block_lba_inj [OF bs] chain_ok_def)
  qed
  ultimately show "chain_ok D P N g'"
    using ok * m name unfolding chain_ok_def lba w'(1,3) by (simp add: w'(5,6))
qed

lemma map_nth_if [simp]: "length xs = 512 \<Longrightarrow> map (\<lambda>i. if i < 512 then xs ! i else f i) [0..<512] = xs"
  by (simp add: list_eq_iff_nth_eq)

lemma written_same: "same_fs g g1 \<Longrightarrow> written D P b sec m g1 g' \<Longrightarrow> written D P b sec m g g'"
  by (elim same_fsE) (simp add: written_def)

lemma length_encode_main: "length (check m) = 4 \<Longrightarrow> length (e_Name (main_Entry m)) = 128 \<Longrightarrow> length (encode_main m) = 184"
  by (simp add: encode_main_def length_encode_entry)

lemma write_main_entry_ok:
  assumes "chain_ok D P N g" "length (e_Name e) = 128"
  shows "\<exists>g' sec. write_main_entry D P e g = Some g' \<and> written D P 1 sec ((main_of g D P)\<lparr>main_Entry := e\<rparr>) g g' \<and>
    decode_main (map sec [0..<512]) = (main_of g D P)\<lparr>main_Entry := e\<rparr>"
proof -
  define m where "m = (main_of g D P)\<lparr>main_Entry := e\<rparr>"
  note main = main_block_ok [OF assms(1)]
  have len: "length (check m) = 4" "length (e_Name (main_Entry m)) = 128"
    using assms by (simp_all add: m_def chain_ok_def)
  define buf where "buf = encode_main m @ drop 184 (Entry_Buffer g)"
  have buf: "length buf = 512" "blit (Entry_Buffer g) (encode_main m) = Some buf"
    using main(2) length_encode_main [OF len] by (simp_all add: buf_def blit_def)
  define sec where "sec = (\<lambda>i. if i < 512 then buf ! i else sectors g D (GemFS_BlockToLBA g D P 1) i)"
  define g1 where "g1 = g\<lparr>Entry_Buffer := buf, sectors := (sectors g)(D := (sectors g D)(GemFS_BlockToLBA g D P 1 := sec))\<rparr>"
  have "write_sectors (g\<lparr>Entry_Buffer := buf\<rparr>) D (GemFS_BlockToLBA g D P 1) (Suc 0) buf = Some g1"
    using write_one [of "g\<lparr>Entry_Buffer := buf\<rparr>" D "GemFS_BlockToLBA g D P 1" buf] main(1) buf(1)
    by (simp add: g1_def sec_def cong: if_cong)
  then have "write_main_entry D P e g = Some (set_main D P m g1)"
    using buf(2) by (simp add: write_main_entry_def m_def)
  moreover have "written D P 1 sec m g (set_main D P m g1)"
    using assms(1) buf(1) unfolding written_def g1_def chain_ok_def
    by (intro exI [of _ buf] exI [of _ "Enumeration_Buffer g"]) simp
  moreover have "decode_main (map sec [0..<512]) = m"
    unfolding sec_def map_nth_if [OF buf(1)] unfolding buf_def by (rule decode_encode_main [OF len])
  ultimately show ?thesis unfolding m_def by blast
qed

lemma write_entry_at_ok:
  assumes "length (Enumeration_Buffer g) = 512" "\<not> broken g D (GemFS_BlockToLBA g D P b)" "length (e_Name e) = 128"
  shows "\<exists>g' sec. write_entry_at D P b e g = Some g' \<and> written D P b sec (main_of g D P) g g' \<and>
    decode_entry (map sec [0..<512]) = e"
proof -
  define buf where "buf = encode_entry e @ drop 178 (replicate 512 0)"
  have buf: "length buf = 512" "blit (replicate 512 0) (encode_entry e) = Some buf"
    using assms(3) by (simp_all add: buf_def blit_def length_encode_entry)
  define sec where "sec = (\<lambda>i. if i < 512 then buf ! i else sectors g D (GemFS_BlockToLBA g D P b) i)"
  define g1 where "g1 = g\<lparr>Entry_Buffer := buf, sectors := (sectors g)(D := (sectors g D)(GemFS_BlockToLBA g D P b := sec))\<rparr>"
  have "write_sectors (g\<lparr>Entry_Buffer := buf\<rparr>) D (GemFS_BlockToLBA g D P b) (Suc 0) buf = Some g1"
    using write_one [of "g\<lparr>Entry_Buffer := buf\<rparr>" D "GemFS_BlockToLBA g D P b" buf] assms(2) buf(1)
    by (simp add: g1_def sec_def cong: if_cong)
  then have "write_entry_at D P b e g = Some g1" using buf(2) by (simp add: write_entry_at_def)
  moreover have "main_of g1 D P = main_of g D P" by (simp add: g1_def main_of_def)
  then have "set_main D P (main_of g D P) g1 = g1" by (rule set_main_same)
  then have "written D P b sec (main_of g D P) g g1"
    using assms(1) buf(1) unfolding written_def g1_def
    by (intro exI [of _ buf] exI [of _ "Enumeration_Buffer g"]) simp
  moreover have "decode_entry (map sec [0..<512]) = e"
    unfolding sec_def map_nth_if [OF buf(1)] unfolding buf_def by (rule decode_encode_entry [OF assms(3)])
  ultimately show ?thesis by blast
qed

lemma write_entry_ok:
  assumes "chain_ok D P N g" "n \<le> N" "length (e_Name e) = 128"
    "n < N \<Longrightarrow> e_Next_Index_Start e = e_Next_Index_Start (entry g D P n)"
  shows "\<exists>g'. GemFS_WriteEntry D P (of_nat n) e g = Some g' \<and> chain_ok D P N g' \<and>
    (\<forall>k \<le> N. entry_block g' D P k = entry_block g D P k \<and> entry g' D P k = (if k = n then e else entry g D P k)) \<and>
    (\<exists>sec m. written D P (entry_block g D P n) sec m g g')"
proof -
  obtain g1 where 1: "gem_run D P (Get_Entry_Block (of_nat n)) g = Some (Block (entry_block g D P n), g1)" "same_fs g g1"
    using get_block_chain [OF assms(1,2)] by blast
  note ok1 = chain_ok_same [OF 1(2) assms(1)]
  note index = of_nat_index_0 [OF chain_index [OF assms(1,2)]]
  have main1: "main_of g1 D P = main_of g D P" using 1(2) by (rule same_fsE) simp
  have "\<exists>g' sec m. GemFS_WriteEntry D P (of_nat n) e g = Some g' \<and> written D P (entry_block g D P n) sec m g1 g' \<and>
      m = (if n = 0 then (main_of g D P)\<lparr>main_Entry := e\<rparr> else main_of g D P) \<and>
      (if n = 0 then decode_main (map sec [0..<512]) = m else decode_entry (map sec [0..<512]) = e)"
  proof (cases "n = 0")
    case True
    obtain g' sec where "write_main_entry D P e g1 = Some g'" "written D P 1 sec ((main_of g D P)\<lparr>main_Entry := e\<rparr>) g1 g'"
      "decode_main (map sec [0..<512]) = (main_of g D P)\<lparr>main_Entry := e\<rparr>"
      using write_main_entry_ok [OF ok1 assms(3)] main1 by auto
    then show ?thesis using 1(1) True
      by (simp add: GemFS_WriteEntry_def) (subst gem_run.simps, auto)
  next
    case False
    have "\<not> broken g1 D (GemFS_BlockToLBA g1 D P (entry_block g D P n))" "length (Enumeration_Buffer g1) = 512"
      using ok1 assms(2) by (simp_all add: chain_ok_def block_same [OF 1(2)])
    from write_entry_at_ok [OF this(2,1) assms(3)] obtain g' sec where
      "write_entry_at D P (entry_block g D P n) e g1 = Some g'"
      "written D P (entry_block g D P n) sec (main_of g D P) g1 g'" "decode_entry (map sec [0..<512]) = e"
      using main1 by auto
    then show ?thesis using 1(1) False index
      by (simp add: GemFS_WriteEntry_def) (subst gem_run.simps, auto)
  qed
  then obtain g' sec m where g': "GemFS_WriteEntry D P (of_nat n) e g = Some g'"
    "written D P (entry_block g D P n) sec m g1 g'"
    "m = (if n = 0 then (main_of g D P)\<lparr>main_Entry := e\<rparr> else main_of g D P)"
    "if n = 0 then decode_main (map sec [0..<512]) = m else decode_entry (map sec [0..<512]) = e" by blast
  note w = written_same [OF 1(2) g'(2)]
  show ?thesis
    using g'(1) chain_after_write [OF assms(1,2) w g'(3,4) assms(3,4)] w by blast
qed

section \<open>The table\<close>

text \<open>The table of the entries 0 to \<open>N\<close>, as a map.\<close>

definition table :: "nat \<Rightarrow> nat \<Rightarrow> nat \<Rightarrow> gemfs \<Rightarrow> nat \<Rightarrow> gem_entry option" where
  "table D P N g n = (if n \<le> N then Some (entry g D P n) else None)"

lemma table_same: "same_fs g g' \<Longrightarrow> table D P N g' = table D P N g"
  by (simp add: table_def entry_same fun_eq_iff)

text \<open>The entries implement a map from indices to entries: \<open>GemFS_ReadEntry\<close> is lookup and
  leaves the map alone, \<open>GemFS_WriteEntry\<close> is update, and both always return, for every index
  of the table, as long as the entry written keeps the link to the next one.\<close>

theorem GemFS_entries_refine_map:
  assumes "chain_ok D P N g" "table D P N g n = Some old" "length (e_Name e) = 128"
    "e_Next_Index_Start e = e_Next_Index_Start old"
  shows "\<exists>g1 g2. GemFS_ReadEntry D P (of_nat n) g = Some (old, g1) \<and> chain_ok D P N g1 \<and>
      table D P N g1 = table D P N g \<and>
    GemFS_WriteEntry D P (of_nat n) e g = Some g2 \<and> chain_ok D P N g2 \<and>
      table D P N g2 = (table D P N g)(n \<mapsto> e)"
proof -
  have n: "n \<le> N" "entry g D P n = old" using assms(2) by (simp_all add: table_def split: if_splits)
  obtain g1 where "GemFS_ReadEntry D P (of_nat n) g = Some (old, g1)" "same_fs g g1"
    using read_entry_ok [OF assms(1) n(1)] n(2) by blast
  moreover obtain g2 where "GemFS_WriteEntry D P (of_nat n) e g = Some g2" "chain_ok D P N g2"
    "\<forall>k \<le> N. entry g2 D P k = (if k = n then e else entry g D P k)"
    using write_entry_ok [OF assms(1) n(1) assms(3)] assms(4) n(2) by blast
  ultimately show ?thesis using n(1) chain_ok_same [OF _ assms(1)] table_same
    by (auto simp: table_def fun_eq_iff)
qed

section \<open>Creating an entry\<close>

text \<open>The blocks of the chain are used, and so are the blocks 0 and 4, the one of the table of
  used blocks; the free blocks can be written.\<close>

definition pool_ok :: "nat \<Rightarrow> nat \<Rightarrow> nat \<Rightarrow> gemfs \<Rightarrow> bool" where
  "pool_ok D P N g \<longleftrightarrow> fbb_ok D P g \<and> {0, 4} \<subseteq> used_blocks D P g \<and>
     (\<forall>k \<le> N. entry_block g D P k \<in> used_blocks D P g - {4}) \<and>
     (\<forall>b \<in> free_blocks D P g. \<not> broken g D (GemFS_BlockToLBA g D P b)) \<and> length (e_Name (stack_entry g)) = 128"

lemma lba_fbb: "same_but_fbb D P g g' \<Longrightarrow> GemFS_BlockToLBA g' D P = GemFS_BlockToLBA g D P"
  by (elim same_but_fbbE) (simp add: GemFS_BlockToLBA_def fun_eq_iff main_of_def partition_of_def)

lemma same_but_fbbD:
  assumes "same_but_fbb D P g g'"
  shows "main_of g' D P = main_of g D P" "partition_of g' D P = partition_of g D P" "broken g' = broken g"
    "Entry_Buffer g' = Entry_Buffer g" "Enumeration_Buffer g' = Enumeration_Buffer g" "stack_entry g' = stack_entry g"
    "lba \<noteq> GemFS_BlockToLBA g D P 4 \<Longrightarrow> sectors g' D lba = sectors g D lba"
  using assms by (auto elim!: same_but_fbbE simp: main_of_def partition_of_def fbb_lba_def)

lemma chain_fbb:
  assumes s: "same_but_fbb D P g g'" and ok: "chain_ok D P N g" and p: "pool_ok D P N g"
  shows "k \<le> N \<Longrightarrow> entry_block g' D P k = entry_block g D P k \<and> entry g' D P k = entry g D P k"
    and "chain_ok D P N g'"
proof -
  have bs: "Block_Size (main_of g D P) = 1" using ok by (simp add: chain_ok_def)
  have at: "sector g' D (GemFS_BlockToLBA g D P (entry_block g D P k)) = sector g D (GemFS_BlockToLBA g D P (entry_block g D P k))"
    if "k \<le> N" for k
    using p that same_but_fbbD(7) [OF s] by (simp add: sector_def pool_ok_def block_lba_inj [OF bs])
  have *: "entry_block g' D P k = entry_block g D P k \<and> entry g' D P k = entry g D P k" if "k \<le> N" for k
    using that
  proof (induction k)
    case (Suc k)
    then show ?case using at [of "Suc k"] by (simp add: entry_def entry_in_def lba_fbb [OF s])
  qed (simp add: entry_def same_but_fbbD [OF s])
  then show "k \<le> N \<Longrightarrow> entry_block g' D P k = entry_block g D P k \<and> entry g' D P k = entry g D P k" .
  have "inj_on (entry_block g' D P) {..N}" using ok * by (simp add: chain_ok_def inj_on_def)
  then show "chain_ok D P N g'"
    using ok * at [of 0] unfolding chain_ok_def lba_fbb [OF s] by (simp add: same_but_fbbD [OF s])
qed

lemma used_written:
  assumes "chain_ok D P N g" "n \<le> N" "written D P (entry_block g D P n) sec m g g'"
    "entry_block g D P n \<noteq> 4" "Block_Size m = 1" "Block_Size (main_of g D P) = 1"
  shows "used_blocks D P g' = used_blocks D P g" "fbb_ok D P g \<Longrightarrow> fbb_ok D P g'" "stack_entry g' = stack_entry g"
    "GemFS_BlockToLBA g' D P = GemFS_BlockToLBA g D P"
proof -
  note w = writtenD [OF assms(3)]
  show lba: "GemFS_BlockToLBA g' D P = GemFS_BlockToLBA g D P"
    by (simp add: GemFS_BlockToLBA_def fun_eq_iff w(1,2) assms(5,6))
  then show "used_blocks D P g' = used_blocks D P g"
    using assms(4) by (simp add: used_blocks_def fbb_lba_def w(4) block_lba_inj [OF assms(6)])
  have "FBB_Block g' = FBB_Block g" using assms(3) by (auto simp: written_def set_main_def)
  then show "fbb_ok D P g \<Longrightarrow> fbb_ok D P g'" using assms(5) lba by (simp add: fbb_ok_def fbb_lba_def w(1,3))
  show "stack_entry g' = stack_entry g" using assms(3) by (auto simp: written_def set_main_def)
qed

lemma used_same: "same_fs g g' \<Longrightarrow> used_blocks D P g' = used_blocks D P g"
  by (elim same_fsE) (simp add: used_blocks_def fbb_lba_def)

text \<open>Linking a block that is not in the chain to its last entry makes the chain longer.\<close>

lemma chain_extend:
  assumes "chain_ok D P N g" "entry_block g D P (Suc N) = b" "b \<noteq> 0" "\<not> broken g D (GemFS_BlockToLBA g D P b)"
    "\<forall>k \<le> N. entry_block g D P k \<noteq> b" "Suc N < 2 ^ 32"
  shows "chain_ok D P (Suc N) g"
  using assms by (auto simp: chain_ok_def le_Suc_eq atMost_Suc simp del: entry_block_Suc)

lemma pool_same: "same_fs g g' \<Longrightarrow> pool_ok D P N g \<Longrightarrow> pool_ok D P N g'"
  by (elim same_fsE) (simp add: pool_ok_def fbb_ok_def used_blocks_def free_blocks_def fbb_lba_def)

lemma used_written_ok:
  assumes "chain_ok D P N g" "n \<le> N" "written D P (entry_block g D P n) sec m g g'" "chain_ok D P N g'"
    "entry_block g D P n \<noteq> 4"
  shows "used_blocks D P g' = used_blocks D P g" "fbb_ok D P g \<Longrightarrow> fbb_ok D P g'" "stack_entry g' = stack_entry g"
    "GemFS_BlockToLBA g' D P = GemFS_BlockToLBA g D P"
proof -
  have "Block_Size m = 1" "Block_Size (main_of g D P) = 1"
    using assms(1,4) writtenD(1) [OF assms(3)] by (simp_all add: chain_ok_def)
  note used_written [OF assms(1-3,5) this]
  then show "used_blocks D P g' = used_blocks D P g" "fbb_ok D P g \<Longrightarrow> fbb_ok D P g'" "stack_entry g' = stack_entry g"
    "GemFS_BlockToLBA g' D P = GemFS_BlockToLBA g D P" by simp_all
qed

lemma entry_in_written:
  assumes "written D P b sec m g g'" "GemFS_BlockToLBA g' D P = GemFS_BlockToLBA g D P"
    "Block_Size (main_of g D P) = 1" "x \<noteq> b"
  shows "entry_in g' D P x = entry_in g D P x"
  using assms(4) by (simp add: entry_in_def sector_def assms(2) writtenD(4) [OF assms(1)] block_lba_inj [OF assms(3)])

definition fresh_entry :: "gemfs \<Rightarrow> u64 \<Rightarrow> u8 \<Rightarrow> gem_entry" where
  "fresh_entry g Index flags = (stack_entry g)\<lparr>e_Index := Index, e_Flags := flags, e_Next_Index_Start := 0\<rparr>"

lemma gem_run_read: "gem_run D P (Read_Entry i) g = Some (v, g') \<Longrightarrow> GemFS_ReadEntry D P i g = Some (entry_of v, g')"
  by (simp add: GemFS_ReadEntry_def)

lemma ReadEntry_run:
  assumes "GemFS_ReadEntry D P i g = Some (e, g')"
  obtains v where "gem_run D P (Read_Entry i) g = Some (v, g')" "entry_of v = e"
  using assms by (auto simp: GemFS_ReadEntry_def)

lemma WriteEntry_run:
  assumes "GemFS_WriteEntry D P i e g = Some g'"
  obtains v where "gem_run D P (Write_Entry i e) g = Some (v, g')"
  using assms by (auto simp: GemFS_WriteEntry_def)

text \<open>Linking the new block: the last entry is read and written back with its link set.\<close>

lemma link_entry_ok:
  assumes ok: "chain_ok D P N g" and p: "pool_ok D P N g" and b: "b \<in> used_blocks D P g" "b \<noteq> 4" "b \<noteq> 0"
    and nb: "\<not> broken g D (GemFS_BlockToLBA g D P b)" "\<forall>k \<le> N. entry_block g D P k \<noteq> b" and N: "Suc N < 2 ^ 32"
  shows "\<exists>g1 g2. GemFS_ReadEntry D P (of_nat N) g = Some (entry g D P N, g1) \<and>
    GemFS_WriteEntry D P (of_nat N) ((entry g D P N)\<lparr>e_Next_Index_Start := b\<rparr>) g1 = Some g2 \<and>
    chain_ok D P (Suc N) g2 \<and> entry_block g2 D P (Suc N) = b \<and>
    (\<forall>k \<le> N. entry_block g2 D P k = entry_block g D P k \<and>
       entry g2 D P k = (if k = N then (entry g D P N)\<lparr>e_Next_Index_Start := b\<rparr> else entry g D P k)) \<and>
    used_blocks D P g2 = used_blocks D P g \<and> fbb_ok D P g2 \<and> stack_entry g2 = stack_entry g \<and> broken g2 = broken g \<and>
    GemFS_BlockToLBA g2 D P = GemFS_BlockToLBA g D P \<and>
    (\<forall>x. x \<noteq> entry_block g D P N \<longrightarrow> entry_in g2 D P x = entry_in g D P x)"
proof -
  let ?e = "(entry g D P N)\<lparr>e_Next_Index_Start := b\<rparr>"
  obtain g1 where 1: "GemFS_ReadEntry D P (of_nat N) g = Some (entry g D P N, g1)" "same_fs g g1"
    using read_entry_ok [OF ok, of N] by blast
  note ok1 = chain_ok_same [OF 1(2) ok]
  have name: "length (e_Name ?e) = 128"
    using ok by (cases "N = 0") (simp_all add: entry_def entry_in_def decode_entry_def chain_ok_def field_def)
  obtain g2 sec m where 2: "GemFS_WriteEntry D P (of_nat N) ?e g1 = Some g2" "chain_ok D P N g2"
    "\<forall>k \<le> N. entry_block g2 D P k = entry_block g1 D P k \<and> entry g2 D P k = (if k = N then ?e else entry g1 D P k)"
    "written D P (entry_block g1 D P N) sec m g1 g2"
    using write_entry_ok [OF ok1, of N ?e] name by auto
  have "entry_block g1 D P N \<noteq> 4" using p by (simp add: pool_ok_def block_same [OF 1(2)])
  note used = used_written_ok [OF ok1 _ 2(4,2) this]
  have chain2: "\<forall>k \<le> N. entry_block g2 D P k = entry_block g D P k \<and> entry g2 D P k = (if k = N then ?e else entry g D P k)"
    using 2(3) by (simp add: block_same [OF 1(2)] entry_same [OF 1(2)])
  have br: "broken g2 = broken g" using writtenD(3) [OF 2(4)] 1(2) by (auto elim: same_fsE)
  have lba: "GemFS_BlockToLBA g2 D P = GemFS_BlockToLBA g D P" using used(4) by (simp add: lba_same [OF 1(2)])
  have last: "entry_block g2 D P (Suc N) = b" using chain2 by simp
  have "chain_ok D P (Suc N) g2"
    using b(3) nb chain2 N by (intro chain_extend [OF 2(2) last]) (simp_all add: br lba)
  moreover have "fbb_ok D P g1" using pool_same [OF 1(2) p] by (simp add: pool_ok_def)
  moreover have "stack_entry g1 = stack_entry g" using 1(2) by (rule same_fsE) simp
  moreover have "entry_in g2 D P x = entry_in g D P x" if "x \<noteq> entry_block g D P N" for x
  proof -
    have "entry_in g1 D P = entry_in g D P" using 1(2) by (rule same_fsE) simp
    moreover have "Block_Size (main_of g1 D P) = 1" using ok1 by (simp add: chain_ok_def)
    ultimately show ?thesis
      using entry_in_written [OF 2(4) used(4), of x] that by (simp add: block_same [OF 1(2)])
  qed
  ultimately show ?thesis
    using 1(1) 2(1) chain2 last used used_same [OF 1(2)] br lba by auto
qed

lemma create_entry_ok:
  assumes ok: "chain_ok D P N g" and p: "pool_ok D P N g" and free: "free_blocks D P g \<noteq> {}" and N: "Suc N < 2 ^ 32"
  defines "b \<equiv> Min (free_blocks D P g)"
  shows "\<exists>g'. GemFS_CreateEntry D P (of_nat (Suc N)) flags g = Some g' \<and> chain_ok D P (Suc N) g' \<and>
    pool_ok D P (Suc N) g' \<and> entry_block g' D P (Suc N) = b \<and>
    (\<forall>k \<le> N. entry_block g' D P k = entry_block g D P k) \<and>
    (\<forall>k \<le> N. entry g' D P k = (if k = N then (entry g D P N)\<lparr>e_Next_Index_Start := b\<rparr> else entry g D P k)) \<and>
    entry g' D P (Suc N) = fresh_entry g (of_nat (Suc N)) flags \<and>
    free_blocks D P g' = free_blocks D P g - {b} \<and> GemFS_BlockToLBA g' D P = GemFS_BlockToLBA g D P \<and>
    broken g' = broken g \<and>
    (\<forall>x. x \<noteq> 4 \<and> x \<noteq> b \<and> x \<noteq> entry_block g D P N \<longrightarrow> entry_in g' D P x = entry_in g D P x)"
proof -
  have fbb: "fbb_ok D P g" using p by (simp add: pool_ok_def)
  obtain g2 where take: "take_block D P g = Some (b, g2)" "same_but_fbb D P g g2"
    "free_blocks D P g2 = free_blocks D P g - {b}"
    using take_block_spec [OF fbb free] by (auto simp: b_def)
  then obtain g1 where t: "GemFS_FindFreeBlock D P g = Some (b, g1)" "GemFS_FBB_SetBlock D P b g1 = Some g2"
    by (auto simp: take_block_def bind_eq_Some_conv)
  note c2 = chain_fbb [OF take(2) ok p]
  have b: "b \<in> free_blocks D P g" using free by (simp add: b_def)
  have bb: "b \<noteq> 0" "b \<noteq> 4" "\<forall>k \<le> N. entry_block g D P k \<noteq> b" "\<not> broken g D (GemFS_BlockToLBA g D P b)" "b < 512"
    using b p by (auto simp: pool_ok_def free_blocks_def)
  have u2: "used_blocks D P g2 = insert b (used_blocks D P g)"
  proof -
    have "used_blocks D P x \<subseteq> {b. b < 512}" for x by (auto simp: used_blocks_def)
    then show ?thesis using take(3) b unfolding free_blocks_def by blast
  qed
  have br2: "broken g2 = broken g" "GemFS_BlockToLBA g2 D P = GemFS_BlockToLBA g D P" "stack_entry g2 = stack_entry g"
    using same_but_fbbD [OF take(2)] lba_fbb [OF take(2)] by simp_all
  have p2: "pool_ok D P N g2"
    using p c2(1) u2 take(3) fbb_ok_same [OF take(2) fbb] by (auto simp: pool_ok_def br2)
  obtain g3 g4 where 4: "GemFS_ReadEntry D P (of_nat N) g2 = Some (entry g2 D P N, g3)"
    "GemFS_WriteEntry D P (of_nat N) ((entry g2 D P N)\<lparr>e_Next_Index_Start := b\<rparr>) g3 = Some g4"
    "chain_ok D P (Suc N) g4" "entry_block g4 D P (Suc N) = b"
    "\<forall>k \<le> N. entry_block g4 D P k = entry_block g2 D P k \<and>
       entry g4 D P k = (if k = N then (entry g2 D P N)\<lparr>e_Next_Index_Start := b\<rparr> else entry g2 D P k)"
    "used_blocks D P g4 = used_blocks D P g2" "fbb_ok D P g4" "stack_entry g4 = stack_entry g2" "broken g4 = broken g2"
    "GemFS_BlockToLBA g4 D P = GemFS_BlockToLBA g2 D P"
    "\<forall>x. x \<noteq> entry_block g2 D P N \<longrightarrow> entry_in g4 D P x = entry_in g2 D P x"
    using link_entry_ok [OF c2(2) p2, of b] u2 bb N c2(1) br2 by auto
  let ?new = "fresh_entry g (of_nat (Suc N)) flags"
  have name: "length (e_Name ?new) = 128" using p by (simp add: pool_ok_def fresh_entry_def)
  obtain g5 sec m where 5: "GemFS_WriteEntry D P (of_nat (Suc N)) ?new g4 = Some g5" "chain_ok D P (Suc N) g5"
    "\<forall>k \<le> Suc N. entry_block g5 D P k = entry_block g4 D P k \<and> entry g5 D P k = (if k = Suc N then ?new else entry g4 D P k)"
    "written D P (entry_block g4 D P (Suc N)) sec m g4 g5"
    using write_entry_ok [OF 4(3) order_refl name] by auto
  have "entry_block g4 D P (Suc N) \<noteq> 4" using 4(4) bb(2) by simp
  note used5 = used_written_ok [OF 4(3) order_refl 5(4,2) this]
  have br5: "broken g5 = broken g4" by (rule writtenD(3) [OF 5(4)])
  obtain v1 v2 v3 where runs: "gem_run D P (Read_Entry (of_nat N)) g2 = Some (v1, g3)" "entry_of v1 = entry g2 D P N"
    "gem_run D P (Write_Entry (of_nat N) ((entry g2 D P N)\<lparr>e_Next_Index_Start := b\<rparr>)) g3 = Some (v2, g4)"
    "gem_run D P (Write_Entry (of_nat (Suc N)) ?new) g4 = Some (v3, g5)"
    using ReadEntry_run [OF 4(1)] WriteEntry_run [OF 4(2)] WriteEntry_run [OF 5(1)] by metis
  have prev: "(of_nat (Suc N) :: u64) - 1 = of_nat N" by simp
  have "GemFS_CreateEntry D P (of_nat (Suc N)) flags g = Some g5"
    unfolding GemFS_CreateEntry_def using runs t br2(3)
    by (subst gem_run.simps) (simp add: prev fresh_entry_def del: of_nat_Suc)
  moreover have "entry_block g5 D P (Suc N) = b" using 5(3) 4(4) by blast
  moreover have blocks: "\<forall>k \<le> N. entry_block g5 D P k = entry_block g D P k" using 5(3) 4(5) c2(1) by simp
  moreover have "free_blocks D P g5 = free_blocks D P g - {b}"
    unfolding take(3) [symmetric] by (simp add: free_blocks_def used5(1) 4(6))
  moreover have lba5: "GemFS_BlockToLBA g5 D P = GemFS_BlockToLBA g D P" using used5(4) 4(10) br2(2) by simp
  moreover have "pool_ok D P (Suc N) g5"
    unfolding pool_ok_def calculation(4) lba5
    using used5(1-3) 4(6-9) p u2 calculation(2,3) bb(2) br5 br2
    by (auto simp: pool_ok_def le_Suc_eq simp del: entry_block_Suc)
  moreover have "\<forall>k \<le> N. entry g5 D P k = (if k = N then (entry g D P N)\<lparr>e_Next_Index_Start := b\<rparr> else entry g D P k)"
    using 5(3) 4(5) c2(1) by simp
  moreover have "entry g5 D P (Suc N) = ?new" using 5(3) by simp
  moreover have "broken g5 = broken g" using br5 4(9) br2(1) by simp
  moreover have "entry_in g5 D P x = entry_in g D P x" if "x \<noteq> 4 \<and> x \<noteq> b \<and> x \<noteq> entry_block g D P N" for x
  proof -
    have bs: "Block_Size (main_of g D P) = 1" "Block_Size (main_of g4 D P) = 1"
      using ok 4(3) by (simp_all add: chain_ok_def)
    have "entry_in g5 D P x = entry_in g4 D P x"
      using entry_in_written [OF 5(4) used5(4) bs(2), of x] that 4(4) by simp
    also have "\<dots> = entry_in g2 D P x" using 4(11) c2(1) [of N] that by simp
    also have "\<dots> = entry_in g D P x"
      using that same_but_fbbD(7) [OF take(2)] by (simp add: entry_in_def sector_def br2(2) block_lba_inj [OF bs(1)])
    finally show ?thesis .
  qed
  ultimately show ?thesis using 5(2) by blast
qed

text \<open>C21. \<open>GemFS_CreateEntry\<close> adds an entry at the end of the table: it takes the lowest free block,
  links it to the last entry, and writes the new entry there; the other entries keep their
  content, and every block of the table stays in use.\<close>

theorem GemFS_CreateEntry_extends:
  assumes "chain_ok D P N g" "pool_ok D P N g" "free_blocks D P g \<noteq> {}" "Suc N < 2 ^ 32"
  shows "\<exists>g'. GemFS_CreateEntry D P (of_nat (Suc N)) flags g = Some g' \<and>
    chain_ok D P (Suc N) g' \<and> pool_ok D P (Suc N) g' \<and>
    free_blocks D P g' = free_blocks D P g - {Min (free_blocks D P g)} \<and>
    table D P (Suc N) g' = (table D P N g)
      (N \<mapsto> (entry g D P N)\<lparr>e_Next_Index_Start := Min (free_blocks D P g)\<rparr>,
       Suc N \<mapsto> (stack_entry g)\<lparr>e_Index := of_nat (Suc N), e_Flags := flags, e_Next_Index_Start := 0\<rparr>)"
proof -
  obtain g' where "GemFS_CreateEntry D P (of_nat (Suc N)) flags g = Some g'" "chain_ok D P (Suc N) g'"
    "pool_ok D P (Suc N) g'"
    "\<forall>k \<le> N. entry g' D P k = (if k = N then (entry g D P N)\<lparr>e_Next_Index_Start := Min (free_blocks D P g)\<rparr> else entry g D P k)"
    "entry g' D P (Suc N) = fresh_entry g (of_nat (Suc N)) flags"
    "free_blocks D P g' = free_blocks D P g - {Min (free_blocks D P g)}"
    using create_entry_ok [OF assms] by metis
  moreover have "table D P (Suc N) g' n = ((table D P N g)
      (N \<mapsto> (entry g D P N)\<lparr>e_Next_Index_Start := Min (free_blocks D P g)\<rparr>,
       Suc N \<mapsto> fresh_entry g (of_nat (Suc N)) flags)) n" for n
    using calculation(4,5) by (auto simp: table_def le_Suc_eq)
  ultimately show ?thesis by (auto simp: fresh_entry_def)
qed

section \<open>Entries created by walking past the end\<close>

lemma walk_step:
  assumes "e_Next_Index_Start e = b" "b \<noteq> 0" "i \<le> T" "T < 2 ^ 32" "\<not> broken g D (GemFS_BlockToLBA g D P b)"
    "length (Enumeration_Buffer g) = 512" "length (Entry_Buffer g) = 512"
  shows "\<exists>g'. gem_run D P (Walk (of_nat i) (of_nat T) e l) g =
      gem_run D P (Walk (of_nat (Suc i)) (of_nat T) (entry_in g D P b) b) g' \<and> same_fs g g'"
proof -
  obtain g1 where 1: "enumerate_block D P b g = Some (entry_in g D P b, g1)" "same_fs g g1"
    using enumerate_block_ok [OF assms(6,7,5)] by blast
  have "(of_nat i :: u64) < of_nat T + 1"
    using assms(3,4) unat_index [of i] unat_index [of "T + 1"] by (simp add: word_less_nat_alt add.commute)
  then have "gem_run D P (Walk (of_nat i) (of_nat T) e l) g =
      gem_run D P (Walk (of_nat (Suc i)) (of_nat T) (entry_in g D P b) b) g1"
    using assms(1,2) 1(1) by (subst gem_run.simps) (simp add: add.commute)
  then show ?thesis using 1(2) by blast
qed

lemma walk_prefix:
  assumes "chain_ok D P N g" "n \<le> N" "1 \<le> i" "i \<le> n" "n \<le> T" "T < 2 ^ 32" "e_Next_Index_Start e = entry_block g D P i"
  shows "\<exists>g'. gem_run D P (Walk (of_nat i) (of_nat T) e l) g =
      gem_run D P (Walk (of_nat (Suc n)) (of_nat T) (entry g D P n) (entry_block g D P n)) g' \<and> same_fs g g'"
  using assms
proof (induction "n - i" arbitrary: i e l g)
  case (0 i e l g)
  then have "i = n" "entry g D P n = entry_in g D P (entry_block g D P n)" by (simp_all add: entry_def)
  then show ?case using 0(2-) walk_step [of e "entry_block g D P n" n T g D P l]
    by (simp add: chain_ok_def del: of_nat_Suc)
next
  case (Suc k i e l g)
  have "entry g D P i = entry_in g D P (entry_block g D P i)" using Suc.prems(3) by (simp add: entry_def)
  then obtain g1 where 1: "gem_run D P (Walk (of_nat i) (of_nat T) e l) g =
      gem_run D P (Walk (of_nat (Suc i)) (of_nat T) (entry g D P i) (entry_block g D P i)) g1" "same_fs g g1"
    using walk_step [of e "entry_block g D P i" i T g D P l] Suc.prems by (auto simp: chain_ok_def simp del: of_nat_Suc)
  have "\<exists>g'. gem_run D P (Walk (of_nat (Suc i)) (of_nat T) (entry g D P i) (entry_block g D P i)) g1 =
      gem_run D P (Walk (of_nat (Suc n)) (of_nat T) (entry g1 D P n) (entry_block g1 D P n)) g' \<and> same_fs g1 g'"
    using Suc by (intro Suc.hyps(1)) (auto intro: chain_ok_same [OF 1(2)] simp: block_same [OF 1(2)])
  then show ?case using 1 same_fs_trans [OF 1(2)] by (auto simp: block_same [OF 1(2)] entry_same [OF 1(2)] simp del: of_nat_Suc)
qed

lemma walk_end: "T < 2 ^ 32 \<Longrightarrow> gem_run D P (Walk (of_nat (Suc T)) (of_nat T) e l) g = Some (Block l, g)"
  by (subst gem_run.simps) (simp add: add.commute)

text \<open>The step of the walk that creates the entry \<open>T\<close>: afterwards the walk goes on from the entry in
  the block \<open>l\<close> it read last.\<close>

lemma walk_create:
  assumes "e_Next_Index_Start e = 0" "T < 2 ^ 32" "GemFS_CreateEntry D P (of_nat T) 0 g = Some g1"
    "length (Enumeration_Buffer g1) = 512" "length (Entry_Buffer g1) = 512"
    "\<not> broken g1 D (GemFS_BlockToLBA g1 D P l)"
    "\<not> broken g1 D (GemFS_BlockToLBA g1 D P (e_Next_Index_Start (entry_in g1 D P l)))"
  shows "\<exists>g'. gem_run D P (Walk (of_nat T) (of_nat T) e l) g =
      Some (Block (e_Next_Index_Start (entry_in g1 D P l)), g') \<and> same_fs g1 g'"
proof -
  let ?j = "e_Next_Index_Start (entry_in g1 D P l)"
  obtain v where c: "gem_run D P (Create_Entry (of_nat T) 0) g = Some (v, g1)"
    using assms(3) by (auto simp: GemFS_CreateEntry_def)
  obtain g2 where 2: "enumerate_block D P l g1 = Some (entry_in g1 D P l, g2)" "same_fs g1 g2"
    using enumerate_block_ok [OF assms(4,5,6)] by blast
  have "length (Enumeration_Buffer g2) = 512 \<and> length (Entry_Buffer g2) = 512 \<and> broken g2 = broken g1"
    using 2(2) by (auto elim!: same_fsE)
  then obtain g3 where 3: "enumerate_block D P ?j g2 = Some (entry_in g2 D P ?j, g3)" "same_fs g2 g3"
    using enumerate_block_ok [of g2 D P ?j] assms(7) lba_same [OF 2(2)] by auto
  have "(of_nat T :: u64) < of_nat T + 1"
    using assms(2) unat_index [of T] unat_index [of "T + 1"] by (simp add: word_less_nat_alt add.commute)
  then have "gem_run D P (Walk (of_nat T) (of_nat T) e l) g =
      gem_run D P (Walk (of_nat (Suc T)) (of_nat T) (entry_in g2 D P ?j) ?j) g3"
    using assms(1) c 2(1) 3(1) by (subst gem_run.simps) (simp add: add.commute)
  then show ?thesis using same_fs_trans [OF 2(2) 3(2)] walk_end [OF assms(2)] by auto
qed

lemma walk_creates:
  assumes "chain_ok D P N g" "pool_ok D P N g" "free_blocks D P g \<noteq> {}" "Suc N < 2 ^ 32" "1 \<le> N"
    "e_Next_Index_Start (entry g D P N) = 0"
  defines "b \<equiv> Min (free_blocks D P g)"
  shows "\<exists>g'. gem_run D P (Get_Entry_Block (of_nat (Suc N))) g = Some (Block b, g') \<and>
    chain_ok D P (Suc N) g' \<and> pool_ok D P (Suc N) g' \<and> entry_block g' D P (Suc N) = b \<and>
    (\<forall>k \<le> N. entry g' D P k = (if k = N then (entry g D P N)\<lparr>e_Next_Index_Start := b\<rparr> else entry g D P k)) \<and>
    entry g' D P (Suc N) = fresh_entry g (of_nat (Suc N)) 0 \<and> free_blocks D P g' = free_blocks D P g - {b}"
proof -
  have first: "e_Next_Index_Start (main_Entry (main_of g D P)) = entry_block g D P 1" by (simp add: entry_def)
  obtain g1 where 1: "gem_run D P (Walk 1 (of_nat (Suc N)) (main_Entry (main_of g D P)) (e_Next_Index_Start (main_Entry (main_of g D P)))) g =
      gem_run D P (Walk (of_nat (Suc N)) (of_nat (Suc N)) (entry g D P N) (entry_block g D P N)) g1" "same_fs g g1"
    using walk_prefix [OF assms(1) order_refl order_refl assms(5) _ assms(4) first] unfolding of_nat_1 by auto
  have free: "free_blocks D P g1 = free_blocks D P g" by (simp add: free_blocks_def used_same [OF 1(2)])
  have stack: "fresh_entry g1 = fresh_entry g" using 1(2) by (rule same_fsE) (simp add: fresh_entry_def fun_eq_iff)
  obtain g2 where 2: "GemFS_CreateEntry D P (of_nat (Suc N)) 0 g1 = Some g2" "chain_ok D P (Suc N) g2" "pool_ok D P (Suc N) g2"
    "entry_block g2 D P (Suc N) = b" "\<forall>k \<le> N. entry_block g2 D P k = entry_block g D P k"
    "\<forall>k \<le> N. entry g2 D P k = (if k = N then (entry g D P N)\<lparr>e_Next_Index_Start := b\<rparr> else entry g D P k)"
    "entry g2 D P (Suc N) = fresh_entry g (of_nat (Suc N)) 0" "free_blocks D P g2 = free_blocks D P g - {b}"
    using create_entry_ok [OF chain_ok_same [OF 1(2) assms(1)] pool_same [OF 1(2) assms(2)] _ assms(4), of 0] assms(3)
    unfolding free block_same [OF 1(2)] entry_same [OF 1(2)] stack b_def by metis
  have at: "e_Next_Index_Start (entry_in g2 D P (entry_block g D P N)) = b"
    using 2(4,5) assms(5) by (simp add: entry_def)
  have nb: "\<not> broken g2 D (GemFS_BlockToLBA g2 D P (entry_block g2 D P k))" if "k \<le> Suc N" for k
    using 2(2) that by (simp add: chain_ok_def del: entry_block_Suc)
  obtain g3 where 3: "gem_run D P (Walk (of_nat (Suc N)) (of_nat (Suc N)) (entry g D P N) (entry_block g D P N)) g1 =
      Some (Block b, g3)" "same_fs g2 g3"
    using walk_create [OF assms(6) assms(4) 2(1), of "entry_block g D P N"] 2(2,4,5) nb [of N] nb [of "Suc N"] at
    by (auto simp: chain_ok_def simp del: of_nat_Suc entry_block_Suc)
  have "(of_nat (Suc N) :: u64) \<noteq> 0" using of_nat_index_0 [of "Suc N"] assms(4) by simp
  then have "gem_run D P (Get_Entry_Block (of_nat (Suc N))) g = Some (Block b, g3)"
    using 1(1) 3(1) by (subst gem_run.simps) (simp add: Let_def del: of_nat_Suc)
  moreover have "free_blocks D P g3 = free_blocks D P g2" by (simp add: free_blocks_def used_same [OF 3(2)])
  ultimately show ?thesis
    using chain_ok_same [OF 3(2) 2(2)] pool_same [OF 3(2) 2(3)] 2(4-8) block_same [OF 3(2)] entry_same [OF 3(2)] by metis
qed

text \<open>Asking for the entry after the last one creates it, in the lowest free block, and gives its
  block, when the partition has more entries than the main one.\<close>

theorem GemFS_GetEntryBlock_creates:
  assumes "chain_ok D P N g" "pool_ok D P N g" "free_blocks D P g \<noteq> {}" "Suc N < 2 ^ 32" "1 \<le> N"
    "e_Next_Index_Start (entry g D P N) = 0"
  shows "\<exists>g'. GemFS_GetEntryBlock D P (of_nat (Suc N)) g = Some (Min (free_blocks D P g), g') \<and>
    chain_ok D P (Suc N) g' \<and> entry_block g' D P (Suc N) = Min (free_blocks D P g)"
  using walk_creates [OF assms] by (auto simp: GemFS_GetEntryBlock_def simp del: of_nat_Suc entry_block_Suc)

text \<open>The very first entry is the exception: on a partition with the main entry alone,
  \<open>GemFS_GetEntryBlock\<close> creates entry 1 and then looks for its block in the block 0 of the
  partition instead of the main block. What it returns is whatever that block holds where an
  entry has its link.\<close>

theorem GemFS_GetEntryBlock_first_entry:
  assumes "chain_ok D P 0 g" "pool_ok D P 0 g" "free_blocks D P g \<noteq> {}"
    "e_Next_Index_Start (main_Entry (main_of g D P)) = 0"
    "\<And>b. \<not> broken g D b"
  shows "\<exists>g1 g2. GemFS_CreateEntry D P 1 0 g = Some g1 \<and>
    GemFS_GetEntryBlock D P 1 g = Some (e_Next_Index_Start (entry_in g D P 0), g2) \<and>
    entry_block g2 D P 1 = Min (free_blocks D P g)"
proof -
  have "0 \<noteq> Min (free_blocks D P g)"
    using assms(2,3) Min_in [of "free_blocks D P g"] by (auto simp: pool_ok_def free_blocks_def)
  then obtain g1 where 1: "GemFS_CreateEntry D P 1 0 g = Some g1" "chain_ok D P 1 g1"
    "entry_block g1 D P 1 = Min (free_blocks D P g)" "broken g1 = broken g" "entry_in g1 D P 0 = entry_in g D P 0"
    using create_entry_ok [OF assms(1,2,3), of 0] by auto
  then obtain g2 where 2: "gem_run D P (Walk 1 1 (main_Entry (main_of g D P)) 0) g =
      Some (Block (e_Next_Index_Start (entry_in g D P 0)), g2)" "same_fs g1 g2"
    using walk_create [of "main_Entry (main_of g D P)" 1 D P g g1 0] assms(4,5) by (auto simp: chain_ok_def)
  then have "GemFS_GetEntryBlock D P 1 g = Some (e_Next_Index_Start (entry_in g D P 0), g2)"
    unfolding GemFS_GetEntryBlock_def by (subst gem_run.simps) (simp add: assms(4))
  then show ?thesis using 1(1,3) block_same [OF 2(2)] by (auto simp del: entry_block_Suc)
qed

end
