(* ===== verification/Gemfs_Dirs.thy ===== *)
theory Gemfs_Dirs
  imports Gemfs_Files Gemfs_Table
begin

text \<open>
  Directories over the table of entries: the children of a directory are the chain of siblings
  that starts at its first child. Looking up a name searches this chain, and \<open>GemFS_mkdir\<close> adds
  to its end.
\<close>

section \<open>Names\<close>

definition c_string :: "u8 list \<Rightarrow> u8 list" where
  "c_string bs = takeWhile (\<lambda>c. c \<noteq> 0) bs"

lemma c_string_length:
  assumes "0 \<in> set bs"
  shows "length (c_string bs) < length bs" "bs ! length (c_string bs) = 0"
proof -
  have "c_string bs \<noteq> bs" using assms unfolding c_string_def by (metis (mono_tags, lifting) takeWhile_eq_all_conv)
  moreover have "length (c_string bs) \<le> length bs" unfolding c_string_def by (rule length_takeWhile_le)
  ultimately show l: "length (c_string bs) < length bs"
    unfolding c_string_def by (metis le_neq_implies_less length_takeWhile_le takeWhile_eq_take take_all)
  then show "bs ! length (c_string bs) = 0" unfolding c_string_def using nth_length_takeWhile by blast
qed

lemma c_string_nth: "i < length (c_string bs) \<Longrightarrow> c_string bs ! i = bs ! i \<and> bs ! i \<noteq> 0"
proof -
  assume i: "i < length (c_string bs)"
  then have "c_string bs ! i = bs ! i" by (simp add: c_string_def takeWhile_nth)
  moreover have "c_string bs ! i \<in> set (takeWhile (\<lambda>c. c \<noteq> 0) bs)" using nth_mem [OF i] by (simp add: c_string_def)
  ultimately show ?thesis by (auto dest: set_takeWhileD)
qed

lemma string_length_c_string: "0 \<in> set bs \<Longrightarrow> calculate_string_length bs = Some (length (c_string bs))"
proof -
  assume n: "0 \<in> set bs"
  note l = c_string_length [OF n]
  have "i \<le> length (c_string bs) \<Longrightarrow> find_nul bs i = Some (length (c_string bs))" for i
  proof (induction "length (c_string bs) - i" arbitrary: i)
    case 0
    then show ?case using l by (subst find_nul.simps) simp
  next
    case (Suc k)
    then have i: "i < length (c_string bs)" by simp
    then show ?case using Suc.hyps(1) [of "i + 1"] Suc.hyps(2) l(1) c_string_nth [OF i] by (subst find_nul.simps) simp
  qed
  then show ?thesis by (simp add: calculate_string_length_def)
qed

lemma names_equal_from_iff:
  "i + n \<le> length a \<Longrightarrow> i + n \<le> length b \<Longrightarrow> \<forall>k < i + n. a ! k \<noteq> 0 \<Longrightarrow>
    names_equal_from n i a b = Some (\<forall>k < n. a ! (i + k) = b ! (i + k))"
proof (induction n arbitrary: i)
  case (Suc n)
  then have "a ! i \<noteq> 0" by simp
  moreover have "(\<forall>k < Suc n. a ! (i + k) = b ! (i + k)) \<longleftrightarrow> a ! i = b ! i \<and> (\<forall>k < n. a ! (Suc i + k) = b ! (Suc i + k))"
    by (auto simp: less_Suc_eq_0_disj)
  ultimately show ?case using Suc.IH [of "Suc i"] Suc.prems by (auto simp: buf_get_def)
qed simp

text \<open>\<open>GemFS_Names_Equal\<close>, called with the lengths of two strings, compares the strings.\<close>

lemma GemFS_Names_Equal_strings:
  assumes "0 \<in> set a" "0 \<in> set b"
  shows "GemFS_Names_Equal a b (length (c_string a)) (length (c_string b)) = Some (c_string a = c_string b)"
proof (cases "length (c_string a) = length (c_string b)")
  case True
  have "names_equal_from (length (c_string a)) 0 a b = Some (\<forall>k < length (c_string a). a ! k = b ! k)"
    using names_equal_from_iff [of 0 "length (c_string a)" a b] c_string_length [OF assms(1)] c_string_length [OF assms(2)] True
      c_string_nth [of _ a] by simp
  also have "(\<forall>k < length (c_string a). a ! k = b ! k) \<longleftrightarrow> c_string a = c_string b"
    using True c_string_nth [of _ a] c_string_nth [of _ b] by (simp add: list_eq_iff_nth_eq)
  finally show ?thesis using True by (simp add: GemFS_Names_Equal_def)
qed (auto simp: GemFS_Names_Equal_def)

lemma same_name_iff:
  "0 \<in> set name \<Longrightarrow> 0 \<in> set (e_Name e) \<Longrightarrow> same_name name e = Some (c_string name = c_string (e_Name e))"
  by (simp add: same_name_def string_length_c_string GemFS_Names_Equal_strings)

section \<open>Children\<close>

text \<open>The chain of siblings from an entry on.\<close>

fun sibling_chain :: "(nat \<Rightarrow> gem_entry) \<Rightarrow> nat list \<Rightarrow> bool" where
  "sibling_chain f [] \<longleftrightarrow> False"
| "sibling_chain f [k] \<longleftrightarrow> e_Sibling_Index (f k) = 0"
| "sibling_chain f (k # l # ks) \<longleftrightarrow> l \<noteq> 0 \<and> e_Sibling_Index (f k) = of_nat l \<and> sibling_chain f (l # ks)"

definition named :: "nat \<Rightarrow> (nat \<Rightarrow> gem_entry) \<Rightarrow> nat list \<Rightarrow> bool" where
  "named N f ks \<longleftrightarrow> (\<forall>k \<in> set ks. k \<le> N \<and> e_Index (f k) = of_nat k \<and> 0 \<in> set (e_Name (f k)))"

definition name_of :: "(nat \<Rightarrow> gem_entry) \<Rightarrow> nat \<Rightarrow> u8 list" where
  "name_of f k = c_string (e_Name (f k))"

lemma find_sibling_ok:
  assumes "chain_ok D P N g" "sibling_chain (entry g D P) ks" "named N (entry g D P) ks" "0 \<in> set name"
  shows "\<exists>g'. find_sibling D P name (entry g D P (hd ks)) g =
      Some (entry g D P (case List.find (\<lambda>k. name_of (entry g D P) k = c_string name) ks of
        None \<Rightarrow> last ks | Some k \<Rightarrow> k), g') \<and> same_fs g g'"
  using assms
proof (induction ks arbitrary: g rule: induct_list012)
  case (2 k)
  then have "same_name name (entry g D P k) = Some (c_string name = name_of (entry g D P) k)"
    by (simp add: same_name_iff named_def name_of_def)
  then show ?case using 2 same_fs_refl [OF 2(1)]
    by (subst find_sibling.simps) auto
next
  case (3 k l ks)
  have eq: "same_name name (entry g D P k) = Some (c_string name = name_of (entry g D P) k)"
    using 3 by (simp add: same_name_iff named_def name_of_def)
  show ?case
  proof (cases "name_of (entry g D P) k = c_string name")
    case True
    then show ?thesis using eq same_fs_refl [OF 3(3)] by (subst find_sibling.simps) auto
  next
    case False
    have l: "l \<le> N" "l \<noteq> 0" "e_Sibling_Index (entry g D P k) = of_nat l" using 3 by (simp_all add: named_def)
    then have nz: "e_Sibling_Index (entry g D P k) \<noteq> 0"
      using of_nat_index_0 [OF chain_index [OF 3(3) l(1)]] by simp
    obtain g1 where 1: "GemFS_ReadEntry D P (of_nat l) g = Some (entry g D P l, g1)" "same_fs g g1"
      using read_entry_ok [OF 3(3) l(1)] by blast
    note same = entry_same [OF 1(2)]
    obtain g2 where 2: "find_sibling D P name (entry g D P l) g1 =
      Some (entry g D P (case List.find (\<lambda>k. name_of (entry g D P) k = c_string name) (l # ks) of
        None \<Rightarrow> last (l # ks) | Some k \<Rightarrow> k), g2)" "same_fs g1 g2"
      using "3.IH"(2) [OF chain_ok_same [OF 1(2) 3(3)]] 3(4-6) unfolding same by (auto simp: named_def)
    have "find_sibling D P name (entry g D P k) g = find_sibling D P name (entry g D P l) g1"
      using False eq nz l(3) 1(1) by (subst find_sibling.simps) auto
    then show ?thesis using 2 same_fs_trans [OF 1(2) 2(2)] False by (auto cong: option.case_cong)
  qed
qed simp

text \<open>C20. Looking up a name always returns on a directory whose children form a chain of siblings that
  ends: the index of the first child with the name, or -1 when no child has it.\<close>

theorem GemFS_Find_Index_By_Name_first:
  assumes "chain_ok D P N g" "p \<le> N" "e_Start (entry g D P p) = of_nat (hd ks)"
    "e_Start (entry g D P p) \<noteq> e_Index (entry g D P p)"
    "sibling_chain (entry g D P) ks" "named N (entry g D P) ks" "0 \<in> set name"
  shows "\<exists>g'. GemFS_Find_Index_By_Name D P name (of_nat p) g =
      Some (case List.find (\<lambda>k. name_of (entry g D P) k = c_string name) ks of None \<Rightarrow> - 1 | Some k \<Rightarrow> of_nat k, g') \<and>
    same_fs g g'"
proof -
  have ks: "ks \<noteq> []" using assms(5) by auto
  then have hd: "hd ks \<le> N" using assms(6) by (simp add: named_def)
  obtain g1 where 1: "GemFS_ReadEntry D P (of_nat p) g = Some (entry g D P p, g1)" "same_fs g g1"
    using read_entry_ok [OF assms(1,2)] by blast
  obtain g2 where 2: "GemFS_ReadEntry D P (of_nat (hd ks)) g1 = Some (entry g D P (hd ks), g2)" "same_fs g1 g2"
    using read_entry_ok [OF chain_ok_same [OF 1(2) assms(1)] hd] entry_same [OF 1(2)] by auto
  note s = same_fs_trans [OF 1(2) 2(2)]
  let ?find = "List.find (\<lambda>k. name_of (entry g D P) k = c_string name) ks"
  let ?k = "case ?find of None \<Rightarrow> last ks | Some k \<Rightarrow> k"
  obtain g3 where 3: "find_sibling D P name (entry g D P (hd ks)) g2 = Some (entry g D P ?k, g3)" "same_fs g2 g3"
    using find_sibling_ok [OF chain_ok_same [OF s assms(1)], of ks name] assms(5-7) unfolding entry_same [OF s] by blast
  have k: "?k \<in> set ks" using ks by (auto split: option.split simp: find_Some_iff)
  then have name: "same_name name (entry g D P ?k) = Some (c_string name = name_of (entry g D P) ?k)"
    using assms(6,7) by (simp add: same_name_iff named_def name_of_def)
  have idx: "e_Index (entry g D P ?k) = of_nat ?k" using k assms(6) by (simp add: named_def)
  have last: "e_Sibling_Index (entry g D P (last ks)) = 0" using assms(5)
    by (induction ks rule: induct_list012) auto
  have res: "GemFS_Find_Index_By_Name D P name (of_nat p) g =
      (if e_Sibling_Index (entry g D P ?k) = 0 \<and> c_string name \<noteq> name_of (entry g D P) ?k then Some (- 1, g3) else Some (of_nat ?k, g3))"
    using 1(1) 2(1) 3(1) assms(3,4) name idx by (simp add: GemFS_Find_Index_By_Name_def)
  have "\<forall>k \<in> set ks. name_of (entry g D P) k \<noteq> c_string name" if "?find = None"
    using that by (auto simp: find_None_iff)
  moreover have "name_of (entry g D P) k = c_string name" if "?find = Some k" for k
    using that by (auto simp: find_Some_iff)
  ultimately show ?thesis using res last k same_fs_trans [OF s 3(2)]
    by (cases ?find) (auto simp: ks)
qed

section \<open>Adding a directory\<close>

text \<open>The invariant of a partition with the entries 0 to \<open>N\<close>, and what the operations do to it.\<close>

definition part_ok :: "nat \<Rightarrow> nat \<Rightarrow> nat \<Rightarrow> gemfs \<Rightarrow> bool" where
  "part_ok D P N g \<longleftrightarrow> chain_ok D P N g \<and> pool_ok D P N g"

lemma part_same: "same_fs g g' \<Longrightarrow> part_ok D P N g \<Longrightarrow> part_ok D P N g'"
  by (simp add: part_ok_def chain_ok_same pool_same)

lemma free_same: "same_fs g g' \<Longrightarrow> free_blocks D P g' = free_blocks D P g"
  by (simp add: free_blocks_def used_same)

lemma part_read:
  assumes "part_ok D P N g" "n \<le> N"
  obtains g' where "GemFS_ReadEntry D P (of_nat n) g = Some (entry g D P n, g')" "part_ok D P N g'"
    "entry g' D P = entry g D P" "free_blocks D P g' = free_blocks D P g"
proof -
  obtain g' where "GemFS_ReadEntry D P (of_nat n) g = Some (entry g D P n, g')" "same_fs g g'"
    using read_entry_ok assms by (metis part_ok_def)
  then show thesis using that part_same [OF _ assms(1)] entry_same free_same by blast
qed

lemma part_write:
  assumes "part_ok D P N g" "n \<le> N" "length (e_Name e) = 128"
    "n < N \<Longrightarrow> e_Next_Index_Start e = e_Next_Index_Start (entry g D P n)"
  obtains g' where "GemFS_WriteEntry D P (of_nat n) e g = Some g'" "part_ok D P N g'"
    "\<And>k. k \<le> N \<Longrightarrow> entry g' D P k = (if k = n then e else entry g D P k)" "free_blocks D P g' = free_blocks D P g"
proof -
  have ok: "chain_ok D P N g" "pool_ok D P N g" using assms(1) by (simp_all add: part_ok_def)
  obtain g' sec m where w: "GemFS_WriteEntry D P (of_nat n) e g = Some g'" "chain_ok D P N g'"
    "\<forall>k \<le> N. entry_block g' D P k = entry_block g D P k \<and> entry g' D P k = (if k = n then e else entry g D P k)"
    "written D P (entry_block g D P n) sec m g g'"
    using write_entry_ok [OF ok(1) assms(2-4)] by blast
  have "entry_block g D P n \<noteq> 4" using ok(2) assms(2) by (simp add: pool_ok_def)
  note u = used_written_ok [OF ok(1) assms(2) w(4,2) this]
  have "free_blocks D P g' = free_blocks D P g" by (simp add: free_blocks_def u(1))
  moreover have "broken g' = broken g" by (rule writtenD(3) [OF w(4)])
  ultimately have "pool_ok D P N g'" using ok(2) w(3) u by (simp add: pool_ok_def)
  then show thesis using that w(1-3) \<open>free_blocks D P g' = free_blocks D P g\<close> by (simp add: part_ok_def)
qed

text \<open>Finding a free block and marking it.\<close>

lemma part_take:
  assumes "part_ok D P N g" "free_blocks D P g \<noteq> {}"
  obtains g1 g2 b where "GemFS_FindFreeBlock D P g = Some (b, g1)" "GemFS_FBB_SetBlock D P b g1 = Some g2"
    "b \<in> free_blocks D P g" "part_ok D P N g2" "free_blocks D P g2 = free_blocks D P g - {b}"
    "\<And>k. k \<le> N \<Longrightarrow> entry g2 D P k = entry g D P k"
proof -
  have ok: "chain_ok D P N g" "pool_ok D P N g" "fbb_ok D P g" using assms(1) by (simp_all add: part_ok_def pool_ok_def)
  let ?b = "Min (free_blocks D P g)"
  obtain g2 where take: "take_block D P g = Some (?b, g2)" "same_but_fbb D P g g2"
    "free_blocks D P g2 = free_blocks D P g - {?b}" using take_block_spec [OF ok(3) assms(2)] by blast
  have b: "?b \<in> free_blocks D P g" using assms(2) by simp
  note c = chain_fbb [OF take(2) ok(1,2)]
  have "used_blocks D P x \<subseteq> {b. b < 512}" for x by (auto simp: used_blocks_def)
  then have "used_blocks D P g \<subseteq> used_blocks D P g2" using take(3) unfolding free_blocks_def by blast
  then have "pool_ok D P N g2"
    using ok(2) c(1) take(3) fbb_ok_same [OF take(2) ok(3)] same_but_fbbD [OF take(2)] lba_fbb [OF take(2)]
    by (auto simp: pool_ok_def)
  with c take show thesis using that b by (auto simp: take_block_def bind_eq_Some_conv part_ok_def)
qed

lemma part_name: "part_ok D P N g \<Longrightarrow> length (e_Name (entry g D P n)) = 128"
  by (cases "n = 0") (simp_all add: part_ok_def chain_ok_def entry_def entry_in_def decode_entry_def field_def)

text \<open>Reading the entry after the last one.\<close>

lemma part_read_creates:
  assumes "part_ok D P N g" "free_blocks D P g \<noteq> {}" "Suc N < 2 ^ 32" "1 \<le> N" "e_Next_Index_Start (entry g D P N) = 0"
  obtains g' b where "GemFS_ReadEntry D P (of_nat (Suc N)) g = Some (fresh_entry g (of_nat (Suc N)) 0, g')"
    "part_ok D P (Suc N) g'" "b \<in> free_blocks D P g" "free_blocks D P g' = free_blocks D P g - {b}"
    "\<And>k. k \<le> N \<Longrightarrow> entry g' D P k = (if k = N then (entry g D P N)\<lparr>e_Next_Index_Start := b\<rparr> else entry g D P k)"
    "entry g' D P (Suc N) = fresh_entry g (of_nat (Suc N)) 0"
proof -
  let ?b = "Min (free_blocks D P g)"
  obtain g1 where 1: "gem_run D P (Get_Entry_Block (of_nat (Suc N))) g = Some (Block ?b, g1)"
    "part_ok D P (Suc N) g1" "entry_block g1 D P (Suc N) = ?b"
    "\<forall>k \<le> N. entry g1 D P k = (if k = N then (entry g D P N)\<lparr>e_Next_Index_Start := ?b\<rparr> else entry g D P k)"
    "entry g1 D P (Suc N) = fresh_entry g (of_nat (Suc N)) 0" "free_blocks D P g1 = free_blocks D P g - {?b}"
    using walk_creates assms by (metis part_ok_def)
  let ?sec = "sector g1 D (GemFS_BlockToLBA g1 D P ?b)"
  have c: "chain_ok D P (Suc N) g1" using 1(2) by (simp add: part_ok_def)
  have "\<not> broken g1 D (GemFS_BlockToLBA g1 D P (entry_block g1 D P (Suc N)))"
    using c by (simp add: chain_ok_def del: entry_block_Suc)
  then have at: "read_entry_at D P ?b g1 = Some (entry_in g1 D P ?b, g1\<lparr>Entry_Buffer := ?sec\<rparr>)"
    using 1(3) by (simp add: read_entry_at_def read_one entry_in_def)
  have e: "entry_in g1 D P ?b = fresh_entry g (of_nat (Suc N)) 0"
    using 1(3,5) by (simp add: entry_def del: entry_block_Suc)
  have "(of_nat (Suc N) :: u64) \<noteq> 0" using of_nat_index_0 [of "Suc N"] assms(3) by simp
  then have r: "GemFS_ReadEntry D P (of_nat (Suc N)) g = Some (fresh_entry g (of_nat (Suc N)) 0, g1\<lparr>Entry_Buffer := ?sec\<rparr>)"
    using 1(1) at e by (simp add: GemFS_ReadEntry_def del: of_nat_Suc) (subst gem_run.simps, simp del: of_nat_Suc)
  have s: "same_fs g1 (g1\<lparr>Entry_Buffer := ?sec\<rparr>)"
    using c unfolding same_fs_def chain_ok_def
    by (intro exI [of _ ?sec] exI [of _ "Enumeration_Buffer g1"]) simp
  have b: "?b \<in> free_blocks D P g" using assms(2) by simp
  show thesis
    using that [OF r part_same [OF s 1(2)] b] 1(4-6) unfolding entry_same [OF s] free_same [OF s] by blast
qed

text \<open>The scan for a free entry reads every entry in use and creates the next one.\<close>

definition one_more :: "nat \<Rightarrow> nat \<Rightarrow> nat \<Rightarrow> gemfs \<Rightarrow> gemfs \<Rightarrow> bool" where
  "one_more D P N g g' \<longleftrightarrow> part_ok D P (Suc N) g' \<and> (\<exists>b. b \<in> free_blocks D P g \<and> free_blocks D P g' = free_blocks D P g - {b} \<and>
     (\<forall>k \<le> N. entry g' D P k = (if k = N then (entry g D P N)\<lparr>e_Next_Index_Start := b\<rparr> else entry g D P k)))"

lemma find_free_entry_ok:
  assumes "part_ok D P N g" "free_blocks D P g \<noteq> {}" "Suc N < 2 ^ 32" "1 \<le> N" "e_Next_Index_Start (entry g D P N) = 0"
    "\<forall>k \<le> N. e_Flags (entry g D P k) AND 1 \<noteq> 0" "i \<le> N"
  shows "\<exists>g'. find_free_entry D P (entry g D P i) (of_nat (Suc i)) g = Some (of_nat (Suc N), g') \<and> one_more D P N g g'"
  using assms
proof (induction "N - i" arbitrary: i g)
  case (0 i g)
  then have i: "i = N" by simp
  obtain g' b where 1: "GemFS_ReadEntry D P (of_nat (Suc N)) g = Some (fresh_entry g (of_nat (Suc N)) 0, g')"
    "part_ok D P (Suc N) g'" "b \<in> free_blocks D P g" "free_blocks D P g' = free_blocks D P g - {b}"
    "\<And>k. k \<le> N \<Longrightarrow> entry g' D P k = (if k = N then (entry g D P N)\<lparr>e_Next_Index_Start := b\<rparr> else entry g D P k)"
    using part_read_creates [OF 0(2-6)] by metis
  have "find_free_entry D P (fresh_entry g (of_nat (Suc N)) 0) (of_nat (Suc N) + 1) g' = Some (of_nat (Suc N), g')"
    by (subst find_free_entry.simps) (simp add: fresh_entry_def)
  then have "find_free_entry D P (entry g D P i) (of_nat (Suc i)) g = Some (of_nat (Suc N), g')"
    using 1(1) 0(7) i by (subst find_free_entry.simps) (simp del: of_nat_Suc)
  moreover have "one_more D P N g g'" unfolding one_more_def using 1(2-5) by blast
  ultimately show ?case by blast
next
  case (Suc d i g)
  then have i: "Suc i \<le> N" and d: "d = N - Suc i" by simp_all
  have c: "chain_ok D P N g" using Suc.prems(1) by (simp add: part_ok_def)
  obtain g1 where 1: "GemFS_ReadEntry D P (of_nat (Suc i)) g = Some (entry g D P (Suc i), g1)" "same_fs g g1"
    using read_entry_ok [OF c i] by blast
  note s = entry_same [OF 1(2)] free_same [OF 1(2)]
  obtain g2 where 2: "find_free_entry D P (entry g D P (Suc i)) (of_nat (Suc (Suc i))) g1 = Some (of_nat (Suc N), g2)"
    "one_more D P N g1 g2"
    using Suc.hyps(1) [OF d, of g1] Suc.prems i part_same [OF 1(2) Suc.prems(1)] unfolding s by auto
  have used: "e_Flags (entry g D P i) AND 1 \<noteq> 0" using Suc.prems(6,7) by blast
  have nxt: "(of_nat (Suc (Suc i)) :: u64) = of_nat (Suc i) + 1" by simp
  have "find_free_entry D P (entry g D P i) (of_nat (Suc i)) g = Some (of_nat (Suc N), g2)"
    using 1(1) used 2(1) unfolding nxt by (subst find_free_entry.simps) (simp del: of_nat_Suc)
  then show ?case using 2(2) unfolding one_more_def s by blast
qed

lemma last_sibling_ok:
  assumes "part_ok D P N g" "sibling_chain (entry g D P) ks" "\<forall>k \<in> set ks. k \<le> N"
  shows "\<exists>g'. last_sibling D P (entry g D P (hd ks)) g = Some (entry g D P (last ks), g') \<and> same_fs g g'"
  using assms
proof (induction ks arbitrary: g rule: induct_list012)
  case (2 k)
  have "chain_ok D P N g" using 2(1) by (simp add: part_ok_def)
  then show ?case using 2 same_fs_refl by (subst last_sibling.simps) auto
next
  case (3 k l ks)
  have c: "chain_ok D P N g" using 3(3) by (simp add: part_ok_def)
  have l: "l \<le> N" "l \<noteq> 0" "e_Sibling_Index (entry g D P k) = of_nat l" using 3(4,5) by simp_all
  then have nz: "e_Sibling_Index (entry g D P k) \<noteq> 0" using of_nat_index_0 [OF chain_index [OF c l(1)]] by simp
  obtain g1 where 1: "GemFS_ReadEntry D P (of_nat l) g = Some (entry g D P l, g1)" "same_fs g g1"
    using read_entry_ok [OF c l(1)] by blast
  obtain g2 where "last_sibling D P (entry g D P l) g1 = Some (entry g D P (last (l # ks)), g2)" "same_fs g1 g2"
    using "3.IH"(2) [OF part_same [OF 1(2) 3(3)]] 3(4,5) unfolding entry_same [OF 1(2)] by auto
  then show ?case using nz l(3) 1(1) same_fs_trans [OF 1(2)] by (subst last_sibling.simps) auto
qed simp

text \<open>The entries \<open>ks\<close> are the children of \<open>p\<close>.\<close>

definition children :: "(nat \<Rightarrow> gem_entry) \<Rightarrow> nat \<Rightarrow> nat list \<Rightarrow> bool" where
  "children f p ks \<longleftrightarrow> p \<notin> set ks \<and> 0 \<notin> set ks \<and> distinct ks \<and>
     (if ks = [] then e_Start (f p) = 0 else e_Start (f p) = of_nat (hd ks) \<and> sibling_chain f ks)"

lemma sibling_chain_cong:
  "\<forall>k \<in> set ks. e_Sibling_Index (f k) = e_Sibling_Index (h k) \<Longrightarrow> sibling_chain f ks = sibling_chain h ks"
  by (induction ks rule: induct_list012) auto

lemma sibling_chain_snoc:
  assumes "ks \<noteq> []" "sibling_chain f ks" "distinct ks" "n \<noteq> 0" "e_Sibling_Index (h (last ks)) = of_nat n"
    "\<forall>k \<in> set ks - {last ks}. e_Sibling_Index (h k) = e_Sibling_Index (f k)" "e_Sibling_Index (h n) = 0"
  shows "sibling_chain h (ks @ [n])"
  using assms
proof (induction ks rule: induct_list012)
  case (3 k l ks)
  have "sibling_chain h ((l # ks) @ [n])" using 3 by (intro "3.IH"(2)) auto
  moreover have "k \<noteq> last (k # l # ks)" using 3(5) last_in_set [of "l # ks"] by (metis distinct.simps(2) last_ConsR list.distinct(1))
  then have "e_Sibling_Index (h k) = e_Sibling_Index (f k)" using 3(8) by simp
  ultimately show ?case using 3(4) by simp
qed auto

lemma link_child:
  assumes "part_ok D P M g" "children (entry g D P) p ks" "named M (entry g D P) ks"
  shows "\<exists>g'. (if e_Start (entry g D P p) \<noteq> 0 then do {
            (cur, g) \<leftarrow> GemFS_ReadEntry D P (e_Start (entry g D P p)) g;
            (cur, g) \<leftarrow> last_sibling D P cur g;
            GemFS_WriteEntry D P (e_Index cur) (cur\<lparr>e_Sibling_Index := i\<rparr>) g }
          else Some g) = Some g' \<and> part_ok D P M g' \<and> free_blocks D P g' = free_blocks D P g \<and>
    (\<forall>k \<le> M. entry g' D P k = (if ks \<noteq> [] \<and> k = last ks then (entry g D P k)\<lparr>e_Sibling_Index := i\<rparr> else entry g D P k))"
proof (cases "ks = []")
  case True
  then show ?thesis using assms by (simp add: children_def)
next
  case False
  then have ch: "e_Start (entry g D P p) = of_nat (hd ks)" "sibling_chain (entry g D P) ks" "hd ks \<noteq> 0"
    using assms(2) False by (auto simp: children_def intro!: Nat.gr0I dest: hd_in_set)
  have le: "\<forall>k \<in> set ks. k \<le> M" "hd ks \<le> M" "last ks \<le> M" "e_Index (entry g D P (last ks)) = of_nat (last ks)"
    using assms(3) False by (simp_all add: named_def)
  have "hd ks < 2 ^ 64" using assms(1) le(2) by (simp add: part_ok_def chain_ok_def)
  then have nz: "e_Start (entry g D P p) \<noteq> 0" using ch(1,3) of_nat_index_0 by simp
  obtain g1 where 1: "GemFS_ReadEntry D P (of_nat (hd ks)) g = Some (entry g D P (hd ks), g1)" "part_ok D P M g1"
    "entry g1 D P = entry g D P" "free_blocks D P g1 = free_blocks D P g"
    using assms(1) le(2) by (rule part_read)
  obtain g2 where 2: "last_sibling D P (entry g D P (hd ks)) g1 = Some (entry g D P (last ks), g2)" "same_fs g1 g2"
    using last_sibling_ok [OF 1(2), of ks] ch(2) le(1) unfolding 1(3) by blast
  let ?e = "(entry g D P (last ks))\<lparr>e_Sibling_Index := i\<rparr>"
  have "length (e_Name ?e) = 128" using part_name [OF assms(1)] by simp
  then obtain g3 where "GemFS_WriteEntry D P (of_nat (last ks)) ?e g2 = Some g3" "part_ok D P M g3"
    "\<And>k. k \<le> M \<Longrightarrow> entry g3 D P k = (if k = last ks then ?e else entry g2 D P k)" "free_blocks D P g3 = free_blocks D P g2"
    using part_write [OF part_same [OF 2(2) 1(2)] le(3), of ?e] by (auto simp: entry_same [OF 2(2)] 1(3))
  then show ?thesis
    using nz ch(1) 1 2(1) le(4) False entry_same [OF 2(2)] free_same [OF 2(2)] by auto
qed

lemma one_more_entry:
  assumes "one_more D P N g g1" "k \<le> N"
  shows "e_Start (entry g1 D P k) = e_Start (entry g D P k)" "e_Index (entry g1 D P k) = e_Index (entry g D P k)"
    "e_Sibling_Index (entry g1 D P k) = e_Sibling_Index (entry g D P k)" "e_Name (entry g1 D P k) = e_Name (entry g D P k)"
    "k \<noteq> N \<Longrightarrow> entry g1 D P k = entry g D P k"
  using assms by (auto simp: one_more_def)

lemma children_cong:
  assumes "e_Start (h p) = e_Start (f p)" "\<forall>k \<in> set ks. e_Sibling_Index (h k) = e_Sibling_Index (f k)"
  shows "children h p ks = children f p ks"
  using assms sibling_chain_cong [of ks h f] by (simp add: children_def)

lemma named_cong:
  assumes "\<forall>k \<in> set ks. e_Index (h k) = e_Index (f k) \<and> e_Name (h k) = e_Name (f k)" "N \<le> M" "named N f ks"
  shows "named M h ks"
  using assms by (auto simp: named_def)

lemma children_snoc:
  assumes f: "children f p ks" and ks: "\<forall>k \<in> set ks. k < 2 ^ 64 \<and> k \<noteq> n" and n: "n \<noteq> p" "n \<noteq> 0"
    and p: "h p = (if e_Start (f p) = 0 then (f p)\<lparr>e_Start := of_nat n\<rparr> else f p)"
    and h: "\<And>k. k \<in> set ks \<Longrightarrow> h k = (if k = last ks then (f k)\<lparr>e_Sibling_Index := of_nat n\<rparr> else f k)"
    and hn: "e_Sibling_Index (h n) = 0"
  shows "children h p (ks @ [n])"
proof (cases "ks = []")
  case True
  then show ?thesis using f n p hn by (simp add: children_def)
next
  case False
  then have l: "last ks \<in> set ks" and hd: "hd ks \<in> set ks" by simp_all
  have "hd ks \<noteq> 0" using f hd unfolding children_def by (metis)
  then have "(of_nat (hd ks) :: u64) \<noteq> 0" using of_nat_index_0 [of "hd ks"] ks hd by simp
  then have "e_Start (h p) = of_nat (hd ks)" using f False by (simp add: p children_def)
  moreover have "sibling_chain h (ks @ [n])"
    using f False n(2) h [OF l] h hn by (intro sibling_chain_snoc [of ks f]) (simp_all add: children_def)
  ultimately show ?thesis using f False ks n by (auto simp: children_def)
qed

definition new_directory :: "nat \<Rightarrow> nat \<Rightarrow> u8 \<Rightarrow> u8 list \<Rightarrow> gem_entry" where
  "new_directory n p flags name = zero_entry\<lparr>e_Flags := flags, e_Index := of_nat n, e_Parent_Index := of_nat p,
     e_Name := name @ replicate (128 - length name) 0\<rparr>"

lemma mkdir_adds_child:
  assumes dp: "D = F0" "P = 1" and as: "part_ok D P N g" "2 \<le> card (free_blocks D P g)" "Suc N < 2 ^ 32" "1 \<le> N"
    "e_Next_Index_Start (entry g D P N) = 0" "\<forall>k \<le> N. e_Flags (entry g D P k) AND 1 \<noteq> 0" "p \<le> N"
    "children (entry g D P) p ks" "named N (entry g D P) ks" "name_len \<le> length name" "name_len < 128"
  shows "\<exists>g'. GemFS_mkdir D P name name_len flags (of_nat p) g = Some (of_nat (Suc N), g') \<and>
    part_ok D P (Suc N) g' \<and> entry g' D P (Suc N) = new_directory (Suc N) p flags (take name_len name) \<and>
    children (entry g' D P) p (ks @ [Suc N]) \<and> named (Suc N) (entry g' D P) (ks @ [Suc N]) \<and>
    (\<forall>k \<le> N. k \<notin> {p, N} \<union> set ks \<longrightarrow> entry g' D P k = entry g D P k) \<and>
    card (free_blocks D P g') = card (free_blocks D P g) - 2"
proof -
  let ?e = "\<lambda>g. entry g D P"
  define new where "new = new_directory (Suc N) p flags (take name_len name)"
  have len: "length (take name_len name) = name_len" using as(10) by simp
  let ?new = "zero_entry\<lparr>e_Flags := flags, e_Index := of_nat (Suc N), e_Parent_Index := of_nat p\<rparr>"
  have free: "free_blocks D P g \<noteq> {}" using as(2) by auto
  obtain g1 where 1: "GemFS_FindFreeEntry D P g = Some (of_nat (Suc N), g1)" "one_more D P N g g1"
    using find_free_entry_ok [OF as(1) free as(3-6), of 0] by (auto simp: GemFS_FindFreeEntry_def entry_def)
  note e1 = one_more_entry [OF 1(2)]
  obtain b where b: "part_ok D P (Suc N) g1" "b \<in> free_blocks D P g" "free_blocks D P g1 = free_blocks D P g - {b}"
    using 1(2) by (auto simp: one_more_def)
  then have c1: "card (free_blocks D P g1) = card (free_blocks D P g) - 1" by simp
  then have "free_blocks D P g1 \<noteq> {}" using as(2) by auto
  from part_take [OF b(1) this] obtain g2 g3 b' where 3: "GemFS_FindFreeBlock D P g1 = Some (b', g2)"
    "GemFS_FBB_SetBlock D P b' g2 = Some g3" "b' \<in> free_blocks D P g1" "part_ok D P (Suc N) g3"
    "free_blocks D P g3 = free_blocks D P g1 - {b'}" "\<And>k. k \<le> Suc N \<Longrightarrow> ?e g3 k = ?e g1 k" by metis
  obtain e4 g4 where 4: "GemFS_ReadEntry D P (of_nat (Suc N)) g3 = Some (e4, g4)" "part_ok D P (Suc N) g4"
    "?e g4 = ?e g3" "free_blocks D P g4 = free_blocks D P g3" using part_read [OF 3(4) order_refl] by metis
  obtain g5 where 5: "GemFS_ReadEntry D P (of_nat p) g4 = Some (?e g4 p, g5)" "part_ok D P (Suc N) g5"
    "?e g5 = ?e g4" "free_blocks D P g5 = free_blocks D P g4" using part_read [OF 4(2), of p] as(7) by auto
  have ks: "\<forall>k \<in> set ks. k \<le> N" using as(9) by (simp add: named_def)
  have e5: "?e g5 k = ?e g1 k" if "k \<le> Suc N" for k using that by (simp add: 5(3) 4(3) 3(6))
  have ch5: "children (?e g5) p ks" "named (Suc N) (?e g5) ks"
    using as(7-9) ks e1 by (auto simp: e5 intro!: children_cong [THEN iffD2, OF _ _ as(8)] named_cong [OF _ _ as(9)])
  obtain g6 where 6: "(if e_Start (?e g5 p) \<noteq> 0 then do {
            (cur, g) \<leftarrow> GemFS_ReadEntry D P (e_Start (?e g5 p)) g5;
            (cur, g) \<leftarrow> last_sibling D P cur g;
            GemFS_WriteEntry D P (e_Index cur) (cur\<lparr>e_Sibling_Index := of_nat (Suc N)\<rparr>) g }
          else Some g5) = Some g6" "part_ok D P (Suc N) g6" "free_blocks D P g6 = free_blocks D P g5"
    "\<forall>k \<le> Suc N. ?e g6 k = (if ks \<noteq> [] \<and> k = last ks then (?e g5 k)\<lparr>e_Sibling_Index := of_nat (Suc N)\<rparr> else ?e g5 k)"
    using link_child [OF 5(2) ch5] by blast
  have name: "blit (e_Name ?new) (take name_len name) = Some (e_Name new)"
    using as(10,11) by (simp add: blit_def zero_entry_def new_def new_directory_def)
  have new: "?new\<lparr>e_Name := e_Name new\<rparr> = new" by (simp add: new_def new_directory_def)
  have "length (e_Name new) = 128" using as(10,11) by (simp add: new_def new_directory_def)
  then obtain g7 where 7: "GemFS_WriteEntry D P (of_nat (Suc N)) new g6 = Some g7" "part_ok D P (Suc N) g7"
    "\<And>k. k \<le> Suc N \<Longrightarrow> ?e g7 k = (if k = Suc N then new else ?e g6 k)" "free_blocks D P g7 = free_blocks D P g6"
    using part_write [OF 6(2) order_refl] by (metis less_irrefl)
  let ?p = "if e_Start (?e g5 p) = 0 then (?e g5 p)\<lparr>e_Start := of_nat (Suc N)\<rparr> else ?e g5 p"
  have p: "p \<noteq> Suc N" "p \<le> Suc N" "ks \<noteq> [] \<Longrightarrow> p \<noteq> last ks" using as(7,8) by (auto simp: children_def)
  have "length (e_Name ?p) = 128" using part_name [OF 5(2)] by simp
  moreover have "e_Next_Index_Start ?p = e_Next_Index_Start (?e g7 p)" using 7(3) [OF p(2)] 6(4) p by simp
  ultimately obtain g8 where 8: "GemFS_WriteEntry D P (of_nat p) ?p g7 = Some g8" "part_ok D P (Suc N) g8"
    "\<And>k. k \<le> Suc N \<Longrightarrow> ?e g8 k = (if k = p then ?p else ?e g7 k)" "free_blocks D P g8 = free_blocks D P g7"
    using part_write [OF 7(2) p(2), of ?p] by metis
  have run: "GemFS_mkdir D P name name_len flags (of_nat p) g = Some (of_nat (Suc N), g8)"
    unfolding GemFS_mkdir_def dp [symmetric]
    by (simp only: 1(1) 3(1,2) 4(1) 5(1) 5(3) [symmetric] 6(1) name new 7(1) 8(1) as(10) Let_def
        Option.bind.simps prod.case if_True)
  have e8: "?e g8 k = (if k = Suc N then new else if k = p then ?p
      else if ks \<noteq> [] \<and> k = last ks then (?e g1 k)\<lparr>e_Sibling_Index := of_nat (Suc N)\<rparr> else ?e g1 k)" if "k \<le> Suc N" for k
    using that p 6(4) by (simp add: 8(3) 7(3) e5)
  have e8_ks: "?e g8 k = (if k = last ks then (?e g5 k)\<lparr>e_Sibling_Index := of_nat (Suc N)\<rparr> else ?e g5 k)" if "k \<in> set ks" for k
  proof -
    have "k \<noteq> Suc N" "k \<le> Suc N" "k \<noteq> p" "ks \<noteq> []" using that ks ch5(1) by (auto simp: children_def)
    then show ?thesis by (simp add: e8 e5)
  qed
  have ch: "children (?e g8) p (ks @ [Suc N])"
  proof (rule children_snoc [OF ch5(1)])
    show "\<forall>k \<in> set ks. k < 2 ^ 64 \<and> k \<noteq> Suc N" using ks as(3) by auto
  qed (use p e8 [of p] e8 [of "Suc N"] e8_ks in \<open>simp_all add: new_def new_directory_def zero_entry_def\<close>)
  have "named (Suc N) (?e g8) ks" using p(1) ks by (intro named_cong [OF _ order_refl ch5(2)]) (auto simp: e8 e5)
  moreover have "0 \<in> set (e_Name new)" using as(11) len by (simp add: new_def new_directory_def)
  moreover have idx: "e_Index new = of_nat (Suc N)" by (simp add: new_def new_directory_def)
  ultimately have nm: "named (Suc N) (?e g8) (ks @ [Suc N])"
    using e8 [OF order_refl] idx by (auto simp: named_def simp del: of_nat_Suc)
  have rest: "?e g8 k = ?e g k" if "k \<le> N" "k \<notin> {p, N} \<union> set ks" for k
    using that e8 [of k] e1(5) [of k] by (cases "ks = []") auto
  have card: "card (free_blocks D P g8) = card (free_blocks D P g) - 2"
    unfolding 8(4) 7(4) 6(3) 5(4) 4(4) 3(5) using 3(3) c1 by simp
  have last: "?e g8 (Suc N) = new_directory (Suc N) p flags (take name_len name)"
    using e8 [OF order_refl] by (simp only: new_def simp_thms if_True)
  show ?thesis
    by (rule exI [of _ g8], intro conjI allI impI) (rule run 8(2) last ch nm card | erule (1) rest)+
qed


section \<open>Paths\<close>

definition path_result :: "(u64 \<times> gemfs) option \<Rightarrow> (u64 \<times> gemfs) option" where
  "path_result m = do { (r, g) \<leftarrow> m; Some (if (ucast r :: u32) = - 1 then - 1 else scast (ucast r :: u32), g) }"

lemma directory_loop_name:
  assumes "dir = pre @ cs @ [0]" "last_i \<le> length pre" "\<forall>c \<in> set cs. c \<noteq> 47 \<and> c \<noteq> 0"
    "length pre - last_i + length cs \<le> length scan"
  shows "directory_loop D P dir (length pre) last_i idx scan g =
    path_result (GemFS_Find_Index_By_Name D P
      (take (length pre - last_i) scan @ cs @ drop (length pre - last_i + length cs) scan) (scast idx) g)"
  using assms
proof (induction cs arbitrary: pre scan)
  case Nil
  then show ?case
    by (subst directory_loop.simps) (auto simp: buf_get_def nth_append path_result_def split: bind_split)
next
  case (Cons c cs)
  let ?i = "length pre - last_i"
  have get: "buf_get dir (length pre) = Some c" using Cons.prems(1) by (simp add: buf_get_def nth_append)
  have "directory_loop D P dir (length pre) last_i idx scan g =
      directory_loop D P dir (length (pre @ [c])) last_i idx (scan[?i := c]) g"
    using Cons.prems(3,4) get by (subst directory_loop.simps) (simp add: buf_put_def)
  also have "\<dots> = path_result (GemFS_Find_Index_By_Name D P
      (take (length (pre @ [c]) - last_i) (scan[?i := c]) @ cs @ drop (length (pre @ [c]) - last_i + length cs) (scan[?i := c])) (scast idx) g)"
    using Cons.prems by (intro Cons.IH) auto
  also have "take (length (pre @ [c]) - last_i) (scan[?i := c]) = take ?i scan @ [c]"
    using Cons.prems(2,4) by (simp add: Suc_diff_le take_Suc_conv_app_nth)
  also have "drop (length (pre @ [c]) - last_i + length cs) (scan[?i := c]) = drop (?i + length (c # cs)) scan"
    using Cons.prems(2) by (simp add: Suc_diff_le)
  finally show ?case by simp
qed

text \<open>The first name of a path is looked up with whatever the stack holds behind it: the array it
  is copied to is not cleared before the first name, and no NUL is written after the name.
  For the names after a slash the array has been cleared.\<close>

theorem GemFS_Directory_to_Index_first_name:
  assumes "\<forall>c \<in> set cs. c \<noteq> 47 \<and> c \<noteq> 0" "length cs \<le> length (stack_scan g)"
  shows "GemFS_Directory_to_Index D P (47 # cs @ [0]) g =
    path_result (GemFS_Find_Index_By_Name D P (cs @ drop (length cs) (stack_scan g)) 0 g)"
proof -
  have "calculate_string_length (47 # cs @ [0]) = Some (length (c_string (47 # cs @ [0])))"
    by (rule string_length_c_string) simp
  then show ?thesis
    using directory_loop_name [of "47 # cs @ [0]" "[47]" cs 1 "stack_scan g" D P 0 g] assms
    by (simp add: GemFS_Directory_to_Index_def)
qed

section \<open>A small partition\<close>

text \<open>Partition 1 of drive 0 starts at sector 0. It has the main entry and the directory \<open>dev\<close>, in
  block 6; the blocks 0 to 6 are in use. The uninitialised locals hold zeros.\<close>

definition dev_entry :: gem_entry where
  "dev_entry = new_directory 1 0 0b00010111 (chars ''dev'')"

definition sample_main :: gem_main where
  "sample_main = format_main\<lparr>main_Entry := (main_Entry format_main)\<lparr>e_Start := 1, e_Next_Index_Start := 6\<rparr>\<rparr>"

definition sample_sector :: "gem_main \<Rightarrow> u64 \<Rightarrow> u8 list" where
  "sample_sector m lba =
     (if lba = 1 then encode_main m @ replicate 328 0
      else if lba = 6 then encode_entry dev_entry @ replicate 334 0
      else if lba = 4 then List.map (\<lambda>n. if n < 7 then 2 ^ n else 0) [0..<512]
      else replicate 512 0)"

definition sample_partition :: mbr_partition where
  "sample_partition = \<lparr>Status = 0, Reserved_0 = 0, Reserved_1 = 0, Part_Type = 0xC8, Reserved_2 = 0, Reserved_3 = 0,
     LBA_Start = 0, Sector_Count = 2880\<rparr>"

definition sample_of :: "gem_main \<Rightarrow> gemfs" where
  "sample_of m = \<lparr>sectors = \<lambda>D lba i. sample_sector m lba ! i, broken = \<lambda>D lba. False,
     Drives = \<lambda>D. \<lparr>DriveID = D, PartitionTable = \<lambda>P. sample_partition, Main_Entries = \<lambda>P. m\<rparr>,
     Entry_Buffer = replicate 512 0, Enumeration_Buffer = replicate 512 0, SectorBuffer = replicate 512 0,
     FBB_Read = replicate 512 0, FBB_Block = replicate 4096 0, GemFS_FBB_Size = 8,
     stack_entry = zero_entry, stack_scan = replicate 128 0, messages = []\<rparr>"

abbreviation sample_gemfs :: gemfs where "sample_gemfs \<equiv> sample_of sample_main"

definition main_ok :: "gem_main \<Rightarrow> bool" where
  "main_ok m \<longleftrightarrow> length (check m) = 4 \<and> Block_Size m = 1 \<and> length (e_Name (main_Entry m)) = 128"

lemma sample_main_ok [simp]: "main_ok sample_main" "main_ok format_main"
  by (simp_all add: main_ok_def sample_main_def format_main_def zero_entry_def chars_def)

lemma dev_entry_name [simp]: "length (e_Name dev_entry) = 128"
  by (simp add: dev_entry_def new_directory_def chars_def)

lemma sample_sectors [simp]:
  assumes "main_ok m"
  shows "sector (sample_of m) D lba = sample_sector m lba"
    "decode_main (sample_sector m 1) = m" "decode_entry (sample_sector m 6) = dev_entry"
proof -
  have "length (sample_sector m lba) = 512"
    using assms by (simp add: sample_sector_def length_encode_main length_encode_entry main_ok_def)
  then show "sector (sample_of m) D lba = sample_sector m lba"
    using map_nth [of "sample_sector m lba"] by (simp add: sample_of_def sector_def)
  show "decode_main (sample_sector m 1) = m" "decode_entry (sample_sector m 6) = dev_entry"
    using assms by (simp_all add: sample_sector_def decode_encode_main decode_encode_entry main_ok_def)
qed

lemma sample_simps [simp]:
  "main_of (sample_of m) D P = m" "partition_of (sample_of m) D P = sample_partition"
  "broken (sample_of m) D lba \<longleftrightarrow> False" "stack_entry (sample_of m) = zero_entry"
  "main_ok m \<Longrightarrow> GemFS_BlockToLBA (sample_of m) D P b = b"
  by (simp_all add: main_of_def partition_of_def sample_of_def GemFS_BlockToLBA_def sample_partition_def main_ok_def)

lemma sample_entry_0 [simp]: "entry (sample_of m) D P 0 = main_Entry m"
  by (simp add: entry_def)

lemma sample_entry [simp]:
  "entry_block sample_gemfs D P (Suc 0) = 6" "entry sample_gemfs D P (Suc 0) = dev_entry"
proof -
  show b: "entry_block sample_gemfs D P (Suc 0) = 6" by (simp add: sample_main_def)
  then show "entry sample_gemfs D P (Suc 0) = dev_entry"
    by (simp add: entry_def entry_in_def del: entry_block_Suc)
qed

lemma sample_used: "main_ok m \<Longrightarrow> used_blocks D P (sample_of m) = {b. b < 7}"
proof -
  assume m: "main_ok m"
  have "bit (sample_sector m 4 ! unat b) (unat (b mod 8)) \<longleftrightarrow> b < 7" if "b < 512" for b :: u64
  proof -
    have "unat b < 512" using that by (simp add: word_less_nat_alt)
    then have "sample_sector m 4 ! unat b = (if unat b < 7 then 2 ^ unat b else 0)" by (simp add: sample_sector_def)
    then show ?thesis by (auto simp: word_less_nat_alt unat_mod bit_exp_iff)
  qed
  moreover have "sectors (sample_of m) D lba i = sample_sector m lba ! i" for lba i by (simp add: sample_of_def)
  moreover have "b < 7 \<Longrightarrow> b < 512" for b :: u64 by (simp add: word_less_nat_alt)
  ultimately show ?thesis using m by (auto simp: used_blocks_def fbb_lba_def)
qed

lemma sample_fbb: "main_ok m \<Longrightarrow> fbb_ok D P (sample_of m)"
  unfolding fbb_ok_def by (simp add: main_ok_def) (simp add: sample_of_def)

lemma sample_pool:
  "main_ok m \<Longrightarrow> \<forall>k \<le> N. entry_block (sample_of m) D P k \<in> {b. b < 7} - {4} \<Longrightarrow> pool_ok D P N (sample_of m)"
  by (simp add: pool_ok_def sample_used sample_fbb zero_entry_def)

lemma sample_buffers: "length (Entry_Buffer (sample_of m)) = 512" "length (Enumeration_Buffer (sample_of m)) = 512"
  by (simp_all add: sample_of_def)

lemma sample_part: "part_ok F0 1 1 sample_gemfs"
proof -
  have "inj_on (entry_block sample_gemfs F0 1) {..1}" by (simp add: atMost_Suc del: entry_block_Suc)
  moreover have "main_ok sample_main" by simp
  moreover have "\<forall>n \<le> 1. entry_block sample_gemfs F0 1 n \<noteq> 0" by (auto simp: le_Suc_eq simp del: entry_block_Suc)
  ultimately have "chain_ok F0 1 1 sample_gemfs"
    by (simp add: chain_ok_def sample_buffers F0_def H0_def main_ok_def)
  moreover have "pool_ok F0 1 1 sample_gemfs"
    by (rule sample_pool) (auto simp: le_Suc_eq simp del: entry_block_Suc)
  ultimately show ?thesis by (simp add: part_ok_def)
qed

lemma fresh_part: "part_ok F0 1 0 (sample_of format_main)"
proof -
  have "main_ok format_main" by simp
  then have "chain_ok F0 1 0 (sample_of format_main)"
    by (simp add: chain_ok_def sample_buffers F0_def H0_def main_ok_def)
  moreover have "pool_ok F0 1 0 (sample_of format_main)" by (rule sample_pool) simp_all
  ultimately show ?thesis by (simp add: part_ok_def)
qed

lemma sample_free_blocks:
  assumes "main_ok m"
  shows "free_blocks D P (sample_of m) \<noteq> {}" "2 \<le> card (free_blocks D P (sample_of m))" "Min (free_blocks D P (sample_of m)) = 7"
proof -
  have f: "free_blocks D P (sample_of m) = {7..<512}"
    by (auto simp: free_blocks_def sample_used [OF assms])
  then have s: "{7, 8} \<subseteq> free_blocks D P (sample_of m)" by simp
  then show "free_blocks D P (sample_of m) \<noteq> {}" by auto
  show "2 \<le> card (free_blocks D P (sample_of m))" using card_mono [OF _ s] by simp
  show "Min (free_blocks D P (sample_of m)) = 7" unfolding f by (intro Min_eqI) auto
qed

lemma sample_children: "children (entry sample_gemfs F0 1) 0 [1]" "named 1 (entry sample_gemfs F0 1) [1]"
  by (simp_all add: children_def named_def)
    (simp_all add: sample_main_def dev_entry_def new_directory_def zero_entry_def chars_def)

text \<open>Witnesses of the theorems on the file system.\<close>

theorem GemFS_Find_Index_By_Name_first_witness:
  "\<exists>g1 g2. GemFS_Find_Index_By_Name F0 1 (chars ''dev'') 0 sample_gemfs = Some (1, g1) \<and>
     GemFS_Find_Index_By_Name F0 1 (chars ''etc'') 0 sample_gemfs = Some (- 1, g2)"
proof -
  have c: "chain_ok F0 1 1 sample_gemfs" using sample_part by (simp add: part_ok_def)
  have n: "name_of (entry sample_gemfs F0 1) 1 = c_string (chars ''dev'')"
    by (simp add: name_of_def) (simp add: dev_entry_def new_directory_def chars_def c_string_def)
  have ne: "c_string (chars ''dev'') \<noteq> c_string (chars ''etc'')" by (simp add: chars_def c_string_def)
  show ?thesis
    using GemFS_Find_Index_By_Name_first [OF c, of 0 "[1]" "chars ''dev''"] GemFS_Find_Index_By_Name_first [OF c, of 0 "[1]" "chars ''etc''"]
      sample_children n ne by (simp add: children_def) (auto simp add: sample_main_def format_main_def zero_entry_def chars_def)
qed


lemma sample_chain: "chain_ok F0 1 1 sample_gemfs" "pool_ok F0 1 1 sample_gemfs"
  "chain_ok F0 1 0 (sample_of format_main)" "pool_ok F0 1 0 (sample_of format_main)"
  using sample_part fresh_part by (simp_all only: part_ok_def)

theorem GemFS_FindFreeBlock_lowest_witness:
  "\<exists>g'. GemFS_FindFreeBlock F0 1 sample_gemfs = Some (7, g')"
  using GemFS_FindFreeBlock_lowest [OF sample_fbb, of sample_main F0 1] sample_free_blocks [of sample_main F0 1] by auto

theorem GemFS_FBB_SetBlock_marks_witness:
  "\<exists>g1 g2. GemFS_FBB_SetBlock F0 1 9 sample_gemfs = Some g1 \<and> GemFS_FBB_GetBlock F0 1 9 g1 = Some (True, g2)"
proof -
  have "(9 :: u64) < 512" by simp
  from GemFS_FBB_SetBlock_marks [OF sample_fbb [OF sample_main_ok(1)] this this, of F0 1] show ?thesis by auto
qed

theorem GemFS_FBB_SetBlock_far_lost_witness:
  "\<exists>g'. GemFS_FBB_SetBlock F0 1 600 sample_gemfs = Some g' \<and> sectors g' = sectors sample_gemfs"
proof -
  have "Block_Size (main_of sample_gemfs F0 1) = 1" "length (FBB_Block sample_gemfs) = 4096"
    using sample_fbb [OF sample_main_ok(1), of F0 1] by (simp_all add: fbb_ok_def)
  then show ?thesis by (rule GemFS_FBB_SetBlock_far_lost) simp_all
qed

theorem GemFS_entries_refine_map_witness:
  "\<exists>g2. GemFS_WriteEntry F0 1 1 (dev_entry\<lparr>e_Size := 3\<rparr>) sample_gemfs = Some g2 \<and>
     table F0 1 1 g2 = (table F0 1 1 sample_gemfs)(1 \<mapsto> dev_entry\<lparr>e_Size := 3\<rparr>)"
  using GemFS_entries_refine_map [OF sample_chain(1), of 1 dev_entry "dev_entry\<lparr>e_Size := 3\<rparr>"] by (auto simp: table_def)

theorem GemFS_CreateEntry_extends_witness:
  "\<exists>g'. GemFS_CreateEntry F0 1 2 0 sample_gemfs = Some g' \<and> chain_ok F0 1 2 g'"
proof -
  have "Suc 1 < 2 ^ 32" by simp
  from GemFS_CreateEntry_extends [OF sample_chain(1,2) sample_free_blocks(1) [OF sample_main_ok(1)] this, of 0]
  show ?thesis by (auto simp: numeral_2_eq_2)
qed

theorem GemFS_GetEntryBlock_creates_witness:
  "\<exists>g'. GemFS_GetEntryBlock F0 1 2 sample_gemfs = Some (7, g') \<and> entry_block g' F0 1 2 = 7"
proof -
  have "Suc 1 < 2 ^ 32" "e_Next_Index_Start (entry sample_gemfs F0 1 1) = 0"
    by simp_all (simp add: dev_entry_def new_directory_def zero_entry_def)
  from GemFS_GetEntryBlock_creates [OF sample_chain(1,2) sample_free_blocks(1) [OF sample_main_ok(1)] this(1) _ this(2)]
  show ?thesis using sample_free_blocks(3) [OF sample_main_ok(1), of F0 1] by (auto simp: numeral_2_eq_2 simp del: entry_block_Suc)
qed

text \<open>On a freshly formatted partition the first entry is made in block 7, and looked for in block 0.\<close>

theorem GemFS_GetEntryBlock_first_entry_witness:
  "\<exists>g2. GemFS_GetEntryBlock F0 1 1 (sample_of format_main) = Some (0, g2) \<and> entry_block g2 F0 1 1 = 7"
proof -
  have "entry_in (sample_of format_main) F0 1 0 = decode_entry (replicate 512 0)"
    by (simp add: entry_in_def) (simp add: sample_sector_def)
  also have "e_Next_Index_Start \<dots> = 0" by (simp add: decode_entry_def field_def eval_nat_numeral)
  finally have z: "e_Next_Index_Start (entry_in (sample_of format_main) F0 1 0) = 0" .
  have "e_Next_Index_Start (main_Entry (main_of (sample_of format_main) F0 1)) = 0"
    by simp (simp add: format_main_def zero_entry_def)
  from GemFS_GetEntryBlock_first_entry [OF sample_chain(3,4) sample_free_blocks(1) [OF sample_main_ok(2)] this]
  show ?thesis using z sample_free_blocks(3) [OF sample_main_ok(2), of F0 1] by auto
qed

theorem GemFS_Directory_to_Index_first_name_witness:
  "\<exists>g'. GemFS_Directory_to_Index F0 1 (47 # [100, 101, 118] @ [0]) sample_gemfs = Some (1, g')"
proof -
  let ?name = "[100, 101, 118] @ replicate 125 (0 :: u8)"
  have d: "drop (length [100, 101, 118]) (stack_scan sample_gemfs) = replicate 125 0" by (simp add: sample_of_def)
  have s: "c_string ?name = [100, 101, 118]" by (simp add: c_string_def)
  have n: "name_of (entry sample_gemfs F0 1) 1 = [100, 101, 118]"
    by (simp add: name_of_def) (simp add: dev_entry_def new_directory_def chars_def c_string_def)
  have "\<exists>g'. GemFS_Find_Index_By_Name F0 1 ?name (of_nat 0) sample_gemfs = Some (1, g')"
    using GemFS_Find_Index_By_Name_first [OF sample_chain(1), of 0 "[1]" ?name] sample_children n s
    by (simp add: children_def) (auto simp: sample_main_def format_main_def zero_entry_def)
  then show ?thesis
    using GemFS_Directory_to_Index_first_name [of "[100, 101, 118]" sample_gemfs F0 1] d
    by (auto simp: path_result_def sample_of_def)
qed

end
