(* ===== verification/Gemfs_Commands.thy ===== *)
theory Gemfs_Commands
  imports Gemfs_Dirs
begin

text \<open>
  Sequences of reads and writes of entries. The contract of a table of entries is a locale; its
  client, a run of commands, behaves like the same commands on a map. The functions of GemFS
  meet the contract.
\<close>

section \<open>The contract\<close>

datatype 'e command = Read nat | Write nat 'e

text \<open>The commands on a map: reading needs an entry, writing an entry the new one may replace.\<close>

primrec map_run :: "('e \<Rightarrow> 'e \<Rightarrow> bool) \<Rightarrow> 'e command list \<Rightarrow> (nat \<rightharpoonup> 'e) \<Rightarrow> ('e list \<times> (nat \<rightharpoonup> 'e)) option" where
  "map_run fits [] m = Some ([], m)"
| "map_run fits (c # cs) m = (case c of
     Read n \<Rightarrow> do { e \<leftarrow> m n; (es, m) \<leftarrow> map_run fits cs m; Some (e # es, m) }
   | Write n e \<Rightarrow> do { old \<leftarrow> m n; if fits old e then map_run fits cs (m(n \<mapsto> e)) else None })"

primrec command_run ::
  "(nat \<Rightarrow> 's \<Rightarrow> ('e \<times> 's) option) \<Rightarrow> (nat \<Rightarrow> 'e \<Rightarrow> 's \<Rightarrow> 's option) \<Rightarrow> 'e command list \<Rightarrow> 's \<Rightarrow> ('e list \<times> 's) option" where
  "command_run rd wr [] s = Some ([], s)"
| "command_run rd wr (c # cs) s = (case c of
     Read n \<Rightarrow> do { (e, s) \<leftarrow> rd n s; (es, s) \<leftarrow> command_run rd wr cs s; Some (e # es, s) }
   | Write n e \<Rightarrow> do { s \<leftarrow> wr n e s; command_run rd wr cs s })"

locale entry_table =
  fixes ok :: "'s \<Rightarrow> bool" and abs :: "'s \<Rightarrow> nat \<rightharpoonup> 'e" and fits :: "'e \<Rightarrow> 'e \<Rightarrow> bool"
    and rd :: "nat \<Rightarrow> 's \<Rightarrow> ('e \<times> 's) option" and wr :: "nat \<Rightarrow> 'e \<Rightarrow> 's \<Rightarrow> 's option"
  assumes rd: "ok s \<Longrightarrow> abs s n = Some e \<Longrightarrow> \<exists>s'. rd n s = Some (e, s') \<and> ok s' \<and> abs s' = abs s"
    and wr: "ok s \<Longrightarrow> abs s n = Some old \<Longrightarrow> fits old e \<Longrightarrow>
      \<exists>s'. wr n e s = Some s' \<and> ok s' \<and> abs s' = (abs s)(n \<mapsto> e)"
begin

lemma run:
  "ok s \<Longrightarrow> map_run fits cs (abs s) = Some (es, m) \<Longrightarrow>
    \<exists>s'. command_run rd wr cs s = Some (es, s') \<and> ok s' \<and> abs s' = m"
proof (induction cs arbitrary: s es)
  case (Cons c cs)
  show ?case
  proof (cases c)
    case (Read n)
    then obtain e es' where m: "abs s n = Some e" "map_run fits cs (abs s) = Some (es', m)" "es = e # es'"
      using Cons.prems(2) by (auto simp: bind_eq_Some_conv)
    obtain s1 where 1: "rd n s = Some (e, s1)" "ok s1" "abs s1 = abs s" using rd [OF Cons.prems(1) m(1)] by blast
    show ?thesis using Cons.IH [OF 1(2), of es'] m 1 Read by auto
  next
    case (Write n e)
    then obtain old where m: "abs s n = Some old" "fits old e" "map_run fits cs ((abs s)(n \<mapsto> e)) = Some (es, m)"
      using Cons.prems(2) by (auto simp: bind_eq_Some_conv split: if_splits)
    obtain s1 where 1: "wr n e s = Some s1" "ok s1" "abs s1 = (abs s)(n \<mapsto> e)"
      using wr [OF Cons.prems(1) m(1,2)] by blast
    have "map_run fits cs (abs s1) = Some (es, m)" using m(3) by (simp only: 1(3))
    from Cons.IH [OF 1(2) this] show ?thesis using 1(1) Write by auto
  qed
qed simp

end

section \<open>GemFS\<close>

text \<open>An entry may be replaced by one with a name of the same size and the link of the old one.\<close>

definition entry_fits :: "gem_entry \<Rightarrow> gem_entry \<Rightarrow> bool" where
  "entry_fits old e \<longleftrightarrow> length (e_Name e) = 128 \<and> e_Next_Index_Start e = e_Next_Index_Start old"

interpretation gem: entry_table "chain_ok D P N" "table D P N" entry_fits
  "\<lambda>n. GemFS_ReadEntry D P (of_nat n)" "\<lambda>n. GemFS_WriteEntry D P (of_nat n)" for D P N
proof unfold_locales
  fix g n e assume g: "chain_ok D P N g" "table D P N g n = Some e"
  then have n: "n \<le> N" "entry g D P n = e" by (simp_all add: table_def split: if_splits)
  then show "\<exists>g'. GemFS_ReadEntry D P (of_nat n) g = Some (e, g') \<and> chain_ok D P N g' \<and> table D P N g' = table D P N g"
    using read_entry_ok [OF g(1) n(1)] chain_ok_same [OF _ g(1)] table_same by blast
next
  fix g n old e assume g: "chain_ok D P N g" "table D P N g n = Some old" "entry_fits old e"
  then have n: "n \<le> N" "entry g D P n = old" by (simp_all add: table_def split: if_splits)
  obtain g' where "GemFS_WriteEntry D P (of_nat n) e g = Some g'" "chain_ok D P N g'"
    "\<forall>k \<le> N. entry g' D P k = (if k = n then e else entry g D P k)"
    using write_entry_ok [OF g(1) n(1), of e] g(3) n(2) by (auto simp: entry_fits_def)
  then show "\<exists>g'. GemFS_WriteEntry D P (of_nat n) e g = Some g' \<and> chain_ok D P N g' \<and>
      table D P N g' = (table D P N g)(n \<mapsto> e)"
    using n(1) by (auto simp: table_def fun_eq_iff)
qed

text \<open>C10. The entries of a partition are a map. Any sequence of reads and writes that the map of the
  entries allows returns; the reads give what the map gives, and at the end the partition is
  well formed and holds the map the writes have made.\<close>

theorem GemFS_commands_refine_map:
  assumes "chain_ok D P N g" and "map_run entry_fits cs (table D P N g) = Some (es, m)"
  shows "\<exists>g'. command_run (\<lambda>n. GemFS_ReadEntry D P (of_nat n)) (\<lambda>n. GemFS_WriteEntry D P (of_nat n)) cs g =
      Some (es, g') \<and> chain_ok D P N g' \<and> table D P N g' = m"
  using assms by (rule gem.run)

theorem GemFS_commands_refine_map_witness:
  "\<exists>g'. command_run (\<lambda>n. GemFS_ReadEntry F0 1 (of_nat n)) (\<lambda>n. GemFS_WriteEntry F0 1 (of_nat n))
      [Write 1 (dev_entry\<lparr>e_Size := 7\<rparr>), Read 1, Write 1 dev_entry, Read 1] sample_gemfs =
      Some ([dev_entry\<lparr>e_Size := 7\<rparr>, dev_entry], g')"
proof -
  let ?m = "table F0 1 1 sample_gemfs"
  have t: "?m 1 = Some dev_entry" by (simp add: table_def)
  have "map_run entry_fits [Write 1 (dev_entry\<lparr>e_Size := 7\<rparr>), Read 1, Write 1 dev_entry, Read 1] ?m =
      Some ([dev_entry\<lparr>e_Size := 7\<rparr>, dev_entry], ?m(1 \<mapsto> dev_entry\<lparr>e_Size := 7\<rparr>, 1 \<mapsto> dev_entry))"
    using t [unfolded One_nat_def] by (simp add: entry_fits_def)
  then show ?thesis using GemFS_commands_refine_map [OF sample_chain(1)] by blast
qed

end
