(* ===== verification/Control.thy ===== *)
theory Control
  imports Signals Sched
begin

text \<open>
  What the memory operations leave alone. \<open>calm s s'\<close> says that from \<open>s\<close> to \<open>s'\<close> the processor
  stayed in the same address space and task, and that no task entry changed but for the
  description of its memory. The rules are stated forwards, so that a run of operations is
  followed call by call.
\<close>

section \<open>Calm states\<close>

definition calm :: "kst \<Rightarrow> kst \<Rightarrow> bool" where
  "calm s s' \<longleftrightarrow> cr3 s' = cr3 s \<and> PML4_Physical s' = PML4_Physical s \<and>
     Kernel_PML4_Physical s' = Kernel_PML4_Physical s \<and> cur_pid s' = cur_pid s \<and>
     total_mem s' = total_mem s \<and>
     (\<forall>p. \<exists>d. TaskManager s' p = (TaskManager s p)\<lparr>MemoryData := d\<rparr>)"

named_theorems calm_rules \<open>operations that leave the control state alone\<close>

lemma calm_refl [simp]: "calm s s"
proof -
  have "\<exists>d. t = t\<lparr>MemoryData := d\<rparr>" for t :: task by (rule exI [of _ "MemoryData t"]) simp
  then show ?thesis by (simp add: calm_def)
qed

lemma calm_trans:
  assumes "calm r s" "calm s t"
  shows "calm r t"
proof -
  have "\<exists>d. TaskManager t p = (TaskManager r p)\<lparr>MemoryData := d\<rparr>" for p
  proof -
    obtain d where "TaskManager s p = (TaskManager r p)\<lparr>MemoryData := d\<rparr>"
      using assms(1) by (auto simp: calm_def)
    moreover obtain d' where "TaskManager t p = (TaskManager s p)\<lparr>MemoryData := d'\<rparr>"
      using assms(2) by (auto simp: calm_def)
    ultimately have "TaskManager t p = (TaskManager r p)\<lparr>MemoryData := d'\<rparr>" by simp
    then show ?thesis ..
  qed
  then show ?thesis using assms by (simp add: calm_def)
qed

text \<open>Every field of a task but \<open>MemoryData\<close> is kept.\<close>

lemma calmD:
  assumes "calm s s'"
  shows "cr3 s' = cr3 s" "PML4_Physical s' = PML4_Physical s" "cur_pid s' = cur_pid s"
    "Kernel_PML4_Physical s' = Kernel_PML4_Physical s" "total_mem s' = total_mem s"
  using assms by (simp_all add: calm_def)

lemma calm_task:
  assumes "calm s s'"
  obtains d where "TaskManager s' p = (TaskManager s p)\<lparr>MemoryData := d\<rparr>"
  using assms by (auto simp: calm_def)

lemma calm_fields:
  assumes "calm s s'"
  shows "Base_PML4 (TaskManager s' p) = Base_PML4 (TaskManager s p)"
    "SavedRegisters (TaskManager s' p) = SavedRegisters (TaskManager s p)"
    "ProcessState (TaskManager s' p) = ProcessState (TaskManager s p)"
    "task_Exists (TaskManager s' p) = task_Exists (TaskManager s p)"
    "Descriptors (TaskManager s' p) = Descriptors (TaskManager s p)"
    "Signals (TaskManager s' p) = Signals (TaskManager s p)"
    "Owner_PID (TaskManager s' p) = Owner_PID (TaskManager s p)"
    "UserTSS (TaskManager s' p) = UserTSS (TaskManager s p)"
    "MaxTicks (TaskManager s' p) = MaxTicks (TaskManager s p)"
proof -
  obtain d where "TaskManager s' p = (TaskManager s p)\<lparr>MemoryData := d\<rparr>"
    using assms by (rule calm_task)
  then show "Base_PML4 (TaskManager s' p) = Base_PML4 (TaskManager s p)"
    "SavedRegisters (TaskManager s' p) = SavedRegisters (TaskManager s p)"
    "ProcessState (TaskManager s' p) = ProcessState (TaskManager s p)"
    "task_Exists (TaskManager s' p) = task_Exists (TaskManager s p)"
    "Descriptors (TaskManager s' p) = Descriptors (TaskManager s p)"
    "Signals (TaskManager s' p) = Signals (TaskManager s p)"
    "Owner_PID (TaskManager s' p) = Owner_PID (TaskManager s p)"
    "UserTSS (TaskManager s' p) = UserTSS (TaskManager s p)"
    "MaxTicks (TaskManager s' p) = MaxTicks (TaskManager s p)"
    by simp_all
qed

lemma calm_updates [simp]:
  "calm r (s\<lparr>ram := m\<rparr>) = calm r s" "calm r (s\<lparr>phys_frames := fr\<rparr>) = calm r s"
  "calm r (s\<lparr>console := c\<rparr>) = calm r s" "calm r (s\<lparr>ports := pt\<rparr>) = calm r s"
  "calm r (s\<lparr>PhysicalPagesUsed := n\<rparr>) = calm r s" "calm r (s\<lparr>interrupts := i\<rparr>) = calm r s"
  "calm r (s\<lparr>TimerWindow := n\<rparr>) = calm r s" "calm r (s\<lparr>dr0 := n\<rparr>) = calm r s"
  "calm r (s\<lparr>cr3 := cr3 s\<rparr>) = calm r s"
  by (simp_all add: calm_def)

lemma calm_say [simp]: "calm r (say s c) = calm r s"
  by (simp add: say_def)

lemma calm_ports [simp]:
  "calm r (outb s p v) = calm r s" "calm r (outl s p w) = calm r s" "calm r (outw s p w) = calm r s"
  "calm r (snd (inb s p)) = calm r s" "calm r (snd (inl s p)) = calm r s"
  by (simp_all add: outb_def outl_def outw_def inb_def inl_def)

lemma calm_frames [simp]:
  "calm r (set_frame s a f) = calm r s" "calm r (set_frame_flags s a v) = calm r s"
  "calm r (mem_SetBit s a) = calm r s" "calm r (mem_ClearBit s a) = calm r s"
  by (simp_all add: set_frame_def set_frame_flags_def mem_SetBit_def mem_ClearBit_def Let_def)

lemma calm_sym: "calm s t \<Longrightarrow> calm t s"
proof -
  assume c: "calm s t"
  have "\<exists>d. TaskManager s p = (TaskManager t p)\<lparr>MemoryData := d\<rparr>" for p
  proof -
    obtain d where "TaskManager t p = (TaskManager s p)\<lparr>MemoryData := d\<rparr>" using c by (rule calm_task)
    then have "TaskManager s p = (TaskManager t p)\<lparr>MemoryData := MemoryData (TaskManager s p)\<rparr>" by simp
    then show ?thesis ..
  qed
  then show "calm t s" using c by (simp add: calm_def)
qed

lemma calm_set_mem_def [simp]: "calm r (set_mem_def s p d) = calm r s"
proof -
  have "\<exists>e. TaskManager (set_mem_def s p d) q = (TaskManager s q)\<lparr>MemoryData := e\<rparr>" for q
    by (cases "q = p") (auto simp: set_mem_def_def intro: exI [of _ "MemoryData (TaskManager s q)"])
  then have "calm s (set_mem_def s p d)" by (simp add: calm_def set_mem_def_def)
  then show ?thesis by (blast intro: calm_trans calm_sym)
qed

lemma calm_upd_mem [simp]: "calm r (upd_mem s p f) = calm r s"
  using calm_set_mem_def [of r s p "f (MemoryData (TaskManager s p))"]
  by (simp add: set_mem_def_def upd_mem_def upd_task_def)

lemma calm_add_pages [simp]: "calm r (add_pages s p n) = calm r s"
  by (simp add: add_pages_def)

section \<open>The memory operations are calm\<close>

lemma vwrite8_calm [calm_rules]: "vwrite8 s a b = Some s' \<Longrightarrow> calm r s \<Longrightarrow> calm r s'"
  by (auto simp: vwrite8_def)

lemma vwrite64_calm [calm_rules]: "vwrite64 s a b = Some s' \<Longrightarrow> calm r s \<Longrightarrow> calm r s'"
  by (auto simp: vwrite64_def split: if_splits elim!: bind_SomeE)

lemma memset_calm [calm_rules]:
  assumes "memset s d v n = Some s'" "calm r s"
  shows "calm r s'"
proof -
  have "memset_loop k s d v = Some s' \<Longrightarrow> calm r s \<Longrightarrow> calm r s'" for k
    by (induction k arbitrary: s d) (auto elim!: bind_SomeE dest: vwrite8_calm)
  then show ?thesis using assms by (simp add: memset_def)
qed

lemma memcpy_calm [calm_rules]:
  assumes "memcpy s d a n = Some s'" "calm r s"
  shows "calm r s'"
proof -
  have "memcpy_loop k s d a = Some s' \<Longrightarrow> calm r s \<Longrightarrow> calm r s'" for k
    by (induction k arbitrary: s d a) (auto elim!: bind_SomeE dest: vwrite8_calm)
  then show ?thesis using assms by (simp add: memcpy_def)
qed

lemma take_frame_calm [calm_rules]: "take_frame s = Some (f, s') \<Longrightarrow> calm r s \<Longrightarrow> calm r s'"
  by (auto simp: take_frame_def elim!: bind_SomeE)

lemma FlushTLB_calm [simp]: "calm r (FlushTLB s) = calm r s"
  by (simp add: FlushTLB_def)

lemma EnsureEntry_calm [calm_rules]: "EnsureEntry s a fl b = Some s' \<Longrightarrow> calm r s \<Longrightarrow> calm r s'"
  by (auto simp: EnsureEntry_def split: if_splits prod.splits elim!: bind_SomeE) ((assumption | (rule calm_rules, assumption) | simp)+)

lemma CalculatePagePhysicalEntryAddress_calm [calm_rules]:
  "CalculatePagePhysicalEntryAddress s e = Some (a, s') \<Longrightarrow> calm r s \<Longrightarrow> calm r s'"
  by (auto simp: CalculatePagePhysicalEntryAddress_def Let_def split: if_splits elim!: bind_SomeE) ((assumption | (rule calm_rules, assumption) | simp)+)

lemma count_user_mapping_calm [simp]: "calm r (count_user_mapping s p v) = calm r s"
  by (simp add: count_user_mapping_def Let_def)

lemma install_page_calm [calm_rules]: "install_page s pg = Some (a, s') \<Longrightarrow> calm r s \<Longrightarrow> calm r s'"
  by (auto simp: install_page_def split: if_splits prod.splits elim!: bind_SomeE) ((assumption | (rule calm_rules, assumption) | simp)+)

lemma alloc_page_calm [calm_rules]: "alloc_page s pg = Some (a, s') \<Longrightarrow> calm r s \<Longrightarrow> calm r s'"
  by (auto simp: alloc_page_def Let_def split: if_splits) ((assumption | (rule calm_rules, assumption) | simp)+)

lemma free_page_calm [calm_rules]: "free_page s pg = Some (a, s') \<Longrightarrow> calm r s \<Longrightarrow> calm r s'"
  by (auto simp: free_page_def Let_def split: if_splits prod.splits elim!: bind_SomeE) ((assumption | (rule calm_rules, assumption) | simp)+)

lemma malloc_calm [calm_rules]: "malloc s p = Some (a, s') \<Longrightarrow> calm r s \<Longrightarrow> calm r s'"
  by (auto simp: malloc_def Let_def split: if_splits prod.splits elim!: bind_SomeE) ((assumption | (rule calm_rules, assumption) | simp)+)

lemma malloc_specific_calm [calm_rules]:
  "malloc_specific s p ra fl xd = Some (a, s') \<Longrightarrow> calm r s \<Longrightarrow> calm r s'"
  by (auto simp: malloc_specific_def Let_def split: if_splits prod.splits elim!: bind_SomeE) ((assumption | (rule calm_rules, assumption) | simp)+)

lemma phys_addr_calm [calm_rules]: "phys_addr s p = Some (a, s') \<Longrightarrow> calm r s \<Longrightarrow> calm r s'"
  by (auto simp: phys_addr_def Let_def split: prod.splits elim!: bind_SomeE) ((assumption | (rule calm_rules, assumption) | simp)+)

lemma Create_User_Memory_calm [calm_rules]: "Create_User_Memory s = Some (a, s') \<Longrightarrow> calm r s \<Longrightarrow> calm r s'"
  by (auto simp: Create_User_Memory_def Let_def split: prod.splits elim!: bind_SomeE) ((assumption | (rule calm_rules, assumption) | simp)+)

lemma copy_from_user_calm [calm_rules]: "copy_from_user s d a n = Some (v, s') \<Longrightarrow> calm r s \<Longrightarrow> calm r s'"
  by (auto simp: copy_from_user_def split: if_splits) ((assumption | (rule calm_rules, assumption) | simp)+)

lemma pic_mask_calm [calm_rules]: "pic_mask s i = Some s' \<Longrightarrow> calm r s \<Longrightarrow> calm r s'"
  by (auto simp: pic_mask_def inb_def Let_def split: if_splits)

lemma pic_unmask_calm [calm_rules]: "pic_unmask s i = Some s' \<Longrightarrow> calm r s \<Longrightarrow> calm r s'"
  by (auto simp: pic_unmask_def inb_def Let_def split: if_splits prod.splits)

lemma pic_send_eoi_calm [simp]: "calm r (pic_send_eoi s i) = calm r s"
  by (simp add: pic_send_eoi_def Let_def)

end
