(* ===== verification/Elf.thy ===== *)
theory Elf
  imports Control Floppy Gemfs_Files
begin

text \<open>
  The program loader of \<open>Userland/Tasks.c\<close>: the ELF headers, the pages of a segment, the sectors
  read into them, and the two entry points \<open>LoadElf\<close> (a new task) and \<open>LoadElfStrict\<close> (the
  image of an existing one is replaced). The buffers are kernel memory: their addresses are
  the parameters \<open>Program_Buffer\<close> and \<open>scratch_buffer\<close>. The headers are read from memory each
  time the code looks at them, a whole structure at a time. The parameter \<open>Program_Size\<close> of
  the two functions is only printed and is left out.
\<close>

section \<open>Headers (Tasks.h)\<close>

record ElfHeader64 =
  e_ident :: "u8 list"
  e_type :: u16
  e_machine :: u16
  e_version :: u32
  e_entry :: u64
  e_phoff :: u64
  e_shoff :: u64
  e_flags :: u32
  e_ehsize :: u16
  e_phentsize :: u16
  e_phnum :: u16
  e_shentsize :: u16
  e_shnum :: u16
  e_shstrndx :: u16

record ProgramHeader64 =
  p_type :: u32
  p_flags :: u32
  p_offset :: u64
  p_vaddr :: u64
  p_paddr :: u64
  p_filesz :: u64
  p_memsz :: u64
  p_align :: u64

definition decode_elf_header :: "u8 list \<Rightarrow> ElfHeader64" where
  "decode_elf_header bs = \<lparr>e_ident = field 0 16 bs, e_type = le_word (field 16 2 bs),
     e_machine = le_word (field 18 2 bs), e_version = le_word (field 20 4 bs),
     e_entry = le_word (field 24 8 bs), e_phoff = le_word (field 32 8 bs),
     e_shoff = le_word (field 40 8 bs), e_flags = le_word (field 48 4 bs),
     e_ehsize = le_word (field 52 2 bs), e_phentsize = le_word (field 54 2 bs),
     e_phnum = le_word (field 56 2 bs), e_shentsize = le_word (field 58 2 bs),
     e_shnum = le_word (field 60 2 bs), e_shstrndx = le_word (field 62 2 bs)\<rparr>"

definition decode_program_header :: "u8 list \<Rightarrow> ProgramHeader64" where
  "decode_program_header bs = \<lparr>p_type = le_word (field 0 4 bs), p_flags = le_word (field 4 4 bs),
     p_offset = le_word (field 8 8 bs), p_vaddr = le_word (field 16 8 bs),
     p_paddr = le_word (field 24 8 bs), p_filesz = le_word (field 32 8 bs),
     p_memsz = le_word (field 40 8 bs), p_align = le_word (field 48 8 bs)\<rparr>"

definition ET_EXEC :: u16 where "ET_EXEC = 0x02"
definition EM_x86_64 :: u16 where "EM_x86_64 = 0x3E"
definition PT_LOAD :: u32 where "PT_LOAD = 0x01"
definition USER_PRIORITY :: u8 where "USER_PRIORITY = 20"

text \<open>Bytes of virtual memory.\<close>

primrec vread_bytes :: "nat \<Rightarrow> kst \<Rightarrow> u64 \<Rightarrow> u8 list option" where
  "vread_bytes 0 s a = Some []"
| "vread_bytes (Suc n) s a = do { b \<leftarrow> vread8 s a; bs \<leftarrow> vread_bytes n s (a + 1); Some (b # bs) }"

definition elf_header :: "kst \<Rightarrow> u64 \<Rightarrow> ElfHeader64 option" where
  "elf_header s a = map_option decode_elf_header (vread_bytes 64 s a)"

definition program_header :: "kst \<Rightarrow> u64 \<Rightarrow> ProgramHeader64 option" where
  "program_header s a = map_option decode_program_header (vread_bytes 56 s a)"

text \<open>The test at the start of both loaders. The magic number is not looked at.\<close>

definition loadable :: "ElfHeader64 \<Rightarrow> bool" where
  "loadable h \<longleftrightarrow> \<not> (e_type h \<noteq> ET_EXEC \<or> e_machine h \<noteq> EM_x86_64 \<or> e_phentsize h \<noteq> 0x38)"

record elf_env =
  Program_Buffer :: u64
  scratch_buffer :: u64

section \<open>A segment\<close>

text \<open>The pages of a segment, from \<open>va\<close> on. The flags are read again for every page.\<close>

primrec segment_pages :: "nat \<Rightarrow> int \<Rightarrow> u64 \<Rightarrow> u64 \<Rightarrow> kst \<Rightarrow> kst option" where
  "segment_pages 0 pid hdr va s = Some s"
| "segment_pages (Suc n) pid hdr va s = do {
     free \<leftarrow> FindNextFreePhysical s;
     h \<leftarrow> program_header s hdr;
     (_, s) \<leftarrow> alloc_page s \<lparr>pg_flags = 0b101 OR (ucast (p_flags h) AND 2),
       pg_Execute_Disable = (p_flags h AND 1 = 0), virtual_address = va, physical_address = free\<rparr>;
     let s = upd_mem s pid (\<lambda>m. m\<lparr>PageCount := PageCount m + 1\<rparr>);
     segment_pages n pid hdr (va + 0x1000) s }"

definition segment_page_count :: "ProgramHeader64 \<Rightarrow> u64" where
  "segment_page_count h =
     (let start_vaddr = p_vaddr h AND NOT 0xFFF;
          end_vaddr = (p_vaddr h + p_memsz h + 0xFFF) AND NOT 0xFFF
      in (end_vaddr - start_vaddr) div 0x1000)"

text \<open>The first sector, when the segment does not start at a sector boundary.\<close>

definition segment_head ::
  "elf_env \<Rightarrow> u8 \<Rightarrow> u64 \<Rightarrow> u64 \<Rightarrow> u64 \<Rightarrow> kst \<Rightarrow> floppy \<Rightarrow> (u64 \<times> u64 \<times> kst \<times> floppy) option" where
  "segment_head env Drive proper_lba head_offset dest s f =
     (if head_offset > 0 then do {
        (_, s, f) \<leftarrow> FLOPPY_Read_LBA s f Drive proper_lba (scratch_buffer env) 1;
        s \<leftarrow> memcpy s dest (scratch_buffer env + head_offset) (0x200 - head_offset);
        Some (0x200 - head_offset, proper_lba + 1, s, f) }
      else Some (0, proper_lba, s, f))"

text \<open>
  One turn of the loop over the program headers. The page counter of the inner loop is an
  \<open>int\<close>, and the number of sectors is passed as 16 bits.
\<close>

definition load_segment ::
  "elf_env \<Rightarrow> u8 \<Rightarrow> u64 \<Rightarrow> int \<Rightarrow> u64 \<Rightarrow> kst \<Rightarrow> floppy \<Rightarrow> (kst \<times> floppy) option" where
  "load_segment env Drive LBA pid hdr s f = do {
     h \<leftarrow> program_header s hdr;
     if p_type h \<noteq> PT_LOAD then Some (s, f)
     else do {
       let dest = p_vaddr h;
       let s = (if BaseVirtualAddress (task_mem s pid) = 0
                then upd_mem s pid (\<lambda>m. m\<lparr>BaseVirtualAddress := p_vaddr h\<rparr>) else s);
       s \<leftarrow> (if segment_page_count h \<le> 0x80000000
            then segment_pages (unat (segment_page_count h)) pid hdr (dest AND NOT 0xFFF) s else None);
       h \<leftarrow> program_header s hdr;
       (bytes_processed, proper_lba, s, f) \<leftarrow>
         segment_head env Drive (LBA + p_offset h div 512) (p_offset h mod 512) dest s f;
       h \<leftarrow> program_header s hdr;
       let remaining_bytes = p_filesz h - bytes_processed;
       if remaining_bytes > 0 then do {
         (_, s, f) \<leftarrow> FLOPPY_Read_LBA s f Drive proper_lba (dest + bytes_processed)
           (ucast ((remaining_bytes + 511) div 512));
         Some (s, f) }
       else Some (s, f) } }"

primrec load_segments ::
  "nat \<Rightarrow> elf_env \<Rightarrow> u8 \<Rightarrow> u64 \<Rightarrow> int \<Rightarrow> u64 \<Rightarrow> kst \<Rightarrow> floppy \<Rightarrow> (kst \<times> floppy) option" where
  "load_segments 0 env Drive LBA pid hdr s f = Some (s, f)"
| "load_segments (Suc n) env Drive LBA pid hdr s f = do {
     (s, f) \<leftarrow> load_segment env Drive LBA pid hdr s f;
     load_segments n env Drive LBA pid (hdr + 56) s f }"

section \<open>Loading\<close>

definition stack_base :: u64 where "stack_base = 0x7FFF0000"

text \<open>The program buffer is cleared and filled with the first eight sectors.\<close>

definition fill_program_buffer :: "elf_env \<Rightarrow> u8 \<Rightarrow> u64 \<Rightarrow> kst \<Rightarrow> floppy \<Rightarrow> (kst \<times> floppy) option" where
  "fill_program_buffer env Drive LBA s f =
     (if Drive < 0x80 then do {
        (_, s, f) \<leftarrow> FLOPPY_Read_LBA s f Drive LBA (Program_Buffer env) 8; Some (s, f) }
      else Some (s, f))"

text \<open>The stack page of the new image and the segments, in the new address space.\<close>

definition load_image ::
  "elf_env \<Rightarrow> u8 \<Rightarrow> u64 \<Rightarrow> int \<Rightarrow> u64 \<Rightarrow> u64 \<Rightarrow> kst \<Rightarrow> floppy \<Rightarrow> (kst \<times> floppy) option" where
  "load_image env Drive LBA pid NewPML4 headers s f = do {
     let s = TASKMGR_set_current s pid;
     free \<leftarrow> FindNextFreePhysical s;
     let s = upd_mem s pid (\<lambda>m. m\<lparr>BaseVirtualAddress := 0\<rparr>);
     let s = upd_task s pid (\<lambda>t. t\<lparr>Base_PML4 := NewPML4, ProcessState := CREATION_PROCESS_STATE\<rparr>);
     (stack, s) \<leftarrow> alloc_page s \<lparr>pg_flags = USER_FLAGS, pg_Execute_Disable = False,
       virtual_address = stack_base AND NOT 0xFFF, physical_address = free\<rparr>;
     s \<leftarrow> memset s stack 0 0x1000;
     let s = upd_mem s pid (\<lambda>m. m\<lparr>StackBaseVirtualAddress := stack_base, StackPageCount := 1\<rparr>);
     h \<leftarrow> elf_header s (Program_Buffer env);
     load_segments (unat (e_phnum h)) env Drive LBA pid headers s f }"

text \<open>Five pages for the kernel stack; the address of the last one is its top.\<close>

definition make_kernel_stack :: "int \<Rightarrow> kst \<Rightarrow> (u64 \<times> kst) option" where
  "make_kernel_stack pid s = do {
     let s = upd_mem s pid (\<lambda>m. m\<lparr>KernelStackPageCount := 5\<rparr>);
     (_, s) \<leftarrow> malloc s KernelTask;
     (_, s) \<leftarrow> malloc s KernelTask;
     (_, s) \<leftarrow> malloc s KernelTask;
     (_, s) \<leftarrow> malloc s KernelTask;
     (kernel_stack, s) \<leftarrow> malloc s KernelTask;
     Some (kernel_stack, upd_mem s pid (\<lambda>m. m\<lparr>KernelStackBaseVirtualAddress := kernel_stack\<rparr>)) }"

text \<open>What both loaders do once the task has been registered.\<close>

definition finish_task :: "int \<Rightarrow> u64 \<Rightarrow> u64 \<Rightarrow> u8 list list \<Rightarrow> kst \<Rightarrow> (u64 \<times> kst) option" where
  "finish_task pid kernel_stack PrevPML4 argv s = do {
     let s = upd_mem s pid (\<lambda>m. m\<lparr>StackBaseVirtualAddress := stack_base, StackPageCount := 1,
       KernelStackPageCount := 5, KernelStackBaseVirtualAddress := kernel_stack\<rparr>);
     let s = upd_task s pid (\<lambda>t. t\<lparr>UserTSS := (UserTSS (TaskManager s KernelTask))\<lparr>tss_rsp0 := kernel_stack\<rparr>\<rparr>);
     s \<leftarrow> SetupTaskStack s pid argv;
     let s = set_state s pid READY_PROCESS_STATE;
     let s = mem_set_cr3 s PrevPML4 True;
     Some (BaseVirtualAddress (task_mem s pid), s) }"

text \<open>The bytes of the argument \<open>LoadElf\<close> passes to the program.\<close>

definition test_arg :: "u8 list" where
  "test_arg = List.map of_char ''test arg''"

definition LoadElf ::
  "elf_env \<Rightarrow> u8 \<Rightarrow> u64 \<Rightarrow> kst \<Rightarrow> floppy \<Rightarrow> (u64 \<times> kst \<times> floppy) option" where
  "LoadElf env Drive LBA s f = do {
     s \<leftarrow> memset s (Program_Buffer env) 0 0x1000;
     let s = say s (VirtualPrint KERNEL_T ''[task.load] load'');
     (s, f) \<leftarrow> fill_program_buffer env Drive LBA s f;
     h \<leftarrow> elf_header s (Program_Buffer env);
     if \<not> loadable h then Some (0, s, f)
     else do {
       let headers = Program_Buffer env + e_phoff h;
       (NewPML4, s) \<leftarrow> Create_User_Memory s;
       let PrevPML4 = PML4_Physical s;
       let s = mem_set_cr3 s NewPML4 True;
       let next_pid = FindFreePID s;
       let last_pid = TASKMGR_get_current s;
       (s, f) \<leftarrow> load_image env Drive LBA next_pid NewPML4 headers s f;
       let s = upd_mem s next_pid (\<lambda>m. m\<lparr>HeapVirtualAddress := BaseVirtualAddress m + PageCount m * 0x1000\<rparr>);
       (kernel_stack, s) \<leftarrow> make_kernel_stack next_pid s;
       let s = TASKMGR_set_current s last_pid;
       h \<leftarrow> elf_header s (Program_Buffer env);
       let (_, s) = RegisterTask s (BaseVirtualAddress (task_mem s next_pid)) (e_entry h)
         (PageCount (task_mem s next_pid)) USER_PRIORITY (stack_base + 4080) NewPML4;
       (r, s) \<leftarrow> finish_task next_pid kernel_stack PrevPML4 [test_arg] s;
       Some (r, s, f) } }"

text \<open>\<open>argv\<close> holds the bytes of the \<open>argc\<close> strings passed.\<close>

definition LoadElfStrict ::
  "elf_env \<Rightarrow> u8 \<Rightarrow> u64 \<Rightarrow> int \<Rightarrow> u64 \<Rightarrow> u8 list list \<Rightarrow> kst \<Rightarrow> floppy \<Rightarrow> (u64 \<times> kst \<times> floppy) option" where
  "LoadElfStrict env Drive LBA pid NewPML4 argv s f = do {
     let s = say s (VirtualPrint KERNEL_T ''[task.load] load strict'');
     s \<leftarrow> memset s (Program_Buffer env) 0 0x1000;
     (s, f) \<leftarrow> fill_program_buffer env Drive LBA s f;
     h \<leftarrow> elf_header s (Program_Buffer env);
     if \<not> loadable h then Some (0, s, f)
     else do {
       let headers = Program_Buffer env + e_phoff h;
       let PrevPML4 = PML4_Physical s;
       let s = mem_set_cr3 s NewPML4 True;
       let last_pid = TASKMGR_get_current s;
       (s, f) \<leftarrow> load_image env Drive LBA pid NewPML4 headers s f;
       (kernel_stack, s) \<leftarrow> make_kernel_stack pid s;
       let s = TASKMGR_set_current s last_pid;
       h \<leftarrow> elf_header s (Program_Buffer env);
       let (_, s) = RegisterTaskStrict s (BaseVirtualAddress (task_mem s pid)) (e_entry h)
         (PageCount (task_mem s pid)) USER_PRIORITY (stack_base + 4080) NewPML4 pid;
       (r, s) \<leftarrow> finish_task pid kernel_stack PrevPML4 argv s;
       Some (r, s, f) } }"

section \<open>Programs on a GemFS partition\<close>

definition file_lba :: "nat \<Rightarrow> nat \<Rightarrow> u64 \<Rightarrow> gemfs \<Rightarrow> (u64 \<times> gemfs) option" where
  "file_lba D P Index g = do {
     (entry, g) \<leftarrow> GemFS_ReadEntry D P Index g;
     Some (GemFS_BlockToLBA g D P (e_Start entry), g) }"

definition LoadElf_GemFS ::
  "elf_env \<Rightarrow> nat \<Rightarrow> nat \<Rightarrow> u64 \<Rightarrow> kst \<Rightarrow> floppy \<Rightarrow> gemfs \<Rightarrow> (kst \<times> floppy \<times> gemfs) option" where
  "LoadElf_GemFS env D P Index s f g = do {
     (LBA, g) \<leftarrow> file_lba D P Index g;
     (_, s, f) \<leftarrow> LoadElf env (of_nat D) LBA s f;
     Some (s, f, g) }"

definition LoadElfStrict_GemFS ::
  "elf_env \<Rightarrow> nat \<Rightarrow> nat \<Rightarrow> u64 \<Rightarrow> int \<Rightarrow> u64 \<Rightarrow> u8 list list \<Rightarrow> kst \<Rightarrow> floppy \<Rightarrow> gemfs \<Rightarrow>
     (kst \<times> floppy \<times> gemfs) option" where
  "LoadElfStrict_GemFS env D P Index pid NewPML4 argv s f g = do {
     (LBA, g) \<leftarrow> file_lba D P Index g;
     (_, s, f) \<leftarrow> LoadElfStrict env (of_nat D) LBA pid NewPML4 argv s f;
     Some (s, f, g) }"

end
