(* ===== verification/Syscalls.thy ===== *)
theory Syscalls
  imports Elf Keyboard
begin

text \<open>
  The system calls of \<open>Userland/syscall.c\<close>, over the kernel, the file system and the floppy
  driver together. \<open>handle_syscall\<close> takes the interrupt frame as a value and returns it; a
  call that leaves with \<open>return\<close> instead of \<open>break\<close> skips the end of the function, which is
  the flag of its result. The two bounce buffers and the array on the stack are kernel memory
  at the addresses that are parameters here: a copy that is too long goes on into the memory
  behind them.
\<close>

record sys =
  kern :: kst
  fs :: gemfs
  drive :: floppy
  elf :: elf_env
  bounce_buffer :: u64
  open_bounce_buffer :: u64
  points_buffer :: u64

section \<open>Access to the memory of the caller\<close>

text \<open>The length of a C string in memory.\<close>

partial_function (option) vstrlen :: "kst \<Rightarrow> u64 \<Rightarrow> nat \<Rightarrow> nat option" where
  "vstrlen s a n = do {
     b \<leftarrow> vread8 s (a + of_nat n);
     if b = 0 then Some n else vstrlen s a (n + 1) }"

text \<open>What can be read from an address on, \<open>n\<close> bytes at most.\<close>

primrec vread_upto :: "nat \<Rightarrow> kst \<Rightarrow> u64 \<Rightarrow> u8 list" where
  "vread_upto 0 s a = []"
| "vread_upto (Suc n) s a = (case vread8 s a of None \<Rightarrow> [] | Some b \<Rightarrow> b # vread_upto n s (a + 1))"

definition upd_fd :: "kst \<Rightarrow> int \<Rightarrow> nat \<Rightarrow> (fdesc \<Rightarrow> fdesc) \<Rightarrow> kst" where
  "upd_fd s pid fd f = upd_task s pid (\<lambda>t. t\<lparr>Descriptors := (Descriptors t)[fd := f (Descriptors t ! fd)]\<rparr>)"

text \<open>The descriptor a call names; an index outside the array is undefined.\<close>

definition fd_of :: "kst \<Rightarrow> int \<Rightarrow> u64 \<Rightarrow> fdesc option" where
  "fd_of s pid i = (if i < 64 then Some (Descriptors (TaskManager s pid) ! unat i) else None)"

type_synonym outcome = "(bool \<times> regs \<times> sys) option"

section \<open>Files\<close>

definition sys_open :: "int \<Rightarrow> regs \<Rightarrow> sys \<Rightarrow> outcome" where
  "sys_open cur regs y = do {
     let rbx = rg_rbx regs;
     s \<leftarrow> memset (kern y) (open_bounce_buffer y) 0 256;
     fd \<leftarrow> FindFreeFileDescriptor s cur;
     let s = upd_fd s cur fd (\<lambda>_. zero_fdesc);
     len \<leftarrow> vstrlen s rbx 0;
     if len = 0 then Some (True, regs\<lparr>rg_rax := - 1\<rparr>, y\<lparr>kern := s\<rparr>)
     else do {
       s \<leftarrow> memcpy s (open_bounce_buffer y) rbx (of_nat (len + 1));
       path \<leftarrow> vread_bytes (len + 1) s (open_bounce_buffer y);
       (index, g) \<leftarrow> GemFS_Directory_to_Index 0 1 path (fs y);
       if index \<noteq> - 1 then
         let s = upd_fd s cur fd (\<lambda>d. d\<lparr>fd_used := True, fd_flags := 0, gemfs_index := index\<rparr>)
         in Some (True, regs\<lparr>rg_rax := of_nat fd\<rparr>, y\<lparr>kern := s, fs := g\<rparr>)
       else Some (True, regs\<lparr>rg_rax := - 1\<rparr>, y\<lparr>kern := s, fs := g\<rparr>) } }"

text \<open>
  The bytes \<open>print\<close> writes: the length is an \<open>int\<close>, 0 stands for the length of the string, and a
  negative one prints nothing.
\<close>

definition printed_bytes :: "kst \<Rightarrow> u64 \<Rightarrow> u64 \<Rightarrow> u8 list option" where
  "printed_bytes s a n =
     (let k = sint (ucast n :: u32)
      in if k = 0 then do { len \<leftarrow> vstrlen s a 0; vread_bytes len s a } else vread_bytes (nat k) s a)"

definition sys_write :: "int \<Rightarrow> regs \<Rightarrow> sys \<Rightarrow> outcome" where
  "sys_write cur regs y =
     (let rbx = rg_rbx regs; rcx = rg_rcx regs; b = bounce_buffer y in
      if rg_rdx regs = 1 then do {
        s \<leftarrow> memset (kern y) b 0 0x1000;
        s \<leftarrow> memcpy s b rbx rcx;
        bs \<leftarrow> printed_bytes s b rcx;
        let s = say s (Print (text_of bs));
        len \<leftarrow> vstrlen s b 0;
        bs \<leftarrow> vread_bytes len s b;
        Some (True, regs, y\<lparr>kern := say s (VirtualPrint BASIC_T (text_of bs))\<rparr>) }
      else do {
        d \<leftarrow> fd_of (kern y) cur (rg_rdx regs);
        s \<leftarrow> memcpy (kern y) b rbx rcx;
        g \<leftarrow> GemFS_WriteFile (vread_upto 0x10000 s b) F0 1 (gemfs_index d) (fs y);
        Some (True, regs, y\<lparr>kern := s, fs := g\<rparr>) })"

definition sys_read :: "int \<Rightarrow> regs \<Rightarrow> sys \<Rightarrow> outcome" where
  "sys_read cur regs y =
     (let rbx = rg_rbx regs; rcx = rg_rcx regs; b = bounce_buffer y in
      if rg_rdx regs = 0 then do {
        let s = upd_task (kern y) cur (\<lambda>t. t\<lparr>ProcessState := WAITING_PROCESS_STATE,
                  WaitingReason := WAITING_REASON_INPUT\<rparr>);
        let (regs, s) = ForceSwitch s regs;
        s \<leftarrow> pic_unmask s 0x00;
        Some (False, regs, y\<lparr>kern := s\<rparr>) }
      else do {
        d \<leftarrow> fd_of (kern y) cur (rg_rdx regs);
        if \<not> fd_used d then Some (True, regs, y)
        else do {
          let Blocks = rcx div 512 + 1;
          (buffer, g) \<leftarrow> GemFS_ReadFile 0 1 (gemfs_index d) (vread_upto 0x10000 (kern y) b) Blocks (fs y);
          s \<leftarrow> copy_out (List.take (512 * unat (ucast Blocks :: u16)) buffer) (kern y) b;
          s \<leftarrow> memcpy s rbx b rcx;
          Some (True, regs, y\<lparr>kern := s, fs := g\<rparr>) } })"

definition sys_close :: "int \<Rightarrow> regs \<Rightarrow> sys \<Rightarrow> outcome" where
  "sys_close cur regs y = do {
     d \<leftarrow> fd_of (kern y) cur (rg_rdx regs);
     Some (True, regs, y\<lparr>kern := upd_fd (kern y) cur (unat (rg_rdx regs)) (\<lambda>d. d\<lparr>fd_used := False\<rparr>)\<rparr>) }"

definition sys_setwfd :: "int \<Rightarrow> regs \<Rightarrow> sys \<Rightarrow> outcome" where
  "sys_setwfd cur regs y = Some (True, regs,
     y\<lparr>kern := upd_task (kern y) cur (\<lambda>t. t\<lparr>Working_FD := sint (ucast (rg_rdx regs) :: u32)\<rparr>)\<rparr>)"

definition sys_getwfd :: "int \<Rightarrow> regs \<Rightarrow> sys \<Rightarrow> outcome" where
  "sys_getwfd cur regs y = Some (True, regs\<lparr>rg_rax := of_int (Working_FD (TaskManager (kern y) cur))\<rparr>, y)"

text \<open>
  The loop of GETDENTS. The structure is copied from the buffer of the caller into the local
  \<open>cur_dent\<close>: the only effect is a fault when the buffer cannot be read. A name without a NUL
  is scanned past its end.
\<close>

definition dent_size :: nat where "dent_size = 144"

partial_function (option) dents_loop ::
  "kst \<Rightarrow> u64 \<Rightarrow> u64 \<Rightarrow> gem_entry \<Rightarrow> nat \<Rightarrow> gemfs \<Rightarrow> (nat \<times> gemfs) option" where
  "dents_loop s user_buffer limit cur_entry i g =
     (if of_nat i < limit \<and> e_Sibling_Index cur_entry \<noteq> 0 then do {
        (cur_entry, g) \<leftarrow> GemFS_ReadEntry F0 1 (e_Sibling_Index cur_entry) g;
        NameLen \<leftarrow> find_nul (e_Name cur_entry) 0;
        cur_dent \<leftarrow> vread_bytes dent_size s (user_buffer + of_nat (dent_size * i));
        dents_loop s user_buffer limit cur_entry (i + 1) g }
      else Some (i, g))"

definition sys_getdents :: "int \<Rightarrow> regs \<Rightarrow> sys \<Rightarrow> outcome" where
  "sys_getdents cur regs y = do {
     d \<leftarrow> fd_of (kern y) cur (rg_rdx regs);
     if \<not> fd_used d then Some (True, regs, y)
     else do {
       (cur_entry, g) \<leftarrow> GemFS_ReadEntry F0 1 (rg_rdx regs) (fs y);
       (i, g) \<leftarrow> dents_loop (kern y) (rg_rbx regs) (rg_rcx regs) cur_entry 0 g;
       Some (True, regs\<lparr>rg_rax := of_nat i\<rparr>, y\<lparr>fs := g\<rparr>) } }"

section \<open>Processes\<close>

definition SIGCHD :: nat where "SIGCHD = 0"

definition sys_exit :: "int \<Rightarrow> regs \<Rightarrow> sys \<Rightarrow> outcome" where
  "sys_exit cur regs y = do {
     let s = say (kern y) (VirtualPrint KERNEL_T ''[syscall] exit'');
     s \<leftarrow> (if Owner_PID (TaskManager s cur) \<noteq> 0
          then SendSignal s (Owner_PID (TaskManager s cur)) SIGCHD 0x00 (rg_rbx regs) 0x00 0x00
          else Some s);
     let (regs, s) = ForceSwitch (KillTask s cur) regs;
     s \<leftarrow> pic_unmask s 0x00;
     Some (False, regs, y\<lparr>kern := s\<rparr>) }"

text \<open>One page of FORK: the parent's entry becomes read only and copy-on-write, and the child
  gets the same frame with the same flags.\<close>

definition fork_page :: "int \<Rightarrow> int \<Rightarrow> u64 \<Rightarrow> kst \<Rightarrow> kst option" where
  "fork_page cur child_pid cur_page s = do {
     let s = mem_set_cr3 s (Base_PML4 (TaskManager s cur)) False;
     let s = TASKMGR_set_current s cur;
     (page_data, s) \<leftarrow> CalculatePagePhysicalEntryAddress s (ExtractPageEntries cur_page);
     e \<leftarrow> vread64 s page_data;
     s \<leftarrow> vwrite64 s page_data (e OR push_bit 9 1);
     e \<leftarrow> vread64 s page_data;
     s \<leftarrow> vwrite64 s page_data (e AND NOT 2);
     e \<leftarrow> vread64 s page_data;
     let page = \<lparr>pg_flags = ucast (e AND 0xFFF), pg_Execute_Disable = False,
                 virtual_address = cur_page, physical_address = e AND PTE_ADDR\<rparr>;
     let s = mem_set_cr3 s (Base_PML4 (TaskManager s child_pid)) False;
     let s = TASKMGR_set_current s child_pid;
     (_, s) \<leftarrow> alloc_page s page;
     Some s }"

primrec fork_pages :: "nat \<Rightarrow> int \<Rightarrow> int \<Rightarrow> u64 \<Rightarrow> u64 \<Rightarrow> kst \<Rightarrow> kst option" where
  "fork_pages 0 cur child_pid step cur_page s = Some s"
| "fork_pages (Suc n) cur child_pid step cur_page s = do {
     s \<leftarrow> fork_page cur child_pid cur_page s;
     fork_pages n cur child_pid step (cur_page + step) s }"

text \<open>The entry of the child as it is before its pages are set up.\<close>

definition fork_child :: "int \<Rightarrow> int \<Rightarrow> regs \<Rightarrow> kst \<Rightarrow> kst option" where
  "fork_child cur child_pid regs s = do {
     let s = upd_task s child_pid (\<lambda>_. (TaskManager s cur)\<lparr>SavedRegisters := regs\<lparr>rg_rax := 0\<rparr>,
       ProcessID := word_of_int child_pid, ProcessState := CREATION_PROCESS_STATE, task_Exists := True\<rparr>);
     (pml4, s) \<leftarrow> Create_User_Memory s;
     Some (upd_task s child_pid (\<lambda>t. t\<lparr>Base_PML4 := pml4, Owner_PID := cur\<rparr>)) }"

text \<open>
  FORK. The page counters are \<open>int\<close>s compared with the counts of the parent, which do not
  change in the loops.
\<close>

definition sys_fork :: "int \<Rightarrow> regs \<Rightarrow> sys \<Rightarrow> outcome" where
  "sys_fork cur regs y = do {
     let s = say (kern y) (VirtualPrint KERNEL_T ''[syscall] fork'');
     let t = TaskManager s cur;
     let (child_pid, s) = RegisterTask s (BaseVirtualAddress (MemoryData t)) (rg_rip regs)
       (PageCount (MemoryData t)) (MaxTicks t) (rg_rbp regs) (Base_PML4 t);
     s \<leftarrow> fork_child cur child_pid regs s;
     let s = upd_regs s cur (\<lambda>r. r\<lparr>rg_rax := word_of_int child_pid\<rparr>);
     let regs = regs\<lparr>rg_rax := word_of_int child_pid\<rparr>;
     let m = task_mem s cur;
     s \<leftarrow> (if PageCount m \<le> 0x80000000
          then fork_pages (unat (PageCount m)) cur child_pid 0x1000 (BaseVirtualAddress m) s else None);
     let m = task_mem s cur;
     let s = upd_mem s child_pid (\<lambda>d. d\<lparr>StackBaseVirtualAddress := StackBaseVirtualAddress m,
       StackPageCount := StackPageCount m\<rparr>);
     let m = task_mem s cur;
     s \<leftarrow> (if StackPageCount m \<le> 0x80000000
          then fork_pages (unat (StackPageCount m)) cur child_pid (- 0x1000) (StackBaseVirtualAddress m) s
          else None);
     let s = mem_set_cr3 s (Base_PML4 (TaskManager s cur)) False;
     let s = TASKMGR_set_current s cur;
     (_, s) \<leftarrow> make_kernel_stack child_pid s;
     let s = mem_set_cr3 s (Base_PML4 (TaskManager s cur)) True;
     let s = TASKMGR_set_current s cur;
     let s = upd_task s child_pid (\<lambda>t. t\<lparr>Owner_PID := cur, ProcessState := READY_PROCESS_STATE\<rparr>);
     Some (True, regs, y\<lparr>kern := say s (VirtualPrint KERNEL_T ''[syscall] fork end'')\<rparr>) }"

text \<open>The number of elements of \<open>argv\<close>, the final \<open>NULL\<close> included.\<close>

partial_function (option) argv_length :: "kst \<Rightarrow> u64 \<Rightarrow> nat \<Rightarrow> nat option" where
  "argv_length s list len = do {
     p \<leftarrow> vread64 s (list + 8 * of_nat len);
     if p = 0 then Some (len + 1) else argv_length s list (len + 1) }"

definition sys_execve :: "int \<Rightarrow> regs \<Rightarrow> sys \<Rightarrow> outcome" where
  "sys_execve cur regs y = do {
     let s = say (kern y) (VirtualPrint KERNEL_T ''[syscall] execve'');
     let own = Owner_PID (TaskManager s cur);
     d \<leftarrow> fd_of s cur (rg_rdx regs);
     if \<not> fd_used d then Some (True, regs, y\<lparr>kern := s\<rparr>)
     else do {
       (target_entry, g) \<leftarrow> GemFS_ReadEntry F0 1 (gemfs_index d) (fs y);
       if e_Flags target_entry AND 0b1000 \<noteq> 0b1000 then Some (True, regs, y\<lparr>kern := s, fs := g\<rparr>)
       else do {
         let old_pml4 = Base_PML4 (TaskManager s cur);
         (new_pml4, s) \<leftarrow> Create_User_Memory s;
         s \<leftarrow> pic_mask s 0x00;
         len \<leftarrow> argv_length s (rg_rbx regs) 0;
         (_, s) \<leftarrow> copy_from_user s (points_buffer y) (rg_rbx regs) (of_nat (len * 8));
         let s = set_state s cur CREATION_PROCESS_STATE;
         d \<leftarrow> fd_of s cur (rg_rdx regs);
         (s, f, g) \<leftarrow> LoadElfStrict_GemFS (elf y) F0 1 (gemfs_index d) (TASKMGR_get_current s)
           new_pml4 [] s (drive y) g;
         s \<leftarrow> free_task_memory_by_pml4 s old_pml4;
         let regs = task_regs s cur;
         let s = upd_task s cur (\<lambda>t. t\<lparr>Owner_PID := own, ProcessState := READY_PROCESS_STATE\<rparr>);
         let (regs, s) = ForceSwitch s regs;
         s \<leftarrow> pic_unmask s 0x00;
         Some (False, regs, y\<lparr>kern := s, drive := f, fs := g\<rparr>) } } }"

definition sys_wait :: "int \<Rightarrow> regs \<Rightarrow> sys \<Rightarrow> outcome" where
  "sys_wait cur regs y =
     (let s = kern y in
      if Owner_PID (TaskManager s (uint (rg_rbx regs))) \<noteq> cur then Some (True, regs, y)
      else
        let s = upd_task s cur (\<lambda>t. t\<lparr>ProcessState := WAITING_PROCESS_STATE,
                  WaitingReason := WAITING_REASON_CHILD, ChildWaitingReason := ucast (rg_rdx regs)\<rparr>);
            (regs, s) = ForceSwitch s regs
        in Some (True, regs, y\<lparr>kern := s\<rparr>))"

section \<open>Information and signals\<close>

text \<open>The fields of \<open>struct sysinfo\<close>, in order.\<close>

definition sysinfo_of :: "kst \<Rightarrow> int \<Rightarrow> u64 list" where
  "sysinfo_of s cur =
     (let m = task_mem s cur in
      [total_mem s, available_mem s - PhysicalPagesUsed s * 0x1000, PhysicalPagesUsed s * 0x1000,
       (PageCount m + StackPageCount m + KernelStackPageCount m) * 0x1000])"

definition sys_sysinfo :: "int \<Rightarrow> regs \<Rightarrow> sys \<Rightarrow> outcome" where
  "sys_sysinfo cur regs y = do {
     s \<leftarrow> copy_out (concat (map (le_bytes 8) (sysinfo_of (kern y) cur))) (kern y) (rg_rbx regs);
     Some (True, regs, y\<lparr>kern := s\<rparr>) }"

definition sys_sigreg :: "int \<Rightarrow> regs \<Rightarrow> sys \<Rightarrow> outcome" where
  "sys_sigreg cur regs y = do {
     s \<leftarrow> RegisterSignal (kern y) cur (unat (ucast (rg_rbx regs) :: u32)) (rg_rcx regs);
     Some (True, regs, y\<lparr>kern := s\<rparr>) }"

definition sys_sigret :: "int \<Rightarrow> regs \<Rightarrow> sys \<Rightarrow> outcome" where
  "sys_sigret cur regs y = do {
     s \<leftarrow> SignalReturn (kern y) cur;
     Some (True, task_regs s cur, y\<lparr>kern := s\<rparr>) }"

section \<open>The handler\<close>

definition syscall_case :: "u64 \<Rightarrow> int \<Rightarrow> regs \<Rightarrow> sys \<Rightarrow> outcome" where
  "syscall_case rax cur regs y =
     (if rax = 0x00 then sys_exit cur regs y
      else if rax = 0x01 then sys_open cur regs y
      else if rax = 0x02 then sys_write cur regs y
      else if rax = 0x03 then sys_read cur regs y
      else if rax = 0x04 then sys_fork cur regs y
      else if rax = 0x05 then sys_execve cur regs y
      else if rax = 0x06 then sys_wait cur regs y
      else if rax = 0x07 then sys_close cur regs y
      else if rax = 0x0A then sys_setwfd cur regs y
      else if rax = 0x0B then sys_getwfd cur regs y
      else if rax = 0x0C then sys_getdents cur regs y
      else if rax = 0x0D then sys_sysinfo cur regs y
      else if rax = 0x0E then sys_sigreg cur regs y
      else if rax = 0x0F then sys_sigret cur regs y
      else Some (True, regs, y))"

definition handle_syscall :: "regs \<Rightarrow> sys \<Rightarrow> (regs \<times> sys) option" where
  "handle_syscall regs y = do {
     let cur = TASKMGR_get_current (kern y);
     let s = upd_regs (kern y) cur (\<lambda>_. regs);
     let s = mem_set_cr3 s (Base_PML4 (TaskManager s cur)) True;
     s \<leftarrow> pic_mask s 0x00;
     (to_end, regs, y) \<leftarrow> syscall_case (rg_rax regs) cur regs (y\<lparr>kern := s\<rparr>);
     if to_end then do {
       let s = upd_regs (kern y) cur (\<lambda>_. regs);
       s \<leftarrow> pic_unmask s 0x00;
       Some (regs, y\<lparr>kern := s\<rparr>) }
     else Some (regs, y) }"

end
