(* ===== verification/Elf_Correct.thy ===== *)
theory Elf_Correct
  imports Elf
begin

text \<open>
  What loading a program does to the task table and the processor. The controller is assumed
  to transfer bytes to memory and nothing else: its wait is calm.
\<close>

section \<open>The floppy driver is calm\<close>

definition fdc_calm :: "floppy \<Rightarrow> bool" where
  "fdc_calm f \<longleftrightarrow> (\<forall>s s'. fdc_wait f s = Some s' \<longrightarrow> calm s s')"

lemma fdc_calmD: "fdc_wait f s = Some s' \<Longrightarrow> fdc_calm f \<Longrightarrow> calm r s \<Longrightarrow> calm r s'"
  unfolding fdc_calm_def by (blast intro: calm_trans)

lemma fdc_calm_updates [simp]:
  "fdc_calm (f\<lparr>floppy_result_ready := b\<rparr>) = fdc_calm f" "fdc_calm (f\<lparr>FLOPPY_Main_Info := i\<rparr>) = fdc_calm f"
  "fdc_calm (f\<lparr>FLOPPY_FDC_Present := b\<rparr>) = fdc_calm f"
  by (simp_all add: fdc_calm_def)

lemma calm_inb: "inb s p = (v, s') \<Longrightarrow> calm r s' = calm r s"
  by (auto simp: inb_def)

lemma FLOPPY_Set_Drive_calm [simp]: "calm r (FLOPPY_Set_Drive s d) = calm r s"
  by (simp add: FLOPPY_Set_Drive_def inb_def Let_def)

lemma read_results_calm: "calm r (snd (snd (read_results n i s b))) = calm r s"
proof (induction n arbitrary: i s b)
  case (Suc n)
  show ?case by (simp add: inb_def Let_def Suc)
qed simp

lemma FLOPPY_Read_Result_Bytes_calm:
  "FLOPPY_Read_Result_Bytes n s b = (ok, b', s') \<Longrightarrow> calm r s' = calm r s"
  using read_results_calm [of r "unat n" 0 s b] by (simp add: FLOPPY_Read_Result_Bytes_def)

lemma send_wait_calm [calm_rules]:
  assumes "send_wait s t = Some s'" "calm r s"
  shows "calm r s'"
proof -
  have left: "calm (s\<lparr>ports := pt\<rparr>) t = calm s t" for s t pt by (simp add: calm_def)
  from assms(1) have "calm s s'"
  proof (rule send_wait.raw_induct [where P = "\<lambda>s t s'. calm s s'", rotated], goal_cases)
    case (1 wait s t s')
    from 1(2) show ?case by (auto simp: Let_def inb_def left split: if_splits dest!: 1(1))
  qed
  then show ?thesis using assms(2) by (blast intro: calm_trans)
qed

lemma send_parameters_calm [calm_rules]: "send_parameters ps s = Some s' \<Longrightarrow> calm r s \<Longrightarrow> calm r s'"
proof (induction ps arbitrary: s)
  case (Cons p ps)
  then obtain t where t: "send_wait s (TimerWindow s) = Some t" "send_parameters ps (FLOPPY_Send_FIFO t p) = Some s'"
    by (auto elim!: bind_SomeE)
  have "calm r (FLOPPY_Send_FIFO t p)" using send_wait_calm [OF t(1) Cons.prems(2)] by (simp add: FLOPPY_Send_FIFO_def)
  then show ?case by (rule Cons.IH [OF t(2)])
qed simp

lemma fdc_command_calm:
  assumes "fdc_command s f cmd params res = Some (res', s', f')" "fdc_calm f" "calm r s"
  shows "calm r s' \<and> fdc_calm f'"
proof -
  obtain t u where t: "FLOPPY_Send_Command s cmd params = Some t" "fdc_wait f t = Some u"
    "f' = f\<lparr>floppy_result_ready := True\<rparr>" "s' = snd (snd (FLOPPY_Read_Result_Bytes 7 (pic_send_eoi u 6) res))"
    using assms(1)
    by (auto simp: fdc_command_def FLOPPY_IRQ_def Let_def split: prod.splits elim!: bind_SomeE)
  have "calm r t" using t(1) assms(3) send_parameters_calm [of params _ t r]
    by (simp add: FLOPPY_Send_Command_def FLOPPY_Send_FIFO_def)
  then have "calm r u" using fdc_calmD [OF t(2) assms(2)] by simp
  then have "calm r s'"
    using read_results_calm [of r 7 0 "pic_send_eoi u 6" res] by (simp add: t(4) FLOPPY_Read_Result_Bytes_def)
  then show ?thesis using assms(2) t(3) by simp
qed

lemma check_results_calm: "check_results res s = Some (e, s') \<Longrightarrow> calm r s' = calm r s"
  by (auto simp: check_results_def split: if_splits elim!: bind_SomeE)

lemma ISA_DMA_Transfer_To_calm: "ISA_DMA_Transfer_To s ch b c a m = (v, s') \<Longrightarrow> calm r s' = calm r s"
  by (auto simp: ISA_DMA_Transfer_To_def reset_flipflop_def dma_address_def Let_def split: if_splits option.splits)

lemma read_chunk_calm:
  assumes "read_chunk s f params res dma c b n = Some (e, res', s', f')" "fdc_calm f" "calm r s"
  shows "calm r s' \<and> fdc_calm f'"
proof -
  obtain v t res1 u f1 e1 w where t: "ISA_DMA_Transfer_To s 2 dma c True 0b01 = (v, t)"
    "fdc_command t f FLOPPY_CMD_READ params res = Some (res1, u, f1)" "check_results res1 u = Some (e1, w)"
    "(if e1 \<noteq> None then Some (e1, res1, w, f1)
      else do { s \<leftarrow> memcpy w b (FLOPPY_BOUNCE_BUFFER f1) n; Some (None, res1, s, f1) }) = Some (e, res', s', f')"
    using assms(1) unfolding read_chunk_def by (auto simp: Let_def split: prod.splits elim!: bind_SomeE)
  have "calm r u \<and> fdc_calm f1"
    using fdc_command_calm [OF t(2) assms(2), of r] assms(3) ISA_DMA_Transfer_To_calm [OF t(1)] by simp
  then have "calm r w" "fdc_calm f1" using check_results_calm [OF t(3)] by simp_all
  then show ?thesis using t(4) by (auto split: if_splits elim!: bind_SomeE dest: memcpy_calm)
qed

lemma read_chunks_calm:
  "read_chunks n s f params res tc b = Some (e, res', s', f') \<Longrightarrow> fdc_calm f \<Longrightarrow> calm r s \<Longrightarrow>
     calm r s' \<and> fdc_calm f'"
proof (induction n arbitrary: s f res)
  case (Suc n)
  obtain pa t e1 res1 u f1 where t: "phys_addr s (FLOPPY_BOUNCE_BUFFER f) = Some (pa, t)"
    "read_chunk t f params res (ucast pa) (ucast (tc mod 0x10000 - 1)) b 0x10000 = Some (e1, res1, u, f1)"
    "(if e1 \<noteq> None then Some (e1, res1, u, f1) else read_chunks n u f1 params res1 tc b) = Some (e, res', s', f')"
    using Suc.prems(1) unfolding read_chunks.simps by (fastforce elim!: bind_SomeE)
  have "calm r u \<and> fdc_calm f1"
    by (rule read_chunk_calm [OF t(2) Suc.prems(2)]) (rule phys_addr_calm [OF t(1) Suc.prems(3)])
  then show ?case using t(3) Suc.IH by (auto split: if_splits)
qed simp

lemma FLOPPY_Read_LBA_calm:
  assumes "FLOPPY_Read_LBA s f D lba b n = Some (v, s', f')" "fdc_calm f" "calm r s"
  shows "calm r s' \<and> fdc_calm f'"
proof -
  obtain c :: CHS where "FLOPPY_Read_CHS s f D (ucast (Cylinder c)) (ucast (Head c)) (ucast (Sector c)) b n = Some (v, s', f')"
    using assms(1) unfolding FLOPPY_Read_LBA_def by (auto elim!: bind_SomeE)
  moreover have "FLOPPY_Read_CHS s f D C H S b n = Some (v, s', f') \<Longrightarrow> calm r s' \<and> fdc_calm f'" for C H S
  proof -
    assume a: "FLOPPY_Read_CHS s f D C H S b n = Some (v, s', f')"
    obtain t where t: "memset s (FLOPPY_BOUNCE_BUFFER f) 0 0x10000 = Some t"
      using a unfolding FLOPPY_Read_CHS_def by (auto elim!: bind_SomeE)
    have c: "calm r (FLOPPY_Set_Drive t D)" using memset_calm [OF t assms(3)] by simp
    note step = read_chunk_calm [OF _ assms(2) c] read_chunks_calm [OF _ assms(2) c] read_chunk_calm
    from a t show ?thesis unfolding FLOPPY_Read_CHS_def Let_def
      by (auto split: if_splits option.splits elim!: bind_SomeE dest!: step(1,2) dest: read_chunk_calm)
  qed
  ultimately show ?thesis by blast
qed

section \<open>The pages and segments of an image\<close>

lemma segment_pages_calm [calm_rules]: "segment_pages n pid hdr va s = Some s' \<Longrightarrow> calm r s \<Longrightarrow> calm r s'"
proof (induction n arbitrary: va s)
  case (Suc n)
  obtain free a t and h :: ProgramHeader64 where t: "alloc_page s \<lparr>pg_flags = 0b101 OR (ucast (p_flags h) AND 2),
       pg_Execute_Disable = (p_flags h AND 1 = 0), virtual_address = va, physical_address = free\<rparr> = Some (a, t)"
    "segment_pages n pid hdr (va + 0x1000) (upd_mem t pid (\<lambda>m. m\<lparr>PageCount := PageCount m + 1\<rparr>)) = Some s'"
    using Suc.prems(1) unfolding segment_pages.simps Let_def by (fastforce elim!: bind_SomeE)
  show ?case by (rule Suc.IH [OF t(2)]) (use alloc_page_calm [OF t(1) Suc.prems(2)] in simp)
qed simp

lemma segment_head_calm:
  "segment_head env D lba off dest s f = Some (b, l, s', f') \<Longrightarrow> fdc_calm f \<Longrightarrow> calm r s \<Longrightarrow>
     calm r s' \<and> fdc_calm f'"
  by (auto simp: segment_head_def split: if_splits elim!: bind_SomeE dest!: FLOPPY_Read_LBA_calm
      dest: memcpy_calm)

lemma load_segment_calm:
  assumes "load_segment env D LBA pid hdr s f = Some (s', f')" "fdc_calm f" "calm r s"
  shows "calm r s' \<and> fdc_calm f'"
proof -
  obtain h where h: "program_header s hdr = Some h"
    using assms(1) unfolding load_segment_def by (auto elim!: bind_SomeE)
  show ?thesis
  proof (cases "p_type h = PT_LOAD")
    case False
    then show ?thesis using assms h by (simp add: load_segment_def)
  next
    case True
    define s0 where "s0 = (if BaseVirtualAddress (task_mem s pid) = 0
      then upd_mem s pid (\<lambda>m. m\<lparr>BaseVirtualAddress := p_vaddr h\<rparr>) else s)"
    obtain t b l u f1 and h1 h2 :: ProgramHeader64 where t:
      "(if segment_page_count h \<le> 0x80000000
        then segment_pages (unat (segment_page_count h)) pid hdr (p_vaddr h AND NOT 0xFFF) s0 else None) = Some t"
      "segment_head env D (LBA + p_offset h1 div 512) (p_offset h1 mod 512) (p_vaddr h) t f = Some (b, l, u, f1)"
      "(if p_filesz h2 - b > 0 then do {
          (_, s, f) \<leftarrow> FLOPPY_Read_LBA u f1 D l (p_vaddr h + b) (ucast ((p_filesz h2 - b + 511) div 512));
          Some (s, f) } else Some (u, f1)) = Some (s', f')"
      using assms(1) h True unfolding load_segment_def Let_def s0_def
      by (auto elim!: bind_SomeE simp del: segment_pages.simps)
    have "calm r s0" using assms(3) by (simp add: s0_def)
    then have "calm r t" using t(1) by (auto split: if_splits dest: segment_pages_calm)
    then have "calm r u \<and> fdc_calm f1" using segment_head_calm [OF t(2) assms(2)] by blast
    then show ?thesis using t(3) by (auto split: if_splits elim!: bind_SomeE dest!: FLOPPY_Read_LBA_calm)
  qed
qed

lemma load_segments_calm:
  "load_segments n env D LBA pid hdr s f = Some (s', f') \<Longrightarrow> fdc_calm f \<Longrightarrow> calm r s \<Longrightarrow>
     calm r s' \<and> fdc_calm f'"
proof (induction n arbitrary: hdr s f)
  case (Suc n)
  obtain t f1 where t: "load_segment env D LBA pid hdr s f = Some (t, f1)"
    "load_segments n env D LBA pid (hdr + 56) t f1 = Some (s', f')"
    using Suc.prems(1) by (auto elim!: bind_SomeE)
  show ?case using load_segment_calm [OF t(1) Suc.prems(2,3)] Suc.IH [OF t(2)] by blast
qed simp

lemma make_kernel_stack_calm [calm_rules]:
  "make_kernel_stack pid s = Some (k, s') \<Longrightarrow> calm r s \<Longrightarrow> calm r s'"
  by (auto simp: make_kernel_stack_def Let_def elim!: bind_SomeE)
    ((assumption | (rule calm_rules, assumption) | simp)+)

lemma fill_program_buffer_calm:
  "fill_program_buffer env D LBA s f = Some (s', f') \<Longrightarrow> fdc_calm f \<Longrightarrow> calm r s \<Longrightarrow> calm r s' \<and> fdc_calm f'"
  by (auto simp: fill_program_buffer_def split: if_splits elim!: bind_SomeE dest!: FLOPPY_Read_LBA_calm)

text \<open>Loading the image changes the new task's own entry, the address space and the current task.\<close>

lemma load_image_control:
  assumes "load_image env D LBA pid pml4 headers s f = Some (s', f')" "fdc_calm f"
  shows "calm (upd_task (TASKMGR_set_current s pid) pid
      (\<lambda>t. t\<lparr>Base_PML4 := pml4, ProcessState := CREATION_PROCESS_STATE\<rparr>)) s' \<and> fdc_calm f'"
proof -
  let ?s = "upd_task (upd_mem (TASKMGR_set_current s pid) pid (\<lambda>m. m\<lparr>BaseVirtualAddress := 0\<rparr>)) pid
      (\<lambda>t. t\<lparr>Base_PML4 := pml4, ProcessState := CREATION_PROCESS_STATE\<rparr>)"
  have swap: "?s = upd_mem (upd_task (TASKMGR_set_current s pid) pid
      (\<lambda>t. t\<lparr>Base_PML4 := pml4, ProcessState := CREATION_PROCESS_STATE\<rparr>)) pid (\<lambda>m. m\<lparr>BaseVirtualAddress := 0\<rparr>)"
    by (cases "TaskManager (TASKMGR_set_current s pid) pid") (simp add: upd_mem_def upd_task_def)
  obtain free stack t u and h :: ElfHeader64 where t: "alloc_page ?s \<lparr>pg_flags = USER_FLAGS, pg_Execute_Disable = False,
       virtual_address = stack_base AND NOT 0xFFF, physical_address = free\<rparr> = Some (stack, t)"
    "memset t stack 0 0x1000 = Some u"
    "load_segments (unat (e_phnum h)) env D LBA pid headers (upd_mem u pid
       (\<lambda>m. m\<lparr>StackBaseVirtualAddress := stack_base, StackPageCount := 1\<rparr>)) f = Some (s', f')"
    using assms(1) unfolding load_image_def Let_def by (auto elim!: bind_SomeE)
  have "calm ?s u" by (rule memset_calm [OF t(2)]) (rule alloc_page_calm [OF t(1)], simp)
  then have "calm ?s s' \<and> fdc_calm f'" using load_segments_calm [OF t(3) assms(2)] by simp
  then show ?thesis unfolding swap by (blast intro: calm_trans calm_upd_mem [THEN iffD2] calm_refl)
qed

section \<open>The stack of a new task\<close>

lemma vwrite8_ram: "vwrite8 s a b = Some s' \<Longrightarrow> s' = s\<lparr>ram := ram s'\<rparr>"
  by (auto simp: vwrite8_def)

lemma vwrite64_ram: "vwrite64 s a b = Some s' \<Longrightarrow> s' = s\<lparr>ram := ram s'\<rparr>"
  by (auto simp: vwrite64_def split: if_splits elim!: bind_SomeE)

lemma ram_only_trans: "(t :: kst) = s\<lparr>ram := m\<rparr> \<Longrightarrow> u = t\<lparr>ram := ram u\<rparr> \<Longrightarrow> u = s\<lparr>ram := ram u\<rparr>"
  by (metis kst.surjective kst.update_convs(1))

lemma push_bytes_ram: "push_bytes bs s st = Some (st', s') \<Longrightarrow> s' = s\<lparr>ram := ram s'\<rparr>"
proof (induction bs arbitrary: s st)
  case (Cons b bs)
  then obtain t where "vwrite8 s (st - 1) b = Some t" "push_bytes bs t (st - 1) = Some (st', s')"
    by (auto elim!: bind_SomeE)
  then show ?case using Cons.IH vwrite8_ram ram_only_trans by metis
qed simp

lemma push_strings_ram: "push_strings as s st = Some (ps, st', s') \<Longrightarrow> s' = s\<lparr>ram := ram s'\<rparr>"
proof (induction as arbitrary: ps st' s')
  case (Cons a as)
  then obtain ps1 st1 t where "push_strings as s st = Some (ps1, st1, t)"
    "push_bytes (rev (a @ [0])) t st1 = Some (st', s')"
    by (auto elim!: bind_SomeE simp del: push_bytes.simps)
  then show ?case using Cons.IH push_bytes_ram ram_only_trans by metis
qed simp

lemma push_words_ram: "push_words ws s st = Some (st', s') \<Longrightarrow> s' = s\<lparr>ram := ram s'\<rparr>"
proof (induction ws arbitrary: st' s')
  case (Cons w ws)
  then obtain st1 t where "push_words ws s st = Some (st1, t)" "vwrite64 t (st1 - 8) w = Some s'"
    by (auto elim!: bind_SomeE)
  then show ?case using Cons.IH vwrite64_ram ram_only_trans by metis
qed simp

lemma SetupTaskStack_control:
  assumes "SetupTaskStack s pid argv = Some s'"
  obtains sp where "TaskManager s' = TaskManager (upd_regs s pid (\<lambda>r. r\<lparr>rg_rsp := sp\<rparr>))"
    "cr3 s' = PML4_Physical s" "PML4_Physical s' = PML4_Physical s" "cur_pid s' = cur_pid s"
proof -
  define s0 where "s0 = mem_set_cr3 (TASKMGR_set_current s pid) (Base_PML4 (TaskManager s pid)) True"
  have s0: "TaskManager s0 = TaskManager s"
    by (simp add: s0_def mem_set_cr3_def mem_sync_cr3_def TASKMGR_set_current_def Let_def)
  obtain ps st t st1 u v where t: "push_strings argv s0 (rg_rsp (task_regs s0 pid)) = Some (ps, st, t)"
    "push_words (ps @ [0]) t st = Some (st1, u)" "vwrite64 u (st1 - 8) (of_nat (length argv)) = Some v"
    "s' = TASKMGR_set_current (mem_set_cr3 (upd_regs v pid (\<lambda>r. r\<lparr>rg_rsp := st1 - 8\<rparr>)) (PML4_Physical s) True) (cur_pid s)"
    using assms unfolding SetupTaskStack_def Let_def
    by (auto simp: s0_def TASKMGR_get_current_def TASKMGR_set_current_def elim!: bind_SomeE)
  have "v = s0\<lparr>ram := ram v\<rparr>"
    using push_strings_ram [OF t(1)] push_words_ram [OF t(2)] vwrite64_ram [OF t(3)] ram_only_trans by metis
  then have "TaskManager v = TaskManager s" using s0 by (metis kst.ext_inject kst.surjective kst.update_convs(1))
  then show thesis
    by (intro that [of "st1 - 8"])
      (simp_all add: t(4) TASKMGR_set_current_def mem_set_cr3_def mem_sync_cr3_def Let_def upd_regs_def upd_task_def)
qed

section \<open>A new task\<close>

lemma FindFreePID_cong:
  assumes "\<And>p. task_Exists (TaskManager s' p) = task_Exists (TaskManager s p)"
  shows "FindFreePID s' = FindFreePID s"
  using assms by (simp add: FindFreePID_def)

text \<open>The entry of a task that has been loaded and can run.\<close>

definition loaded_task :: "u64 \<Rightarrow> u64 \<Rightarrow> u64 \<Rightarrow> u64 \<Rightarrow> u64 \<Rightarrow> u64 \<Rightarrow> tss \<Rightarrow> task" where
  "loaded_task base entry_point pages pml4 kstack sp kernel_tss =
     (new_task base entry_point pages USER_PRIORITY (stack_base + 4080) pml4)\<lparr>
       MemoryData := \<lparr>BaseVirtualAddress = base, PageCount = pages,
         StackBaseVirtualAddress = stack_base, StackPageCount = 1,
         KernelStackBaseVirtualAddress = kstack, KernelStackPageCount = 5, HeapVirtualAddress = 0\<rparr>,
       SavedRegisters := zero_regs\<lparr>rg_cs := 0x18 OR 0x3, rg_rsp := sp, rg_rbp := stack_base + 4080,
         rg_rip := entry_point, rg_ss := 0x20 OR 0x3\<rparr>,
       UserTSS := kernel_tss\<lparr>tss_rsp0 := kstack\<rparr>,
       ProcessState := READY_PROCESS_STATE\<rparr>"

lemma finish_task_control:
  assumes "finish_task pid kstack prev argv s = Some (r, s')" "pid \<noteq> 0"
    and "TaskManager s pid = new_task base en pages USER_PRIORITY (stack_base + 4080) pml4"
  obtains sp where "TaskManager s' = (TaskManager s)(pid :=
      loaded_task base en pages pml4 kstack sp (UserTSS (TaskManager s 0)))"
    "cr3 s' = prev" "PML4_Physical s' = prev" "cur_pid s' = cur_pid s" "r = base"
proof -
  define t where "t = upd_task (upd_mem s pid (\<lambda>m. m\<lparr>StackBaseVirtualAddress := stack_base, StackPageCount := 1,
       KernelStackPageCount := 5, KernelStackBaseVirtualAddress := kstack\<rparr>)) pid
       (\<lambda>t. t\<lparr>UserTSS := (UserTSS (TaskManager s 0))\<lparr>tss_rsp0 := kstack\<rparr>\<rparr>)"
  have k: "TaskManager (upd_mem s pid f) 0 = TaskManager s 0" for f
    using assms(2) by (simp add: upd_mem_def upd_task_def)
  obtain u where u: "SetupTaskStack t pid argv = Some u"
    "s' = mem_set_cr3 (set_state u pid READY_PROCESS_STATE) prev True" "r = BaseVirtualAddress (task_mem s' pid)"
    using assms(1) unfolding finish_task_def Let_def KernelTask_def k t_def [symmetric]
    by (auto elim!: bind_SomeE)
  obtain sp where sp: "TaskManager u = TaskManager (upd_regs t pid (\<lambda>r. r\<lparr>rg_rsp := sp\<rparr>))"
    "cr3 u = PML4_Physical t" "PML4_Physical u = PML4_Physical t" "cur_pid u = cur_pid t"
    using u(1) by (rule SetupTaskStack_control)
  have T: "TaskManager s' = (TaskManager s)(pid :=
      loaded_task base en pages pml4 kstack sp (UserTSS (TaskManager s 0)))"
    using assms(3)
    by (simp add: u(2) mem_set_cr3_def mem_sync_cr3_def Let_def set_state_def upd_task_def sp(1) t_def
        upd_regs_def upd_mem_def loaded_task_def new_task_def zero_mem_def_def zero_task_def zero_regs_def)
  show thesis
    by (rule that [OF T])
      (use sp in \<open>simp_all add: u mem_set_cr3_def mem_sync_cr3_def Let_def set_state_def upd_task_def t_def
        upd_mem_def task_mem_def loaded_task_def upd_regs_def T assms(3) new_task_def\<close>)
qed


end
