(* ===== verification/Exceptions.thy ===== *)
theory Exceptions
  imports Control Console
begin

text \<open>
  The exception handlers of \<open>ErrorHandling/Exceptions.c\<close>, with copy-on-write and the growth of
  the stack on a page fault, and the panic screen of \<open>ErrorHandling/KernelPanic.c\<close>. The buffer
  \<open>CoW_bounce_buffer\<close> is a page of kernel memory whose address is a parameter.
\<close>

section \<open>Output\<close>

definition DumpTaskState :: "int \<Rightarrow> kst \<Rightarrow> kst" where
  "DumpTaskState pid s =
     (let cur = TaskManager s pid; r = SavedRegisters cur;
          s = say s (Printf ''  State Dump of task %i'' [word_of_int pid]);
          s = say s (Printf ''RIP=%x:%x RSP=%x:%x'' [rg_cs r, rg_rip r, rg_ss r, rg_rsp r]);
          s = say s (Printf ''RAX=%x RBX=%x RCX=%x RDX=%x'' [rg_rax r, rg_rbx r, rg_rcx r, rg_rdx r])
      in say s (Printf ''STATE=%x MAXT=%i USEDT=%i''
           [ucast (ProcessState cur), ucast (MaxTicks cur), ucast (UsedTicks cur)]))"

definition BLUE :: u8 where "BLUE = 0x1"

text \<open>The state in which \<open>KernelPanic\<close> halts; the call itself does not come back.\<close>

definition KernelPanic_screen :: "kst \<Rightarrow> regs \<Rightarrow> kst" where
  "KernelPanic_screen s r =
     (let s = say s (SetColor WHITE BLUE);
          s = say s Cls;
          s = say s (Printf ''ChudOS Kernel Panic'' []);
          s = say s (Printf ''General Registers:'' []);
          s = say s (Printf ''RAX: %x '' [rg_rax r]);
          s = say s (Printf ''RBX: %x '' [rg_rbx r]);
          s = say s (Printf ''RCX: %x '' [rg_rcx r]);
          s = say s (Printf ''RDX: %x'' [rg_rdx r]);
          s = say s (Printf ''RDI: %x '' [rg_rdi r]);
          s = say s (Printf ''RSI: %x'' [rg_rsi r]);
          s = say s (Printf ''Special Registers:'' []);
          s = say s (Printf ''RIP: %x'' [rg_rip r]);
          s = say s (Printf ''RSP: %x'' [rg_rsp r]);
          s = say s (Printf ''RBP: %x'' [rg_rbp r]);
          s = say s (Printf ''CR2: %x'' [rg_cr2 r]);
          s = say s (Printf ''CR3: %x'' [cr3 s]);
          s = say s (Printf ''CS: %x'' [rg_cs r]);
          s = say s (Printf ''SS: %x'' [rg_ss r]);
          s = say s (Printf ''RFLAGS: %x'' [rg_rflags r]);
          s = say s (Printf ''ERROR CODE: %x'' [rg_error_code r]);
          s = say s (if rg_rip r \<ge> VIRTUAL_MEMORY_BARRIER
                then Printf ''This panic seems to have originated from kernel space, please report this on the github issues page.'' []
                else Printf ''This panic seems to have originated from user space.'' []);
          s = say s (Printf ''You can now turn off your computer.'' [])
      in cli s)"

definition KernelPanic :: "kst \<Rightarrow> regs \<Rightarrow> (regs \<times> kst) option" where
  "KernelPanic s r = None"

section \<open>Page faults\<close>

definition COW_BIT :: u64 where "COW_BIT = push_bit 9 1"

text \<open>The flags of a page that has become private: writable, and no longer copy-on-write.\<close>

definition cow_entry :: "u64 \<Rightarrow> u64 \<Rightarrow> u64" where
  "cow_entry f e =
     (let flags = (ucast (((e AND 0xFFF) OR 0b11) AND NOT (push_bit 9 1)) :: u16); xd = (ucast (drop_bit 63 e) :: u8)
      in f OR push_bit 63 (ucast xd) OR ucast flags)"

text \<open>A fault on a copy-on-write page whose entry \<open>e\<close> is at \<open>page_data\<close>.\<close>

definition copy_on_write :: "u64 \<Rightarrow> u64 \<Rightarrow> u64 \<Rightarrow> u64 \<Rightarrow> kst \<Rightarrow> kst option" where
  "copy_on_write bounce va page_data e s =
     (let f = e AND PTE_ADDR in
      if refcount (frame_of s f) \<le> 1 then vwrite64 s page_data (cow_entry f e)
      else do {
        let s = set_frame s f ((frame_of s f)\<lparr>refcount := refcount (frame_of s f) - 1\<rparr>);
        s \<leftarrow> vwrite64 s page_data (cow_entry f e);
        newPhysical \<leftarrow> FindNextFreePhysical s;
        s \<leftarrow> memcpy s bounce va 0x1000;
        s \<leftarrow> vwrite64 s page_data (cow_entry newPhysical e);
        let s = mem_SetBit s newPhysical;
        memcpy s va bounce 0x1000 })"

definition fault_page :: "u16 \<Rightarrow> bool \<Rightarrow> u64 \<Rightarrow> u64 \<Rightarrow> page_details" where
  "fault_page flags xd va pa = \<lparr>pg_flags = flags, pg_Execute_Disable = xd,
     virtual_address = va, physical_address = pa\<rparr>"

text \<open>The pages between the fault and the lowest page of the stack.\<close>

primrec grow_stack :: "nat \<Rightarrow> int \<Rightarrow> u64 \<Rightarrow> u64 \<Rightarrow> kst \<Rightarrow> kst option" where
  "grow_stack 0 pid va pa s = Some s"
| "grow_stack (Suc n) pid va pa s = do {
     (_, s) \<leftarrow> alloc_page s (fault_page USER_FLAGS True va pa);
     pa \<leftarrow> FindNextFreePhysical s;
     let s = upd_mem s pid (\<lambda>m. m\<lparr>StackPageCount := StackPageCount m + 1\<rparr>);
     grow_stack n pid (va + 0x1000) pa s }"

definition stack_low :: "mem_def \<Rightarrow> u64" where
  "stack_low m = StackBaseVirtualAddress m - (StackPageCount m - 1) * 0x1000"

text \<open>The loop counter is an \<open>int\<close> and the distance an unsigned number: a fault above the
  lowest page of the stack makes it wrap around.\<close>

definition new_user_page :: "int \<Rightarrow> u64 \<Rightarrow> u64 \<Rightarrow> kst \<Rightarrow> kst option" where
  "new_user_page cur low va s = do {
     newPhysical \<leftarrow> FindNextFreePhysical s;
     if va \<ge> low - 0x2000 \<and> va \<le> StackBaseVirtualAddress (task_mem s cur) then
       let dist = (low - va) div 0x1000
       in if dist \<le> 0x80000000 then grow_stack (unat dist) cur va newPhysical s else None
     else do {
       let s = upd_mem s cur (\<lambda>m. m\<lparr>PageCount := PageCount m + 1\<rparr>);
       (_, s) \<leftarrow> alloc_page s (fault_page USER_FLAGS False va newPhysical);
       Some s } }"

definition HandlePageFault :: "u64 \<Rightarrow> kst \<Rightarrow> regs \<Rightarrow> (regs \<times> kst) option" where
  "HandlePageFault bounce s regs = do {
     let saved_virt = rg_cr2 regs;
     let cur = TASKMGR_get_current s;
     let s = upd_regs s cur (\<lambda>_. regs);
     let va = saved_virt AND NOT 0xFFF;
     let low = stack_low (task_mem s cur);
     if \<not> mem_access_ok s saved_virt cur \<and> va < low - 0x4000 then do {
       let s = say s (VirtualPrint KERNEL_T ''[exc.pf] kill task'');
       let s = DumpTaskState cur s;
       let s = KillTask s cur;
       let s = SignalOwner s (TaskManager s cur) CHILD_WAIT_EXIT (- 1);
       s \<leftarrow> free_task_memory s cur;
       Some (ForceSwitch s regs) }
     else if va < VIRTUAL_MEMORY_BARRIER then do {
       let s = mem_set_cr3 s (Base_PML4 (TaskManager s cur)) False;
       (page_data, s) \<leftarrow> CalculatePagePhysicalEntryAddress s (ExtractPageEntries va);
       e \<leftarrow> vread64 s page_data;
       s \<leftarrow> (if e AND COW_BIT \<noteq> 0 then copy_on_write bounce va page_data e s
            else new_user_page cur low va s);
       Some (regs, s) }
     else do {
       newPhysical \<leftarrow> FindNextFreePhysical s;
       (_, s) \<leftarrow> alloc_page s (fault_page KERNEL_FLAGS False va newPhysical);
       Some (regs, s) } }"

section \<open>General protection faults and invalid opcodes\<close>

text \<open>The frame the stub pushed, copied field by field; the error code is not set.\<close>

definition ErrToInt :: "u64 \<Rightarrow> regs \<Rightarrow> regs" where
  "ErrToInt stack r = \<lparr>rg_int_no = rg_int_no r, rg_cr2 = rg_cr2 r, rg_r15 = rg_r15 r, rg_r14 = rg_r14 r,
     rg_r13 = rg_r13 r, rg_r12 = rg_r12 r, rg_r11 = rg_r11 r, rg_r10 = rg_r10 r, rg_r9 = rg_r9 r,
     rg_r8 = rg_r8 r, rg_rdi = rg_rdi r, rg_rsi = rg_rsi r, rg_rbp = rg_rbp r, rg_rbx = rg_rbx r,
     rg_rdx = rg_rdx r, rg_rcx = rg_rcx r, rg_rax = rg_rax r, rg_error_code = stack, rg_rip = rg_rip r,
     rg_cs = rg_cs r, rg_rflags = rg_rflags r, rg_rsp = rg_rsp r, rg_ss = rg_ss r\<rparr>"

text \<open>
  Both handlers switch to the next task with a copy of the frame: the frame itself, which the
  stub restores, is not changed. \<open>stack\<close> is what the unset field of the copy holds.
\<close>

definition kill_current :: "string \<Rightarrow> u64 \<Rightarrow> kst \<Rightarrow> regs \<Rightarrow> regs \<times> kst" where
  "kill_current msg stack s regs =
     (let cur = TASKMGR_get_current s;
          s = say s (VirtualPrint KERNEL_T msg);
          s = KillTask s cur;
          (regs_i, s) = ForceSwitch s (ErrToInt stack regs)
      in (regs, s))"

definition GeneralProtectionFault :: "u64 \<Rightarrow> kst \<Rightarrow> regs \<Rightarrow> (regs \<times> kst) option" where
  "GeneralProtectionFault stack s regs =
     (if TASKMGR_get_current s = 0
      then KernelPanic (say s (VirtualPrint KERNEL_T ''[exc.gf] kernel fail'')) regs
      else Some (kill_current ''[exc.gf] fatal. kill task'' stack s regs))"

definition InvalidOpcode :: "u64 \<Rightarrow> kst \<Rightarrow> regs \<Rightarrow> (regs \<times> kst) option" where
  "InvalidOpcode stack s regs =
     (if TASKMGR_get_current s = 0
      then KernelPanic (say s (VirtualPrint KERNEL_T ''[exc.op] fatal kernel'')) regs
      else Some (kill_current ''[exc.op] fatal. kill task'' stack s regs))"

end
