(* ===== verification/System.thy ===== *)
theory System
  imports Syscalls Elf_Correct Exceptions
begin

text \<open>
  The kernel as a whole: the events that enter it from outside (interrupts, system calls,
  exceptions) and the stores of the running program, as a step relation over the kernel, the
  file system, the drivers and the keyboard; and the invariant all of its handlers keep.
\<close>

section \<open>What handlers keep\<close>

text \<open>\<open>same_tasks\<close>: every task keeps its address space and the sizes of its arrays. \<open>keeps\<close>: the
  processor also stays in the same address space and task.\<close>

definition same_tasks :: "kst \<Rightarrow> kst \<Rightarrow> bool" where
  "same_tasks s s' \<longleftrightarrow> (\<forall>p. Base_PML4 (TaskManager s' p) = Base_PML4 (TaskManager s p) \<and>
     length (Descriptors (TaskManager s' p)) = length (Descriptors (TaskManager s p)) \<and>
     length (Signals (TaskManager s' p)) = length (Signals (TaskManager s p)))"

definition keeps :: "kst \<Rightarrow> kst \<Rightarrow> bool" where
  "keeps s s' \<longleftrightarrow> cr3 s' = cr3 s \<and> PML4_Physical s' = PML4_Physical s \<and> cur_pid s' = cur_pid s \<and>
     same_tasks s s'"

definition wf_tasks :: "kst \<Rightarrow> bool" where
  "wf_tasks s \<longleftrightarrow> (\<forall>p. task_wf (TaskManager s p))"

definition running :: "kst \<Rightarrow> bool" where
  "running s \<longleftrightarrow> cr3 s = PML4_Physical s \<and> cr3 s = Base_PML4 (TaskManager s (cur_pid s))"

definition kernel_ok :: "kst \<Rightarrow> bool" where
  "kernel_ok s \<longleftrightarrow> running s \<and> wf_tasks s"

named_theorems keeps_rules \<open>operations that keep the address space and the shape of the tasks\<close>

lemma same_tasks_refl [simp]: "same_tasks s s" by (simp add: same_tasks_def)

lemma keeps_refl [simp]: "keeps s s" by (simp add: keeps_def)

lemma same_tasks_trans: "same_tasks r s \<Longrightarrow> same_tasks s t \<Longrightarrow> same_tasks r t"
  by (simp add: same_tasks_def)

lemma keeps_trans: "keeps r s \<Longrightarrow> keeps s t \<Longrightarrow> keeps r t"
  by (auto simp: keeps_def intro: same_tasks_trans)

lemma keeps_same_tasks: "keeps s t \<Longrightarrow> same_tasks s t" by (simp add: keeps_def)

lemma calm_keeps: "calm s t \<Longrightarrow> keeps s t"
  by (simp add: keeps_def same_tasks_def calmD calm_fields)

lemma calm_same_tasks: "calm s t \<Longrightarrow> same_tasks s t"
  by (rule keeps_same_tasks [OF calm_keeps])

lemma same_tasks_wf: "same_tasks s t \<Longrightarrow> wf_tasks t = wf_tasks s"
  by (simp add: same_tasks_def wf_tasks_def task_wf_def)

lemma keeps_ok: "keeps s t \<Longrightarrow> kernel_ok s \<Longrightarrow> kernel_ok t"
  using same_tasks_wf [OF keeps_same_tasks, of s t]
  by (auto simp: kernel_ok_def running_def keeps_def same_tasks_def)

text \<open>Updates of the state that are kept, as rewrite rules.\<close>

lemma same_tasks_updates [simp]:
  "same_tasks r (s\<lparr>console := c\<rparr>) = same_tasks r s" "same_tasks r (s\<lparr>cr3 := a\<rparr>) = same_tasks r s"
  "same_tasks r (s\<lparr>cur_pid := p\<rparr>) = same_tasks r s" "same_tasks r (s\<lparr>PML4_Physical := a\<rparr>) = same_tasks r s"
  "same_tasks r (s\<lparr>ports := ps\<rparr>) = same_tasks r s" "same_tasks r (s\<lparr>ram := m\<rparr>) = same_tasks r s"
  "same_tasks r (s\<lparr>interrupts := i\<rparr>) = same_tasks r s" "same_tasks r (s\<lparr>TimerWindow := n\<rparr>) = same_tasks r s"
  "same_tasks r (s\<lparr>dr0 := n\<rparr>) = same_tasks r s" "same_tasks r (s\<lparr>ActiveTSS := ts\<rparr>) = same_tasks r s"
  "same_tasks r (s\<lparr>BiosTime := n\<rparr>) = same_tasks r s" "same_tasks r (s\<lparr>SecondsSinceBoot := n\<rparr>) = same_tasks r s"
  by (simp_all add: same_tasks_def)

lemma same_tasks_control [simp]:
  "same_tasks r (say s c) = same_tasks r s" "same_tasks r (mem_set_cr3 s a b) = same_tasks r s"
  "same_tasks r (TASKMGR_set_current s p) = same_tasks r s" "same_tasks r (UpdateActiveTSS s ts) = same_tasks r s"
  "same_tasks r (sti s) = same_tasks r s"
  by (simp_all add: say_def mem_set_cr3_def mem_sync_cr3_def TASKMGR_set_current_def UpdateActiveTSS_def
      sti_def Let_def)

lemma same_tasks_upd_task:
  assumes "Base_PML4 (f (TaskManager s p)) = Base_PML4 (TaskManager s p)"
    "length (Descriptors (f (TaskManager s p))) = length (Descriptors (TaskManager s p))"
    "length (Signals (f (TaskManager s p))) = length (Signals (TaskManager s p))"
  shows "same_tasks r (upd_task s p f) = same_tasks r s"
  using assms by (auto simp: same_tasks_def upd_task_def)

lemma same_tasks_entry [simp]:
  "same_tasks r (upd_regs s p g) = same_tasks r s" "same_tasks r (upd_mem s p h) = same_tasks r s"
  "same_tasks r (set_state s p st) = same_tasks r s" "same_tasks r (KillTask s p) = same_tasks r s"
  "same_tasks r (upd_fd s p fd k) = same_tasks r s"
  unfolding upd_regs_def upd_mem_def set_state_def KillTask_def upd_fd_def
  by (rule same_tasks_upd_task; simp)+

lemma keeps_updates [simp]:
  "keeps r (s\<lparr>console := c\<rparr>) = keeps r s" "keeps r (s\<lparr>ports := ps\<rparr>) = keeps r s"
  "keeps r (s\<lparr>ram := m\<rparr>) = keeps r s" "keeps r (s\<lparr>interrupts := i\<rparr>) = keeps r s"
  "keeps r (s\<lparr>TimerWindow := n\<rparr>) = keeps r s" "keeps r (s\<lparr>dr0 := n\<rparr>) = keeps r s"
  "keeps r (s\<lparr>BiosTime := n\<rparr>) = keeps r s" "keeps r (s\<lparr>SecondsSinceBoot := n\<rparr>) = keeps r s"
  "keeps r (say s con) = keeps r s"
  by (simp_all add: keeps_def say_def)

lemma upd_control [simp]:
  "cr3 (upd_task s p f) = cr3 s" "PML4_Physical (upd_task s p f) = PML4_Physical s"
  "cur_pid (upd_task s p f) = cur_pid s" "cr3 (upd_regs s p g) = cr3 s"
  "PML4_Physical (upd_regs s p g) = PML4_Physical s" "cur_pid (upd_regs s p g) = cur_pid s"
  "cr3 (upd_mem s p h) = cr3 s" "PML4_Physical (upd_mem s p h) = PML4_Physical s"
  "cur_pid (upd_mem s p h) = cur_pid s" "cr3 (set_state s p st) = cr3 s"
  "PML4_Physical (set_state s p st) = PML4_Physical s" "cur_pid (set_state s p st) = cur_pid s"
  by (simp_all add: upd_task_def upd_regs_def upd_mem_def set_state_def)

lemma keeps_entry [simp]:
  "keeps r (upd_regs s p g) = keeps r s" "keeps r (upd_mem s p h) = keeps r s"
  "keeps r (set_state s p st) = keeps r s" "keeps r (KillTask s p) = keeps r s"
  "keeps r (upd_fd s p fd k) = keeps r s"
  by (simp_all add: keeps_def) (simp_all add: KillTask_def upd_fd_def)

lemma keeps_upd_task:
  assumes "Base_PML4 (f (TaskManager s p)) = Base_PML4 (TaskManager s p)"
    "length (Descriptors (f (TaskManager s p))) = length (Descriptors (TaskManager s p))"
    "length (Signals (f (TaskManager s p))) = length (Signals (TaskManager s p))"
  shows "keeps r (upd_task s p f) = keeps r s"
  using same_tasks_upd_task [of f s p r] assms by (simp add: keeps_def)

lemma calm_keeps_rule: "calm s s' \<Longrightarrow> keeps r s \<Longrightarrow> keeps r s'"
  by (blast intro: keeps_trans calm_keeps)

text \<open>A calm operation keeps what is kept.\<close>

lemma pic_send_eoi_keeps [simp]:
  "keeps r (pic_send_eoi s i) = keeps r s" "same_tasks r (pic_send_eoi s i) = same_tasks r s"
  by (simp_all add: pic_send_eoi_def outb_def Let_def)

lemma inb_keeps: "inb s p = (v, s') \<Longrightarrow> keeps r s' = keeps r s"
  by (auto simp: inb_def)

lemma call_keeps [keeps_rules]:
  "vwrite8 s a b = Some s' \<Longrightarrow> keeps r s \<Longrightarrow> keeps r s'"
  "vwrite64 s a w = Some s' \<Longrightarrow> keeps r s \<Longrightarrow> keeps r s'"
  "memset s a b n = Some s' \<Longrightarrow> keeps r s \<Longrightarrow> keeps r s'"
  "memcpy s a c n = Some s' \<Longrightarrow> keeps r s \<Longrightarrow> keeps r s'"
  "alloc_page s pg = Some (v, s') \<Longrightarrow> keeps r s \<Longrightarrow> keeps r s'"
  "CalculatePagePhysicalEntryAddress s e = Some (v, s') \<Longrightarrow> keeps r s \<Longrightarrow> keeps r s'"
  "Create_User_Memory s = Some (v, s') \<Longrightarrow> keeps r s \<Longrightarrow> keeps r s'"
  "copy_from_user s a c n = Some (v, s') \<Longrightarrow> keeps r s \<Longrightarrow> keeps r s'"
  "pic_mask s i = Some s' \<Longrightarrow> keeps r s \<Longrightarrow> keeps r s'"
  "pic_unmask s i = Some s' \<Longrightarrow> keeps r s \<Longrightarrow> keeps r s'"
  by (blast intro: calm_keeps_rule calm_rules calm_refl)+

section \<open>Signals\<close>

lemma TaskStack_Push_keeps [keeps_rules]:
  "TaskStack_Push s p v False = Some s' \<Longrightarrow> keeps r s \<Longrightarrow> keeps r s'"
  by (auto simp: TaskStack_Push_def Let_def split: if_splits dest: call_keeps(2))

lemma TaskStack_Pop_keeps [keeps_rules]:
  "TaskStack_Pop s p False = Some (v, s') \<Longrightarrow> keeps r s \<Longrightarrow> keeps r s'"
  by (auto simp: TaskStack_Pop_def Let_def split: if_splits elim!: bind_SomeE)

lemma push_regs_keeps [keeps_rules]: "push_regs gs p s = Some s' \<Longrightarrow> keeps r s \<Longrightarrow> keeps r s'"
  by (induction gs arbitrary: s) (auto elim!: bind_SomeE dest: TaskStack_Push_keeps)

lemma pop_regs_keeps [keeps_rules]: "pop_regs us p s = Some s' \<Longrightarrow> keeps r s \<Longrightarrow> keeps r s'"
proof (induction us arbitrary: s)
  case (Cons u us)
  then obtain v t where t: "TaskStack_Pop s p False = Some (v, t)" "pop_regs us p (upd_regs t p (u v)) = Some s'"
    by (auto elim!: bind_SomeE)
  show ?case by (rule Cons.IH [OF t(2)]) (use TaskStack_Pop_keeps [OF t(1) Cons.prems(2)] in simp)
qed simp

text \<open>A detour through another address space that ends in the first.\<close>

lemma detour_keeps:
  assumes "cr3 s = PML4_Physical s" "same_tasks s t" "cur_pid t = cur_pid s"
  shows "keeps s (mem_set_cr3 t (PML4_Physical s) b)"
  using assms by (simp add: keeps_def mem_set_cr3_def mem_sync_cr3_def Let_def same_tasks_def)

lemma mem_set_cr3_fields [simp]:
  "cr3 (mem_set_cr3 s a b) = a" "PML4_Physical (mem_set_cr3 s a b) = a" "cur_pid (mem_set_cr3 s a b) = cur_pid s"
  "TaskManager (mem_set_cr3 s a b) = TaskManager s"
  by (simp_all add: mem_set_cr3_def mem_sync_cr3_def Let_def)

lemma EstablishSignalStack_keeps:
  assumes "EstablishSignalStack s p = Some s'" "cr3 s = PML4_Physical s"
  shows "keeps s s'"
proof (cases "task_Exists (TaskManager s p)")
  case True
  define c where "c \<longleftrightarrow> ProcessID (TaskManager s p) = word_of_int (cur_pid s)"
  define t where "t = set_state (if c then s else mem_set_cr3 s (Base_PML4 (TaskManager s p)) True) p CREATION_PROCESS_STATE"
  obtain u where u: "push_regs signal_pushes p t = Some u"
    "s' = set_state (if c then upd_regs u p (\<lambda>r. r\<lparr>rg_r12 := rg_rsp r\<rparr>)
            else mem_set_cr3 (upd_regs u p (\<lambda>r. r\<lparr>rg_r12 := rg_rsp r\<rparr>)) (PML4_Physical s) True) p READY_PROCESS_STATE"
    using assms(1) True unfolding EstablishSignalStack_def Let_def TASKMGR_get_current_def c_def [symmetric]
      t_def [symmetric]
    by (auto elim!: bind_SomeE)
  have k: "keeps t u" by (rule push_regs_keeps [OF u(1)]) simp
  have st: "same_tasks s t" by (simp add: t_def)
  show ?thesis
  proof (cases c)
    case True
    then have "keeps s t" by (simp add: t_def)
    then have "keeps s u" using k by (rule keeps_trans)
    then show ?thesis using True by (simp add: u(2))
  next
    case False
    have "same_tasks s u" using st keeps_same_tasks [OF k] by (rule same_tasks_trans)
    moreover have "cur_pid u = cur_pid s" using k False by (simp add: keeps_def t_def)
    ultimately show ?thesis using False assms(2) by (simp add: u(2) detour_keeps)
  qed
qed (use assms in \<open>simp add: EstablishSignalStack_def\<close>)

lemma SignalReturn_keeps:
  assumes "SignalReturn s p = Some s'" "cr3 s = PML4_Physical s"
  shows "keeps s s'"
proof (cases "task_Exists (TaskManager s p)")
  case True
  define c where "c \<longleftrightarrow> p = cur_pid s"
  define t where "t = upd_regs (set_state (if c then s else mem_set_cr3 s (Base_PML4 (TaskManager s p)) True) p
    CREATION_PROCESS_STATE) p (\<lambda>r. r\<lparr>rg_rsp := rg_r12 r\<rparr>)"
  obtain u where u: "pop_regs signal_pops p t = Some u"
    "s' = set_state (if c then u else mem_set_cr3 u (PML4_Physical s) True) p READY_PROCESS_STATE"
    using assms(1) True unfolding SignalReturn_def Let_def TASKMGR_get_current_def c_def [symmetric]
      t_def [symmetric]
    by (auto elim!: bind_SomeE)
  have k: "keeps t u" by (rule pop_regs_keeps [OF u(1)]) simp
  have st: "same_tasks s t" by (simp add: t_def)
  show ?thesis
  proof (cases c)
    case True
    then have "keeps s t" by (simp add: t_def)
    then have "keeps s u" using k by (rule keeps_trans)
    then show ?thesis using True by (simp add: u(2))
  next
    case False
    have "same_tasks s u" using st keeps_same_tasks [OF k] by (rule same_tasks_trans)
    moreover have "cur_pid u = cur_pid s" using k False by (simp add: keeps_def t_def)
    ultimately show ?thesis using False assms(2) by (simp add: u(2) detour_keeps)
  qed
qed (use assms in \<open>simp add: SignalReturn_def\<close>)

lemma SendSignal_keeps:
  assumes "SendSignal s p ident a0 a1 a2 a3 = Some s'" "cr3 s = PML4_Physical s"
  shows "keeps s s'"
proof -
  let ?t = "set_state s p CREATION_PROCESS_STATE"
  consider "s' = s" | c where "s' = say ?t c" | u g where "EstablishSignalStack ?t p = Some u"
    "s' = set_state (upd_regs u p g) p READY_PROCESS_STATE"
    using assms(1) unfolding SendSignal_def Let_def by (auto split: if_splits elim!: bind_SomeE)
  then show ?thesis
  proof cases
    case 3
    have "keeps ?t u" by (rule EstablishSignalStack_keeps [OF 3(1)]) (simp add: assms(2))
    moreover have "keeps s ?t" by simp
    ultimately have "keeps s u" by (blast intro: keeps_trans)
    then show ?thesis by (simp add: 3(2))
  qed simp_all
qed

lemma RegisterSignal_keeps [keeps_rules]:
  "RegisterSignal s p i e = Some s' \<Longrightarrow> keeps r s \<Longrightarrow> keeps r s'"
  by (auto simp: RegisterSignal_def keeps_upd_task split: if_splits)

section \<open>Switching and freeing\<close>

lemma task_switch_ok:
  assumes "wf_tasks s" "task_switch s p fr = (fr', s')"
  shows "kernel_ok s'"
proof -
  have "same_tasks s s'" using assms(2) by (auto simp: task_switch_def Let_def)
  then have "wf_tasks s'" by (rule same_tasks_wf [THEN iffD2, OF _ assms(1)])
  moreover have "running s'"
    using assms(2) by (auto simp: task_switch_def Let_def running_def UpdateActiveTSS_def TASKMGR_set_current_def)
  ultimately show ?thesis by (simp add: kernel_ok_def)
qed

lemma wf_zero_task: "wf_tasks s \<Longrightarrow> wf_tasks (upd_task s p (\<lambda>_. zero_task))"
  by (simp add: wf_tasks_def upd_task_def task_wf_def zero_task_def)

lemma wf_upd_task:
  "wf_tasks s \<Longrightarrow> task_wf (f (TaskManager s p)) \<Longrightarrow> wf_tasks (upd_task s p f)"
  by (simp add: wf_tasks_def upd_task_def)

lemma ForceSwitch_ok:
  assumes "wf_tasks s" "ForceSwitch s fr = (fr', s')"
  shows "kernel_ok s'"
proof -
  let ?s = "upd_task s (cur_pid s) (\<lambda>t. t\<lparr>UsedTicks := 0\<rparr>)"
  have w: "wf_tasks ?s" using assms(1) by (intro wf_upd_task) (simp_all add: wf_tasks_def task_wf_def)
  obtain t where "ForceSwitch s fr = task_switch (upd_regs t (cur_pid s) (\<lambda>_. fr)) (find_next_task t (cur_pid s)) fr"
    "wf_tasks t"
    using w wf_zero_task [OF w]
    by (cases "ProcessState (TaskManager ?s (cur_pid s)) = KILL_PROCESS_STATE")
      (simp_all add: ForceSwitch_def Let_def TASKMGR_get_current_def)
  moreover have "wf_tasks (upd_regs t (cur_pid s) (\<lambda>_. fr)) = wf_tasks t"
    by (rule same_tasks_wf) simp
  ultimately show ?thesis using assms(2) task_switch_ok by metis
qed

text \<open>The loops that give the memory of a task back.\<close>

lemma free_pt_loop_calm [calm_rules]:
  assumes "free_pt_loop s pd = Some s'" "calm r s"
  shows "calm r s'"
proof -
  from assms(1) have "\<forall>r. calm r s \<longrightarrow> calm r s'"
  proof (rule free_pt_loop.raw_induct [where P = "\<lambda>s pd s'. \<forall>r. calm r s \<longrightarrow> calm r s'", rotated], goal_cases)
    case (1 loop s pd s')
    from 1(2) show ?case
      by (auto split: if_splits elim!: bind_SomeE dest!: 1(1))
        ((drule spec, erule mp, (assumption | (rule calm_rules, assumption))+))
  qed
  then show ?thesis using assms(2) by blast
qed

lemma free_pd_loop_calm [calm_rules]:
  assumes "free_pd_loop s pd = Some s'" "calm r s"
  shows "calm r s'"
proof -
  from assms(1) have "\<forall>r. calm r s \<longrightarrow> calm r s'"
  proof (rule free_pd_loop.raw_induct [where P = "\<lambda>s pd s'. \<forall>r. calm r s \<longrightarrow> calm r s'", rotated], goal_cases)
    case (1 loop s pd s')
    from 1(2) show ?case
      by (auto simp: Let_def split: if_splits elim!: bind_SomeE dest!: 1(1))
        ((drule spec, erule mp, (assumption | (rule calm_rules, assumption))+))
  qed
  then show ?thesis using assms(2) by blast
qed

lemma free_pdpt_loop_calm [calm_rules]:
  assumes "free_pdpt_loop s pd = Some s'" "calm r s"
  shows "calm r s'"
proof -
  from assms(1) have "\<forall>r. calm r s \<longrightarrow> calm r s'"
  proof (rule free_pdpt_loop.raw_induct [where P = "\<lambda>s pd s'. \<forall>r. calm r s \<longrightarrow> calm r s'", rotated], goal_cases)
    case (1 loop s pd s')
    from 1(2) show ?case
      by (auto simp: Let_def split: if_splits elim!: bind_SomeE dest!: 1(1))
        ((drule spec, erule mp, (assumption | (rule calm_rules, assumption))+))
  qed
  then show ?thesis using assms(2) by blast
qed

lemma free_pml4_tasks:
  assumes "free_pml4 s v = Some s'" "same_tasks r s"
  shows "same_tasks r s'"
proof -
  have "calm (mem_set_cr3 s (Kernel_PML4_Physical s) False) s'"
    using assms(1) by (auto simp: free_pml4_def Let_def elim!: bind_SomeE)
      ((assumption | (rule calm_rules, assumption) | simp)+)
  from same_tasks_trans [OF _ calm_same_tasks [OF this]] show ?thesis using assms(2) by simp
qed

lemma free_task_memory_tasks:
  assumes "free_task_memory s p = Some s'" "same_tasks r s"
  shows "same_tasks r s'"
proof -
  define t where "t = mem_set_cr3 (TASKMGR_set_current s p) (Base_PML4 (TaskManager s p)) False"
  obtain u v where u: "free_pdpt_loop t (Base_PML4 (TaskManager s p) + VIRTUAL_MEMORY_BARRIER) = Some u"
    "free_pml4 u (Base_PML4 (TaskManager s p) + VIRTUAL_MEMORY_BARRIER) = Some v"
    "s' = (if PML4_Physical s \<noteq> Base_PML4 (TaskManager v p) then mem_set_cr3 v (PML4_Physical s) False else v)"
    using assms(1) unfolding free_task_memory_def Let_def t_def
    by (auto simp: TASKMGR_set_current_def split: if_splits elim!: bind_SomeE)
  have "same_tasks r t" using assms(2) by (simp add: t_def)
  then have "same_tasks r u"
    by (rule same_tasks_trans [OF _ calm_same_tasks [OF free_pdpt_loop_calm [OF u(1) calm_refl]]])
  then show ?thesis using free_pml4_tasks [OF u(2)] by (simp add: u(3))
qed

lemma free_task_memory_by_pml4_tasks:
  assumes "free_task_memory_by_pml4 s a = Some s'" "same_tasks r s"
  shows "same_tasks r s'"
proof -
  obtain u v where u: "free_pdpt_loop (mem_set_cr3 s a True) (a + VIRTUAL_MEMORY_BARRIER) = Some u"
    "free_pml4 u (a + VIRTUAL_MEMORY_BARRIER) = Some v"
    "s' = (if PML4_Physical s \<noteq> a then mem_set_cr3 v (PML4_Physical s) True else sti v)"
    using assms(1) unfolding free_task_memory_by_pml4_def Let_def
    by (auto split: if_splits elim!: bind_SomeE)
  have "same_tasks r u"
    by (rule same_tasks_trans [OF _ calm_same_tasks [OF free_pdpt_loop_calm [OF u(1) calm_refl]]])
      (simp add: assms(2))
  then show ?thesis using free_pml4_tasks [OF u(2)] by (simp add: u(3))
qed

section \<open>The timer and the keyboard\<close>

lemma end_slice_ok:
  assumes "end_slice s p fr = Some (fr', s')" "wf_tasks s"
  shows "kernel_ok s'"
proof -
  let ?t = "upd_task (note_pid s p ''[timer] was pid 2'') p (\<lambda>t. t\<lparr>UsedTicks := 0\<rparr>)"
  have n: "same_tasks r (note_pid s p m) = same_tasks r s" for r s p m by (simp add: note_pid_def)
  obtain u where u: "(if ProcessState (TaskManager ?t p) = KILL_PROCESS_STATE
      then free_task_memory (upd_task ?t p (\<lambda>t. t\<lparr>ProcessState := NULL_PROCESS_STATE, task_Exists := False\<rparr>)) p
      else Some ?t) = Some u"
    "task_switch (note_pid u (find_next_task u p) ''[timer] now pid 2'') (find_next_task u p) fr = (fr', s')"
    using assms(1) unfolding end_slice_def Let_def by (auto cong: if_cong elim!: bind_SomeE)
  let ?k = "upd_task ?t p (\<lambda>t. t\<lparr>ProcessState := NULL_PROCESS_STATE, task_Exists := False\<rparr>)"
  have st: "same_tasks s ?t" "same_tasks s ?k" by (simp_all add: same_tasks_upd_task n)
  have "same_tasks s u"
  proof (cases "ProcessState (TaskManager ?t p) = KILL_PROCESS_STATE")
    case True
    then have "free_task_memory ?k p = Some u" using u(1) by simp
    then show ?thesis using st(2) by (rule free_task_memory_tasks)
  next
    case False
    then have "u = ?t" using u(1) by simp
    then show ?thesis using st(1) by simp
  qed
  then have "wf_tasks (note_pid u (find_next_task u p) ''[timer] now pid 2'')"
    by (intro same_tasks_wf [THEN iffD2, OF _ assms(2)]) (simp add: n)
  then show ?thesis using u(2) by (rule task_switch_ok)
qed

lemma TimerInterrupt_ok:
  assumes "TimerInterrupt s fr = Some (fr', s')" "kernel_ok s"
  shows "kernel_ok s'"
proof -
  let ?s = "s\<lparr>TimerWindow := TimerWindow s + 1\<rparr>"
  define t where "t = upd_regs ?s (cur_pid s) (\<lambda>_. fr)"
  have k: "keeps s t" by (simp add: t_def)
  show ?thesis
  proof (cases "ProcessState (TaskManager s (cur_pid s)) = CREATION_PROCESS_STATE")
    case True
    then have "s' = pic_send_eoi ?s 0" using assms(1) by (simp add: TimerInterrupt_def TASKMGR_get_current_def Let_def)
    then show ?thesis using keeps_ok [of s s'] assms(2) by simp
  next
    case False
    let ?T = "TaskManager t (cur_pid s)"
    obtain fr2 u where u:
      "(if UsedTicks ?T \<ge> MaxTicks ?T \<or> ProcessState ?T = KILL_PROCESS_STATE \<or> ProcessState ?T = WAITING_PROCESS_STATE
        then end_slice t (cur_pid s) fr
        else Some (fr, upd_task t (cur_pid s) (\<lambda>t. t\<lparr>UsedTicks := UsedTicks t + 1\<rparr>))) = Some (fr2, u)"
      "s' = pic_send_eoi (u\<lparr>dr0 := word_of_int (cur_pid u)\<rparr>) 0"
      using assms(1) False unfolding TimerInterrupt_def Let_def TASKMGR_get_current_def
      by (auto simp: t_def cong: if_cong elim!: bind_SomeE)
    have w: "kernel_ok t" using keeps_ok [OF k assms(2)] .
    have "kernel_ok u"
    proof (cases "end_slice t (cur_pid s) fr = Some (fr2, u)")
      case True
      then show ?thesis by (rule end_slice_ok) (use w in \<open>simp add: kernel_ok_def\<close>)
    next
      case False
      then have "u = upd_task t (cur_pid s) (\<lambda>t. t\<lparr>UsedTicks := UsedTicks t + 1\<rparr>)"
        using u(1) by (auto split: if_splits)
      then have "keeps t u" by (simp add: keeps_upd_task)
      then show ?thesis using w by (rule keeps_ok)
    qed
    moreover have "keeps u s'" by (simp add: u(2))
    ultimately show ?thesis by (blast intro: keeps_ok)
  qed
qed

lemma copy_out_keeps [keeps_rules]: "copy_out bs s a = Some s' \<Longrightarrow> keeps r s \<Longrightarrow> keeps r s'"
  by (induction bs arbitrary: s a) (auto elim!: bind_SomeE dest: call_keeps(1))

lemma deliver_line_keeps:
  assumes "deliver_line s k p = Some (s', k')" "cr3 s = PML4_Physical s"
  shows "keeps s s'"
proof -
  let ?t = "mem_set_cr3 s (Base_PML4 (TaskManager s p)) False"
  let ?f = "\<lambda>t. t\<lparr>WaitingReason := WAITING_REASON_NULL, ProcessState := READY_PROCESS_STATE\<rparr>"
  obtain bs u where u: "copy_out bs ?t (rg_rbx (task_regs s p)) = Some u"
    "s' = mem_set_cr3 (upd_task u p ?f) (PML4_Physical s) True"
    using assms(1) unfolding deliver_line_def Let_def by (auto split: if_splits elim!: bind_SomeE)
  have k: "keeps ?t u" by (rule copy_out_keeps [OF u(1)]) simp
  have "same_tasks s ?t" by simp
  then have "same_tasks s u" using keeps_same_tasks [OF k] by (rule same_tasks_trans)
  then have "same_tasks s (upd_task u p ?f)" by (simp add: same_tasks_upd_task)
  moreover have "cur_pid u = cur_pid s" using k by (simp add: keeps_def)
  ultimately show ?thesis unfolding u(2) by (intro detour_keeps) (simp_all add: assms(2))
qed

lemma HandleKeyboardInterrupt_keeps:
  assumes "HandleKeyboardInterrupt s k fr = Some (s', k')" "cr3 s = PML4_Physical s"
  shows "keeps s s'"
proof -
  let ?t = "upd_regs s (TASKMGR_get_current s) (\<lambda>_. fr)"
  have key: "handle_key t k c = Some (d, u, k2) \<Longrightarrow> keeps s t \<Longrightarrow> cr3 t = PML4_Physical t \<Longrightarrow> keeps s u"
    for t c d u k2
    by (auto simp: handle_key_def key_typed_def Let_def split: if_splits elim!: bind_SomeE
        dest!: deliver_line_keeps) (blast intro: keeps_trans)+
  show ?thesis
    using assms unfolding HandleKeyboardInterrupt_def inb_def Let_def
    by (auto split: if_splits elim!: bind_SomeE dest!: key)
qed

end
