(* ===== verification/Kernel_Steps.thy ===== *)
theory Kernel_Steps
  imports System Gemfs_Dirs
begin

text \<open>
  The system call and exception handlers keep the invariant \<open>kernel_ok\<close>, and the events that
  enter the kernel as a labelled step relation: whatever sequence of interrupts, system calls,
  exceptions and stores of the running program happens, whenever the kernel has returned, the
  processor is in the address space of the current task.
\<close>

section \<open>Loading a program\<close>

lemma wf_upd_same: "same_tasks s t \<Longrightarrow> wf_tasks s \<Longrightarrow> wf_tasks t"
  by (rule same_tasks_wf [THEN iffD2])

lemma calm_wf: "calm s t \<Longrightarrow> wf_tasks s \<Longrightarrow> wf_tasks t"
  by (rule wf_upd_same [OF calm_same_tasks])

lemma task_wf_new_task: "task_wf (new_task b e p m st pml4)"
  by (simp add: task_wf_def new_task_def zero_task_def)

lemma wf_fields: "wf_tasks s \<Longrightarrow> length (Descriptors (TaskManager s p)) = 64"
  "wf_tasks s \<Longrightarrow> length (Signals (TaskManager s p)) = 16"
  by (simp_all add: wf_tasks_def task_wf_def)

lemma RegisterTask_wf: "RegisterTask s b e p m st pml4 = (pid, s') \<Longrightarrow> wf_tasks s \<Longrightarrow> wf_tasks s'"
  by (auto simp: RegisterTask_def Let_def task_wf_new_task say_def split: if_splits intro!: wf_upd_task)
    (simp_all add: wf_tasks_def)

lemma RegisterTaskStrict_wf:
  "RegisterTaskStrict s b e p m st pml4 pid = (r, s') \<Longrightarrow> wf_tasks s \<Longrightarrow> wf_tasks s'"
  by (auto simp: RegisterTaskStrict_def Let_def task_wf_new_task say_def intro!: wf_upd_task)
    (simp_all add: wf_tasks_def)

lemma finish_task_wf:
  assumes "finish_task pid k prev argv s = Some (r, s')" "wf_tasks s"
  shows "wf_tasks s'"
proof -
  define t where "t = upd_task (upd_mem s pid (\<lambda>m. m\<lparr>StackBaseVirtualAddress := stack_base, StackPageCount := 1,
       KernelStackPageCount := 5, KernelStackBaseVirtualAddress := k\<rparr>)) pid
     (\<lambda>t. t\<lparr>UserTSS := (UserTSS (TaskManager (upd_mem s pid (\<lambda>m. m\<lparr>StackBaseVirtualAddress := stack_base,
       StackPageCount := 1, KernelStackPageCount := 5, KernelStackBaseVirtualAddress := k\<rparr>)) KernelTask))\<lparr>tss_rsp0 := k\<rparr>\<rparr>)"
  obtain u where u: "SetupTaskStack t pid argv = Some u"
    "s' = mem_set_cr3 (set_state u pid READY_PROCESS_STATE) prev True"
    using assms(1) unfolding finish_task_def Let_def t_def by (auto elim!: bind_SomeE)
  obtain sp where "TaskManager u = TaskManager (upd_regs t pid (\<lambda>r. r\<lparr>rg_rsp := sp\<rparr>))"
    using u(1) by (rule SetupTaskStack_control)
  then have "same_tasks t u" by (simp add: same_tasks_def upd_regs_def upd_task_def)
  moreover have "same_tasks s t" by (simp add: t_def same_tasks_upd_task)
  ultimately have "same_tasks s s'" by (auto simp: u(2) intro: same_tasks_trans)
  then show ?thesis using assms(2) by (rule wf_upd_same)
qed

lemma load_image_wf:
  assumes "load_image env D LBA pid pml4 headers s f = Some (s', f')" "fdc_calm f" "wf_tasks s"
  shows "wf_tasks s' \<and> fdc_calm f'"
proof -
  have c: "calm (upd_task (TASKMGR_set_current s pid) pid
      (\<lambda>t. t\<lparr>Base_PML4 := pml4, ProcessState := CREATION_PROCESS_STATE\<rparr>)) s' \<and> fdc_calm f'"
    by (rule load_image_control [OF assms(1,2)])
  have "wf_tasks (upd_task (TASKMGR_set_current s pid) pid
      (\<lambda>t. t\<lparr>Base_PML4 := pml4, ProcessState := CREATION_PROCESS_STATE\<rparr>))"
    using assms(3) by (auto simp: wf_tasks_def task_wf_def upd_task_def TASKMGR_set_current_def)
  then show ?thesis using c calm_wf by blast
qed

lemma wf_control [simp]:
  "wf_tasks (mem_set_cr3 s a b) = wf_tasks s" "wf_tasks (TASKMGR_set_current s p) = wf_tasks s"
  "wf_tasks (say s c) = wf_tasks s" "wf_tasks (upd_regs s p g) = wf_tasks s"
  "wf_tasks (upd_mem s p h) = wf_tasks s" "wf_tasks (set_state s p st) = wf_tasks s"
  by (simp_all add: same_tasks_wf [of s "mem_set_cr3 s a b"] same_tasks_wf [of s "TASKMGR_set_current s p"]
      same_tasks_wf [of s "say s c"] same_tasks_wf [of s "upd_regs s p g"]
      same_tasks_wf [of s "upd_mem s p h"] same_tasks_wf [of s "set_state s p st"])

lemma LoadElfStrict_wf:
  assumes "LoadElfStrict env D LBA pid pml4 argv s f = Some (r, s', f')" "fdc_calm f" "wf_tasks s"
  shows "wf_tasks s' \<and> fdc_calm f'"
proof -
  let ?s = "say s (VirtualPrint KERNEL_T ''[task.load] load strict'')"
  obtain s0 s1 f1 and h :: ElfHeader64 where 1: "memset ?s (Program_Buffer env) 0 0x1000 = Some s0"
    "fill_program_buffer env D LBA s0 f = Some (s1, f1)" "elf_header s1 (Program_Buffer env) = Some h"
    using assms(1) unfolding LoadElfStrict_def Let_def by (auto elim!: bind_SomeE)
  have "calm s s0" using memset_calm [OF 1(1)] by simp
  then have c1: "calm s s1" "fdc_calm f1" using fill_program_buffer_calm [OF 1(2) assms(2)] by blast+
  have w1: "wf_tasks s1" by (rule calm_wf [OF c1(1) assms(3)])
  show ?thesis
  proof (cases "loadable h")
    case False
    then show ?thesis using assms(1) 1 w1 c1 by (simp add: LoadElfStrict_def)
  next
    case True
    define s3 where "s3 = mem_set_cr3 s1 pml4 True"
    obtain s4 f4 k s5 r2 s6 and h2 :: ElfHeader64 where 3:
      "load_image env D LBA pid pml4 (Program_Buffer env + e_phoff h) s3 f1 = Some (s4, f4)"
      "make_kernel_stack pid s4 = Some (k, s5)"
      "RegisterTaskStrict (TASKMGR_set_current s5 (TASKMGR_get_current s3))
         (BaseVirtualAddress (task_mem (TASKMGR_set_current s5 (TASKMGR_get_current s3)) pid)) (e_entry h2)
         (PageCount (task_mem (TASKMGR_set_current s5 (TASKMGR_get_current s3)) pid)) USER_PRIORITY
         (stack_base + 4080) pml4 pid = (r2, s6)"
      "finish_task pid k (PML4_Physical s1) argv s6 = Some (r, s')" "f' = f4"
      using assms(1) 1 True unfolding LoadElfStrict_def Let_def s3_def [symmetric]
      by (auto simp: s3_def [symmetric] split: prod.splits elim!: bind_SomeE)
    have "wf_tasks s4 \<and> fdc_calm f4"
      by (rule load_image_wf [OF 3(1) c1(2)]) (simp add: s3_def w1)
    then have w: "wf_tasks s5" "fdc_calm f4"
      using calm_wf [OF make_kernel_stack_calm [OF 3(2) calm_refl]] by blast+
    have "wf_tasks s6" by (rule RegisterTaskStrict_wf [OF 3(3)]) (simp add: w)
    then show ?thesis using finish_task_wf [OF 3(4)] w 3(5) by simp
  qed
qed

lemma LoadElfStrict_GemFS_wf:
  "LoadElfStrict_GemFS env D P i pid pml4 argv s f g = Some (s', f', g') \<Longrightarrow> fdc_calm f \<Longrightarrow> wf_tasks s \<Longrightarrow>
     wf_tasks s' \<and> fdc_calm f'"
  by (auto simp: LoadElfStrict_GemFS_def elim!: bind_SomeE dest!: LoadElfStrict_wf)

section \<open>System calls\<close>

definition sys_ok :: "sys \<Rightarrow> bool" where
  "sys_ok y \<longleftrightarrow> kernel_ok (kern y) \<and> fdc_calm (drive y)"

lemma keeps_say [simp]: "keeps r (say s c) = keeps r s" by (simp add: say_def)

lemma sys_open_keeps: "sys_open cur regs y = Some (b, regs', y') \<Longrightarrow> keeps (kern y) (kern y') \<and> drive y' = drive y"
  by (auto simp: sys_open_def Let_def split: if_splits elim!: bind_SomeE)
    ((assumption | (rule keeps_rules, assumption) | simp)+)

lemma sys_write_keeps: "sys_write cur regs y = Some (b, regs', y') \<Longrightarrow> keeps (kern y) (kern y') \<and> drive y' = drive y"
  by (auto simp: sys_write_def Let_def split: if_splits elim!: bind_SomeE)
    ((assumption | (rule keeps_rules, assumption) | simp)+)

lemma sys_close_keeps: "sys_close cur regs y = Some (b, regs', y') \<Longrightarrow> keeps (kern y) (kern y') \<and> drive y' = drive y"
  by (auto simp: sys_close_def elim!: bind_SomeE)

lemma sys_setwfd_keeps: "sys_setwfd cur regs y = Some (b, regs', y') \<Longrightarrow> keeps (kern y) (kern y') \<and> drive y' = drive y"
  by (auto simp: sys_setwfd_def keeps_upd_task)

lemma sys_getwfd_keeps: "sys_getwfd cur regs y = Some (b, regs', y') \<Longrightarrow> keeps (kern y) (kern y') \<and> drive y' = drive y"
  by (auto simp: sys_getwfd_def)

lemma sys_getdents_keeps: "sys_getdents cur regs y = Some (b, regs', y') \<Longrightarrow> keeps (kern y) (kern y') \<and> drive y' = drive y"
  by (auto simp: sys_getdents_def split: if_splits elim!: bind_SomeE)

lemma sys_sysinfo_keeps: "sys_sysinfo cur regs y = Some (b, regs', y') \<Longrightarrow> keeps (kern y) (kern y') \<and> drive y' = drive y"
  by (auto simp: sys_sysinfo_def elim!: bind_SomeE) ((assumption | (rule keeps_rules, assumption) | simp)+)

lemma sys_sigreg_keeps: "sys_sigreg cur regs y = Some (b, regs', y') \<Longrightarrow> keeps (kern y) (kern y') \<and> drive y' = drive y"
  by (auto simp: sys_sigreg_def elim!: bind_SomeE) ((assumption | (rule keeps_rules, assumption) | simp)+)

lemma sys_sigret_keeps:
  "sys_sigret cur regs y = Some (b, regs', y') \<Longrightarrow> cr3 (kern y) = PML4_Physical (kern y) \<Longrightarrow>
     keeps (kern y) (kern y') \<and> drive y' = drive y"
  by (auto simp: sys_sigret_def elim!: bind_SomeE dest: SignalReturn_keeps)

lemmas sys_keeps = sys_open_keeps sys_write_keeps sys_close_keeps sys_setwfd_keeps sys_getwfd_keeps
  sys_getdents_keeps sys_sysinfo_keeps sys_sigreg_keeps

lemma keeps_sys_ok: "keeps (kern y) (kern y') \<and> drive y' = drive y \<Longrightarrow> sys_ok y \<Longrightarrow> sys_ok y'"
  by (auto simp: sys_ok_def intro: keeps_ok)

text \<open>A switch of tasks, then the timer interrupt is let through again.\<close>

lemma switch_ok:
  assumes "ForceSwitch s fr = (fr', t)" "pic_unmask t i = Some s'" "wf_tasks s"
  shows "kernel_ok s'"
  using keeps_ok [OF call_keeps(10) [OF assms(2) keeps_refl] ForceSwitch_ok [OF assms(3,1)]] .

lemma sys_exit_ok:
  assumes "sys_exit cur regs y = Some (b, regs', y')" "sys_ok y"
  shows "sys_ok y'"
proof -
  let ?s = "say (kern y) (VirtualPrint KERNEL_T ''[syscall] exit'')"
  obtain t fr u v where t: "(if Owner_PID (TaskManager ?s cur) \<noteq> 0
      then SendSignal ?s (Owner_PID (TaskManager ?s cur)) SIGCHD 0x00 (rg_rbx regs) 0x00 0x00 else Some ?s) = Some t"
    "ForceSwitch (KillTask t cur) regs = (fr, u)" "pic_unmask u 0 = Some v" "y' = y\<lparr>kern := v\<rparr>"
    using assms(1) unfolding sys_exit_def Let_def by (auto cong: if_cong split: prod.splits elim!: bind_SomeE)
  have ok: "kernel_ok (kern y)" "fdc_calm (drive y)" using assms(2) by (simp_all add: sys_ok_def)
  have "cr3 ?s = PML4_Physical ?s" using ok by (simp add: kernel_ok_def running_def say_def)
  then have "keeps ?s t" using t(1) by (auto split: if_splits dest: SendSignal_keeps)
  then have "keeps (kern y) t" by (rule keeps_trans [rotated]) simp
  then have "wf_tasks t" using keeps_ok ok by (auto simp: kernel_ok_def)
  then have "kernel_ok v" by (intro switch_ok [OF t(2,3)]) (simp add: KillTask_def)
  then show ?thesis using ok by (simp add: t(4) sys_ok_def)
qed

lemma sys_read_ok:
  assumes "sys_read cur regs y = Some (b, regs', y')" "sys_ok y"
  shows "sys_ok y'"
proof (cases "rg_rdx regs = 0")
  case True
  let ?s = "upd_task (kern y) cur (\<lambda>t. t\<lparr>ProcessState := WAITING_PROCESS_STATE,
      WaitingReason := WAITING_REASON_INPUT\<rparr>)"
  obtain fr u v where t: "ForceSwitch ?s regs = (fr, u)" "pic_unmask u 0 = Some v" "y' = y\<lparr>kern := v\<rparr>"
    using assms(1) True unfolding sys_read_def Let_def by (auto split: prod.splits elim!: bind_SomeE)
  have "same_tasks (kern y) ?s" by (simp add: same_tasks_upd_task)
  then have "wf_tasks ?s" using assms(2) wf_upd_same by (simp add: sys_ok_def kernel_ok_def)
  then show ?thesis using switch_ok [OF t(1,2)] assms(2) by (simp add: t(3) sys_ok_def)
next
  case False
  then have "keeps (kern y) (kern y') \<and> drive y' = drive y"
    using assms(1) by (auto simp: sys_read_def Let_def split: if_splits elim!: bind_SomeE)
      ((assumption | (rule keeps_rules, assumption) | simp)+)
  then show ?thesis using assms(2) by (rule keeps_sys_ok)
qed

lemma sys_wait_ok:
  assumes "sys_wait cur regs y = Some (b, regs', y')" "sys_ok y"
  shows "sys_ok y'"
proof (cases "Owner_PID (TaskManager (kern y) (uint (rg_rbx regs))) = cur")
  case True
  let ?s = "upd_task (kern y) cur (\<lambda>t. t\<lparr>ProcessState := WAITING_PROCESS_STATE,
      WaitingReason := WAITING_REASON_CHILD, ChildWaitingReason := ucast (rg_rdx regs)\<rparr>)"
  obtain fr u where t: "ForceSwitch ?s regs = (fr, u)" "y' = y\<lparr>kern := u\<rparr>"
    using assms(1) True unfolding sys_wait_def Let_def by (auto split: prod.splits)
  have "same_tasks (kern y) ?s" by (simp add: same_tasks_upd_task)
  then have "wf_tasks ?s" using assms(2) wf_upd_same by (simp add: sys_ok_def kernel_ok_def)
  then show ?thesis using ForceSwitch_ok [OF _ t(1)] assms(2) by (simp add: t(2) sys_ok_def)
qed (use assms in \<open>simp add: sys_wait_def Let_def\<close>)

text \<open>FORK: the pages are set up in two address spaces, and the end is back in the parent's.\<close>

lemma fork_page_tasks:
  assumes "fork_page cur child a s = Some s'"
  shows "same_tasks s s'"
proof -
  let ?s = "TASKMGR_set_current (mem_set_cr3 s (Base_PML4 (TaskManager s cur)) False) cur"
  obtain pd t w1 u w2 v pg r where t: "CalculatePagePhysicalEntryAddress ?s (ExtractPageEntries a) = Some (pd, t)"
    "vwrite64 t pd w1 = Some u" "vwrite64 u pd w2 = Some v"
    "alloc_page (TASKMGR_set_current (mem_set_cr3 v (Base_PML4 (TaskManager v child)) False) child) pg = Some (r, s')"
    using assms unfolding fork_page_def Let_def by (auto elim!: bind_SomeE)
  have "calm ?s v"
    by (rule vwrite64_calm [OF t(3) vwrite64_calm [OF t(2) CalculatePagePhysicalEntryAddress_calm [OF t(1) calm_refl]]])
  then have "same_tasks s v" by (rule same_tasks_trans [OF _ calm_same_tasks, rotated]) simp
  moreover have "calm (TASKMGR_set_current (mem_set_cr3 v (Base_PML4 (TaskManager v child)) False) child) s'"
    by (rule alloc_page_calm [OF t(4) calm_refl])
  then have "same_tasks v s'" by (rule same_tasks_trans [OF _ calm_same_tasks, rotated]) simp
  ultimately show ?thesis by (rule same_tasks_trans)
qed

lemma fork_pages_tasks: "fork_pages n cur child st a s = Some s' \<Longrightarrow> same_tasks s s'"
  by (induction n arbitrary: a s) (auto elim!: bind_SomeE dest!: fork_page_tasks intro: same_tasks_trans)

lemma fork_child_wf:
  assumes "fork_child cur child regs s = Some s'" "wf_tasks s"
  shows "wf_tasks s'"
proof -
  let ?s = "upd_task s child (\<lambda>_. (TaskManager s cur)\<lparr>SavedRegisters := regs\<lparr>rg_rax := 0\<rparr>,
       ProcessID := word_of_int child, ProcessState := CREATION_PROCESS_STATE, task_Exists := True\<rparr>)"
  obtain p t where t: "Create_User_Memory ?s = Some (p, t)"
    "s' = upd_task t child (\<lambda>t. t\<lparr>Base_PML4 := p, Owner_PID := cur\<rparr>)"
    using assms(1) unfolding fork_child_def Let_def by (auto elim!: bind_SomeE)
  have "wf_tasks ?s" using assms(2) by (intro wf_upd_task) (simp_all add: wf_tasks_def task_wf_def)
  then have "wf_tasks t" using calm_wf [OF Create_User_Memory_calm [OF t(1) calm_refl]] by blast
  then show ?thesis unfolding t(2) by (intro wf_upd_task) (simp_all add: wf_tasks_def task_wf_def)
qed

lemma run_task_ok: "wf_tasks s \<Longrightarrow> kernel_ok (TASKMGR_set_current (mem_set_cr3 s (Base_PML4 (TaskManager s c)) b) c)"
  by (simp add: kernel_ok_def running_def) (simp add: TASKMGR_set_current_def)

lemma sys_fork_ok:
  assumes "sys_fork cur regs y = Some (b, regs', y')" "sys_ok y"
  shows "sys_ok y'"
proof -
  let ?s = "say (kern y) (VirtualPrint KERNEL_T ''[syscall] fork'')"
  let ?t = "TaskManager ?s cur"
  obtain child s1 where 1: "RegisterTask ?s (BaseVirtualAddress (MemoryData ?t)) (rg_rip regs)
       (PageCount (MemoryData ?t)) (MaxTicks ?t) (rg_rbp regs) (Base_PML4 ?t) = (child, s1)" by fastforce
  obtain s2 where 2: "fork_child cur child regs s1 = Some s2"
    using assms(1) 1 unfolding sys_fork_def Let_def by (auto elim!: bind_SomeE)
  define s3 where "s3 = upd_regs s2 cur (\<lambda>r. r\<lparr>rg_rax := word_of_int child\<rparr>)"
  obtain n1 a1 s4 where 4: "fork_pages n1 cur child 0x1000 a1 s3 = Some s4"
    and n1: "n1 = unat (PageCount (task_mem s3 cur))" "a1 = BaseVirtualAddress (task_mem s3 cur)"
    and le1: "PageCount (task_mem s3 cur) \<le> 0x80000000"
    using assms(1) 1 2 unfolding sys_fork_def Let_def s3_def
    by (auto split: if_splits elim!: bind_SomeE)
  define s5 where "s5 = upd_mem s4 child (\<lambda>d. d\<lparr>StackBaseVirtualAddress := StackBaseVirtualAddress (task_mem s4 cur),
       StackPageCount := StackPageCount (task_mem s4 cur)\<rparr>)"
  obtain n2 a2 s6 where 6: "fork_pages n2 cur child (- 0x1000) a2 s5 = Some s6"
    and n2: "n2 = unat (StackPageCount (task_mem s5 cur))" "a2 = StackBaseVirtualAddress (task_mem s5 cur)"
    and le2: "StackPageCount (task_mem s5 cur) \<le> 0x80000000"
    using assms(1) 1 2 4 le1 unfolding sys_fork_def Let_def n1 s3_def [symmetric] s5_def
    by (auto simp: s3_def [symmetric] split: if_splits elim!: bind_SomeE)
  let ?s6 = "TASKMGR_set_current (mem_set_cr3 s6 (Base_PML4 (TaskManager s6 cur)) False) cur"
  obtain k s7 where 7: "make_kernel_stack child ?s6 = Some (k, s7)"
    "y' = y\<lparr>kern := say (upd_task (TASKMGR_set_current (mem_set_cr3 s7 (Base_PML4 (TaskManager s7 cur)) True) cur) child
        (\<lambda>t. t\<lparr>Owner_PID := cur, ProcessState := READY_PROCESS_STATE\<rparr>)) (VirtualPrint KERNEL_T ''[syscall] fork end'')\<rparr>"
    using assms(1) 1 2 4 le1 6 le2 unfolding sys_fork_def Let_def n1 n2 s3_def [symmetric]
    by (auto simp: s3_def [symmetric] s5_def [symmetric] elim!: bind_SomeE)
  have ok: "wf_tasks (kern y)" "fdc_calm (drive y)" using assms(2) by (simp_all add: sys_ok_def kernel_ok_def)
  have "wf_tasks s1" using RegisterTask_wf [OF 1] ok by simp
  then have "wf_tasks s3" using fork_child_wf [OF 2] by (simp add: s3_def)
  then have "wf_tasks s5" using wf_upd_same [OF fork_pages_tasks [OF 4]] by (simp add: s5_def)
  then have "wf_tasks ?s6" using wf_upd_same [OF fork_pages_tasks [OF 6]] by simp
  then have "wf_tasks s7" using calm_wf [OF make_kernel_stack_calm [OF 7(1) calm_refl]] by blast
  then have "kernel_ok (TASKMGR_set_current (mem_set_cr3 s7 (Base_PML4 (TaskManager s7 cur)) True) cur)"
    by (rule run_task_ok)
  then have "kernel_ok (kern y')"
    by (rule keeps_ok [rotated]) (simp add: 7(2) keeps_upd_task)
  then show ?thesis using ok by (simp add: sys_ok_def 7(2))
qed

lemma sys_execve_ok:
  assumes "sys_execve cur regs y = Some (b, regs', y')" "sys_ok y"
  shows "sys_ok y'"
proof -
  let ?s = "say (kern y) (VirtualPrint KERNEL_T ''[syscall] execve'')"
  have ok: "kernel_ok (kern y)" "fdc_calm (drive y)" using assms(2) by (simp_all add: sys_ok_def)
  show ?thesis
  proof (cases "kern y' = ?s \<and> drive y' = drive y")
    case True
    then show ?thesis using keeps_ok [of "kern y" "?s"] ok by (simp add: sys_ok_def)
  next
    case False
    obtain p s1 s2 len r s3 i own g f g' s4 fr s5 s6 s7 where t:
      "Create_User_Memory ?s = Some (p, s1)" "pic_mask s1 0 = Some s2"
      "copy_from_user s2 (points_buffer y) (rg_rbx regs) (of_nat (len * 8)) = Some (r, s3)"
      "LoadElfStrict_GemFS (elf y) F0 1 i (TASKMGR_get_current (set_state s3 cur CREATION_PROCESS_STATE)) p []
         (set_state s3 cur CREATION_PROCESS_STATE) (drive y) g = Some (s4, f, g')"
      "free_task_memory_by_pml4 s4 (Base_PML4 (TaskManager ?s cur)) = Some s5"
      "ForceSwitch (upd_task s5 cur (\<lambda>t. t\<lparr>Owner_PID := own, ProcessState := READY_PROCESS_STATE\<rparr>))
         (task_regs s5 cur) = (fr, s6)"
      "pic_unmask s6 0 = Some s7" "y' = y\<lparr>kern := s7, drive := f, fs := g'\<rparr>"
      using assms(1) False unfolding sys_execve_def Let_def
      by (auto split: if_splits prod.splits elim!: bind_SomeE)
    have "keeps ?s s3"
      by (rule call_keeps(8) [OF t(3) call_keeps(9) [OF t(2) call_keeps(7) [OF t(1) keeps_refl]]])
    then have "keeps (kern y) s3" by (rule keeps_trans [rotated]) simp
    then have "wf_tasks s3" using keeps_ok ok by (auto simp: kernel_ok_def)
    then have "wf_tasks s4 \<and> fdc_calm f" by (intro LoadElfStrict_GemFS_wf [OF t(4) ok(2)]) simp
    then have w: "wf_tasks s5" "fdc_calm f"
      using wf_upd_same [OF free_task_memory_by_pml4_tasks [OF t(5) same_tasks_refl]] by blast+
    have "wf_tasks (upd_task s5 cur (\<lambda>t. t\<lparr>Owner_PID := own, ProcessState := READY_PROCESS_STATE\<rparr>))"
      using w by (intro wf_upd_task) (simp_all add: wf_tasks_def task_wf_def)
    then show ?thesis using switch_ok [OF t(6,7)] w by (simp add: t(8) sys_ok_def)
  qed
qed

lemma syscall_case_ok:
  assumes "syscall_case n cur regs y = Some (b, regs', y')" "sys_ok y"
  shows "sys_ok y'"
proof -
  have "cr3 (kern y) = PML4_Physical (kern y)" using assms(2) by (simp add: sys_ok_def kernel_ok_def running_def)
  note sig = sys_sigret_keeps [OF _ this]
  from assms show ?thesis
    unfolding syscall_case_def
    by (auto split: if_splits dest: sys_exit_ok sys_read_ok sys_wait_ok sys_fork_ok sys_execve_ok
        sys_keeps [THEN keeps_sys_ok] sig [THEN keeps_sys_ok])
qed

lemma handle_syscall_ok:
  assumes "handle_syscall regs y = Some (regs', y')" "sys_ok y"
  shows "sys_ok y'"
proof -
  let ?c = "cur_pid (kern y)"
  let ?s = "upd_regs (kern y) ?c (\<lambda>_. regs)"
  let ?t = "mem_set_cr3 ?s (Base_PML4 (TaskManager ?s ?c)) True"
  obtain u b regs2 y2 where u: "pic_mask ?t 0 = Some u" "syscall_case (rg_rax regs) ?c regs (y\<lparr>kern := u\<rparr>) = Some (b, regs2, y2)"
    "(if b then do { s \<leftarrow> pic_unmask (upd_regs (kern y2) ?c (\<lambda>_. regs2)) 0; Some (regs2, y2\<lparr>kern := s\<rparr>) }
      else Some (regs2, y2)) = Some (regs', y')"
    using assms(1) unfolding handle_syscall_def Let_def TASKMGR_get_current_def
    by (auto cong: if_cong elim!: bind_SomeE)
  have ok: "kernel_ok (kern y)" "fdc_calm (drive y)" using assms(2) by (simp_all add: sys_ok_def)
  have "kernel_ok ?s" by (rule keeps_ok [OF _ ok(1)]) simp
  then have "kernel_ok ?t" using run_task_ok [of ?s ?c True] by (simp add: kernel_ok_def TASKMGR_set_current_def running_def)
  then have "kernel_ok u" using keeps_ok [OF call_keeps(9) [OF u(1) keeps_refl]] by blast
  then have y2: "sys_ok y2" using syscall_case_ok [OF u(2)] ok by (simp add: sys_ok_def)
  show ?thesis
  proof (cases b)
    case True
    then obtain v where v: "pic_unmask (upd_regs (kern y2) ?c (\<lambda>_. regs2)) 0 = Some v" "y' = y2\<lparr>kern := v\<rparr>"
      using u(3) by (auto elim!: bind_SomeE)
    have "keeps (kern y2) v" by (rule call_keeps(10) [OF v(1)]) simp
    then show ?thesis using y2 v(2) by (intro keeps_sys_ok [of y2 y']) simp_all
  qed (use u(3) y2 in simp)
qed

section \<open>Exceptions\<close>

lemma DumpTaskState_keeps [simp]: "keeps r (DumpTaskState p s) = keeps r s"
  "same_tasks r (DumpTaskState p s) = same_tasks r s"
  by (simp_all add: DumpTaskState_def Let_def)

lemma SignalOwner_tasks [simp]: "same_tasks r (SignalOwner s t a b) = same_tasks r s"
  by (simp add: SignalOwner_def Let_def same_tasks_upd_task)

lemma copy_on_write_keeps [keeps_rules]:
  "copy_on_write b va pd e s = Some s' \<Longrightarrow> keeps r s \<Longrightarrow> keeps r s'"
proof -
  assume a: "copy_on_write b va pd e s = Some s'" "keeps r s"
  have f: "calm s t \<Longrightarrow> keeps r t" for t using a(2) by (blast intro: calm_keeps_rule)
  have "calm s s'"
    using a(1) by (auto simp: copy_on_write_def Let_def split: if_splits elim!: bind_SomeE)
      ((assumption | (rule calm_rules, assumption) | simp)+)
  then show ?thesis by (rule f)
qed

lemma grow_stack_keeps [keeps_rules]: "grow_stack n p va pa s = Some s' \<Longrightarrow> keeps r s \<Longrightarrow> keeps r s'"
proof (induction n arbitrary: va pa s)
  case (Suc n)
  obtain v t pa' where t: "alloc_page s (fault_page USER_FLAGS True va pa) = Some (v, t)"
    "grow_stack n p (va + 0x1000) pa' (upd_mem t p (\<lambda>m. m\<lparr>StackPageCount := StackPageCount m + 1\<rparr>)) = Some s'"
    using Suc.prems(1) unfolding grow_stack.simps Let_def by (fastforce elim!: bind_SomeE)
  show ?case by (rule Suc.IH [OF t(2)]) (use call_keeps(5) [OF t(1) Suc.prems(2)] in simp)
qed simp

lemma new_user_page_keeps [keeps_rules]:
  "new_user_page p low va s = Some s' \<Longrightarrow> keeps r s \<Longrightarrow> keeps r s'"
  by (auto simp: new_user_page_def Let_def split: if_splits elim!: bind_SomeE)
    ((assumption | (rule keeps_rules, assumption) | simp)+)

lemma HandlePageFault_ok:
  assumes "HandlePageFault b s fr = Some (fr', s')" "kernel_ok s"
  shows "kernel_ok s'"
proof -
  let ?c = "cur_pid s"
  let ?s = "upd_regs s ?c (\<lambda>_. fr)"
  let ?va = "rg_cr2 fr AND NOT 0xFFF"
  let ?low = "stack_low (task_mem ?s ?c)"
  let ?kill = "\<not> mem_access_ok ?s (rg_cr2 fr) ?c \<and> ?va < ?low - 0x4000"
  have ok: "kernel_ok ?s" by (rule keeps_ok [OF _ assms(2)]) simp
  consider ?kill | "\<not> ?kill" "?va < VIRTUAL_MEMORY_BARRIER" | "\<not> ?kill" "\<not> ?va < VIRTUAL_MEMORY_BARRIER" by blast
  then show ?thesis
  proof cases
    case 1
    define k where "k = KillTask (DumpTaskState ?c (say ?s (VirtualPrint KERNEL_T ''[exc.pf] kill task''))) ?c"
    obtain t where t: "free_task_memory (SignalOwner k (TaskManager k ?c) CHILD_WAIT_EXIT (- 1)) ?c = Some t"
      "ForceSwitch t fr = (fr', s')"
      using assms(1) 1 unfolding HandlePageFault_def Let_def TASKMGR_get_current_def k_def
      by (auto elim!: bind_SomeE)
    have "same_tasks s t" by (rule free_task_memory_tasks [OF t(1)]) (simp add: k_def)
    then have "wf_tasks t" using assms(2) wf_upd_same by (simp add: kernel_ok_def)
    then show ?thesis using t(2) by (rule ForceSwitch_ok)
  next
    case 2
    let ?t = "mem_set_cr3 ?s (Base_PML4 (TaskManager ?s ?c)) False"
    obtain pd u e where u: "CalculatePagePhysicalEntryAddress ?t (ExtractPageEntries ?va) = Some (pd, u)"
      "(if e AND COW_BIT \<noteq> 0 then copy_on_write b ?va pd e u else new_user_page ?c ?low ?va u) = Some s'"
      using assms(1) 2 unfolding HandlePageFault_def Let_def TASKMGR_get_current_def
      by (auto cong: if_cong elim!: bind_SomeE)
    have "kernel_ok ?t" using run_task_ok [of ?s ?c False] ok
      by (simp add: kernel_ok_def TASKMGR_set_current_def running_def)
    moreover have "keeps ?t u" by (rule call_keeps(6) [OF u(1)]) simp
    then have "keeps ?t s'" using u(2) by (auto split: if_splits intro: copy_on_write_keeps new_user_page_keeps)
    ultimately show ?thesis by (rule keeps_ok [rotated])
  next
    case 3
    obtain p v where "alloc_page ?s p = Some (v, s')"
      using assms(1) 3 unfolding HandlePageFault_def Let_def TASKMGR_get_current_def
      by (auto elim!: bind_SomeE)
    then have "keeps ?s s'" by (rule call_keeps(5)) simp
    then show ?thesis using ok by (rule keeps_ok)
  qed
qed

lemma kill_current_ok:
  assumes "kill_current msg st s fr = (fr', s')" "kernel_ok s"
  shows "kernel_ok s'"
proof -
  let ?s = "KillTask (say s (VirtualPrint KERNEL_T msg)) (cur_pid s)"
  obtain fr2 where t: "ForceSwitch ?s (ErrToInt st fr) = (fr2, s')"
    using assms(1) unfolding kill_current_def Let_def TASKMGR_get_current_def by (auto split: prod.splits)
  have "wf_tasks ?s" using assms(2) by (simp add: KillTask_def kernel_ok_def)
  then show ?thesis using t by (rule ForceSwitch_ok)
qed

lemma GeneralProtectionFault_ok:
  "GeneralProtectionFault st s fr = Some (fr', s') \<Longrightarrow> kernel_ok s \<Longrightarrow> kernel_ok s'"
  by (auto simp: GeneralProtectionFault_def KernelPanic_def split: if_splits intro: kill_current_ok)

lemma InvalidOpcode_ok:
  "InvalidOpcode st s fr = Some (fr', s') \<Longrightarrow> kernel_ok s \<Longrightarrow> kernel_ok s'"
  by (auto simp: InvalidOpcode_def KernelPanic_def split: if_splits intro: kill_current_ok)

lemma SyncTime_keeps: "SyncTime s = Some s' \<Longrightarrow> keeps s s'"
  by (auto simp: SyncTime_def read_cmos_def inb_def outb_def Let_def elim!: bind_SomeE)
    ((assumption | (rule keeps_rules, assumption) | simp)+)

section \<open>Events\<close>

text \<open>The machine: the kernel and its drivers, and the address of the copy-on-write buffer.\<close>

record machine =
  m_sys :: sys
  m_keys :: keyboard
  m_cow :: u64

text \<open>
  What enters the kernel, with the frame the processor and the stub have pushed; for the
  exceptions with an error code also the value of the field \<open>ErrToInt\<close> leaves unset. A store
  of the running program goes through its page tables, to an address of the lower half.
\<close>

datatype event =
    Timer regs
  | Key regs
  | Syscall regs
  | Page_Fault regs
  | Protection_Fault u64 regs
  | Invalid_Opcode u64 regs
  | Sync_Time
  | User_Store u64 u8

definition with_kern :: "machine \<Rightarrow> kst \<Rightarrow> machine" where
  "with_kern m s = m\<lparr>m_sys := (m_sys m)\<lparr>kern := s\<rparr>\<rparr>"

inductive step :: "machine \<Rightarrow> event \<Rightarrow> machine \<Rightarrow> bool" where
  timer: "TimerInterrupt (kern (m_sys m)) fr = Some (fr', s) \<Longrightarrow> step m (Timer fr) (with_kern m s)"
| key: "HandleKeyboardInterrupt (kern (m_sys m)) (m_keys m) fr = Some (s, k) \<Longrightarrow>
     step m (Key fr) ((with_kern m s)\<lparr>m_keys := k\<rparr>)"
| syscall: "handle_syscall fr (m_sys m) = Some (fr', y) \<Longrightarrow> step m (Syscall fr) (m\<lparr>m_sys := y\<rparr>)"
| page_fault: "HandlePageFault (m_cow m) (kern (m_sys m)) fr = Some (fr', s) \<Longrightarrow>
     step m (Page_Fault fr) (with_kern m s)"
| protection: "GeneralProtectionFault st (kern (m_sys m)) fr = Some (fr', s) \<Longrightarrow>
     step m (Protection_Fault st fr) (with_kern m s)"
| opcode: "InvalidOpcode st (kern (m_sys m)) fr = Some (fr', s) \<Longrightarrow>
     step m (Invalid_Opcode st fr) (with_kern m s)"
| sync: "SyncTime (kern (m_sys m)) = Some s \<Longrightarrow> step m Sync_Time (with_kern m s)"
| store: "va < VIRTUAL_MEMORY_BARRIER \<Longrightarrow> vwrite8 (kern (m_sys m)) va b = Some s \<Longrightarrow>
     step m (User_Store va b) (with_kern m s)"

inductive_cases step_TimerE: "step m (Timer fr) m'"
inductive_simps step_Syscall: "step m (Syscall fr) m'"

inductive runs :: "machine \<Rightarrow> event list \<Rightarrow> machine \<Rightarrow> bool" where
  runs_nil: "runs m [] m"
| runs_cons: "step m e m' \<Longrightarrow> runs m' es m'' \<Longrightarrow> runs m (e # es) m''"

inductive_simps runs_Nil: "runs m [] m'"
inductive_simps runs_Cons: "runs m (e # es) m'"

lemma runs_invariant:
  assumes "runs m es m'" "\<And>m e m'. step m e m' \<Longrightarrow> Q m \<Longrightarrow> Q m'" "Q m"
  shows "Q m'"
  using assms by (induction rule: runs.induct) blast+

definition machine_ok :: "machine \<Rightarrow> bool" where
  "machine_ok m \<longleftrightarrow> sys_ok (m_sys m) \<and> kbd_ok (m_keys m)"

lemma with_kern_ok: "kernel_ok s \<Longrightarrow> machine_ok m \<Longrightarrow> machine_ok (with_kern m s)"
  by (simp add: machine_ok_def sys_ok_def with_kern_def)

lemma machine_okD: "machine_ok m \<Longrightarrow> kernel_ok (kern (m_sys m))"
  by (simp add: machine_ok_def sys_ok_def)

lemma step_ok: "step m e m' \<Longrightarrow> machine_ok m \<Longrightarrow> machine_ok m'"
proof (induction rule: step.induct)
  case (timer m fr fr' s)
  show ?case by (rule with_kern_ok [OF TimerInterrupt_ok [OF timer(1) machine_okD [OF timer(2)]] timer(2)])
next
  case (key m fr s k)
  have ok: "kernel_ok (kern (m_sys m))" by (rule machine_okD [OF key(2)])
  have "keeps (kern (m_sys m)) s"
    by (rule HandleKeyboardInterrupt_keeps [OF key(1)]) (use ok in \<open>simp add: kernel_ok_def running_def\<close>)
  then have "machine_ok (with_kern m s)" using ok key(2) keeps_ok with_kern_ok by blast
  moreover have "kbd_ok k" using HandleKeyboardInterrupt_ok [OF _ key(1)] key(2) by (simp add: machine_ok_def)
  ultimately show ?case by (simp add: machine_ok_def)
next
  case (syscall fr m fr' y)
  then show ?case using handle_syscall_ok by (simp add: machine_ok_def)
next
  case (page_fault m fr fr' s)
  show ?case by (rule with_kern_ok [OF HandlePageFault_ok [OF page_fault(1) machine_okD [OF page_fault(2)]] page_fault(2)])
next
  case (protection st m fr fr' s)
  show ?case
    by (rule with_kern_ok [OF GeneralProtectionFault_ok [OF protection(1) machine_okD [OF protection(2)]] protection(2)])
next
  case (opcode st m fr fr' s)
  show ?case by (rule with_kern_ok [OF InvalidOpcode_ok [OF opcode(1) machine_okD [OF opcode(2)]] opcode(2)])
next
  case (sync m s)
  show ?case by (rule with_kern_ok [OF keeps_ok [OF SyncTime_keeps [OF sync(1)] machine_okD [OF sync(2)]] sync(2)])
next
  case (store va m b s)
  have "keeps (kern (m_sys m)) s" by (rule call_keeps(1) [OF store(2)]) simp
  then show ?case using store(3) keeps_ok machine_okD with_kern_ok by blast
qed

text \<open>C1. The address space of the current task. Whatever events happen, when the kernel has returned
  from the last of them CR3 holds the PML4 of the current task, and the kernel's own copy of it
  agrees.\<close>

theorem runs_own_address_space:
  assumes "runs m es m'" "machine_ok m"
  shows "cr3 (kern (m_sys m')) = Base_PML4 (TaskManager (kern (m_sys m')) (cur_pid (kern (m_sys m')))) \<and>
    PML4_Physical (kern (m_sys m')) = cr3 (kern (m_sys m'))"
proof -
  have "machine_ok m'" using assms(1) step_ok assms(2) by (rule runs_invariant)
  then show ?thesis by (auto simp: machine_ok_def sys_ok_def kernel_ok_def running_def)
qed


section \<open>The theorems on a sample machine\<close>

text \<open>Task 3 is running, task 5 is ready in an address space of its own, and the program of task
  3 ends with the system call EXIT.\<close>

definition sample_pair :: kst where
  "sample_pair = sample_kst\<lparr>TaskManager := (\<lambda>pid.
     if pid = 3 then zero_task\<lparr>ProcessState := READY_PROCESS_STATE, task_Exists := True, Base_PML4 := 0x1000\<rparr>
     else if pid = 5 then zero_task\<lparr>ProcessState := READY_PROCESS_STATE, task_Exists := True, Base_PML4 := 0x7000\<rparr>
     else zero_task), cur_pid := 3\<rparr>"

definition sample_sys :: "kst \<Rightarrow> sys" where
  "sample_sys s = \<lparr>kern = s, fs = sample_gemfs, drive = sample_floppy Some,
     elf = \<lparr>Program_Buffer = 0xffff800000005000, scratch_buffer = 0xffff800000006000\<rparr>,
     bounce_buffer = 0xffff800000007000, open_bounce_buffer = 0xffff800000008000,
     points_buffer = 0xffff800000009000\<rparr>"

definition sample_machine :: machine where
  "sample_machine = \<lparr>m_sys = sample_sys sample_pair, m_keys = sample_kbd, m_cow = 0xffff80000000A000\<rparr>"

lemma sample_floppy_calm: "fdc_calm (sample_floppy Some)"
  by (simp add: fdc_calm_def sample_floppy_def)

lemma sample_machine_ok: "machine_ok sample_machine"
  by (simp add: machine_ok_def sample_machine_def sample_sys_def sys_ok_def sample_floppy_calm sample_kbd_ok
      kernel_ok_def running_def wf_tasks_def task_wf_def sample_pair_def zero_task_def sample_kst_def)

lemma sample_next: "[4..511] = 4 # 5 # [6..511::int]"
  by (subst upto_rec1, simp, subst upto_rec1, simp_all del: upto_rec_numeral)

lemma sample_exit:
  "\<exists>fr y. handle_syscall zero_regs (sample_sys sample_pair) = Some (fr, y) \<and> cur_pid (kern y) = 5 \<and>
     Base_PML4 (TaskManager (kern y) 5) = 0x7000"
  by (simp add: handle_syscall_def syscall_case_def sys_exit_def sample_sys_def sample_pair_def Let_def
      TASKMGR_get_current_def upd_regs_def upd_task_def mem_set_cr3_def mem_sync_cr3_def pic_mask_def pic_unmask_def
      inb_def outb_def say_def zero_regs_def zero_task_def sample_kst_def ForceSwitch_def KillTask_def set_state_def
      find_next_task_def task_switch_def TASKMGR_set_current_def UpdateActiveTSS_def sample_next
      process_states task_regs_def del: upto_rec_numeral)

theorem runs_own_address_space_witness:
  "\<exists>m'. runs sample_machine [Syscall zero_regs] m' \<and> cur_pid (kern (m_sys m')) = 5 \<and>
     cr3 (kern (m_sys m')) = 0x7000"
proof -
  obtain fr y where y: "handle_syscall zero_regs (m_sys sample_machine) = Some (fr, y)"
    "cur_pid (kern y) = 5" "Base_PML4 (TaskManager (kern y) 5) = 0x7000"
    using sample_exit by (auto simp: sample_machine_def)
  let ?m = "sample_machine\<lparr>m_sys := y\<rparr>"
  have r: "runs sample_machine [Syscall zero_regs] ?m"
    by (rule runs_cons [OF syscall [OF y(1)] runs_nil])
  from runs_own_address_space [OF r sample_machine_ok] y(2,3) have "cr3 (kern (m_sys ?m)) = 0x7000" by simp
  then show ?thesis using r y(2) by (intro exI [of _ ?m]) simp
qed


end
