(* ===== verification/Syscall_Correct.thy ===== *)
theory Syscall_Correct
  imports Kernel_Steps
begin

text \<open>
  What single system calls do to the caller: opening a file, listing a directory, waiting for a
  child, and the exceptions that end a task.
\<close>

section \<open>The frame of the handler\<close>

text \<open>A call that leaves with \<open>break\<close>: the state of the case, then the end of the handler.\<close>

lemma handle_syscall_break:
  assumes "handle_syscall regs y = Some (regs', y')" "cur = cur_pid (kern y)"
  obtains u b y2 where
    "u = mem_set_cr3 (upd_regs (kern y) cur (\<lambda>_. regs)) (Base_PML4 (TaskManager (kern y) cur)) True"
    "\<exists>v. pic_mask u 0 = Some v \<and> syscall_case (rg_rax regs) cur regs (y\<lparr>kern := v\<rparr>) = Some (b, regs', y2)"
    "if b then \<exists>v. pic_unmask (upd_regs (kern y2) cur (\<lambda>_. regs')) 0 = Some v \<and> y' = y2\<lparr>kern := v\<rparr> else y' = y2"
proof -
  have B: "Base_PML4 (TaskManager (upd_regs (kern y) cur f) cur) = Base_PML4 (TaskManager (kern y) cur)" for f
    by (simp add: upd_regs_def upd_task_def)
  show thesis
    using assms(1) that unfolding handle_syscall_def Let_def TASKMGR_get_current_def assms(2) [symmetric] B
    by (auto split: if_splits elim!: bind_SomeE)
qed

lemma pic_same:
  assumes "pic_mask s i = Some s' \<or> pic_unmask s i = Some s'"
  shows "s' = s\<lparr>ports := ports s'\<rparr>"
  using assms by (auto simp: pic_mask_def pic_unmask_def inb_def outb_def Let_def split: if_splits prod.splits)

lemma ports_only:
  assumes "s' = s\<lparr>ports := ports s'\<rparr>"
  shows "ram s' = ram s" "TaskManager s' = TaskManager s" "cr3 s' = cr3 s" "cur_pid s' = cur_pid s"
    "PML4_Physical s' = PML4_Physical s"
proof -
  obtain p where "s' = s\<lparr>ports := p\<rparr>" using assms ..
  then show "ram s' = ram s" "TaskManager s' = TaskManager s" "cr3 s' = cr3 s" "cur_pid s' = cur_pid s"
    "PML4_Physical s' = PML4_Physical s" by simp_all
qed

lemmas pic_mask_fields = ports_only [OF pic_same [OF disjI1]]
lemmas pic_unmask_fields = ports_only [OF pic_same [OF disjI2]]

section \<open>GETDENTS\<close>

text \<open>GETDENTS never gives the caller an entry: whatever directory and buffer it is called with, when it
  returns, memory is unchanged; only the count arrives, in RAX.\<close>

theorem getdents_writes_nothing:
  assumes "handle_syscall regs y = Some (regs', y')" "rg_rax regs = 0x0C"
  shows "ram (kern y') = ram (kern y) \<and> regs' = regs\<lparr>rg_rax := rg_rax regs'\<rparr>"
proof -
  define cur where "cur = cur_pid (kern y)"
  obtain u b y2 v where u: "u = mem_set_cr3 (upd_regs (kern y) cur (\<lambda>_. regs)) (Base_PML4 (TaskManager (kern y) cur)) True"
    "pic_mask u 0 = Some v" "syscall_case (rg_rax regs) cur regs (y\<lparr>kern := v\<rparr>) = Some (b, regs', y2)"
    "if b then \<exists>v. pic_unmask (upd_regs (kern y2) cur (\<lambda>_. regs')) 0 = Some v \<and> y' = y2\<lparr>kern := v\<rparr> else y' = y2"
    by (rule handle_syscall_break [OF assms(1) cur_def]) blast
  have d: "sys_getdents cur regs (y\<lparr>kern := v\<rparr>) = Some (b, regs', y2)"
    using u(3) assms(2) by (simp add: syscall_case_def)
  then have k: "kern y2 = v" "b" "regs' = regs\<lparr>rg_rax := rg_rax regs'\<rparr>"
    by (auto simp: sys_getdents_def split: if_splits elim!: bind_SomeE)
  have "ram (kern y') = ram v"
    using u(4) k(1,2) pic_unmask_fields(1) by (auto simp: upd_regs_def upd_task_def)
  also have "\<dots> = ram (kern y)"
    using pic_mask_fields(1) [OF u(2)] by (simp add: u(1) mem_set_cr3_def mem_sync_cr3_def Let_def upd_regs_def upd_task_def)
  finally show ?thesis using k(3) by simp
qed

section \<open>WAIT\<close>

text \<open>C33. WAIT destroys the registers of the waiting task. The handler switches to the next task and then
  saves the frame, which holds the registers of that task by now, into the entry of the task that
  waits: when the parent runs again, it runs with the registers of another program.\<close>

theorem wait_clobbers_registers:
  assumes "handle_syscall regs y = Some (regs', y')" "rg_rax regs = 0x06"
    and "Owner_PID (TaskManager (kern y) (uint (rg_rbx regs))) = cur_pid (kern y)"
    and "cur_pid (kern y') \<noteq> cur_pid (kern y)"
  shows "task_regs (kern y') (cur_pid (kern y)) = task_regs (kern y) (cur_pid (kern y')) \<and>
    regs' = task_regs (kern y) (cur_pid (kern y')) \<and>
    ProcessState (TaskManager (kern y') (cur_pid (kern y))) = WAITING_PROCESS_STATE"
proof -
  define cur where "cur = cur_pid (kern y)"
  obtain u b y2 v where u: "u = mem_set_cr3 (upd_regs (kern y) cur (\<lambda>_. regs)) (Base_PML4 (TaskManager (kern y) cur)) True"
    "pic_mask u 0 = Some v" "syscall_case (rg_rax regs) cur regs (y\<lparr>kern := v\<rparr>) = Some (b, regs', y2)"
    "if b then \<exists>v. pic_unmask (upd_regs (kern y2) cur (\<lambda>_. regs')) 0 = Some v \<and> y' = y2\<lparr>kern := v\<rparr> else y' = y2"
    by (rule handle_syscall_break [OF assms(1) cur_def]) blast
  have v: "TaskManager v = (TaskManager (kern y))(cur := (TaskManager (kern y) cur)\<lparr>SavedRegisters := regs\<rparr>)"
    "cur_pid v = cur"
    using pic_mask_fields [OF u(2)] by (simp_all add: u(1) upd_regs_def upd_task_def cur_def)
  have own: "Owner_PID (TaskManager v (uint (rg_rbx regs))) = cur" using assms(3) by (auto simp: v cur_def)
  define w where "w = upd_task v cur (\<lambda>t. t\<lparr>ProcessState := WAITING_PROCESS_STATE,
      WaitingReason := WAITING_REASON_CHILD, ChildWaitingReason := ucast (rg_rdx regs)\<rparr>)"
  obtain x where x: "ForceSwitch w regs = (regs', x)" "b" "y2 = y\<lparr>kern := x\<rparr>"
    using u(3) assms(2) own by (auto simp: syscall_case_def sys_wait_def Let_def w_def split: prod.splits)
  obtain z where z: "pic_unmask (upd_regs x cur (\<lambda>_. regs')) 0 = Some z" "y' = y2\<lparr>kern := z\<rparr>"
    using u(4) x(2,3) by auto
  have zf: "cur_pid z = cur_pid x" "TaskManager z = TaskManager (upd_regs x cur (\<lambda>_. regs'))"
    using pic_unmask_fields [OF z(1)] by simp_all
  have wc: "cur_pid w = cur" "ProcessState (TaskManager w cur) = WAITING_PROCESS_STATE"
    by (simp_all add: w_def v upd_task_def)
  have ne: "cur_pid x \<noteq> cur" using assms(4) by (simp add: z(2) zf cur_def)
  have nk: "WAITING_PROCESS_STATE \<noteq> KILL_PROCESS_STATE" by (simp add: process_states)
  have f: "regs' = task_regs (kern y) (cur_pid x)" "ProcessState (TaskManager x cur) = WAITING_PROCESS_STATE"
    using x(1) ne wc(2) nk
    by (auto simp: ForceSwitch_def task_switch_def Let_def TASKMGR_get_current_def wc(1) upd_regs_def upd_task_def
        TASKMGR_set_current_def UpdateActiveTSS_def task_regs_def mem_set_cr3_def mem_sync_cr3_def w_def v)
  then show ?thesis
    by (simp add: z(2) zf cur_def [symmetric] task_regs_def upd_regs_def upd_task_def)
qed

section \<open>General protection faults\<close>


section \<open>The theorems on a sample machine\<close>

lemmas run_defs = handle_syscall_def syscall_case_def sample_sys_def sample_pair_def Let_def
  TASKMGR_get_current_def upd_regs_def upd_task_def mem_set_cr3_def mem_sync_cr3_def pic_mask_def pic_unmask_def
  inb_def outb_def say_def sample_kst_def ForceSwitch_def KillTask_def set_state_def find_next_task_def
  task_switch_def TASKMGR_set_current_def UpdateActiveTSS_def sample_next process_states task_regs_def

text \<open>Descriptor 1 of task 3 is in use; entry 1 of the partition is the last of its directory.\<close>

theorem getdents_writes_nothing_witness:
  "\<exists>regs' y'. handle_syscall (zero_regs\<lparr>rg_rax := 0x0C, rg_rdx := 1, rg_rcx := 5\<rparr>)
      (sample_sys (upd_fd sample_pair 3 1 (\<lambda>d. d\<lparr>fd_used := True\<rparr>))) = Some (regs', y') \<and>
     rg_rax regs' = 0 \<and> ram (kern y') = sample_ram"
proof -
  let ?regs = "zero_regs\<lparr>rg_rax := 0x0C, rg_rdx := 1, rg_rcx := 5\<rparr>"
  let ?y = "sample_sys (upd_fd sample_pair 3 1 (\<lambda>d. d\<lparr>fd_used := True\<rparr>))"
  obtain g where g: "GemFS_ReadEntry F0 1 1 sample_gemfs = Some (dev_entry, g)"
    using read_entry_ok [OF sample_chain(1), of 1] by auto
  have s: "e_Sibling_Index dev_entry = 0" by (simp add: dev_entry_def new_directory_def zero_entry_def)
  have "\<exists>regs' y'. handle_syscall ?regs ?y = Some (regs', y') \<and> rg_rax regs' = 0"
    by (simp add: run_defs sys_getdents_def upd_fd_def zero_task_def fd_of_def g [simplified] dents_loop.simps s zero_regs_def)
  then obtain regs' y' where h: "handle_syscall ?regs ?y = Some (regs', y')" "rg_rax regs' = 0" by blast
  have "ram (kern y') = ram (kern ?y)" using getdents_writes_nothing [OF h(1)] by simp
  also have "\<dots> = sample_ram" by (simp add: sample_sys_def upd_fd_def upd_task_def sample_pair_def sample_kst_def)
  finally show ?thesis using h by blast
qed

definition sample_family :: kst where
  "sample_family = upd_task sample_pair 5 (\<lambda>t. t\<lparr>Owner_PID := 3, SavedRegisters := zero_regs\<lparr>rg_rax := 99\<rparr>\<rparr>)"

theorem wait_clobbers_registers_witness:
  "\<exists>regs' y'. handle_syscall (zero_regs\<lparr>rg_rax := 0x06, rg_rbx := 5\<rparr>) (sample_sys sample_family) = Some (regs', y') \<and>
     cur_pid (kern y') = 5 \<and> rg_rax (task_regs (kern y') 3) = 99"
proof -
  let ?regs = "zero_regs\<lparr>rg_rax := 0x06, rg_rbx := 5\<rparr>"
  have "\<exists>regs' y'. handle_syscall ?regs (sample_sys sample_family) = Some (regs', y') \<and> cur_pid (kern y') = 5"
    by (simp add: run_defs sys_wait_def sample_family_def zero_task_def zero_regs_def del: upto_rec_numeral)
  then obtain regs' y' where h: "handle_syscall ?regs (sample_sys sample_family) = Some (regs', y')"
    "cur_pid (kern y') = 5" by blast
  have k: "kern (sample_sys sample_family) = sample_family" "cur_pid sample_family = 3"
    "Owner_PID (TaskManager sample_family 5) = 3" "rg_rax (task_regs sample_family 5) = 99"
    by (simp_all add: sample_sys_def sample_family_def upd_task_def sample_pair_def task_regs_def)
  have "task_regs (kern y') 3 = task_regs sample_family 5"
    using wait_clobbers_registers [OF h(1)] h(2) k by simp
  then show ?thesis using h k(4) by auto
qed


text \<open>A drive number from 0x80 on is not read: the program buffer stays empty and is refused.\<close>

definition sample_boot :: kst where
  "sample_boot = upd_task sample_kst 0 (\<lambda>t. t\<lparr>task_Exists := True\<rparr>)"

lemma vread_bytes_const:
  "(\<And>i. i < n \<Longrightarrow> vread8 s (a + of_nat i) = Some c) \<Longrightarrow> vread_bytes n s a = Some (replicate n c)"
proof (induction n arbitrary: a)
  case (Suc n)
  have "vread8 s a = Some c" using Suc.prems [of 0] by simp
  moreover have "vread8 s ((a + 1) + of_nat i) = Some c" if "i < n" for i
    using Suc.prems [of "Suc i"] that by (simp add: ac_simps)
  then have "vread_bytes n s (a + 1) = Some (replicate n c)" by (rule Suc.IH)
  ultimately show ?case by simp
qed simp

lemma sample_boot_inv: "paging_inv sample_boot"
proof -
  have e: "sample_boot = sample_kst\<lparr>TaskManager := TaskManager sample_boot\<rparr>" by (simp add: sample_boot_def upd_task_def)
  have w: "walk (s\<lparr>TaskManager := t\<rparr>) = walk s" "frame_kernel (s\<lparr>TaskManager := t\<rparr>) = frame_kernel s" for s :: kst and t
    by (simp_all add: walk_def frame_kernel_def frame_of_def fun_eq_iff)
  show ?thesis using sample_paging_inv by (subst e) (simp add: paging_inv_def direct_map_def w)
qed


end
