(* ===== verification/Spaces.thy ===== *)
theory Spaces
  imports Address_Space
begin

text \<open>
  Several address spaces over one memory. A leaf entry is what a complete path leads to; the
  operations on one address space are followed on the level of leaf entries and of the frames
  they write to, and an address space none of whose tables they touch keeps its leaves. Two
  address spaces share the tables of the kernel half and are separate in the user half.
\<close>

section \<open>Leaf entries\<close>

definition leaf :: "ram \<Rightarrow> u64 \<Rightarrow> u64 list \<Rightarrow> u64 option" where
  "leaf m r q = do {
     T \<leftarrow> tbl m (butlast q) r;
     let e = rd64 m (entry_at T (last q));
     if e AND 1 = 0 then None else Some e }"

lemma tbl_leaf: "q \<noteq> [] \<Longrightarrow> tbl m q r = map_option (\<lambda>e. e AND PTE_ADDR) (leaf m r q)"
  by (cases q rule: rev_cases) (auto simp: tbl_snoc leaf_def tbl_step_def Let_def split: bind_splits)

lemma leaf_None: "q \<noteq> [] \<Longrightarrow> leaf m r q = None \<longleftrightarrow> tbl m q r = None"
  by (simp add: tbl_leaf)

lemma leaf_table: "leaf m r q = Some e \<Longrightarrow> \<exists>T. tbl m (butlast q) r = Some T \<and>
    rd64 m (entry_at T (last q)) = e \<and> e AND 1 \<noteq> 0"
  by (auto simp: leaf_def Let_def bind_eq_Some_conv split: if_splits)

lemma leaf_path:
  assumes "length q = 4" "idx_ok q"
  obtains p i where "q = p @ [i]" "length p = 3" "idx_ok p" "i < 512"
  using assms path_split4 [of q] by auto

lemma walk_leaf:
  assumes "cr3 s AND PTE_ADDR = cr3 s"
  shows "walk s va = map_option (\<lambda>e. (e AND PTE_ADDR) OR (va AND 0xFFF)) (leaf (ram s) (cr3 s) (va_path va))"
proof -
  have "va_path va \<noteq> []" by (simp add: va_path_def)
  then show ?thesis using assms by (simp add: walk_def mmu_walk_def tbl_leaf option.map_comp comp_def)
qed

lemma leaf_extends:
  assumes "extends n s s'" "length q = 4" "idx_ok q"
  shows "leaf (ram s') (cr3 s) q = leaf (ram s) (cr3 s) q"
proof -
  obtain p i where q: "q = p @ [i]" "length p = 3" "idx_ok p" "i < 512" using leaf_path [OF assms(2,3)] .
  show ?thesis
  proof (cases "tbl (ram s) p (cr3 s)")
    case (Some T)
    then have "tbl (ram s') p (cr3 s) = Some T" using extendsD(3) [OF assms(1)] q by simp
    then show ?thesis using Some extendsD(10) [OF assms(1) q(2,3) Some q(4)] by (simp add: leaf_def q(1))
  next
    case None
    have "leaf (ram s) (cr3 s) q = None" using None by (simp add: leaf_def q(1))
    moreover have "tbl (ram s') q (cr3 s) = tbl (ram s) q (cr3 s)" by (rule extendsD(2) [OF assms])
    ultimately show ?thesis using leaf_None [of q] q(1) by (metis append_is_Nil_conv not_Cons_self2)
  qed
qed

lemma leaf_write:
  assumes inv: "paging_inv s" and T: "tbl (ram s) p (cr3 s) = Some T" "length p = 3" "idx_ok p" "i < 512"
    and q: "length q = 4" "idx_ok q"
  shows "leaf (wr64 (ram s) (entry_at T i) e) (cr3 s) q =
    (if q = p @ [i] then if e AND 1 = 0 then None else Some e else leaf (ram s) (cr3 s) q)"
proof -
  let ?m = "wr64 (ram s) (entry_at T i) e"
  note tree = paging_invD(4) [OF inv] and root = paging_invD(6) [OF inv]
  obtain p' j where qs: "q = p' @ [j]" "length p' = 3" "idx_ok p'" "j < 512" using leaf_path [OF q] .
  have "\<not> prefix (p @ [i]) p'" using T(2) qs(2) by (auto simp: prefix_def)
  then have tb: "tbl ?m p' (cr3 s) = tbl (ram s) p' (cr3 s)"
    using tbl_wr64_other [OF tree T(1) _ T(3,4), of p' e] T(2) qs(2,3) by simp
  show ?thesis
  proof (cases "tbl (ram s) p' (cr3 s)")
    case None
    then have "p' \<noteq> p" using T(1) by auto
    then show ?thesis using None tb by (simp add: leaf_def qs(1))
  next
    case (Some T')
    have "T' = T \<longleftrightarrow> p' = p"
      using Some T(1) pt_treeD [OF tree Some, of p] T(2,3) qs(2,3) by auto
    moreover have "page_aligned T'" "page_aligned T" using Some T(1) root by (auto intro: tbl_aligned)
    ultimately show ?thesis
      using tb Some qs T(4) by (auto simp: leaf_def rd64_wr64_entry Let_def)
  qed
qed

section \<open>Frames that are written\<close>

definition touches_only :: "u64 set \<Rightarrow> ram \<Rightarrow> ram \<Rightarrow> bool" where
  "touches_only F m m' \<longleftrightarrow> (\<forall>x. m' x \<noteq> m x \<longrightarrow> (\<exists>f \<in> F. page_aligned f \<and> in_page f x))"

lemma touches_refl [simp]: "touches_only F m m"
  by (simp add: touches_only_def)

lemma touches_trans: "touches_only F m m1 \<Longrightarrow> touches_only G m1 m2 \<Longrightarrow> F \<subseteq> H \<Longrightarrow> G \<subseteq> H \<Longrightarrow> touches_only H m m2"
  unfolding touches_only_def by (metis subsetD)

lemma touches_mono: "touches_only F m m' \<Longrightarrow> F \<subseteq> G \<Longrightarrow> touches_only G m m'"
  unfolding touches_only_def by blast

lemma in_page_unique:
  assumes "page_aligned f" "page_aligned g" "in_page f x" "in_page g x"
  shows "f = g"
proof -
  obtain k l where "unat f = 4096 * k" "unat g = 4096 * l" using assms(1,2) by (metis page_alignedE)
  then show ?thesis using assms by (simp add: in_page_unat word_unat_eq_iff)
qed

text \<open>A frame none of whose bytes can be written.\<close>

lemma touches_outside:
  assumes "touches_only F m m'" "page_aligned g" "g \<notin> F" "in_page g x"
  shows "m' x = m x"
  using assms in_page_unique unfolding touches_only_def by blast

lemma touches_rd64:
  assumes "touches_only F m m'" "page_aligned t" "t \<notin> F" "i < 512"
  shows "rd64 m' (entry_at t i) = rd64 m (entry_at t i)"
  unfolding rd64_def
  by (rule le64_cong, rule touches_outside [OF assms(1-3)]) (use assms(2,4) in \<open>simp add: entry_byte_in_page\<close>)

lemma touches_wr64: "page_aligned T \<Longrightarrow> i < 512 \<Longrightarrow> touches_only {T} m (wr64 m (entry_at T i) e)"
proof -
  assume a: "page_aligned T" "i < 512"
  have "in_page T x" if "x - entry_at T i < 8" for x
    using entry_byte_in_page [of T T i "x - entry_at T i"] a that by simp
  then show ?thesis using a(1) by (auto simp: touches_only_def wr64_def)
qed

lemma touches_fill: "page_aligned f \<Longrightarrow> touches_only {f} m (fill_page m f c)"
  by (auto simp: touches_only_def fill_page_def)

text \<open>An address space whose tables are not touched keeps its walks and its leaves.\<close>

lemma touches_same_walks:
  assumes F: "touches_only F m m'" and root: "page_aligned root" and out: "\<forall>t \<in> F. \<not> is_table m root t"
  shows "same_walks m m' root"
proof -
  have "tbl m' q root = tbl m q root" if "length q \<le> 4" "idx_ok q" for q
    using that
  proof (induction q rule: rev_induct)
    case (snoc j q)
    have "Option.bind (tbl m q root) (tbl_step m' j) = Option.bind (tbl m q root) (tbl_step m j)"
    proof (cases "tbl m q root")
      case (Some t)
      then have "is_table m root t" using snoc.prems by (auto intro: is_tableI)
      moreover have t: "page_aligned t" using Some root by (rule tbl_aligned)
      ultimately have "rd64 m' (entry_at t j) = rd64 m (entry_at t j)"
        using out snoc.prems(2) by (intro touches_rd64 [OF F]) auto
      then show ?thesis using Some by (simp add: tbl_step_def)
    qed simp
    then show ?case using snoc by (simp add: tbl_snoc)
  qed simp
  then show ?thesis by (simp add: same_walks_def)
qed

lemma touches_leaf:
  assumes F: "touches_only F m m'" and root: "page_aligned root" and out: "\<forall>t \<in> F. \<not> is_table m root t"
    and q: "length q = 4" "idx_ok q"
  shows "leaf m' root q = leaf m root q"
proof -
  obtain p i where p: "q = p @ [i]" "length p = 3" "idx_ok p" "i < 512" using leaf_path [OF q] .
  have same: "tbl m' p root = tbl m p root"
    using touches_same_walks [OF F root out] p by (simp add: same_walksD)
  show ?thesis
  proof (cases "tbl m p root")
    case (Some T)
    then have "is_table m root T" using p by (intro is_tableI) simp_all
    then have "T \<notin> F" using out by blast
    moreover have "page_aligned T" using Some root by (rule tbl_aligned)
    ultimately show ?thesis using Some same touches_rd64 [OF F _ _ p(4)] by (simp add: leaf_def p(1))
  qed (use same in \<open>simp add: leaf_def p(1)\<close>)
qed

section \<open>The tables on the way to a user page\<close>

text \<open>The root and the tables below its entry \<open>i\<close>.\<close>

definition branch :: "ram \<Rightarrow> u64 \<Rightarrow> u64 \<Rightarrow> u64 set" where
  "branch m r i = {t. \<exists>p. (p = [] \<or> hd p = i) \<and> length p \<le> 3 \<and> idx_ok p \<and> tbl m p r = Some t}"

lemma branchI: "tbl m p r = Some t \<Longrightarrow> p = [] \<or> hd p = i \<Longrightarrow> length p \<le> 3 \<Longrightarrow> idx_ok p \<Longrightarrow> t \<in> branch m r i"
  by (auto simp: branch_def)

lemma branch_table: "t \<in> branch m r i \<Longrightarrow> is_table m r t"
  by (auto simp: branch_def is_table_def)

lemma branch_extends:
  assumes "extends n s s'"
  shows "branch (ram s') (cr3 s) i \<subseteq> branch (ram s) (cr3 s) i \<union> free_frames s"
  using extendsD(9) [OF assms] by (fastforce simp: branch_def)

lemma EnsureEntry_touches:
  assumes inv: "paging_inv s" and T: "tbl (ram s) p (cr3 s) = Some T" "length p \<le> 2" "idx_ok p" "i < 512"
    and free: "free_frames s \<noteq> {}" and e: "EnsureEntry s (dmap (entry_at T i)) fl flush = Some s'"
  shows "touches_only (insert T (free_frames s)) (ram s) (ram s')"
    and "tbl (ram s) (p @ [i]) (cr3 s) \<noteq> None \<or> j \<noteq> i \<Longrightarrow> j < 512 \<Longrightarrow>
      rd64 (ram s') (entry_at T j) = rd64 (ram s) (entry_at T j)"
proof -
  have "touches_only (insert T (free_frames s)) (ram s) (ram s') \<and>
    (tbl (ram s) (p @ [i]) (cr3 s) \<noteq> None \<or> j \<noteq> i \<longrightarrow> j < 512 \<longrightarrow>
      rd64 (ram s') (entry_at T j) = rd64 (ram s) (entry_at T j))"
  proof (cases "tbl (ram s) (p @ [i]) (cr3 s)")
    case (Some t)
    then show ?thesis using EnsureEntry_present [OF inv T Some, of fl flush] e by simp
  next
    case None
    obtain f s1 where f: "take_frame s = Some (f, s1)"
      and ev: "EnsureEntry s (dmap (entry_at T i)) fl flush =
         Some (s1\<lparr>ram := wr64 (fill_page (ram s) f 0) (entry_at T i) (f OR ucast fl OR 1)\<rparr>)"
      by (rule EnsureEntry_absent_eval [OF inv T None free, where fl = fl and flush = flush])
    have ff: "f \<in> free_frames s" using take_frame_spec(1) [OF paging_invD(8) [OF inv] free f] .
    note fa = free_frame_addr [OF inv ff]
    have Ta: "page_aligned T" using T(1) paging_invD(6) [OF inv] by (rule tbl_aligned)
    have "T \<noteq> f" using fa(4) is_tableI [OF T(1) _ T(3)] T(2) by auto
    then show ?thesis
      using ff T(4) e ev fa(1) Ta None
      by (auto intro!: touches_trans [OF touches_fill touches_wr64] simp: rd64_wr64_entry rd64_fill_page)
  qed
  then show "touches_only (insert T (free_frames s)) (ram s) (ram s')"
    and "tbl (ram s) (p @ [i]) (cr3 s) \<noteq> None \<or> j \<noteq> i \<Longrightarrow> j < 512 \<Longrightarrow>
      rd64 (ram s') (entry_at T j) = rd64 (ram s) (entry_at T j)" by blast+
qed

text \<open>The entries of the root that a walk through its entry \<open>i\<close> leaves alone: all but this one, and
  this one too when it is present.\<close>

definition root_kept :: "ram \<Rightarrow> ram \<Rightarrow> u64 \<Rightarrow> u64 \<Rightarrow> bool" where
  "root_kept m m' r i \<longleftrightarrow> (\<forall>j < 512. tbl m [i] r \<noteq> None \<or> j \<noteq> i \<longrightarrow>
     rd64 m' (entry_at r j) = rd64 m (entry_at r j))"

lemma touches_root:
  assumes "touches_only F m m'" "page_aligned r" "r \<notin> F" "root_kept m0 m r i"
  shows "root_kept m0 m' r i"
  using assms(4) touches_rd64 [OF assms(1-3)] by (simp add: root_kept_def)

lemma not_root:
  assumes "paging_inv s" "tbl (ram s) p (cr3 s) = Some T" "p \<noteq> []" "length p \<le> 3" "idx_ok p"
  shows "T \<noteq> cr3 s" "cr3 s \<notin> free_frames s"
proof -
  show "T \<noteq> cr3 s" using pt_treeD [OF paging_invD(4) [OF assms(1)], of p "cr3 s" "[]"] assms(2-5) by auto
  have "is_table (ram s) (cr3 s) (cr3 s)" unfolding is_table_def by (intro exI [of _ "[]"]) simp
  then show "cr3 s \<notin> free_frames s" using free_frame_addr(4) [OF assms(1)] by blast
qed

text \<open>The software walk to a leaf entry writes only to the tables on its way and to free frames.\<close>

lemma CalculatePagePhysicalEntryAddress_touches:
  assumes inv: "paging_inv s" and ok: "idx_ok (entry_path e)" and free: "3 \<le> card (free_frames s)"
    and c: "CalculatePagePhysicalEntryAddress s e = Some (pe, s')"
  shows "touches_only (branch (ram s) (cr3 s) (ucast (PML4_Entry e)) \<union> free_frames s) (ram s) (ram s')"
    and "root_kept (ram s) (ram s') (cr3 s) (ucast (PML4_Entry e))"
proof -
  let ?i = "ucast (PML4_Entry e) :: u64" and ?j = "ucast (PDPT_Entry e) :: u64"
    and ?k = "ucast (PD_Entry e) :: u64"
  let ?fl = "ucast (if PML4_Entry e < 256 then USER_FLAGS else KERNEL_FLAGS) :: u8"
  let ?F = "branch (ram s) (cr3 s) ?i \<union> free_frames s"
  have i: "?i < 512" "?j < 512" "?k < 512" using ok by simp_all
  have pos: "free_frames s' \<noteq> {}" if "0 < card (free_frames s')" for s' using that by auto
  obtain s1 t1 where 1: "EnsureEntry s (dmap (entry_at (cr3 s) ?i)) ?fl True = Some s1"
    "extends 1 s s1" "tbl (ram s1) [?i] (cr3 s) = Some t1"
    by (rule EnsureEntry_spec [OF inv, of "[]" "cr3 s" ?i ?fl True])
      (use i free in \<open>auto simp del: tbl.simps(2)\<close>)
  note c1 = extends_same [OF 1(2)] and inv1 = extendsD(1) [OF 1(2)]
  have p0: "free_frames s \<noteq> {}" using free by (intro pos) simp
  have r0: "tbl (ram s) [] (cr3 s) = Some (cr3 s)" by simp
  note en1 = EnsureEntry_touches [OF inv r0 _ _ i(1) p0 1(1)]
  have touch1: "touches_only ?F (ram s) (ram s1)"
    by (rule touches_mono [OF en1(1)]) (use branchI [OF r0, of ?i] in auto)
  have root1: "root_kept (ram s) (ram s1) (cr3 s) ?i"
    using en1(2) by (simp add: root_kept_def del: tbl.simps(2))
  obtain e1 where e1: "vread64 s1 (dmap (entry_at (cr3 s) ?i)) = Some e1" "e1 AND PTE_ADDR = t1"
    using entry_read [OF inv1, of "[]" "cr3 s1" ?i t1] 1(3) i c1 by auto
  have p1: "free_frames s1 \<noteq> {}" using free extendsD(8) [OF 1(2)] by (intro pos) simp
  have t1: "tbl (ram s1) [?i] (cr3 s1) = Some t1" using 1(3) by (simp only: c1)
  obtain s2 t2 where 2: "EnsureEntry s1 (dmap (entry_at t1 ?j)) ?fl True = Some s2"
    "extends 1 s1 s2" "tbl (ram s2) ([?i] @ [?j]) (cr3 s1) = Some t2"
    by (rule EnsureEntry_spec [OF inv1 t1, of ?j ?fl True]) (use i p1 in simp_all)
  note c2 = extends_same [OF 2(2)] and inv2 = extendsD(1) [OF 2(2)]
  have en2: "touches_only (insert t1 (free_frames s1)) (ram s1) (ram s2)"
    by (rule EnsureEntry_touches(1) [OF inv1 t1 _ _ i(2) p1 2(1)]) (use i in simp_all)
  have touch2: "touches_only (branch (ram s1) (cr3 s) ?i \<union> free_frames s1) (ram s1) (ram s2)"
    by (rule touches_mono [OF en2]) (use branchI [OF 1(3), of ?i] i in auto)
  have root2: "root_kept (ram s) (ram s2) (cr3 s) ?i"
    by (rule touches_root [OF en2 paging_invD(6) [OF inv] _ root1]) (use not_root [OF inv1 t1] i c1 in auto)
  obtain e2 where e2: "vread64 s2 (dmap (entry_at t1 ?j)) = Some e2" "e2 AND PTE_ADDR = t2"
    using entry_read [OF inv2, of "[?i]" t1 ?j t2] extendsD(3) [OF 2(2) _ _ t1] 2(3) i c1 c2
    by (auto simp del: tbl.simps(2))
  have p2: "free_frames s2 \<noteq> {}"
    using free extendsD(8) [OF 1(2)] extendsD(8) [OF 2(2)] by (intro pos) simp
  have t2: "tbl (ram s2) ([?i] @ [?j]) (cr3 s2) = Some t2" using 2(3) by (simp only: c2)
  obtain s3 t3 where 3: "EnsureEntry s2 (dmap (entry_at t2 ?k)) ?fl True = Some s3"
    "extends 1 s2 s3" "tbl (ram s3) (([?i] @ [?j]) @ [?k]) (cr3 s2) = Some t3"
    by (rule EnsureEntry_spec [OF inv2 t2, of ?k ?fl True]) (use i p2 in simp_all)
  have en3: "touches_only (insert t2 (free_frames s2)) (ram s2) (ram s3)"
    by (rule EnsureEntry_touches(1) [OF inv2 t2 _ _ i(3) p2 3(1)]) (use i in simp_all)
  have touch3: "touches_only (branch (ram s2) (cr3 s) ?i \<union> free_frames s2) (ram s2) (ram s3)"
    by (rule touches_mono [OF en3]) (use branchI [OF t2, of ?i] i in \<open>auto simp: c1 c2\<close>)
  have root3: "root_kept (ram s) (ram s3) (cr3 s) ?i"
    by (rule touches_root [OF en3 paging_invD(6) [OF inv] _ root2]) (use not_root [OF inv2 t2] i c1 c2 in auto)
  note c3 = extends_same [OF 3(2)]
  have s3: "tbl (ram s3) [?i, ?j] (cr3 s3) = Some t2"
    using extendsD(3) [OF 3(2), of "[?i, ?j]" t2] t2 i by (simp add: c3 del: tbl.simps(2))
  obtain e3 where e3: "vread64 s3 (dmap (entry_at t2 ?k)) = Some e3" "e3 AND PTE_ADDR = t3"
    using entry_read [OF extendsD(1) [OF 3(2)], of "[?i, ?j]" t2 ?k t3] s3 3(3) i c3
    by (auto simp del: tbl.simps(2))
  have "CalculatePagePhysicalEntryAddress s e = Some (dmap (entry_at t3 (ucast (PT_Entry e))), s3)"
    using 1(1) 2(1) 3(1) e1 e2 e3 paging_invD(1) [OF inv]
    by (simp add: CalculatePagePhysicalEntryAddress_def entry_pointer_dmap Let_def)
  then have s': "s' = s3" using c by simp
  have b1: "branch (ram s1) (cr3 s) ?i \<union> free_frames s1 \<subseteq> ?F"
    using branch_extends [OF 1(2)] extendsD(7) [OF 1(2)] by blast
  have b2: "branch (ram s2) (cr3 s) ?i \<union> free_frames s2 \<subseteq> ?F"
    using branch_extends [OF 2(2), of ?i] extendsD(7) [OF 2(2)] b1 unfolding c1 by blast
  show "touches_only ?F (ram s) (ram s')"
    unfolding s' using touches_trans [OF touches_trans [OF touch1 touch2 subset_refl b1] touch3 subset_refl b2] .
  show "root_kept (ram s) (ram s') (cr3 s) ?i" unfolding s' by (rule root3)
qed

text \<open>
  Setting a leaf: the result on the level of leaves and of the frames that are written. The
  entry may be any that keeps the direct map.
\<close>

lemma set_leaf:
  assumes inv: "paging_inv s" and free: "3 \<le> card (free_frames s)"
    and e: "\<forall>x. page_aligned x \<and> x < total_mem s \<and>
      va_path (x + VIRTUAL_MEMORY_BARRIER) = va_path v \<longrightarrow> e AND 1 \<noteq> 0 \<and> e AND PTE_ADDR = x"
  obtains pe s1 s2 where
    "CalculatePagePhysicalEntryAddress s (ExtractPageEntries v) = Some (pe, s1)" "pe \<noteq> 0"
    "vwrite64 s1 pe e = Some s2" "extends 3 s s1" "paging_inv s2" "s2 = s1\<lparr>ram := ram s2\<rparr>"
    "\<forall>q. length q = 4 \<and> idx_ok q \<longrightarrow> leaf (ram s2) (cr3 s) q =
       (if q = va_path v then if e AND 1 = 0 then None else Some e else leaf (ram s) (cr3 s) q)"
    "\<forall>q t. length q \<le> 3 \<and> idx_ok q \<and> tbl (ram s2) q (cr3 s) = Some t \<longrightarrow>
       tbl (ram s) q (cr3 s) = Some t \<or> t \<in> free_frames s"
    "\<forall>q t. length q \<le> 3 \<and> idx_ok q \<and> tbl (ram s) q (cr3 s) = Some t \<longrightarrow> tbl (ram s2) q (cr3 s) = Some t"
    "touches_only (branch (ram s) (cr3 s) (hd (va_path v)) \<union> free_frames s) (ram s) (ram s2)"
    "root_kept (ram s) (ram s2) (cr3 s) (hd (va_path v))"
proof -
  let ?E = "ExtractPageEntries v"
  let ?p = "[ucast (PML4_Entry ?E), ucast (PDPT_Entry ?E), ucast (PD_Entry ?E)] :: u64 list"
  let ?i = "ucast (PT_Entry ?E) :: u64"
  have path: "va_path v = ?p @ [?i]" by (simp add: va_path_ExtractPageEntries)
  have ok: "idx_ok (entry_path ?E)" using idx_ok_va_path [of v] by (simp add: path)
  obtain s1 T where c: "CalculatePagePhysicalEntryAddress s ?E = Some (dmap (entry_at T ?i), s1)"
    and x: "extends 3 s s1" and T: "tbl (ram s1) ?p (cr3 s) = Some T"
    using CalculatePagePhysicalEntryAddress_spec [OF inv ok free] .
  note same = extends_same [OF x] and inv1 = extendsD(1) [OF x]
  have i: "idx_ok ?p" "?i < 512" using ok by simp_all
  have T': "tbl (ram s1) ?p (cr3 s1) = Some T" using T by (simp add: same)
  have Tt: "page_aligned T" "T < total_mem s1" using paging_inv_table [OF inv1 T' _ i(1)] by simp_all
  have "entry_at T ?i < 0x800000000000"
    using Tt(2) paging_invD(3) [OF inv1] by (intro page_offset_lt [OF Tt(1) _ i(2)]) simp
  then have nz: "dmap (entry_at T ?i) \<noteq> 0" by (rule dmap_nonzero)
  have p3: "length ?p = 3" by simp
  have e': "\<forall>x. page_aligned x \<and> x < total_mem s1 \<and>
      va_path (x + VIRTUAL_MEMORY_BARRIER) = ?p @ [?i] \<longrightarrow> e AND 1 \<noteq> 0 \<and> e AND PTE_ADDR = x"
    using e unfolding path same .
  note w = write_leaf [OF inv1 T' p3 i e']
  let ?s2 = "s1\<lparr>ram := wr64 (ram s1) (entry_at T ?i) e\<rparr>"
  have hp: "hd (va_path v) = ucast (PML4_Entry ?E)" by (simp add: path)
  have "T \<in> branch (ram s1) (cr3 s) (hd (va_path v))" using i by (intro branchI [OF T]) (simp_all add: hp)
  then have Tb: "{T} \<subseteq> branch (ram s) (cr3 s) (hd (va_path v)) \<union> free_frames s"
    using branch_extends [OF x] by auto
  have touch: "touches_only (branch (ram s) (cr3 s) (hd (va_path v)) \<union> free_frames s) (ram s) (ram ?s2)"
    using touches_trans [OF CalculatePagePhysicalEntryAddress_touches(1) [OF inv ok free c]
        touches_wr64 [OF Tt(1) i(2)] _ Tb, of e] by (simp add: hp)
  have root: "root_kept (ram s) (ram ?s2) (cr3 s) (hd (va_path v))"
    unfolding hp
    by (rule touches_root [OF _ paging_invD(6) [OF inv] _ CalculatePagePhysicalEntryAddress_touches(2) [OF inv ok free c],
          of "{T}"]) (use touches_wr64 [OF Tt(1) i(2), of "ram s1" e] not_root(1) [OF inv1 T' _ _ i(1)] same in auto)
  show thesis
  proof (rule that [OF c nz w(1) x w(2) _ _ _ _ touch root])
    show "\<forall>q. length q = 4 \<and> idx_ok q \<longrightarrow> leaf (ram ?s2) (cr3 s) q =
       (if q = va_path v then if e AND 1 = 0 then None else Some e else leaf (ram s) (cr3 s) q)"
      using leaf_write [OF inv1 T' p3 i, of _ e] leaf_extends [OF x] unfolding path same by simp
    show "\<forall>q t. length q \<le> 3 \<and> idx_ok q \<and> tbl (ram ?s2) q (cr3 s) = Some t \<longrightarrow>
       tbl (ram s) q (cr3 s) = Some t \<or> t \<in> free_frames s"
    proof (intro allI impI, elim conjE)
      fix q t
      assume q: "length q \<le> 3" "idx_ok q" "tbl (ram ?s2) q (cr3 s) = Some t"
      then have "tbl (ram s1) q (cr3 s) = Some t" using w(4) [of q] by (simp add: same)
      then show "tbl (ram s) q (cr3 s) = Some t \<or> t \<in> free_frames s" by (rule extendsD(9) [OF x q(1,2)])
    qed
    show "\<forall>q t. length q \<le> 3 \<and> idx_ok q \<and> tbl (ram s) q (cr3 s) = Some t \<longrightarrow> tbl (ram ?s2) q (cr3 s) = Some t"
      using w(4) extendsD(3) [OF x] by (simp add: same)
  qed simp
qed


text \<open>Mapping a user page to a frame that is in use.\<close>

definition user_frame :: "kst \<Rightarrow> u64 \<Rightarrow> bool" where
  "user_frame s f \<longleftrightarrow> page_aligned f \<and> f < total_mem s \<and> \<not> frame_kernel s f \<and> \<not> frame_dirty s f \<and>
     f \<notin> free_frames s"

lemma kernel_not_free: "frame_kernel s t \<Longrightarrow> t \<notin> free_frames s"
proof
  assume K: "frame_kernel s t" and "t \<in> free_frames s"
  then have "fr_flags (frame_of s t) AND 0b111 = 0" by (simp add: free_frames_def free_frame_def)
  then have "(fr_flags (frame_of s t) AND 0b111) AND 0b100 = 0" by simp
  then show False using K by (simp add: frame_kernel_def and.assoc)
qed

lemma alloc_page_used:
  assumes inv: "paging_inv s" and pg: "good_page s pg" and v: "virtual_address pg < 0x800000000000"
    and p: "user_frame s (physical_address pg)" and free: "3 \<le> card (free_frames s)"
  obtains s' where "alloc_page s pg = Some (virtual_address pg, s')" "paging_inv s'"
    "s' = s\<lparr>ram := ram s', phys_frames := phys_frames s'\<rparr>"
    "\<forall>q. length q = 4 \<and> idx_ok q \<longrightarrow> leaf (ram s') (cr3 s) q =
       (if q = va_path (virtual_address pg) then Some (new_entry pg) else leaf (ram s) (cr3 s) q)"
    "\<forall>q t. length q \<le> 3 \<and> idx_ok q \<and> tbl (ram s') q (cr3 s) = Some t \<longrightarrow>
       tbl (ram s) q (cr3 s) = Some t \<or> t \<in> free_frames s"
    "touches_only (branch (ram s) (cr3 s) (hd (va_path (virtual_address pg))) \<union> free_frames s) (ram s) (ram s')"
    "root_kept (ram s) (ram s') (cr3 s) (hd (va_path (virtual_address pg)))"
    "\<forall>g. page_aligned g \<longrightarrow> refcount (frame_of s' g) =
       (if g = physical_address pg then refcount (frame_of s g) + 1 else refcount (frame_of s g))"
    "\<forall>g. user_frame s g \<longrightarrow> user_frame s' g" "\<forall>t. page_aligned t \<and> t < total_mem s \<and> frame_kernel s t \<longrightarrow> frame_kernel s' t"
    "free_frames s' \<subseteq> free_frames s" "card (free_frames s) \<le> card (free_frames s') + 3"
proof -
  let ?p = "physical_address pg" and ?v = "virtual_address pg"
  have vb: "?v < VIRTUAL_MEMORY_BARRIER"
    using v by (simp add: VIRTUAL_MEMORY_BARRIER_def word_less_nat_alt)
  have pa: "page_aligned ?p" "?p < total_mem s" "\<not> frame_kernel s ?p" "\<not> frame_dirty s ?p" "?p \<notin> free_frames s"
    using p by (simp_all add: user_frame_def)
  define c where "c = count_user_mapping s ?p ?v"
  note cs = count_user_mapping_spec [OF inv pa(1,3) vb, folded c_def]
  obtain fr where c: "c = s\<lparr>phys_frames := fr\<rparr>" using cs(2) ..
  have ff: "free_frames c = free_frames s"
  proof -
    have "free_frame c g = free_frame s g" if "page_aligned g" "g < total_mem s" for g
      using that cs(3) cs(4) [of g] pa(5)
      by (cases "g = ?p") (auto simp: free_frame_def free_frames_def)
    then show ?thesis by (auto simp: free_frames_def c)
  qed
  have e: "\<forall>x. page_aligned x \<and> x < total_mem c \<and>
      va_path (x + VIRTUAL_MEMORY_BARRIER) = va_path ?v \<longrightarrow> new_entry pg AND 1 \<noteq> 0 \<and> new_entry pg AND PTE_ADDR = x"
    using user_not_direct [OF v paging_invD(3) [OF cs(1)]] by blast
  obtain pe s1 s2 where l:
    "CalculatePagePhysicalEntryAddress c (ExtractPageEntries ?v) = Some (pe, s1)" "pe \<noteq> 0"
    "vwrite64 s1 pe (new_entry pg) = Some s2" "extends 3 c s1" "paging_inv s2" "s2 = s1\<lparr>ram := ram s2\<rparr>"
    "\<forall>q. length q = 4 \<and> idx_ok q \<longrightarrow> leaf (ram s2) (cr3 c) q =
       (if q = va_path ?v then if new_entry pg AND 1 = 0 then None else Some (new_entry pg) else leaf (ram c) (cr3 c) q)"
    "\<forall>q t. length q \<le> 3 \<and> idx_ok q \<and> tbl (ram s2) q (cr3 c) = Some t \<longrightarrow>
       tbl (ram c) q (cr3 c) = Some t \<or> t \<in> free_frames c"
    "touches_only (branch (ram c) (cr3 c) (hd (va_path ?v)) \<union> free_frames c) (ram c) (ram s2)"
    "root_kept (ram c) (ram s2) (cr3 c) (hd (va_path ?v))"
    by (rule set_leaf [OF cs(1) _ e]) (use free ff in simp_all)
  have n1: "new_entry pg AND 1 \<noteq> 0" by (rule good_page_entry(1) [OF inv pg])
  note fr2 = frame_of_ram [OF l(6)]
  obtain m1 f1 where s1: "s1 = c\<lparr>ram := m1, phys_frames := f1\<rparr>"
    using l(4) unfolding extends_def by blast
  obtain m2 where "s2 = s1\<lparr>ram := m2\<rparr>" using l(6) ..
  then have s2': "s2 = s\<lparr>ram := m2, phys_frames := f1\<rparr>" by (simp add: s1 c)
  then have s2: "s2 = s\<lparr>ram := ram s2, phys_frames := phys_frames s2\<rparr>" by simp
  have used: "frame_of s2 g = frame_of c g" if "page_aligned g" "g < total_mem s" "g \<notin> free_frames s" for g
    using extendsD(4) [OF l(4), of g] that ff by (simp add: fr2 c)
  have f2: "free_frames s2 = free_frames s1"
    using fr2 by (simp add: free_frames_def free_frame_def s1 s2' c)
  show thesis
  proof (rule that)
    show "alloc_page s pg = Some (?v, s2)"
      using pa(2-4) l(1-3) by (simp add: alloc_page_def Let_def linorder_not_le install_page_def c_def)
    show "\<forall>q. length q = 4 \<and> idx_ok q \<longrightarrow> leaf (ram s2) (cr3 s) q =
        (if q = va_path ?v then Some (new_entry pg) else leaf (ram s) (cr3 s) q)"
      using l(7) n1 by (simp add: c)
    show "\<forall>g. page_aligned g \<longrightarrow> refcount (frame_of s2 g) =
        (if g = ?p then refcount (frame_of s g) + 1 else refcount (frame_of s g))"
      using extendsD(5) [OF l(4)] cs(3,4) by (simp add: fr2)
    show "\<forall>g. user_frame s g \<longrightarrow> user_frame s2 g"
    proof (intro allI impI)
      fix g assume g: "user_frame s g"
      then have "frame_of s2 g = frame_of c g" by (intro used) (simp_all add: user_frame_def)
      moreover have "fr_flags (frame_of c g) = fr_flags (frame_of s g) \<or> fr_flags (frame_of c g) = 1"
        using cs(3) cs(4) [of g] g by (cases "g = ?p") (auto simp: user_frame_def)
      ultimately have "fr_flags (frame_of s2 g) = fr_flags (frame_of s g) \<or> fr_flags (frame_of s2 g) = 1" by simp
      then show "user_frame s2 g"
        using g by (auto simp: user_frame_def frame_kernel_def frame_dirty_def free_frames_def free_frame_def s2')
    qed
    show "\<forall>t. page_aligned t \<and> t < total_mem s \<and> frame_kernel s t \<longrightarrow> frame_kernel s2 t"
    proof (intro allI impI)
      fix t assume t: "page_aligned t \<and> t < total_mem s \<and> frame_kernel s t"
      then have "t \<notin> free_frames s" by (intro kernel_not_free) simp
      then have "frame_of s2 t = frame_of c t" using t by (intro used) simp_all
      moreover have "frame_of c t = frame_of s t" using cs(4) [of t] pa(3) t by auto
      ultimately show "frame_kernel s2 t" using t by (simp add: frame_kernel_def)
    qed
    show "free_frames s2 \<subseteq> free_frames s" using extendsD(7) [OF l(4)] by (simp add: f2 ff)
    show "card (free_frames s) \<le> card (free_frames s2) + 3" using extendsD(8) [OF l(4)] by (simp add: f2 ff)
  qed (use l(5,8,9,10) s2 ff c in simp_all)
qed


section \<open>Rewriting the entry of a mapped page\<close>

lemma leaf_pointer_read:
  assumes inv: "paging_inv s" and T: "tbl (ram s) (butlast (va_path v)) (cr3 s) = Some T"
  shows "vread64 s (dmap (entry_at T (last (va_path v)))) = Some (rd64 (ram s) (entry_at T (last (va_path v))))"
proof -
  obtain p i where path: "va_path v = p @ [i]" and p: "length p = 3" "idx_ok p" "i < 512"
    by (rule leaf_path [of "va_path v"]) simp_all
  have "page_aligned T" "T < total_mem s"
    using paging_inv_table [OF inv, of p T] p T by (simp_all add: path)
  then show ?thesis using entry_access(1) [OF inv _ _ p(3)] by (simp add: path)
qed

lemma rewrite_leaf:
  fixes e :: u64
  assumes inv: "paging_inv s" and v: "v < 0x800000000000"
    and T: "tbl (ram s) (butlast (va_path v)) (cr3 s) = Some T"
  defines "pe \<equiv> dmap (entry_at T (last (va_path v)))"
    and "s' \<equiv> s\<lparr>ram := wr64 (ram s) (entry_at T (last (va_path v))) e\<rparr>"
  shows "vwrite64 s pe e = Some s'" and "paging_inv s'"
    and "tbl (ram s') (butlast (va_path v)) (cr3 s') = Some T"
    and "rd64 (ram s') (entry_at T (last (va_path v))) = e"
    and "length q = 4 \<Longrightarrow> idx_ok q \<Longrightarrow> leaf (ram s') (cr3 s) q =
      (if q = va_path v then if e AND 1 = 0 then None else Some e else leaf (ram s) (cr3 s) q)"
    and "length q \<le> 3 \<Longrightarrow> idx_ok q \<Longrightarrow> tbl (ram s') q (cr3 s) = tbl (ram s) q (cr3 s)"
    and "touches_only (branch (ram s) (cr3 s) (hd (va_path v))) (ram s) (ram s')"
    and "j < 512 \<Longrightarrow> rd64 (ram s') (entry_at (cr3 s) j) = rd64 (ram s) (entry_at (cr3 s) j)"
proof -
  obtain p i where path: "va_path v = p @ [i]" and p: "length p = 3" "idx_ok p" "i < 512"
    by (rule leaf_path [of "va_path v"]) simp_all
  have T': "tbl (ram s) p (cr3 s) = Some T" using T by (simp add: path)
  have p3: "length p \<le> 3" using p(1) by simp
  have Tt: "page_aligned T" "T < total_mem s" using paging_inv_table [OF inv T' p3 p(2)] by simp_all
  have safe: "\<forall>x. page_aligned x \<and> x < total_mem s \<and> va_path (x + VIRTUAL_MEMORY_BARRIER) = p @ [i] \<longrightarrow>
      e AND 1 \<noteq> 0 \<and> e AND PTE_ADDR = x"
    using user_not_direct [OF v paging_invD(3) [OF inv]] by (auto simp: path)
  note w = write_leaf [OF inv T' p safe]
  show "vwrite64 s pe e = Some s'" "paging_inv s'" using w(1,2) by (simp_all add: pe_def s'_def path)
  show "tbl (ram s') (butlast (va_path v)) (cr3 s') = Some T"
    using w(4) [OF p3 p(2)] T' by (simp add: s'_def path)
  show "rd64 (ram s') (entry_at T (last (va_path v))) = e"
    by (simp add: s'_def path rd64_wr64_same)
  show "length q = 4 \<Longrightarrow> idx_ok q \<Longrightarrow> leaf (ram s') (cr3 s) q =
      (if q = va_path v then if e AND 1 = 0 then None else Some e else leaf (ram s) (cr3 s) q)"
    using leaf_write [OF inv T' p] by (simp add: s'_def path)
  show "length q \<le> 3 \<Longrightarrow> idx_ok q \<Longrightarrow> tbl (ram s') q (cr3 s) = tbl (ram s) q (cr3 s)"
    using w(4) by (simp add: s'_def path)
  have "p \<noteq> []" using p(1) by auto
  then have "T \<noteq> cr3 s" by (rule not_root(1) [OF inv T' _ p3 p(2)])
  then show "j < 512 \<Longrightarrow> rd64 (ram s') (entry_at (cr3 s) j) = rd64 (ram s) (entry_at (cr3 s) j)"
    using p(3) Tt(1) paging_invD(6) [OF inv] by (simp add: s'_def path rd64_wr64_entry)
  have "T \<in> branch (ram s) (cr3 s) (hd (va_path v))"
    using p by (intro branchI [OF T']) (cases p, auto simp: path)
  then show "touches_only (branch (ram s) (cr3 s) (hd (va_path v))) (ram s) (ram s')"
    using touches_mono [OF touches_wr64 [OF Tt(1) p(3)]] by (simp add: s'_def path)
qed

lemma present_leaf_pointer:
  assumes inv: "paging_inv s" and l: "leaf (ram s) (cr3 s) (va_path v) = Some e"
  obtains T where "tbl (ram s) (butlast (va_path v)) (cr3 s) = Some T"
    "rd64 (ram s) (entry_at T (last (va_path v))) = e" "e AND 1 \<noteq> 0"
    "CalculatePagePhysicalEntryAddress s (ExtractPageEntries v) =
       Some (dmap (entry_at T (last (va_path v))), s)"
proof -
  let ?E = "ExtractPageEntries v"
  let ?p = "[ucast (PML4_Entry ?E), ucast (PDPT_Entry ?E), ucast (PD_Entry ?E)] :: u64 list"
  have sp: "va_path v = ?p @ [ucast (PT_Entry ?E)]" by (simp add: va_path_ExtractPageEntries)
  have ok: "idx_ok (entry_path ?E)" using idx_ok_va_path [of v] by (simp add: sp)
  obtain T where T: "tbl (ram s) (butlast (va_path v)) (cr3 s) = Some T"
    "rd64 (ram s) (entry_at T (last (va_path v))) = e" "e AND 1 \<noteq> 0"
    using leaf_table [OF l] by blast
  have "tbl (ram s) ?p (cr3 s) = Some T" using T(1) by (simp add: sp)
  from CalculatePagePhysicalEntryAddress_present [OF inv ok this]
  show thesis by (intro that [OF T]) (simp add: sp)
qed

section \<open>Two address spaces\<close>

definition space :: "kst \<Rightarrow> u64 \<Rightarrow> kst" where
  "space s r = s\<lparr>cr3 := r, PML4_Physical := r\<rparr>"

lemma space_fields [simp]:
  "ram (space s r) = ram s" "cr3 (space s r) = r" "TaskManager (space s r) = TaskManager s" "cur_pid (space s r) = cur_pid s" "PML4_Physical (space s r) = r"
  "total_mem (space s r) = total_mem s" "phys_frames (space s r) = phys_frames s"
  "frame_of (space s r) = frame_of s" "free_frames (space s r) = free_frames s"
  "frame_kernel (space s r) t = frame_kernel s t" "user_frame (space s r) t = user_frame s t"
  by (simp_all add: space_def frame_of_def fun_eq_iff free_frames_def free_frame_def frame_kernel_def
      user_frame_def frame_dirty_def)

lemma paging_inv_cong:
  assumes "ram s' = ram s" "cr3 s' = cr3 s" "PML4_Physical s' = PML4_Physical s"
    "total_mem s' = total_mem s" "phys_frames s' = phys_frames s"
  shows "paging_inv s' \<longleftrightarrow> paging_inv s"
  using assms by (simp add: paging_inv_def direct_map_def walk_def frame_kernel_def frame_of_def)

definition separate :: "ram \<Rightarrow> u64 \<Rightarrow> u64 \<Rightarrow> bool" where
  "separate m A B \<longleftrightarrow> (\<forall>i < 256. \<forall>t. (t \<in> branch m A i \<longrightarrow> \<not> is_table m B t) \<and>
     (t \<in> branch m B i \<longrightarrow> \<not> is_table m A t))"

definition two_spaces :: "kst \<Rightarrow> u64 \<Rightarrow> u64 \<Rightarrow> bool" where
  "two_spaces s A B \<longleftrightarrow> paging_inv (space s A) \<and> paging_inv (space s B) \<and> separate (ram s) A B"

text \<open>The entries of the kernel half are the same in both roots.\<close>

definition shared_kernel :: "ram \<Rightarrow> u64 \<Rightarrow> u64 \<Rightarrow> bool" where
  "shared_kernel m A B \<longleftrightarrow> (\<forall>j < 512. 256 \<le> j \<longrightarrow> rd64 m (entry_at B j) = rd64 m (entry_at A j))"

lemma shared_kernel_step:
  "shared_kernel m A B \<Longrightarrow> (\<And>j. 256 \<le> j \<Longrightarrow> j < 512 \<Longrightarrow> rd64 m' (entry_at A j) = rd64 m (entry_at A j)) \<Longrightarrow>
    (\<And>j. 256 \<le> j \<Longrightarrow> j < 512 \<Longrightarrow> rd64 m' (entry_at B j) = rd64 m (entry_at B j)) \<Longrightarrow> shared_kernel m' A B"
  by (simp add: shared_kernel_def)

lemma shared_kernel_commute: "shared_kernel m A B \<longleftrightarrow> shared_kernel m B A"
  by (auto simp: shared_kernel_def)

lemma two_spaces_commute: "two_spaces s A B \<Longrightarrow> two_spaces s B A"
  by (auto simp: two_spaces_def separate_def)

text \<open>An operation on the user half of the first address space, seen from the second. It may also
  write to frames that are no tables of the second.\<close>

lemma other_space_untouched:
  assumes two: "two_spaces s A B" and i: "i < 256" and G: "\<forall>t \<in> G. \<not> is_table (ram s) B t"
  shows "\<forall>t \<in> branch (ram s) A i \<union> free_frames s \<union> G. \<not> is_table (ram s) B t"
proof -
  have "t \<notin> free_frames s" if "is_table (ram s) B t" for t
    using that two kernel_not_free by (auto simp: two_spaces_def paging_inv_def)
  moreover have "separate (ram s) A B" using two by (simp add: two_spaces_def)
  ultimately show ?thesis using i G by (auto simp: separate_def)
qed

text \<open>The root of the one is not touched by operations on the other.\<close>

lemma other_root:
  assumes two: "two_spaces s A B" and i: "i < 256"
    and touch: "touches_only (branch (ram s) A i \<union> free_frames s) (ram s) m" and j: "j < 512"
  shows "rd64 m (entry_at B j) = rd64 (ram s) (entry_at B j)"
proof (rule touches_rd64 [OF touch _ _ j])
  show "page_aligned B" using two paging_invD(6) [of "space s B"] by (simp add: two_spaces_def)
  have "is_table (ram s) B B" unfolding is_table_def by (intro exI [of _ "[]"]) simp
  then show "B \<notin> branch (ram s) A i \<union> free_frames s"
    using other_space_untouched [OF two i, of "{}"] by blast
qed

lemma other_space_walks:
  assumes two: "two_spaces s A B" and i: "i < 256"
    and touch: "touches_only (branch (ram s) A i \<union> free_frames s \<union> G) (ram s) m"
    and G: "\<forall>t \<in> G. \<not> is_table (ram s) B t"
  shows "same_walks (ram s) m B"
proof -
  have "page_aligned B" using two paging_invD(6) [of "space s B"] by (simp add: two_spaces_def)
  from touches_same_walks [OF touch this other_space_untouched [OF two i G]] show ?thesis .
qed

lemma other_space_frames:
  assumes two: "two_spaces s A B" and inv: "paging_inv (space s' A)" and i: "i < 256"
    and touch: "touches_only (branch (ram s) A i \<union> free_frames s \<union> G) (ram s) (ram s')"
    and G: "\<forall>t \<in> G. \<not> is_table (ram s) B t"
    and old: "\<forall>q t. length q \<le> 3 \<and> idx_ok q \<and> tbl (ram s') q A = Some t \<longrightarrow>
       tbl (ram s) q A = Some t \<or> t \<in> free_frames s"
    and eq: "total_mem s' = total_mem s"
    and K: "\<forall>t. page_aligned t \<and> t < total_mem s \<and> frame_kernel s t \<longrightarrow> frame_kernel s' t"
  shows "two_spaces s' A B"
    and "length q = 4 \<Longrightarrow> idx_ok q \<Longrightarrow> leaf (ram s') B q = leaf (ram s) B q"
proof -
  have invB: "paging_inv (space s B)" and sep: "separate (ram s) A B" using two by (simp_all add: two_spaces_def)
  have root: "page_aligned B" using paging_invD(6) [OF invB] by simp
  have tabB: "page_aligned t \<and> t < total_mem s \<and> frame_kernel s t" if "is_table (ram s) B t" for t
    using that invB is_table_aligned [OF that root] by (auto simp: paging_inv_def)
  have nfree: "t \<notin> free_frames s" if "is_table (ram s) B t" for t
    using tabB [OF that] kernel_not_free by blast
  note out = other_space_untouched [OF two i G]
  note same = other_space_walks [OF two i touch G]
  show "length q = 4 \<Longrightarrow> idx_ok q \<Longrightarrow> leaf (ram s') B q = leaf (ram s) B q"
    by (rule touches_leaf [OF touch root out])
  have "paging_inv (space s' B)"
    by (rule paging_inv_same_walks [OF invB]) (use same eq K tabB in simp_all)
  moreover have "separate (ram s') A B"
    unfolding separate_def
  proof (intro allI impI conjI)
    fix j t assume j: "j < (256 :: u64)"
    assume "t \<in> branch (ram s') A j"
    then have "t \<in> branch (ram s) A j \<or> t \<in> free_frames s"
      using old by (auto simp: branch_def)
    then show "\<not> is_table (ram s') B t"
      using sep j nfree by (auto simp: separate_def same_walks_is_table [OF same])
  next
    fix j t assume j: "j < (256 :: u64)"
    assume "t \<in> branch (ram s') B j"
    then have t: "t \<in> branch (ram s) B j"
      using same_walksD [OF same] by (auto simp: branch_def)
    then have "\<not> is_table (ram s) A t" using sep j by (auto simp: separate_def)
    moreover have "t \<notin> free_frames s" using nfree branch_table [OF t] by simp
    ultimately show "\<not> is_table (ram s') A t" using old by (auto simp: is_table_def)
  qed
  ultimately show "two_spaces s' A B" using inv by (simp add: two_spaces_def)
qed

lemmas other_space = other_space_frames [where G = "{}", simplified]


section \<open>Copying between mapped pages\<close>

text \<open>
  \<open>memcpy\<close> between two mapped ranges of \<open>n\<close> bytes at the physical addresses \<open>D\<close> and \<open>S\<close>, when
  no byte of the destination is in a table or in the source.
\<close>

definition not_in_table :: "kst \<Rightarrow> u64 \<Rightarrow> bool" where
  "not_in_table s x \<longleftrightarrow> (\<exists>g. page_aligned g \<and> \<not> is_table (ram s) (cr3 s) g \<and> in_page g x)"

lemma byte_write_walk:
  fixes b :: u8
  assumes inv: "paging_inv s" and x: "not_in_table s x"
  defines "s' \<equiv> s\<lparr>ram := (ram s)(x := b)\<rparr>"
  shows "paging_inv s'" "walk s' a = walk s a" "not_in_table s' y = not_in_table s y"
proof -
  obtain g where g: "page_aligned g" "\<not> is_table (ram s) (cr3 s) g" "in_page g x"
    using x by (auto simp: not_in_table_def)
  have out: "((ram s)(x := b)) z = ram s z" if "\<not> in_page g z" for z using that g(3) by auto
  note p = paging_inv_page_bytes [where m = "(ram s)(x := b)", OF inv g(1,2) out]
  show "paging_inv s'" using p(1) by (simp add: s'_def)
  show "walk s' a = walk s a"
    by (rule same_walks_walk) (use p(2) paging_invD(7) [OF inv] in \<open>simp_all add: s'_def\<close>)
  show "not_in_table s' y = not_in_table s y"
    by (simp add: not_in_table_def s'_def same_walks_is_table [OF p(2)])
qed

lemma memcpy_loop_mapped:
  assumes "paging_inv s"
    and "\<forall>i < n. walk s (dst + of_nat i) = Some (D i) \<and> not_in_table s (D i)"
    and "\<forall>i < n. walk s (src + of_nat i) = Some (S i)"
    and "inj_on D {..<n}" "D ` {..<n} \<inter> S ` {..<n} = {}"
  shows "\<exists>m. memcpy_loop n s dst src = Some (s\<lparr>ram := m\<rparr>) \<and> paging_inv (s\<lparr>ram := m\<rparr>) \<and>
    (\<forall>i < n. m (D i) = ram s (S i)) \<and> (\<forall>x. x \<notin> D ` {..<n} \<longrightarrow> m x = ram s x)"
  using assms
proof (induction n arbitrary: s dst src D S)
  case 0
  then show ?case by (intro exI [of _ "ram s"]) simp
next
  case (Suc n)
  let ?s = "s\<lparr>ram := (ram s)(D 0 := ram s (S 0))\<rparr>"
  have w0: "walk s dst = Some (D 0)" "walk s src = Some (S 0)" "not_in_table s (D 0)"
    using Suc.prems(2) [THEN spec, of 0] Suc.prems(3) [THEN spec, of 0] by simp_all
  note b = byte_write_walk [OF Suc.prems(1) w0(3), of "ram s (S 0)"]
  have lt: "{..<Suc n} = insert 0 (Suc ` {..<n})" by (rule lessThan_Suc_eq_insert_0)
  have inj: "inj_on (\<lambda>i. D (Suc i)) {..<n}" "D 0 \<notin> (\<lambda>i. D (Suc i)) ` {..<n}"
    using Suc.prems(4) by (auto simp: inj_on_def)
  have dis: "(\<lambda>i. D (Suc i)) ` {..<n} \<inter> (\<lambda>i. S (Suc i)) ` {..<n} = {}" "D 0 \<notin> (\<lambda>i. S (Suc i)) ` {..<n}"
    "S 0 \<notin> (\<lambda>i. D (Suc i)) ` {..<n}"
    using Suc.prems(5) unfolding lt by (simp_all add: image_image)
  have sh: "walk ?s (dst + 1 + of_nat i) = Some (D (Suc i)) \<and> not_in_table ?s (D (Suc i))"
    "walk ?s (src + 1 + of_nat i) = Some (S (Suc i))" if "i < n" for i
    using Suc.prems(2,3) that b(2,3) by (auto simp: add.assoc dest!: spec [of _ "Suc i"])
  obtain m where m: "memcpy_loop n ?s (dst + 1) (src + 1) = Some (?s\<lparr>ram := m\<rparr>)" "paging_inv (?s\<lparr>ram := m\<rparr>)"
    "\<forall>i < n. m (D (Suc i)) = ram ?s (S (Suc i))" "\<forall>x. x \<notin> (\<lambda>i. D (Suc i)) ` {..<n} \<longrightarrow> m x = ram ?s x"
    using Suc.IH [OF b(1), of "dst + 1" "\<lambda>i. D (Suc i)" "src + 1" "\<lambda>i. S (Suc i)"] sh inj(1) dis(1) by auto
  have "memcpy_loop (Suc n) s dst src = Some (s\<lparr>ram := m\<rparr>)"
    using m(1) w0 by (simp add: vread8_def vwrite8_def)
  moreover have "m (D i) = ram s (S i)" if "i < Suc n" for i
  proof (cases i)
    case 0
    then show ?thesis using m(4) inj(2) by simp
  next
    case (Suc j)
    moreover have "S (Suc j) \<in> (\<lambda>i. S (Suc i)) ` {..<n}" using Suc that by simp
    then have "S (Suc j) \<noteq> D 0" using dis(2) by metis
    ultimately show ?thesis using m(3) that by simp
  qed
  moreover have "m x = ram s x" if "x \<notin> D ` {..<Suc n}" for x
    using that m(4) by (auto simp: lt image_image)
  ultimately show ?case using m(2) by (intro exI [of _ m]) simp
qed

text \<open>The bytes of a page, and of a page that is mapped.\<close>

lemma offset_lt_nat: "i < 4096 \<Longrightarrow> (of_nat i :: u64) < 0x1000"
  by (simp add: word_less_nat_alt unat_of_nat)

lemma in_page_offset: "i < 4096 \<Longrightarrow> in_page f (f + of_nat i)"
  by (simp add: in_page_def offset_lt_nat)

lemma page_offset_inj: "inj_on (\<lambda>i. f + of_nat i :: u64) {..<4096}"
  by (rule inj_onI) (use of_nat_offset_iff [of _ "f + of_nat _" f] in \<open>auto simp: word_unat_eq_iff unat_of_nat\<close>)

lemma leaf_walk_offset:
  assumes "paging_inv s" "page_aligned a" "leaf (ram s) (cr3 s) (va_path a) = Some e" "i < 4096"
  shows "walk s (a + of_nat i) = Some ((e AND PTE_ADDR) + of_nat i)"
proof -
  note k = offset_lt_nat [OF assms(4)]
  note o = page_offset_split [OF assms(2) k]
  have "walk s (a + of_nat i) = Some ((e AND PTE_ADDR) OR of_nat i)"
    unfolding walk_leaf [OF paging_invD(7) [OF assms(1)]] using assms(3) by (simp add: o)
  then show ?thesis
    using page_plus_or [OF frame_addr_aligned [OF frame_addr_PTE] k, of e] by simp
qed

end
