(* ===== verification/Clone.thy ===== *)
theory Clone
  imports Spaces
begin

text \<open>
  A new address space. Its root holds the upper half of the entries of another root and nothing
  below, so that it shares the tables of the kernel and maps no user page.
\<close>

definition clone_root :: "ram \<Rightarrow> u64 \<Rightarrow> u64 \<Rightarrow> bool" where
  "clone_root m A B \<longleftrightarrow> (\<forall>i < 512. rd64 m (entry_at B i) = (if i < 256 then 0 else rd64 m (entry_at A i)))"

lemma clone_tbl:
  assumes "clone_root m A B" "idx_ok (i # p)"
  shows "tbl m (i # p) B = (if i < 256 then None else tbl m (i # p) A)"
proof -
  have "tbl_step m i B = (if i < 256 then None else tbl_step m i A)"
    using assms by (simp add: clone_root_def tbl_step_def)
  then show ?thesis by (simp add: tbl_step_def Let_def split: if_splits)
qed

lemma clone_table:
  assumes "clone_root m A B" "is_table m B t"
  shows "t = B \<or> is_table m A t"
proof -
  obtain q where q: "length q \<le> 3" "idx_ok q" "tbl m q B = Some t" using assms(2) by (auto simp: is_table_def)
  show ?thesis
  proof (cases q)
    case (Cons i p)
    then have "tbl m q A = Some t" using clone_tbl [OF assms(1), of i p] q by (simp split: if_splits del: tbl.simps)
    then show ?thesis using is_tableI q(1,2) by blast
  qed (use q(3) in simp)
qed

lemma hd_direct_path:
  assumes "total_mem s \<le> 0x800000000000" "x < total_mem s"
  shows "256 \<le> hd (va_path (x + VIRTUAL_MEMORY_BARRIER))"
proof (rule ccontr)
  let ?i = "hd (va_path (x + VIRTUAL_MEMORY_BARRIER))"
  assume "\<not> 256 \<le> ?i"
  then have "unat ?i < 2 ^ 8" by (simp add: word_le_nat_alt)
  with direct_address_bit [OF assms] small_word_bit [of ?i 8 8] show False by simp
qed

lemma clone_leaf:
  assumes "clone_root m A B" "length q = 4" "idx_ok q"
  shows "leaf m B q = (if hd q < 256 then None else leaf m A q)"
proof -
  obtain p j where p: "q = p @ [j]" "length p = 3" "idx_ok p" using leaf_path [OF assms(2,3)] .
  then obtain i p' where "p = i # p'" by (cases p) simp_all
  then show ?thesis using clone_tbl [OF assms(1), of i p'] p by (simp add: leaf_def)
qed

section \<open>Two roots with the same kernel half\<close>

lemma shared_tbl:
  assumes "shared_kernel m A B" "idx_ok (i # p)" "256 \<le> i"
  shows "tbl m (i # p) B = tbl m (i # p) A"
proof -
  have "tbl m (i # p) r = Option.bind (tbl_step m i r) (tbl m p)" for r
    by (simp add: tbl_step_def Let_def)
  moreover have "tbl_step m i B = tbl_step m i A" using assms by (simp add: shared_kernel_def tbl_step_def)
  ultimately show ?thesis by (simp only:)
qed

lemma shared_leaf:
  assumes "shared_kernel m A B" "length q = 4" "idx_ok q" "256 \<le> hd q"
  shows "leaf m B q = leaf m A q"
proof -
  obtain p j where p: "q = p @ [j]" "length p = 3" "idx_ok p" using leaf_path [OF assms(2,3)] .
  then obtain i p' where "p = i # p'" by (cases p) simp_all
  then show ?thesis using shared_tbl [OF assms(1), of i p'] p assms(4) by (simp add: leaf_def)
qed

definition user_path :: "u64 list \<Rightarrow> bool" where
  "user_path p \<longleftrightarrow> p = [] \<or> hd p < 256"

lemma user_path_branch:
  assumes "user_path p" "length p \<le> 3" "idx_ok p" "tbl m p B = Some t"
  obtains i where "i < 256" "t \<in> branch m B i"
proof (cases "p = []")
  case True
  then show thesis using that [of 0] branchI [OF assms(4), of 0] by simp
next
  case False
  then show thesis using that [of "hd p"] branchI [OF assms(4), of "hd p"] assms by (simp add: user_path_def)
qed

text \<open>A root that shares the kernel half of an address space is one of an address space separate from
  it, when the tables of its own user half form a tree of kernel frames the other does not use.\<close>

lemma shared_space:
  assumes inv: "paging_inv (space s A)" and sh: "shared_kernel (ram s) A B" and B: "frame_addr B"
    and user: "\<And>i t. i < 256 \<Longrightarrow> t \<in> branch (ram s) B i \<Longrightarrow>
      t < total_mem s \<and> frame_kernel s t \<and> \<not> is_table (ram s) A t"
    and uniq: "\<And>p q t. user_path p \<Longrightarrow> user_path q \<Longrightarrow> length p \<le> 3 \<Longrightarrow> length q \<le> 3 \<Longrightarrow> idx_ok p \<Longrightarrow> idx_ok q \<Longrightarrow>
      tbl (ram s) p B = Some t \<Longrightarrow> tbl (ram s) q B = Some t \<Longrightarrow> p = q"
  shows "two_spaces s A B"
proof -
  let ?m = "ram s"
  have BA: "page_aligned B" using B by (rule frame_addr_aligned)
  have tree: "pt_tree ?m A" using paging_invD(4) [OF inv] by simp
  have K: "tbl ?m p A = Some t" if "\<not> user_path p" "idx_ok p" "tbl ?m p B = Some t" for p t
    using that shared_tbl [OF sh, of "hd p" "tl p"] by (cases p) (auto simp: user_path_def linorder_not_less)
  have U: "\<not> is_table ?m A t" if "user_path p" "length p \<le> 3" "idx_ok p" "tbl ?m p B = Some t" for p t
    using user_path_branch [OF that] user by metis
  have "pt_tree ?m B"
    unfolding pt_tree_def
  proof (intro conjI allI impI, rule BA, elim conjE)
    fix p q t
    assume a: "length p \<le> 3" "length q \<le> 3" "idx_ok p" "idx_ok q" "tbl ?m p B = Some t" "tbl ?m q B = Some t"
    consider "user_path p" "user_path q" | "user_path p" "\<not> user_path q" | "\<not> user_path p" "user_path q"
      | "\<not> user_path p" "\<not> user_path q" by blast
    then show "p = q"
    proof cases
      case 1
      then show ?thesis using uniq a by blast
    next
      case 2
      then show ?thesis using U [OF _ a(1,3,5)] is_tableI [OF K [OF _ a(4,6)] a(2,4)] by blast
    next
      case 3
      then show ?thesis using U [OF _ a(2,4,6)] is_tableI [OF K [OF _ a(3,5)] a(1,3)] by blast
    next
      case 4
      then show ?thesis using pt_treeD [OF tree K [OF _ a(3,5)], of q] K [OF _ a(4,6)] a(1-4) by blast
    qed
  qed
  moreover have "direct_map (space s B)"
    unfolding direct_map_def
  proof (intro allI impI)
    fix x assume x: "page_aligned x \<and> x < total_mem (space s B)"
    let ?q = "va_path (x + VIRTUAL_MEMORY_BARRIER)"
    have "256 \<le> hd ?q" using hd_direct_path [of s x] x paging_invD(3) [OF inv] by simp
    then have same: "leaf ?m B ?q = leaf ?m A ?q" using shared_leaf [OF sh, of ?q] by simp
    have "walk (space s A) (x + VIRTUAL_MEMORY_BARRIER) = Some x"
      using paging_invD(5) [OF inv] x by (simp add: direct_map_def)
    moreover have "walk (space s B) (x + VIRTUAL_MEMORY_BARRIER) = walk (space s A) (x + VIRTUAL_MEMORY_BARRIER)"
      using same walk_leaf [of "space s A"] walk_leaf [of "space s B"] B paging_invD(7) [OF inv]
      by (simp add: frame_addr_def)
    ultimately show "walk (space s B) (x + VIRTUAL_MEMORY_BARRIER) = Some x" by simp
  qed
  moreover have "t < total_mem s \<and> frame_kernel s t" if t: "is_table ?m B t" for t
  proof -
    obtain p where p: "length p \<le> 3" "idx_ok p" "tbl ?m p B = Some t" using t by (auto simp: is_table_def)
    show ?thesis
    proof (cases "user_path p")
      case True
      then show ?thesis using user_path_branch [OF True p] user by blast
    next
      case False
      then have "is_table ?m A t" using K p is_tableI by blast
      then show ?thesis using inv by (auto simp: paging_inv_def)
    qed
  qed
  ultimately have invB: "paging_inv (space s B)" using inv B by (simp add: paging_inv_def)
  have "separate ?m A B"
    unfolding separate_def
  proof (intro allI impI conjI notI)
    fix i t assume i: "i < (256 :: u64)"
    { assume t: "t \<in> branch ?m A i" and "is_table ?m B t"
      then obtain p q where p: "p = [] \<or> hd p = i" "length p \<le> 3" "idx_ok p" "tbl ?m p A = Some t"
        and q: "length q \<le> 3" "idx_ok q" "tbl ?m q B = Some t"
        by (auto simp: branch_def is_table_def)
      have nq: "\<not> user_path q" using U q branch_table [OF t] by blast
      then have "p = q" using pt_treeD [OF tree p(4) K [OF nq q(2,3)]] p q by blast
      then show False using p(1) i nq by (auto simp: user_path_def) }
    assume "t \<in> branch ?m B i" and "is_table ?m A t"
    then show False using user i by blast
  qed
  then show ?thesis using inv invB by (simp add: two_spaces_def)
qed

section \<open>A new root\<close>

lemma clone_shared: "clone_root m A B \<Longrightarrow> shared_kernel m A B"
  by (simp add: clone_root_def shared_kernel_def linorder_not_le [symmetric] split: if_splits)

lemma clone_space:
  assumes inv: "paging_inv (space s A)" and c: "clone_root (ram s) A B"
    and B: "frame_addr B" "B < total_mem s" "frame_kernel s B" "\<not> is_table (ram s) A B"
  shows "two_spaces s A B"
proof -
  have e: "p = []" if "user_path p" "idx_ok p" "tbl (ram s) p B = Some t" for p t
    using that clone_tbl [OF c, of "hd p" "tl p"] by (cases p) (simp_all add: user_path_def)
  show ?thesis
  proof (rule shared_space [OF inv clone_shared [OF c] B(1)])
    fix i t assume "i < (256 :: u64)" "t \<in> branch (ram s) B i"
    then have "t = B" using e by (fastforce simp: branch_def user_path_def)
    then show "t < total_mem s \<and> frame_kernel s t \<and> \<not> is_table (ram s) A t" using B by simp
  next
    fix p q t assume "user_path p" "user_path q" "idx_ok p" "idx_ok q"
      "tbl (ram s) p B = Some t" "tbl (ram s) q B = Some t"
    then show "p = q" using e by blast
  qed
qed

end
