(* ===== verification/Fork_Correct.thy ===== *)
theory Fork_Correct
  imports Spaces Syscalls
begin

text \<open>
  FORK shares the pages of the parent: after the loops of the call both address spaces map each
  page to the same frame, copy-on-write and without the right to write, and nothing else has
  changed in either of them.
\<close>

section \<open>The entries\<close>

definition shared_entry :: "u64 \<Rightarrow> u64" where
  "shared_entry e = (e OR push_bit 9 1) AND NOT 2"

definition child_entry :: "u64 \<Rightarrow> u64" where
  "child_entry e = shared_entry e AND 0x000FFFFFFFFFFFFF"

lemma bit_two: "bit (2 :: u64) n \<longleftrightarrow> n = 1"
  using bit_exp_iff [of 1 n, where 'a = u64] by auto

lemma bit_512: "bit (512 :: u64) n \<longleftrightarrow> n = 9"
  using bit_exp_iff [of 9 n, where 'a = u64] by auto

lemma shared_entry_bit: "bit (shared_entry e) n \<longleftrightarrow> n < 64 \<and> (n = 9 \<or> bit e n) \<and> n \<noteq> 1"
  by (auto simp: shared_entry_def bit_simps bit_two bit_512 dest: bit_imp_le_length)

lemma mask52_bit: "bit (0x000FFFFFFFFFFFFF :: u64) n \<longleftrightarrow> n < 52"
proof -
  have "(0x000FFFFFFFFFFFFF :: u64) = mask 52" by (simp add: mask_eq_exp_minus_1)
  then have "bit (0x000FFFFFFFFFFFFF :: u64) n = bit (mask 52 :: u64) n" by (simp only:)
  then show ?thesis by (auto simp: bit_simps)
qed

lemma child_entry_bit: "bit (child_entry e) n \<longleftrightarrow> n < 52 \<and> (n = 9 \<or> bit e n) \<and> n \<noteq> 1"
  by (auto simp: child_entry_def shared_entry_bit bit_and_iff mask52_bit)

lemma and_one_bit: "e AND 1 \<noteq> 0 \<longleftrightarrow> bit (e :: 'a::len word) 0"
  by (simp add: and_one_eq odd_iff_mod_2_eq_one bit_0)

lemma shared_entry_frame: "shared_entry e AND PTE_ADDR = e AND PTE_ADDR" "child_entry e AND PTE_ADDR = e AND PTE_ADDR"
  by (rule bit_eqI; auto simp: bit_and_iff shared_entry_bit child_entry_bit PTE_ADDR_bit)+

lemma shared_entry_present: "e AND 1 \<noteq> 0 \<Longrightarrow> shared_entry e AND 1 \<noteq> 0" "e AND 1 \<noteq> 0 \<Longrightarrow> child_entry e AND 1 \<noteq> 0"
  by (simp_all add: and_one_bit shared_entry_bit child_entry_bit)

lemma shared_entry_idem: "shared_entry (shared_entry e) = shared_entry e" "child_entry (shared_entry e) = child_entry e"
  by (rule bit_eqI; auto simp: shared_entry_bit child_entry_bit)+

lemma new_entry_child:
  "new_entry \<lparr>pg_flags = ucast (shared_entry e AND 0xFFF), pg_Execute_Disable = False,
     virtual_address = v, physical_address = shared_entry e AND PTE_ADDR\<rparr> = child_entry e"
  by (rule bit_eqI)
    (auto simp: new_entry_def child_entry_bit shared_entry_bit page_bits dest: bit_imp_le_length)

lemma user_index: "v < 0x800000000000 \<Longrightarrow> hd (va_path v) < 256"
proof -
  assume "v < 0x800000000000"
  then have "unat v < 2 ^ 47" by (simp add: word_less_nat_alt)
  moreover have "unat (drop_bit 39 v) = unat v div 2 ^ 39"
    using unat_drop_bit_eq [of 39 v] by (simp only: drop_bit_eq_div [where 'a = nat])
  ultimately have "unat (drop_bit 39 v) < 256" by (simp add: less_mult_imp_div_less)
  moreover have "drop_bit 39 v AND 0x1FF \<le> drop_bit 39 v" by (rule word_and_le2)
  ultimately show ?thesis by (simp add: va_path_def word_less_nat_alt word_le_nat_alt)
qed

section \<open>One page\<close>

lemma fork_page_shares:
  assumes two: "two_spaces s A B"
    and base: "Base_PML4 (TaskManager s cur) = A" "Base_PML4 (TaskManager s child) = B"
    and v: "v < 0x800000000000" and l: "leaf (ram s) A (va_path v) = Some e"
    and f: "user_frame s (e AND PTE_ADDR)" and free: "3 \<le> card (free_frames s)"
  obtains s' where "fork_page cur child v s = Some s'" "two_spaces s' A B"
    "\<forall>q. length q = 4 \<and> idx_ok q \<longrightarrow>
       leaf (ram s') A q = (if q = va_path v then Some (shared_entry e) else leaf (ram s) A q)"
    "\<forall>q. length q = 4 \<and> idx_ok q \<longrightarrow>
       leaf (ram s') B q = (if q = va_path v then Some (child_entry e) else leaf (ram s) B q)"
    "TaskManager s' = TaskManager s" "total_mem s' = total_mem s" "\<forall>g. user_frame s g \<longrightarrow> user_frame s' g"
    "\<forall>g x. user_frame s g \<and> in_page g x \<longrightarrow> ram s' x = ram s x"
    "\<forall>g. page_aligned g \<longrightarrow> refcount (frame_of s' g) =
       (if g = e AND PTE_ADDR then refcount (frame_of s g) + 1 else refcount (frame_of s g))"
    "card (free_frames s) \<le> card (free_frames s') + 3" "shared_kernel (ram s) A B \<longrightarrow> shared_kernel (ram s') A B"
proof -
  let ?q = "va_path v" and ?f = "e AND PTE_ADDR"
  let ?e = "shared_entry e"
  define s0 where "s0 = TASKMGR_set_current (mem_set_cr3 s A False) cur"
  have s0: "s0 = s\<lparr>interrupts := False, cr3 := A, PML4_Physical := A, cur_pid := cur\<rparr>"
    by (simp add: s0_def TASKMGR_set_current_def mem_set_cr3_def mem_sync_cr3_def)
  have inv0: "paging_inv s0"
    using two paging_inv_cong [of s0 "space s A"] by (simp add: two_spaces_def s0)
  obtain T where T: "tbl (ram s0) (butlast ?q) (cr3 s0) = Some T" "rd64 (ram s0) (entry_at T (last ?q)) = e"
    "e AND 1 \<noteq> 0"
    and c: "CalculatePagePhysicalEntryAddress s0 (ExtractPageEntries v) = Some (dmap (entry_at T (last ?q)), s0)"
    by (rule present_leaf_pointer [OF inv0, of v e]) (use l in \<open>simp add: s0\<close>)
  let ?pe = "dmap (entry_at T (last ?q))"
  note r1 = rewrite_leaf [OF inv0 v T(1), where e = "e OR push_bit 9 1"]
  define s1 where "s1 = s0\<lparr>ram := wr64 (ram s0) (entry_at T (last ?q)) (e OR push_bit 9 1)\<rparr>"
  note r1 = r1 [folded s1_def]
  note r2 = rewrite_leaf [OF r1(2) v r1(3), where e = ?e]
  define s2 where "s2 = s1\<lparr>ram := wr64 (ram s1) (entry_at T (last ?q)) ?e\<rparr>"
  note r2 = r2 [folded s2_def]
  have cr: "cr3 s0 = A" "cr3 s1 = A" "ram s0 = ram s" by (simp_all add: s0 s1_def)
  have read: "vread64 s0 ?pe = Some e" "vread64 s1 ?pe = Some (e OR push_bit 9 1)" "vread64 s2 ?pe = Some ?e"
    using leaf_pointer_read [OF inv0 T(1)] leaf_pointer_read [OF r1(2,3)] leaf_pointer_read [OF r2(2,3)] r1(4) r2(4) T(2)
    by simp_all
  have upper: "tbl (ram s2) q A = tbl (ram s) q A" if "length q \<le> 3" "idx_ok q" for q
    using r1(6) [OF that] r2(6) [OF that] by (simp add: cr)
  have br: "branch (ram s1) A (hd ?q) = branch (ram s) A (hd ?q)"
    using r1(6) by (auto simp: branch_def cr)
  have touch: "touches_only (branch (ram s) A (hd ?q) \<union> free_frames s) (ram s) (ram s2)"
    using touches_trans [OF r1(7) r2(7), of "branch (ram s) A (hd ?q) \<union> free_frames s"] br by (auto simp: cr)
  have s2: "s2 = s0\<lparr>ram := ram s2\<rparr>" by (simp add: s2_def s1_def)
  obtain m2 where m2: "s2 = s0\<lparr>ram := m2\<rparr>" using s2 ..
  have fr2: "frame_of s2 = frame_of s" "total_mem s2 = total_mem s" "free_frames s2 = free_frames s"
    "TaskManager s2 = TaskManager s" "frame_kernel s2 = frame_kernel s" "user_frame s2 = user_frame s"
    by (simp_all add: m2 s0 frame_of_def fun_eq_iff free_frames_def free_frame_def frame_kernel_def
        user_frame_def frame_dirty_def)
  have two2: "two_spaces s2 A B" and leafB2: "leaf (ram s2) B q = leaf (ram s) B q"
    if "length q = 4" "idx_ok q" for q
  proof -
    have inv2: "paging_inv (space s2 A)"
      using r2(2) paging_inv_cong [of "space s2 A" s2] by (simp add: m2 s0)
    have old: "\<forall>q t. length q \<le> 3 \<and> idx_ok q \<and> tbl (ram s2) q A = Some t \<longrightarrow>
        tbl (ram s) q A = Some t \<or> t \<in> free_frames s" using upper by auto
    note o = other_space [OF two inv2 user_index [OF v] touch old]
    show "two_spaces s2 A B" "leaf (ram s2) B q = leaf (ram s) B q"
      using o that by (simp_all add: fr2)
  qed
  have leafA2: "leaf (ram s2) A q = (if q = ?q then Some ?e else leaf (ram s) A q)"
    if "length q = 4" "idx_ok q" for q
    using r1(5) [OF that] r2(5) [OF that] shared_entry_present(1) [OF T(3)] by (simp add: cr)
  define s3 where "s3 = TASKMGR_set_current (mem_set_cr3 s2 B False) child"
  have s3: "s3 = s2\<lparr>interrupts := False, cr3 := B, PML4_Physical := B, cur_pid := child\<rparr>"
    by (simp add: s3_def TASKMGR_set_current_def mem_set_cr3_def mem_sync_cr3_def)
  have two3: "two_spaces s2 B A" by (rule two_spaces_commute) (rule two2 [of ?q], simp_all)
  have inv3: "paging_inv s3"
    using two3 paging_inv_cong [of s3 "space s2 B"] by (simp add: two_spaces_def s3)
  have fr3: "frame_of s3 = frame_of s" "total_mem s3 = total_mem s" "free_frames s3 = free_frames s"
    "frame_kernel s3 = frame_kernel s" "user_frame s3 = user_frame s" "ram s3 = ram s2" "cr3 s3 = B"
    using fr2 by (simp_all add: s3 frame_of_def fun_eq_iff free_frames_def free_frame_def frame_kernel_def
        user_frame_def frame_dirty_def)
  define pg where "pg = \<lparr>pg_flags = (ucast (?e AND 0xFFF) :: u16), pg_Execute_Disable = False,
    virtual_address = v, physical_address = ?e AND PTE_ADDR\<rparr>"
  have pf: "physical_address pg = ?f" "virtual_address pg = v" by (simp_all add: pg_def shared_entry_frame)
  have ne: "new_entry pg = child_entry e" unfolding pg_def by (rule new_entry_child)
  have good: "good_page s3 pg"
  proof -
    have "bit (pg_flags pg) n \<Longrightarrow> n < 12" for n by (auto simp: pg_def bit_ucast_iff bit_and_iff mask12_bit)
    then have "pg_flags pg AND mask 12 = pg_flags pg" by (intro bit_eqI) (auto simp: bit_and_iff bit_mask_iff)
    then have "pg_flags pg < 0x1000" using and_mask_less' [of 12 "pg_flags pg"] by simp
    moreover have "pg_flags pg AND 1 \<noteq> 0"
      unfolding and_one_bit using T(3) [unfolded and_one_bit]
      by (simp add: pg_def bit_ucast_iff bit_and_iff mask12_bit shared_entry_bit)
    ultimately show ?thesis using f by (simp add: good_page_def pf user_frame_def fr3)
  qed
  obtain s4 where a: "alloc_page s3 pg = Some (v, s4)" "paging_inv s4"
    "s4 = s3\<lparr>ram := ram s4, phys_frames := phys_frames s4\<rparr>"
    "\<forall>q. length q = 4 \<and> idx_ok q \<longrightarrow> leaf (ram s4) (cr3 s3) q =
       (if q = ?q then Some (new_entry pg) else leaf (ram s3) (cr3 s3) q)"
    "\<forall>q t. length q \<le> 3 \<and> idx_ok q \<and> tbl (ram s4) q (cr3 s3) = Some t \<longrightarrow>
       tbl (ram s3) q (cr3 s3) = Some t \<or> t \<in> free_frames s3"
    "touches_only (branch (ram s3) (cr3 s3) (hd ?q) \<union> free_frames s3) (ram s3) (ram s4)"
    "root_kept (ram s3) (ram s4) (cr3 s3) (hd ?q)"
    and fr4: "\<forall>g. page_aligned g \<longrightarrow> refcount (frame_of s4 g) =
       (if g = ?f then refcount (frame_of s3 g) + 1 else refcount (frame_of s3 g))"
    "\<forall>g. user_frame s3 g \<longrightarrow> user_frame s4 g"
    "\<forall>t. page_aligned t \<and> t < total_mem s3 \<and> frame_kernel s3 t \<longrightarrow> frame_kernel s4 t"
    "card (free_frames s3) \<le> card (free_frames s4) + 3"
    by (rule alloc_page_used [OF inv3 good]) (use v f free in \<open>simp_all add: pf fr3\<close>)
  obtain m4 f4 where s4: "s4 = s3\<lparr>ram := m4, phys_frames := f4\<rparr>" using a(3) by blast
  have inv4: "paging_inv (space s4 B)" using a(2) paging_inv_cong [of "space s4 B" s4] by (simp add: s4 s3)
  have touch4: "touches_only (branch (ram s2) B (hd ?q) \<union> free_frames s2) (ram s2) (ram s4)"
    using a(6) by (simp add: fr3 fr2)
  have old4: "\<forall>q t. length q \<le> 3 \<and> idx_ok q \<and> tbl (ram s4) q B = Some t \<longrightarrow>
       tbl (ram s2) q B = Some t \<or> t \<in> free_frames s2" using a(5) by (simp add: fr3 fr2)
  have K4: "\<forall>t. page_aligned t \<and> t < total_mem s2 \<and> frame_kernel s2 t \<longrightarrow> frame_kernel s4 t"
    using fr4(3) by (simp add: fr3 fr2)
  have t4: "total_mem s4 = total_mem s2" by (simp add: s4 s3)
  note o = other_space [OF two3 inv4 user_index [OF v] touch4 old4 t4 K4]
  have rootA: "rd64 (ram s4) (entry_at A j) = rd64 (ram s) (entry_at A j)" if "j < 512" for j
    using other_root [OF two3 user_index [OF v] touch4 that] r1(8) [OF that] r2(8) [OF that] by (simp add: cr)
  have rootB: "rd64 (ram s4) (entry_at B j) = rd64 (ram s) (entry_at B j)" if "256 \<le> j" "j < 512" for j
  proof -
    have "j \<noteq> hd ?q" using user_index [OF v] that(1) by auto
    then have "rd64 (ram s4) (entry_at B j) = rd64 (ram s2) (entry_at B j)"
      using a(7) that(2) by (simp add: root_kept_def fr3)
    also have "\<dots> = rd64 (ram s) (entry_at B j)" by (rule other_root [OF two user_index [OF v] touch that(2)])
    finally show ?thesis .
  qed
  show thesis
  proof (rule that)
    show "shared_kernel (ram s) A B \<longrightarrow> shared_kernel (ram s4) A B"
    proof
      assume "shared_kernel (ram s) A B"
      then show "shared_kernel (ram s4) A B" by (rule shared_kernel_step) (simp_all add: rootA rootB)
    qed
    have "fork_page cur child v s = Some s4"
      using c read r1(1) r2(1) a(1) base
      by (simp add: fork_page_def Let_def s0_def [symmetric] shared_entry_def s3_def [symmetric] pg_def fr2)
    then show "fork_page cur child v s = Some s4" .
    show "two_spaces s4 A B" by (rule two_spaces_commute [OF o(1)])
    show "\<forall>q. length q = 4 \<and> idx_ok q \<longrightarrow>
       leaf (ram s4) A q = (if q = ?q then Some ?e else leaf (ram s) A q)" using o(2) leafA2 by simp
    show "\<forall>q. length q = 4 \<and> idx_ok q \<longrightarrow>
       leaf (ram s4) B q = (if q = ?q then Some (child_entry e) else leaf (ram s) B q)"
      using a(4) leafB2 ne by (simp add: fr3)
    show "TaskManager s4 = TaskManager s" "total_mem s4 = total_mem s" by (simp_all add: s4 s3 fr2)
    show "\<forall>g x. user_frame s g \<and> in_page g x \<longrightarrow> ram s4 x = ram s x"
    proof (intro allI impI, elim conjE)
      fix g x assume g: "user_frame s g" "in_page g x"
      have nt: "\<not> is_table (ram s) A g" "\<not> is_table (ram s2) B g"
        using g two two3 fr2(5) by (auto simp: two_spaces_def paging_inv_def user_frame_def)
      have ga: "page_aligned g" "g \<notin> free_frames s" using g(1) by (simp_all add: user_frame_def)
      have "ram s2 x = ram s x"
        by (rule touches_outside [OF touch ga(1) _ g(2)]) (use nt ga(2) branch_table in blast)
      moreover have "ram s4 x = ram s2 x"
        by (rule touches_outside [OF touch4 ga(1) _ g(2)]) (use nt ga(2) branch_table fr2(3) in auto)
      ultimately show "ram s4 x = ram s x" by simp
    qed
  qed (use fr4 in \<open>simp_all add: fr3\<close>)
qed


section \<open>The loops of FORK\<close>

definition page_paths :: "nat \<Rightarrow> u64 \<Rightarrow> u64 \<Rightarrow> u64 list set" where
  "page_paths n step start = (\<lambda>i. va_path (start + of_nat i * step)) ` {..<n}"

lemma page_paths_Suc:
  "page_paths (Suc n) step start = insert (va_path start) (page_paths n step (start + step))"
proof -
  have "{..<Suc n} = insert 0 (Suc ` {..<n})" using lessThan_Suc_eq_insert_0 by simp
  then show ?thesis by (simp add: page_paths_def image_image algebra_simps)
qed

text \<open>The loop, with what it leaves of the tables of tasks and frames.\<close>

lemma fork_pages_spec:
  assumes "two_spaces s A B"
    and "Base_PML4 (TaskManager s cur) = A" "Base_PML4 (TaskManager s child) = B"
    and "\<forall>i < n. start + of_nat i * step < 0x800000000000 \<and>
      (\<exists>e. leaf (ram s) A (va_path (start + of_nat i * step)) = Some e \<and> user_frame s (e AND PTE_ADDR))"
    and "3 * n \<le> card (free_frames s)"
  shows "\<exists>s'. fork_pages n cur child step start s = Some s' \<and> two_spaces s' A B \<and>
    (\<forall>q. length q = 4 \<and> idx_ok q \<longrightarrow>
       leaf (ram s') A q = (if q \<in> page_paths n step start then map_option shared_entry (leaf (ram s) A q)
                            else leaf (ram s) A q) \<and>
       leaf (ram s') B q = (if q \<in> page_paths n step start then map_option child_entry (leaf (ram s) A q)
                            else leaf (ram s) B q)) \<and>
    (\<forall>g x. user_frame s g \<and> in_page g x \<longrightarrow> ram s' x = ram s x) \<and>
    TaskManager s' = TaskManager s \<and> total_mem s' = total_mem s \<and> (\<forall>g. user_frame s g \<longrightarrow> user_frame s' g) \<and>
    card (free_frames s) \<le> card (free_frames s') + 3 * n \<and> (shared_kernel (ram s) A B \<longrightarrow> shared_kernel (ram s') A B)"
  using assms
proof (induction n arbitrary: s start)
  case 0
  then show ?case by (simp add: page_paths_def)
next
  case (Suc n)
  let ?q = "va_path start"
  obtain e where e: "leaf (ram s) A ?q = Some e" "user_frame s (e AND PTE_ADDR)" "start < 0x800000000000"
    using Suc.prems(4) by (metis add_0_right mult_zero_left of_nat_0 zero_less_Suc)
  obtain s1 where 1: "fork_page cur child start s = Some s1" "two_spaces s1 A B"
    and lA: "\<forall>q. length q = 4 \<and> idx_ok q \<longrightarrow>
       leaf (ram s1) A q = (if q = ?q then Some (shared_entry e) else leaf (ram s) A q)"
    and lB: "\<forall>q. length q = 4 \<and> idx_ok q \<longrightarrow>
       leaf (ram s1) B q = (if q = ?q then Some (child_entry e) else leaf (ram s) B q)"
    and t1: "TaskManager s1 = TaskManager s" "total_mem s1 = total_mem s" and u1: "\<forall>g. user_frame s g \<longrightarrow> user_frame s1 g"
    and b1: "\<forall>g x. user_frame s g \<and> in_page g x \<longrightarrow> ram s1 x = ram s x"
    and f1: "card (free_frames s) \<le> card (free_frames s1) + 3" "shared_kernel (ram s) A B \<longrightarrow> shared_kernel (ram s1) A B"
    by (rule fork_page_shares [OF Suc.prems(1-3) e(3,1,2)]) (use Suc.prems(5) in simp_all)
  have "\<forall>i < n. start + step + of_nat i * step < 0x800000000000 \<and>
      (\<exists>e. leaf (ram s1) A (va_path (start + step + of_nat i * step)) = Some e \<and> user_frame s1 (e AND PTE_ADDR))"
  proof (intro allI impI)
    fix i assume "i < n"
    then obtain e' where "start + of_nat (Suc i) * step < 0x800000000000"
      "leaf (ram s) A (va_path (start + of_nat (Suc i) * step)) = Some e'" "user_frame s (e' AND PTE_ADDR)"
      using Suc.prems(4) by (metis Suc_less_eq)
    moreover have "start + of_nat (Suc i) * step = start + step + of_nat i * step" by (simp add: algebra_simps)
    ultimately show "start + step + of_nat i * step < 0x800000000000 \<and>
      (\<exists>e. leaf (ram s1) A (va_path (start + step + of_nat i * step)) = Some e \<and> user_frame s1 (e AND PTE_ADDR))"
      using lA u1 e(2) shared_entry_frame(1) [of e] by (simp only: idx_ok_va_path length_va_path) auto
  qed
  then obtain s' where 2: "fork_pages n cur child step (start + step) s1 = Some s'" "two_spaces s' A B"
    and l2: "\<forall>q. length q = 4 \<and> idx_ok q \<longrightarrow>
       leaf (ram s') A q = (if q \<in> page_paths n step (start + step) then map_option shared_entry (leaf (ram s1) A q)
                            else leaf (ram s1) A q) \<and>
       leaf (ram s') B q = (if q \<in> page_paths n step (start + step) then map_option child_entry (leaf (ram s1) A q)
                            else leaf (ram s1) B q)"
    and b2: "\<forall>g x. user_frame s1 g \<and> in_page g x \<longrightarrow> ram s' x = ram s1 x"
    and t2: "TaskManager s' = TaskManager s" "total_mem s' = total_mem s"
    and u2: "\<forall>g. user_frame s1 g \<longrightarrow> user_frame s' g"
    and f2: "card (free_frames s1) \<le> card (free_frames s') + 3 * n" "shared_kernel (ram s1) A B \<longrightarrow> shared_kernel (ram s') A B"
    using Suc.IH [OF 1(2), of "start + step"] Suc.prems f1 by (auto simp: t1)
  have "fork_pages (Suc n) cur child step start s = Some s'" using 1(1) 2(1) by simp
  moreover have "\<forall>q. length q = 4 \<and> idx_ok q \<longrightarrow>
       leaf (ram s') A q = (if q \<in> page_paths (Suc n) step start then map_option shared_entry (leaf (ram s) A q)
                            else leaf (ram s) A q) \<and>
       leaf (ram s') B q = (if q \<in> page_paths (Suc n) step start then map_option child_entry (leaf (ram s) A q)
                            else leaf (ram s) B q)"
    using l2 lA lB e(1) by (auto simp: page_paths_Suc shared_entry_idem)
  moreover have "\<forall>g x. user_frame s g \<and> in_page g x \<longrightarrow> ram s' x = ram s x" using b1 b2 u1 by metis
  moreover have "\<forall>g. user_frame s g \<longrightarrow> user_frame s' g" using u1 u2 by simp
  moreover have "card (free_frames s) \<le> card (free_frames s') + 3 * Suc n" using f1 f2 by simp
  moreover have "shared_kernel (ram s) A B \<longrightarrow> shared_kernel (ram s') A B" using f1(2) f2(2) by blast
  ultimately show ?case using 2(2) t2 by blast
qed

text \<open>The loops of FORK. Let the address spaces of the parent and of the child be separate in
  the user half, and let every page of the loop be mapped by the parent to a frame in use that is
  neither dirty nor the kernel's. Then the loop returns; the parent's entries have become read
  only and copy-on-write and point to the frames they pointed to; the child has the same entries
  but for the execute permission; every other translation of both is as before; the two
  stay separate; and no byte of a user frame has changed.\<close>

theorem fork_pages_share:
  assumes "two_spaces s A B"
    and "Base_PML4 (TaskManager s cur) = A" "Base_PML4 (TaskManager s child) = B"
    and "\<forall>i < n. start + of_nat i * step < 0x800000000000 \<and>
      (\<exists>e. leaf (ram s) A (va_path (start + of_nat i * step)) = Some e \<and> user_frame s (e AND PTE_ADDR))"
    and "3 * n \<le> card (free_frames s)"
  shows "\<exists>s'. fork_pages n cur child step start s = Some s' \<and> two_spaces s' A B \<and>
    (\<forall>q. length q = 4 \<and> idx_ok q \<longrightarrow>
       leaf (ram s') A q = (if q \<in> page_paths n step start then map_option shared_entry (leaf (ram s) A q)
                            else leaf (ram s) A q) \<and>
       leaf (ram s') B q = (if q \<in> page_paths n step start then map_option child_entry (leaf (ram s) A q)
                            else leaf (ram s) B q)) \<and>
    (\<forall>g x. user_frame s g \<and> in_page g x \<longrightarrow> ram s' x = ram s x)"
  using fork_pages_spec [OF assms] by blast

end
