(* ===== verification/Cow_Correct.thy ===== *)
theory Cow_Correct
  imports Fork_Correct Exceptions
begin

text \<open>
  Copy-on-write: a fault on a page that FORK has shared gives the task a frame of its own with
  the bytes of the shared one, and takes nothing from the other address space.
\<close>

section \<open>The entry of a private page\<close>

lemma cow_entry_bit: "bit (cow_entry f e) n \<longleftrightarrow> bit f n \<or> (n = 63 \<and> bit e 63) \<or>
    (n < 12 \<and> (bit e n \<or> n = 0 \<or> n = 1) \<and> n \<noteq> 9)"
proof -
  have three: "bit (3 :: u64) n \<longleftrightarrow> n = 0 \<or> n = 1"
  proof -
    have "(3 :: u64) = mask 2" by (simp add: mask_eq_exp_minus_1)
    then have "bit (3 :: u64) n = bit (mask 2 :: u64) n" by (simp only:)
    then show ?thesis by (auto simp: bit_simps)
  qed
  have xd: "bit (drop_bit 63 e) k \<longleftrightarrow> k = 0 \<and> bit e 63" for k
    using bit_imp_le_length [of e "63 + k"] by (auto simp: bit_simps)
  have "bit (push_bit 63 (ucast (ucast (drop_bit 63 e) :: u8)) :: u64) n \<longleftrightarrow> n = 63 \<and> bit e 63"
    by (simp only: bit_push_bit_iff bit_ucast_iff xd) auto
  moreover have "bit (ucast (ucast (((e AND 0xFFF) OR 3) AND NOT (push_bit 9 1)) :: u16) :: u64) n \<longleftrightarrow>
      n < 12 \<and> (bit e n \<or> n = 0 \<or> n = 1) \<and> n \<noteq> 9"
    by (simp only: bit_ucast_iff bit_and_iff bit_or_iff bit_not_iff bit_push_bit_iff bit_1_iff three mask12_bit) auto
  ultimately show ?thesis by (simp only: cow_entry_def Let_def bit_or_iff)
qed

lemma cow_entry_frame: "frame_addr f \<Longrightarrow> cow_entry f e AND PTE_ADDR = f"
proof -
  assume f: "frame_addr f"
  have b: "bit f n \<longleftrightarrow> bit f n \<and> 12 \<le> n \<and> n < 52" for n
    using f unfolding frame_addr_def by (metis bit_and_iff PTE_ADDR_bit)
  show ?thesis
  proof (rule bit_eqI)
    fix n
    show "bit (cow_entry f e AND PTE_ADDR) n = bit f n"
      using b [of n] by (auto simp: bit_and_iff cow_entry_bit PTE_ADDR_bit)
  qed
qed

lemma cow_entry_present: "cow_entry f e AND 1 \<noteq> 0"
  by (simp add: and_one_bit cow_entry_bit)

lemma cow_entry_private:
  assumes "frame_addr f"
  shows "cow_entry f e AND COW_BIT = 0" "cow_entry f e AND 2 \<noteq> 0"
proof -
  have lo: "\<not> bit f n" if "n < 12" for n
    using assms that by (metis bit_and_iff PTE_ADDR_bit frame_addr_def not_less)
  show "cow_entry f e AND COW_BIT = 0"
    by (rule bit_eqI) (auto simp: bit_and_iff cow_entry_bit COW_BIT_def bit_512 lo)
  have "bit (cow_entry f e AND 2) 1" by (simp add: bit_and_iff cow_entry_bit bit_two)
  then show "cow_entry f e AND 2 \<noteq> 0" by (metis bit_0_eq bot_apply bot_bool_def)
qed

section \<open>The copy\<close>

text \<open>
  A buffer of the kernel: its bytes are mapped to distinct places in frames of the kernel that are
  not tables.
\<close>

definition kernel_buffer :: "kst \<Rightarrow> u64 \<Rightarrow> (nat \<Rightarrow> u64) \<Rightarrow> bool" where
  "kernel_buffer s a b \<longleftrightarrow> inj_on b {..<4096} \<and>
     (\<forall>i < 4096. walk s (a + of_nat i) = Some (b i) \<and>
        (\<exists>g. page_aligned g \<and> in_page g (b i) \<and> frame_kernel s g \<and> \<not> is_table (ram s) (cr3 s) g))"

definition buffer_frames :: "(nat \<Rightarrow> u64) \<Rightarrow> u64 set" where
  "buffer_frames b = {g. page_aligned g \<and> (\<exists>i < 4096. in_page g (b i))}"

lemma buffer_frame:
  assumes "kernel_buffer s a b" "g \<in> buffer_frames b"
  shows "frame_kernel s g" "\<not> is_table (ram s) (cr3 s) g"
proof -
  obtain i g' where "i < 4096" "page_aligned g" "in_page g (b i)" "page_aligned g'" "in_page g' (b i)"
    "frame_kernel s g'" "\<not> is_table (ram s) (cr3 s) g'"
    using assms unfolding kernel_buffer_def buffer_frames_def by blast
  then show "frame_kernel s g" "\<not> is_table (ram s) (cr3 s) g" using in_page_unique by metis+
qed

lemma buffer_not_in_table: "kernel_buffer s a b \<Longrightarrow> i < 4096 \<Longrightarrow> not_in_table s (b i)"
  unfolding kernel_buffer_def not_in_table_def by blast

text \<open>The bytes of a buffer and those of another frame do not overlap.\<close>

lemma page_disjoint:
  assumes "page_aligned f" "\<forall>g \<in> buffer_frames b. g \<noteq> f"
  shows "(\<lambda>i. f + of_nat i) ` {..<4096} \<inter> b ` {..<4096} = {}"
proof -
  have "b i \<noteq> f + of_nat j" if "i < 4096" "j < 4096" for i j
  proof
    assume "b i = f + of_nat j"
    then have "in_page f (b i)" using in_page_offset [OF that(2)] by simp
    then have "f \<in> buffer_frames b" using assms(1) that(1) by (auto simp: buffer_frames_def)
    then show False using assms(2) by blast
  qed
  then show ?thesis by fastforce
qed

text \<open>Copying a page into bytes of frames that are no tables.\<close>

lemma memcpy_page:
  assumes inv: "paging_inv s"
    and D: "\<forall>i < 4096. walk s (dst + of_nat i) = Some (D i) \<and> (\<exists>g \<in> F. page_aligned g \<and> in_page g (D i))"
    and S: "\<forall>i < 4096. walk s (src + of_nat i) = Some (S i)"
    and inj: "inj_on D {..<4096}" "D ` {..<4096} \<inter> S ` {..<4096} = {}"
    and F: "\<forall>t \<in> F. \<not> is_table (ram s) (cr3 s) t"
  obtains m where "memcpy s dst src 0x1000 = Some (s\<lparr>ram := m\<rparr>)" "paging_inv (s\<lparr>ram := m\<rparr>)"
    "\<forall>i < 4096. m (D i) = ram s (S i)" "touches_only F (ram s) m" "same_walks (ram s) m (cr3 s)"
proof -
  have "\<forall>i < 4096. walk s (dst + of_nat i) = Some (D i) \<and> not_in_table s (D i)"
    using D F unfolding not_in_table_def by blast
  then obtain m where m: "memcpy_loop 4096 s dst src = Some (s\<lparr>ram := m\<rparr>)" "paging_inv (s\<lparr>ram := m\<rparr>)"
    "\<forall>i < 4096. m (D i) = ram s (S i)" "\<forall>x. x \<notin> D ` {..<4096} \<longrightarrow> m x = ram s x"
    using memcpy_loop_mapped [OF inv _ S inj] by blast
  have "touches_only F (ram s) m"
    unfolding touches_only_def
  proof (intro allI impI)
    fix x assume "m x \<noteq> ram s x"
    then have "x \<in> D ` {..<4096}" using m(4) by blast
    then show "\<exists>g \<in> F. page_aligned g \<and> in_page g x" using D by blast
  qed
  note touch = this and same = touches_same_walks [OF this paging_invD(6) [OF inv] F]
  have "memcpy s dst src 0x1000 = Some (s\<lparr>ram := m\<rparr>)" using m(1) by (simp add: memcpy_def)
  then show thesis using m(2,3) touch same by (rule that)
qed

text \<open>The steps of the copy, from the state in which the count has been lowered.\<close>

lemma buffer_page:
  assumes "kernel_buffer s a b"
  shows "\<forall>i < 4096. \<exists>g \<in> buffer_frames b. page_aligned g \<and> in_page g (b i)"
  using assms unfolding kernel_buffer_def buffer_frames_def by blast

lemma mem_SetBit_eq: "mem_SetBit s f = s\<lparr>phys_frames := phys_frames (mem_SetBit s f),
    PhysicalPagesUsed := PhysicalPagesUsed s + 1\<rparr>"
  by (simp add: mem_SetBit_def set_frame_flags_def set_frame_def Let_def)

lemma mem_SetBit_frame:
  assumes "page_aligned f" "page_aligned g"
  shows "frame_of (mem_SetBit s f) g =
    (if g = f then (frame_of s f)\<lparr>fr_flags := fr_flags (frame_of s f) OR 1\<rparr> else frame_of s g)"
proof -
  have "frame_of (mem_SetBit s f) g = frame_of (set_frame_flags s f (fr_flags (frame_of s f) OR 1)) g"
    by (simp add: mem_SetBit_def Let_def frame_of_def)
  then show ?thesis using frame_of_set_frame_flags [OF assms, of s] by simp
qed

lemma paging_inv_SetBit:
  assumes inv: "paging_inv s" and f: "page_aligned f"
  shows "paging_inv (mem_SetBit s f)"
proof (rule paging_inv_same_walks [OF inv])
  fix t assume t: "is_table (ram s) (cr3 s) t"
  have "page_aligned t" using t paging_invD(6) [OF inv] by (rule is_table_aligned)
  moreover have "frame_kernel s t" using inv t by (simp add: paging_inv_def)
  ultimately show "frame_kernel (mem_SetBit s f) t"
    by (cases "t = f") (simp_all add: frame_kernel_def mem_SetBit_frame [OF f] bit.conj_disj_distrib2)
qed (simp_all add: mem_SetBit_def set_frame_flags_def set_frame_def Let_def same_walks_def)

lemma idx_ok_butlast: "idx_ok q \<Longrightarrow> idx_ok (butlast q)"
  by (auto simp: idx_ok_def dest: in_set_butlastD)

lemma private_copy:
  assumes inv: "paging_inv s" and v: "v < 0x800000000000" "page_aligned v"
    and l: "leaf (ram s) (cr3 s) (va_path v) = Some e"
    and T: "tbl (ram s) (butlast (va_path v)) (cr3 s) = Some T"
    and f: "user_frame s (e AND PTE_ADDR)"
    and new: "new \<in> free_frames s" and buf: "kernel_buffer s bounce b"
  defines "pe \<equiv> dmap (entry_at T (last (va_path v)))"
  obtains s2 s3 s4 m where
    "vwrite64 s pe (cow_entry (e AND PTE_ADDR) e) = Some s2" "s2 = s\<lparr>ram := ram s2\<rparr>"
    "memcpy s2 bounce v 0x1000 = Some s3" "vwrite64 s3 pe (cow_entry new e) = Some s4"
    "memcpy (mem_SetBit s4 new) v bounce 0x1000 = Some ((mem_SetBit s new)\<lparr>ram := m\<rparr>)"
    "paging_inv ((mem_SetBit s new)\<lparr>ram := m\<rparr>)"
    "\<forall>q. length q = 4 \<and> idx_ok q \<longrightarrow> leaf m (cr3 s) q =
       (if q = va_path v then Some (cow_entry new e) else leaf (ram s) (cr3 s) q)"
    "\<forall>q. length q \<le> 3 \<and> idx_ok q \<longrightarrow> tbl m q (cr3 s) = tbl (ram s) q (cr3 s)"
    "\<forall>i < 4096. m (new + of_nat i) = ram s ((e AND PTE_ADDR) + of_nat i)"
    "touches_only (branch (ram s) (cr3 s) (hd (va_path v)) \<union> {new} \<union> buffer_frames b) (ram s) m"
proof -
  let ?q = "va_path v" and ?f = "e AND PTE_ADDR" and ?B = "buffer_frames b"
  let ?cell = "entry_at T (last ?q)" and ?r = "cr3 s"
  note n = free_frame_addr [OF inv new]
  have fa: "frame_addr ?f" by (rule frame_addr_PTE)
  have fB: "\<forall>g \<in> ?B. g \<noteq> ?f" "\<forall>g \<in> ?B. g \<noteq> new"
    using buffer_frame(1) [OF buf] f kernel_not_free new by (auto simp: user_frame_def)
  have ff: "page_aligned ?f" using fa by (rule frame_addr_aligned)
  \<comment> \<open>the entry becomes writable\<close>
  define s2 where "s2 = s\<lparr>ram := wr64 (ram s) ?cell (cow_entry ?f e)\<rparr>"
  note r2 = rewrite_leaf [OF inv v(1) T, where e = "cow_entry ?f e", folded s2_def]
  have c2: "cr3 s2 = ?r" by (simp add: s2_def)
  have leaf2: "leaf (ram s2) ?r q = (if q = ?q then Some (cow_entry ?f e) else leaf (ram s) ?r q)"
    if "length q = 4" "idx_ok q" for q
    using r2(5) [OF that] cow_entry_present by simp
  have tab2: "is_table (ram s2) ?r t = is_table (ram s) ?r t" for t
    using r2(6) by (auto simp: is_table_def)
  have w2: "walk s2 a = walk s a" for a
    using leaf2 [of "va_path a"] l cow_entry_frame [OF fa, of e] paging_invD(7) [OF inv]
    by (simp add: walk_leaf c2)
  \<comment> \<open>the bytes of the shared frame go to the buffer\<close>
  have wv: "walk s (v + of_nat i) = Some (?f + of_nat i)" if "i < 4096" for i
    by (rule leaf_walk_offset [OF inv v(2) l that])
  obtain m3 where 3: "memcpy s2 bounce v 0x1000 = Some (s2\<lparr>ram := m3\<rparr>)" "paging_inv (s2\<lparr>ram := m3\<rparr>)"
    "\<forall>i < 4096. m3 (b i) = ram s2 (?f + of_nat i)" "touches_only ?B (ram s2) m3" "same_walks (ram s2) m3 ?r"
    by (rule memcpy_page [OF r2(2), of bounce b ?B v "\<lambda>i. ?f + of_nat i"])
      (use buf buffer_page [OF buf] buffer_frame(2) [OF buf] page_disjoint [OF ff fB(1)] wv in
        \<open>simp_all add: w2 c2 tab2 kernel_buffer_def Int_commute\<close>)
  \<comment> \<open>the entry is redirected to the new frame\<close>
  define s3 where "s3 = s2\<lparr>ram := m3\<rparr>"
  have c3: "cr3 s3 = ?r" "ram s3 = m3" by (simp_all add: s3_def c2)
  have T3: "tbl (ram s3) (butlast ?q) (cr3 s3) = Some T"
    using r2(3) same_walksD [OF 3(5), of "butlast ?q"] by (simp add: c2 c3 idx_ok_butlast)
  note r4 = rewrite_leaf [OF 3(2) [folded s3_def] v(1) T3, where e = "cow_entry new e"]
  define s4 where "s4 = s3\<lparr>ram := wr64 (ram s3) ?cell (cow_entry new e)\<rparr>"
  note r4 = r4 [folded s4_def]
  have m4: "cr3 s4 = ?r" by (simp add: s4_def c3)
  have tbl4: "tbl (ram s4) q ?r = tbl (ram s) q ?r" if "length q \<le> 3" "idx_ok q" for q
    using r4(6) [OF that] same_walksD [OF 3(5), of q] r2(6) [OF that] that by (simp add: c3)
  have leaf3: "leaf m3 ?r q = leaf (ram s2) ?r q" if "length q = 4" "idx_ok q" for q
    using touches_leaf [OF 3(4) paging_invD(6) [OF inv] _ that] buffer_frame(2) [OF buf] by (simp add: tab2)
  have leaf4: "leaf (ram s4) ?r q = (if q = ?q then Some (cow_entry new e) else leaf (ram s) ?r q)"
    if "length q = 4" "idx_ok q" for q
    using r4(5) [OF that] leaf3 [OF that] leaf2 [OF that] cow_entry_present by (simp add: c3)
  have br3: "branch m3 ?r (hd ?q) = branch (ram s) ?r (hd ?q)"
    using same_walksD [OF 3(5)] r2(6) by (auto simp: branch_def)
  have t4: "touches_only (branch (ram s) ?r (hd ?q)) (ram s) (ram s2)"
    "touches_only (branch (ram s) ?r (hd ?q)) m3 (ram s4)"
    using r2(7) r4(7) by (simp_all add: c3 br3)
  \<comment> \<open>the bytes come back from the buffer\<close>
  define s5 where "s5 = mem_SetBit s4 new"
  have c5: "cr3 s5 = ?r" "ram s5 = ram s4"
    by (simp_all add: s5_def mem_SetBit_def set_frame_flags_def set_frame_def Let_def m4)
  have inv5: "paging_inv s5" unfolding s5_def by (rule paging_inv_SetBit [OF r4(2) n(1)])
  have l5: "leaf (ram s5) (cr3 s5) ?q = Some (cow_entry new e)" using leaf4 [of ?q] by (simp add: c5)
  have wv5: "walk s5 (v + of_nat i) = Some (new + of_nat i)" if "i < 4096" for i
    using leaf_walk_offset [OF inv5 v(2) l5 that] by (simp add: cow_entry_frame n(3))
  have wb5: "walk s5 (bounce + of_nat i) = Some (b i)" if i: "i < 4096" for i
  proof -
    have b: "walk s (bounce + of_nat i) = Some (b i)" using buf i by (simp add: kernel_buffer_def)
    have "va_path (bounce + of_nat i) \<noteq> ?q"
    proof
      assume "va_path (bounce + of_nat i) = ?q"
      then have "b i = ?f OR ((bounce + of_nat i) AND 0xFFF)"
        using b l walk_leaf [OF paging_invD(7) [OF inv], of "bounce + of_nat i"] by simp
      moreover have k: "(bounce + of_nat i) AND 0xFFF < 0x1000"
        by (rule le_less_trans [OF word_and_le1]) simp
      ultimately have "in_page ?f (b i)" using page_plus_or [OF ff k, symmetric] by (simp add: in_page_def)
      then have "?f \<in> ?B" using ff i by (auto simp: buffer_frames_def)
      then show False using fB(1) by blast
    qed
    then show ?thesis
      using b leaf4 [of "va_path (bounce + of_nat i)"] walk_leaf [OF paging_invD(7) [OF inv]]
        walk_leaf [OF paging_invD(7) [OF inv5]] by (simp add: c5)
  qed
  have new5: "\<not> is_table (ram s4) ?r new" using n(4) tbl4 by (auto simp: is_table_def)
  obtain m where m: "memcpy s5 v bounce 0x1000 = Some (s5\<lparr>ram := m\<rparr>)" "paging_inv (s5\<lparr>ram := m\<rparr>)"
    "\<forall>i < 4096. m (new + of_nat i) = ram s5 (b i)" "touches_only {new} (ram s5) m" "same_walks (ram s5) m (cr3 s5)"
    by (rule memcpy_page [OF inv5, of v "\<lambda>i. new + of_nat i" "{new}" bounce b])
      (use wv5 wb5 n(1) page_disjoint [OF n(1) fB(2)] in \<open>simp_all add: in_page_offset page_offset_inj new5 c5\<close>)
  have s5: "s5\<lparr>ram := m\<rparr> = (mem_SetBit s new)\<lparr>ram := m\<rparr>"
    by (simp add: s5_def s4_def s3_def s2_def mem_SetBit_def set_frame_flags_def set_frame_def frame_of_def Let_def)
  show thesis
  proof (rule that [OF r2(1) [folded pe_def] _ 3(1) [folded s3_def] r4(1) [folded pe_def]])
    show "s2 = s\<lparr>ram := ram s2\<rparr>" by (simp add: s2_def)
    show "memcpy (mem_SetBit s4 new) v bounce 0x1000 = Some ((mem_SetBit s new)\<lparr>ram := m\<rparr>)"
      using m(1) by (simp only: s5 s5_def [symmetric])
    show "paging_inv ((mem_SetBit s new)\<lparr>ram := m\<rparr>)" using m(2) by (simp only: s5)
    show "\<forall>q. length q = 4 \<and> idx_ok q \<longrightarrow> leaf m ?r q =
       (if q = ?q then Some (cow_entry new e) else leaf (ram s) ?r q)"
      using touches_leaf [OF m(4) paging_invD(6) [OF inv]] new5 leaf4 by (simp add: c5)
    show "\<forall>q. length q \<le> 3 \<and> idx_ok q \<longrightarrow> tbl m q ?r = tbl (ram s) q ?r"
      using same_walksD [OF m(5)] tbl4 by (simp add: c5)
    show "\<forall>i < 4096. m (new + of_nat i) = ram s (?f + of_nat i)"
    proof (intro allI impI)
      fix i :: nat assume i: "i < 4096"
      obtain g where g: "g \<in> ?B" "page_aligned g" "in_page g (b i)" using buffer_page [OF buf] i by blast
      have "g \<notin> branch (ram s) ?r (hd ?q)" using branch_table buffer_frame(2) [OF buf g(1)] by blast
      then have "ram s4 (b i) = m3 (b i)" by (rule touches_outside [OF t4(2) g(2) _ g(3)])
      moreover have "?f \<notin> branch (ram s) ?r (hd ?q)"
        using branch_table f inv by (auto simp: user_frame_def paging_inv_def)
      then have "ram s2 (?f + of_nat i) = ram s (?f + of_nat i)"
        by (rule touches_outside [OF t4(1) ff _ in_page_offset [OF i]])
      ultimately show "m (new + of_nat i) = ram s (?f + of_nat i)" using m(3) 3(3) i by (simp add: c5)
    qed
    have "touches_only (branch (ram s) ?r (hd ?q) \<union> ?B) (ram s) (ram s4)"
      using touches_trans [OF touches_trans [OF t4(1) 3(4) Un_upper1 Un_upper2] t4(2)] by simp
    then show "touches_only (branch (ram s) ?r (hd ?q) \<union> {new} \<union> ?B) (ram s) m"
      using m(4) [unfolded c5(2)] by (rule touches_trans) auto
  qed
qed

section \<open>The handler\<close>

lemma page_aligned_mask: "page_aligned (x AND NOT 0xFFF)"
  by (simp add: page_aligned_def and.assoc)

text \<open>The state in which the count of the frame has been lowered.\<close>

lemma lower_count:
  fixes s :: kst
  assumes inv: "paging_inv s" and f: "page_aligned f"
  defines "s' \<equiv> set_frame s f ((frame_of s f)\<lparr>refcount := refcount (frame_of s f) - 1\<rparr>)"
  shows "paging_inv s'" "free_frames s' = free_frames s" "user_frame s' = user_frame s"
    "kernel_buffer s' = kernel_buffer s" "ram s' = ram s" "cr3 s' = cr3 s" "total_mem s' = total_mem s"
proof -
  have fl: "fr_flags (frame_of s' g) = fr_flags (frame_of s g)" for g
    by (auto simp: s'_def frame_of_def set_frame_def)
  show same: "ram s' = ram s" "cr3 s' = cr3 s" "total_mem s' = total_mem s" by (simp_all add: s'_def set_frame_def)
  show "paging_inv s'"
  proof (rule paging_inv_same_walks [OF inv])
    show "frame_kernel s' t" if "is_table (ram s) (cr3 s) t" for t
      using that inv by (simp add: paging_inv_def frame_kernel_def fl)
  qed (simp_all add: s'_def set_frame_def same_walks_def)
  show fr: "free_frames s' = free_frames s" by (simp add: free_frames_def free_frame_def fl same)
  show "user_frame s' = user_frame s"
    by (simp add: fun_eq_iff user_frame_def frame_kernel_def frame_dirty_def fl same fr)
  show "kernel_buffer s' = kernel_buffer s"
    by (simp add: fun_eq_iff kernel_buffer_def frame_kernel_def fl same walk_def)
qed

lemma copy_on_write_copies:
  assumes inv: "paging_inv s" and v: "v < 0x800000000000" "page_aligned v"
    and l: "leaf (ram s) (cr3 s) (va_path v) = Some e"
    and T: "tbl (ram s) (butlast (va_path v)) (cr3 s) = Some T"
    and f: "user_frame s (e AND PTE_ADDR)" and count: "1 < refcount (frame_of s (e AND PTE_ADDR))"
    and free: "free_frames s \<noteq> {}" and buf: "kernel_buffer s bounce b"
  obtains s' new where
    "copy_on_write bounce v (dmap (entry_at T (last (va_path v)))) e s = Some s'" "new \<in> free_frames s"
    "paging_inv s'" "s' = s\<lparr>ram := ram s', phys_frames := phys_frames s', PhysicalPagesUsed := PhysicalPagesUsed s'\<rparr>"
    "\<forall>q. length q = 4 \<and> idx_ok q \<longrightarrow> leaf (ram s') (cr3 s) q =
       (if q = va_path v then Some (cow_entry new e) else leaf (ram s) (cr3 s) q)"
    "\<forall>q. length q \<le> 3 \<and> idx_ok q \<longrightarrow> tbl (ram s') q (cr3 s) = tbl (ram s) q (cr3 s)"
    "\<forall>i < 4096. ram s' (new + of_nat i) = ram s ((e AND PTE_ADDR) + of_nat i)"
    "touches_only (branch (ram s) (cr3 s) (hd (va_path v)) \<union> {new} \<union> buffer_frames b) (ram s) (ram s')"
    "\<forall>g. page_aligned g \<longrightarrow> frame_of s' g =
       (if g = e AND PTE_ADDR then (frame_of s g)\<lparr>refcount := refcount (frame_of s g) - 1\<rparr>
        else if g = new then (frame_of s g)\<lparr>fr_flags := fr_flags (frame_of s g) OR 1\<rparr>
        else frame_of s g)"
proof -
  let ?f = "e AND PTE_ADDR" and ?pe = "dmap (entry_at T (last (va_path v)))"
  have fa: "page_aligned ?f" by (rule frame_addr_aligned [OF frame_addr_PTE])
  define s1 where "s1 = set_frame s ?f ((frame_of s ?f)\<lparr>refcount := refcount (frame_of s ?f) - 1\<rparr>)"
  note c = lower_count [OF inv fa, folded s1_def]
  have free1: "free_frames s1 \<noteq> {}" using free by (simp add: c)
  define new where "new = Min (free_frames s1)"
  have new: "new \<in> free_frames s1" using free1 by (simp add: new_def)
  obtain s2 s3 s4 m where p: "vwrite64 s1 ?pe (cow_entry ?f e) = Some s2" "s2 = s1\<lparr>ram := ram s2\<rparr>"
    "memcpy s2 bounce v 0x1000 = Some s3" "vwrite64 s3 ?pe (cow_entry new e) = Some s4"
    "memcpy (mem_SetBit s4 new) v bounce 0x1000 = Some ((mem_SetBit s1 new)\<lparr>ram := m\<rparr>)"
    "paging_inv ((mem_SetBit s1 new)\<lparr>ram := m\<rparr>)"
    "\<forall>q. length q = 4 \<and> idx_ok q \<longrightarrow> leaf m (cr3 s1) q =
       (if q = va_path v then Some (cow_entry new e) else leaf (ram s1) (cr3 s1) q)"
    "\<forall>q. length q \<le> 3 \<and> idx_ok q \<longrightarrow> tbl m q (cr3 s1) = tbl (ram s1) q (cr3 s1)"
    "\<forall>i < 4096. m (new + of_nat i) = ram s1 (?f + of_nat i)"
    "touches_only (branch (ram s1) (cr3 s1) (hd (va_path v)) \<union> {new} \<union> buffer_frames b) (ram s1) m"
    by (rule private_copy [OF c(1) v _ _ _ new, of e T bounce b]) (use l T f buf in \<open>simp_all add: c\<close>)
  obtain m2 where m2: "s2 = s1\<lparr>ram := m2\<rparr>" using p(2) ..
  have "free_frames s2 = free_frames s1" by (simp add: m2 free_frames_def free_frame_def frame_of_def)
  moreover have "total_mem s2 \<le> 0xFFFFFFFFFFFFF000" using paging_invD(8) [OF c(1)] by (simp add: m2)
  ultimately have find: "FindNextFreePhysical s2 = Some new"
    using FindNextFreePhysical_Min [of s2] free1 by (simp add: new_def)
  let ?s' = "(mem_SetBit s1 new)\<lparr>ram := m\<rparr>"
  have na: "page_aligned new" using free_frame_addr(1) [OF c(1) new] .
  have ne: "new \<noteq> ?f" using new f by (auto simp: c user_frame_def)
  show thesis
  proof (rule that [of ?s' new])
    show "copy_on_write bounce v ?pe e s = Some ?s'"
      using p(1,3,4,5) find count [unfolded linorder_not_le [symmetric]]
      by (simp add: copy_on_write_def Let_def s1_def [symmetric])
    show "?s' = s\<lparr>ram := ram ?s', phys_frames := phys_frames ?s', PhysicalPagesUsed := PhysicalPagesUsed ?s'\<rparr>"
      by (simp add: mem_SetBit_def s1_def set_frame_flags_def set_frame_def Let_def)
    show "\<forall>g. page_aligned g \<longrightarrow> frame_of ?s' g =
       (if g = ?f then (frame_of s g)\<lparr>refcount := refcount (frame_of s g) - 1\<rparr>
        else if g = new then (frame_of s g)\<lparr>fr_flags := fr_flags (frame_of s g) OR 1\<rparr>
        else frame_of s g)"
      using ne frame_of_set_frame [OF fa] mem_SetBit_frame [OF na]
      by (simp add: frame_of_ram [OF refl] s1_def)
  qed (use p new in \<open>simp_all add: c\<close>)
qed

text \<open>C4. A fault on a shared page. Let the task's address space and another be separate in the user
  half, and let the page be mapped copy-on-write to a user frame with more than one reference.
  Then the handler returns to the faulting instruction with the registers it got, the page is
  mapped writable and no longer copy-on-write to a frame that was free and now holds the same
  bytes, and the shared frame has one reference less; every other translation of the task and all
  of the other address space are as before, no user frame has changed a byte, and the two stay
  separate. The count of the new frame is whatever it was while the frame was free.\<close>

theorem copy_on_write_private:
  assumes "two_spaces s A B" and "Base_PML4 (TaskManager s (cur_pid s)) = A"
    and "mem_access_ok s (rg_cr2 r) (cur_pid s)"
    and "v = rg_cr2 r AND NOT 0xFFF" "v < 0x800000000000"
    and "leaf (ram s) A (va_path v) = Some e" "e AND COW_BIT \<noteq> 0" "f = e AND PTE_ADDR"
    and "user_frame s f" "1 < refcount (frame_of s f)" "free_frames s \<noteq> {}"
    and "kernel_buffer (space s A) bounce b" "\<forall>g \<in> buffer_frames b. \<not> is_table (ram s) B g"
  shows "\<exists>s' new. HandlePageFault bounce s r = Some (r, s') \<and> new \<in> free_frames s \<and> two_spaces s' A B \<and>
    leaf (ram s') A (va_path v) = Some (cow_entry new e) \<and> cow_entry new e AND PTE_ADDR = new \<and>
    cow_entry new e AND COW_BIT = 0 \<and> cow_entry new e AND 2 \<noteq> 0 \<and>
    (\<forall>i < 4096. ram s' (new + of_nat i) = ram s (f + of_nat i)) \<and>
    (\<forall>q. length q = 4 \<and> idx_ok q \<longrightarrow> (q \<noteq> va_path v \<longrightarrow> leaf (ram s') A q = leaf (ram s) A q) \<and>
       leaf (ram s') B q = leaf (ram s) B q) \<and>
    (\<forall>g x. user_frame s g \<and> in_page g x \<longrightarrow> ram s' x = ram s x) \<and>
    (\<forall>g. page_aligned g \<longrightarrow> refcount (frame_of s' g) = refcount (frame_of s g) - (if g = f then 1 else 0))"
proof -
  define s0 where "s0 = mem_set_cr3 (upd_regs s (cur_pid s) (\<lambda>_. r)) A False"
  have s0: "ram s0 = ram s" "cr3 s0 = A" "PML4_Physical s0 = A" "total_mem s0 = total_mem s"
    "phys_frames s0 = phys_frames s" "TASKMGR_get_current s0 = cur_pid s"
    by (simp_all add: s0_def mem_set_cr3_def mem_sync_cr3_def upd_regs_def upd_task_def TASKMGR_get_current_def)
  have fr0: "frame_of s0 = frame_of s" "free_frames s0 = free_frames s" "user_frame s0 = user_frame s"
    "frame_kernel s0 = frame_kernel s"
    using s0 by (simp_all add: frame_of_def fun_eq_iff free_frames_def free_frame_def frame_kernel_def
        user_frame_def frame_dirty_def)
  have inv0: "paging_inv s0"
    using assms(1) s0 paging_inv_cong [of s0 "space s A"] by (simp add: two_spaces_def)
  have buf0: "kernel_buffer s0 bounce b"
    using assms(12) s0 by (simp add: kernel_buffer_def walk_def fr0)
  have l0: "leaf (ram s0) (cr3 s0) (va_path v) = Some e" using assms(6) by (simp add: s0)
  obtain T where T: "tbl (ram s0) (butlast (va_path v)) (cr3 s0) = Some T"
    "rd64 (ram s0) (entry_at T (last (va_path v))) = e"
    and c: "CalculatePagePhysicalEntryAddress s0 (ExtractPageEntries v) = Some (dmap (entry_at T (last (va_path v))), s0)"
    by (rule present_leaf_pointer [OF inv0 l0])
  have read: "vread64 s0 (dmap (entry_at T (last (va_path v)))) = Some e"
    using leaf_pointer_read [OF inv0 T(1)] T(2) by simp
  have al: "page_aligned v" unfolding assms(4) by (rule page_aligned_mask)
  obtain s' new where w: "copy_on_write bounce v (dmap (entry_at T (last (va_path v)))) e s0 = Some s'"
    "new \<in> free_frames s" "paging_inv s'"
    "s' = s0\<lparr>ram := ram s', phys_frames := phys_frames s', PhysicalPagesUsed := PhysicalPagesUsed s'\<rparr>"
    "\<forall>q. length q = 4 \<and> idx_ok q \<longrightarrow> leaf (ram s') A q =
       (if q = va_path v then Some (cow_entry new e) else leaf (ram s) A q)"
    "\<forall>q. length q \<le> 3 \<and> idx_ok q \<longrightarrow> tbl (ram s') q A = tbl (ram s) q A"
    "\<forall>i < 4096. ram s' (new + of_nat i) = ram s (f + of_nat i)"
    "touches_only (branch (ram s) A (hd (va_path v)) \<union> {new} \<union> buffer_frames b) (ram s) (ram s')"
    "\<forall>g. page_aligned g \<longrightarrow> frame_of s' g =
       (if g = f then (frame_of s g)\<lparr>refcount := refcount (frame_of s g) - 1\<rparr>
        else if g = new then (frame_of s g)\<lparr>fr_flags := fr_flags (frame_of s g) OR 1\<rparr>
        else frame_of s g)"
    by (rule copy_on_write_copies [OF inv0 assms(5) al l0 T(1) _ _ _ buf0])
      (use assms(8-11) in \<open>simp_all add: fr0 s0\<close>)
  obtain m ph u where s': "s' = s0\<lparr>ram := m, phys_frames := ph, PhysicalPagesUsed := u\<rparr>" using w(4) by blast
  have inv': "paging_inv (space s' A)" using w(3) paging_inv_cong [of "space s' A" s'] by (simp add: s' s0)
  have K: "\<forall>t. page_aligned t \<and> t < total_mem s \<and> frame_kernel s t \<longrightarrow> frame_kernel s' t"
  proof (intro allI impI, elim conjE)
    fix t assume t: "page_aligned t" "frame_kernel s t"
    have "fr_flags (frame_of s' t) = fr_flags (frame_of s t) \<or>
        fr_flags (frame_of s' t) = fr_flags (frame_of s t) OR 1" using w(9) [THEN spec, of t] t(1) by (cases "t = f"; cases "t = new"; simp)
    then show "frame_kernel s' t" using t(2) by (auto simp: frame_kernel_def bit.conj_disj_distrib2)
  qed
  have touch: "touches_only (branch (ram s) A (hd (va_path v)) \<union> free_frames s \<union> buffer_frames b) (ram s) (ram s')"
    by (rule touches_mono [OF w(8)]) (use w(2) in auto)
  have old: "\<forall>q t. length q \<le> 3 \<and> idx_ok q \<and> tbl (ram s') q A = Some t \<longrightarrow>
       tbl (ram s) q A = Some t \<or> t \<in> free_frames s" using w(6) by auto
  have tm: "total_mem s' = total_mem s" by (simp add: s' s0)
  note o = other_space_frames [OF assms(1) inv' user_index [OF assms(5)] touch assms(13) old tm K]
  have run: "HandlePageFault bounce s r = Some (r, s')"
  proof -
    let ?u = "upd_regs s (cur_pid s) (\<lambda>_. r)"
    have "mem_access_ok ?u = mem_access_ok s" "Base_PML4 (TaskManager ?u (cur_pid s)) = A"
      using assms(2) by (simp_all add: fun_eq_iff mem_access_ok_def Let_def task_mem_def upd_regs_def upd_task_def)
    moreover have "v < VIRTUAL_MEMORY_BARRIER"
      using assms(5) by (simp add: VIRTUAL_MEMORY_BARRIER_def word_less_nat_alt)
    moreover have "rg_cr2 r AND - 4096 = v" using assms(4) by simp
    ultimately show ?thesis
      using c read w(1) assms(3,7)
      by (simp add: HandlePageFault_def Let_def TASKMGR_get_current_def s0_def [symmetric])
  qed
  have "frame_addr new"
    using free_frame_addr(3) [OF inv0, of new] w(2) by (simp add: fr0)
  note fn = cow_entry_frame [OF this, of e] cow_entry_private [OF this, of e]
  have same: "ram s' x = ram s x" if g: "user_frame s g" "in_page g x" for g x
  proof (rule touches_outside [OF w(8) _ _ g(2)])
    show "page_aligned g" using g(1) by (simp add: user_frame_def)
    have "g \<notin> buffer_frames b" using buffer_frame(1) [OF buf0, of g] g(1) by (auto simp: user_frame_def fr0)
    moreover have "\<not> is_table (ram s) A g"
      using g(1) assms(1) by (auto simp: two_spaces_def paging_inv_def user_frame_def)
    ultimately show "g \<notin> branch (ram s) A (hd (va_path v)) \<union> {new} \<union> buffer_frames b"
      using branch_table g(1) w(2) by (auto simp: user_frame_def)
  qed
  have counts: "\<forall>g. page_aligned g \<longrightarrow>
      refcount (frame_of s' g) = refcount (frame_of s g) - (if g = f then 1 else 0)"
    using w(9) by simp
  have leaves: "\<forall>q. length q = 4 \<and> idx_ok q \<longrightarrow>
      (q \<noteq> va_path v \<longrightarrow> leaf (ram s') A q = leaf (ram s) A q) \<and> leaf (ram s') B q = leaf (ram s) B q"
    using w(5) o(2) by simp
  have "leaf (ram s') A (va_path v) = Some (cow_entry new e)" using w(5) by simp
  with run w(2) o(1) fn w(7) leaves same counts show ?thesis by blast
qed

end
