(* ===== verification/Sample_Spaces.thy ===== *)
theory Sample_Spaces
  imports Clone Fork_Correct Cow_Correct Sample_Machine
begin

text \<open>
  A concrete machine with two address spaces, on which the theorems about FORK and copy-on-write
  are applied: the sample machine with a second root in frame 15, a user frame 5 with one
  reference, and two tasks.
\<close>

definition sample_two :: kst where
  "sample_two = sample_kst\<lparr>ram := wr64 sample_ram (entry_at 0xF000 256) 0x2003,
     phys_frames := (\<lambda>i. if i = 5 then \<lparr>refcount = 1, fr_flags = 1\<rparr>
       else \<lparr>refcount = 0, fr_flags = (if i < 5 \<or> i = 15 then 0b101 else 0)\<rparr>),
     TaskManager := (\<lambda>pid. zero_task\<lparr>Base_PML4 := (if pid = 0 then 0x1000 else 0xF000),
       MemoryData := zero_mem_def\<lparr>BaseVirtualAddress := 0x400000, PageCount := 1\<rparr>\<rparr>)\<rparr>"

lemma sample_two_fields:
  "ram sample_two = wr64 sample_ram (entry_at 0xF000 256) 0x2003" "cr3 sample_two = 0x1000"
  "PML4_Physical sample_two = 0x1000" "total_mem sample_two = 0x10000" "cur_pid sample_two = 0"
  "frame_of sample_two a = (if a div 0x1000 = 5 then \<lparr>refcount = 1, fr_flags = 1\<rparr>
     else \<lparr>refcount = 0, fr_flags = (if a div 0x1000 < 5 \<or> a div 0x1000 = 15 then 0b101 else 0)\<rparr>)"
  by (simp_all add: sample_two_def frame_of_def) (simp_all add: sample_kst_def)

lemma sample_two_walks: "same_walks sample_ram (ram sample_two) 0x1000"
proof -
  have al: "page_aligned 0x1000" "page_aligned 0xF000" by (simp_all add: page_aligned_def)
  have "touches_only {0xF000} sample_ram (ram sample_two)"
    unfolding sample_two_fields by (rule touches_wr64) (simp_all add: page_aligned_def)
  then show ?thesis by (rule touches_same_walks [OF _ al(1)]) (simp add: sample_is_table)
qed

lemma sample_two_is_table: "is_table (ram sample_two) 0x1000 t \<longleftrightarrow> t \<in> {0x1000, 0x2000, 0x3000, 0x4000}"
  by (simp add: same_walks_is_table [OF sample_two_walks] sample_is_table)

lemma sample_two_inv: "paging_inv (space sample_two 0x1000)"
proof (rule paging_inv_same_walks [OF sample_paging_inv])
  show "same_walks (ram sample_kst) (ram (space sample_two 0x1000)) (cr3 sample_kst)"
    using sample_two_walks by simp
  fix t assume "is_table (ram sample_kst) (cr3 sample_kst) t"
  then show "frame_kernel (space sample_two 0x1000) t"
    by (auto simp: sample_is_table frame_kernel_def sample_two_fields)
qed (simp_all add: sample_two_fields)

lemma sample_two_clone: "clone_root (ram sample_two) 0x1000 0xF000"
  unfolding clone_root_def
proof (intro allI impI)
  fix i :: u64 assume i: "i < 512"
  have al: "page_aligned 0x1000" "page_aligned 0xF000" by (simp_all add: page_aligned_def)
  have e: "unat (entry_at 0x1000 i) = 0x1000 + 8 * unat i" "unat (entry_at 0xF000 i) = 0xF000 + 8 * unat i"
    using al i by (simp_all add: unat_entry_at)
  have "unat i < 512" using i by (simp add: word_less_nat_alt)
  then have c: "sample_cell (entry_at 0x1000 i) = (if i = 256 then 0x2003 else 0)" "sample_cell (entry_at 0xF000 i) = 0"
    using e by (auto simp: sample_cell_def word_unat_eq_iff word_less_nat_alt word_le_nat_alt)
  show "rd64 (ram sample_two) (entry_at 0xF000 i) =
      (if i < 256 then 0 else rd64 (ram sample_two) (entry_at 0x1000 i))"
    using i al c by (auto simp: sample_two_fields rd64_wr64_entry rd64_sample_ram)
qed

lemma sample_two_spaces: "two_spaces sample_two 0x1000 0xF000"
  by (rule clone_space [OF sample_two_inv sample_two_clone])
    (simp add: frame_addr_def PTE_ADDR_def, simp_all add: sample_two_is_table, simp_all add: sample_two_fields frame_kernel_def)

lemma sample_two_user: "user_frame sample_two 0x5000"
  by (simp add: user_frame_def page_aligned_def sample_two_fields frame_kernel_def frame_dirty_def
      free_frames_def free_frame_def)

lemma sample_two_free: "6 \<le> card (free_frames sample_two)"
proof -
  have "{0x6000, 0x7000, 0x8000, 0x9000, 0xA000, 0xB000} \<subseteq> free_frames sample_two"
    by (auto simp: free_frames_def free_frame_def sample_two_fields page_aligned_def)
  moreover have "finite (free_frames sample_two)" by simp
  ultimately have "card {0x6000, 0x7000, 0x8000, 0x9000, 0xA000, 0xB000 :: u64} \<le> card (free_frames sample_two)"
    by (intro card_mono)
  then show ?thesis by simp
qed

text \<open>The page 0x400000 of the first task, with the flags \<open>fl\<close> and a second reference.\<close>

lemma sample_page:
  fixes fl :: u16
  assumes fl: "fl < 0x1000" "fl AND 1 \<noteq> 0"
  obtains s where "two_spaces s 0x1000 0xF000" "leaf (ram s) 0x1000 (va_path 0x400000) = Some (0x5000 OR ucast fl)"
    "user_frame s 0x5000" "refcount (frame_of s 0x5000) = 2" "3 \<le> card (free_frames s)"
    "TaskManager s = TaskManager sample_two" "cur_pid s = 0" "total_mem s = 0x10000"
    "frame_kernel s 0" "\<not> is_table (ram s) 0x1000 0" "\<not> is_table (ram s) 0xF000 0"
proof -
  let ?s = "space sample_two 0x1000"
  define pg where "pg = \<lparr>pg_flags = fl, pg_Execute_Disable = False, virtual_address = 0x400000,
    physical_address = 0x5000\<rparr>"
  have good: "good_page ?s pg" using fl by (simp add: good_page_def pg_def sample_two_fields page_aligned_def)
  have ne: "new_entry pg = 0x5000 OR ucast fl" by (simp add: new_entry_def pg_def)
  obtain s where s: "alloc_page ?s pg = Some (virtual_address pg, s)" "paging_inv s"
    "s = ?s\<lparr>ram := ram s, phys_frames := phys_frames s\<rparr>"
    "\<forall>q. length q = 4 \<and> idx_ok q \<longrightarrow> leaf (ram s) (cr3 ?s) q =
       (if q = va_path (virtual_address pg) then Some (new_entry pg) else leaf (ram ?s) (cr3 ?s) q)"
    "\<forall>q t. length q \<le> 3 \<and> idx_ok q \<and> tbl (ram s) q (cr3 ?s) = Some t \<longrightarrow>
       tbl (ram ?s) q (cr3 ?s) = Some t \<or> t \<in> free_frames ?s"
    "touches_only (branch (ram ?s) (cr3 ?s) (hd (va_path (virtual_address pg))) \<union> free_frames ?s) (ram ?s) (ram s)"
    "root_kept (ram ?s) (ram s) (cr3 ?s) (hd (va_path (virtual_address pg)))"
    "\<forall>g. page_aligned g \<longrightarrow> refcount (frame_of s g) =
       (if g = physical_address pg then refcount (frame_of ?s g) + 1 else refcount (frame_of ?s g))"
    "\<forall>g. user_frame ?s g \<longrightarrow> user_frame s g"
    "\<forall>t. page_aligned t \<and> t < total_mem ?s \<and> frame_kernel ?s t \<longrightarrow> frame_kernel s t"
    "free_frames s \<subseteq> free_frames ?s" "card (free_frames ?s) \<le> card (free_frames s) + 3"
    by (rule alloc_page_used [OF sample_two_inv good])
      (use sample_two_user sample_two_free in \<open>simp_all add: pg_def\<close>)
  obtain m ph where m: "s = ?s\<lparr>ram := m, phys_frames := ph\<rparr>" using s(3) by blast
  have inv: "paging_inv (space s 0x1000)" using s(2) paging_inv_cong [of "space s 0x1000" s] by (simp add: m)
  have i: "hd (va_path 0x400000) < 256" by (rule user_index) simp
  have t: "total_mem s = total_mem sample_two" by (simp add: m)
  have touch: "touches_only (branch (ram sample_two) 0x1000 (hd (va_path 0x400000)) \<union> free_frames sample_two)
      (ram sample_two) (ram s)" using s(6) by (simp add: pg_def)
  note o = other_space [OF sample_two_spaces inv i touch _ t]
  have al: "page_aligned 0x5000" "page_aligned 0" by (simp_all add: page_aligned_def)
  have nf: "0 \<notin> free_frames sample_two" by (simp add: free_frames_def free_frame_def sample_two_fields)
  have tabA: "\<not> is_table (ram s) 0x1000 0"
    using s(5) nf sample_two_is_table [of 0] by (auto simp: is_table_def)
  have "same_walks (ram sample_two) (ram s) 0xF000"
    using other_space_walks [OF sample_two_spaces i, of "{}"] touch by simp
  moreover have "\<not> is_table (ram sample_two) 0xF000 0"
    using clone_table [OF sample_two_clone, of 0] sample_two_is_table [of 0] by auto
  ultimately have tabB: "\<not> is_table (ram s) 0xF000 0" by (simp add: same_walks_is_table)
  show thesis
    by (rule that [OF o(1)])
      (use s(4,5,8,9,10,12) sample_two_user sample_two_free al tabA tabB in
        \<open>simp_all add: pg_def ne [unfolded pg_def] m sample_two_fields frame_kernel_def\<close>)
qed

text \<open>A page of the kernel in the direct map is a buffer.\<close>

lemma direct_buffer:
  assumes inv: "paging_inv s" and x: "page_aligned x" "x < total_mem s" "frame_kernel s x"
    "\<not> is_table (ram s) (cr3 s) x"
  shows "kernel_buffer s (x + VIRTUAL_MEMORY_BARRIER) (\<lambda>i. x + of_nat i)"
    "buffer_frames (\<lambda>i. x + of_nat i) = {x}"
proof -
  have "walk s (x + VIRTUAL_MEMORY_BARRIER + of_nat i) = Some (x + of_nat i)" if "i < 4096" for i
  proof -
    have "walk s (x + of_nat i + VIRTUAL_MEMORY_BARRIER) = Some (x + of_nat i)"
      by (rule direct_map_offset [OF paging_invD(7,5) [OF inv] x(1,2) offset_lt_nat [OF that]])
    then show ?thesis by (simp add: ac_simps)
  qed
  then show "kernel_buffer s (x + VIRTUAL_MEMORY_BARRIER) (\<lambda>i. x + of_nat i)"
    using x in_page_offset unfolding kernel_buffer_def by (auto simp: page_offset_inj)
  have "g = x" if "page_aligned g" "i < 4096" "in_page g (x + of_nat i)" for g i
    using in_page_unique [OF that(1) x(1) that(3)] in_page_offset [OF that(2)] by simp
  then show "buffer_frames (\<lambda>i. x + of_nat i) = {x}"
    using x(1) in_page_offset [of 0 x] by (auto simp: buffer_frames_def intro: exI [of _ 0])
qed

section \<open>FORK\<close>

lemma page_400000: "page_paths (Suc 0) 0x1000 0x400000 = {va_path 0x400000}"
  by (simp add: page_paths_def lessThan_Suc)

theorem fork_pages_share_witness:
  "\<exists>s s'. leaf (ram s) 0x1000 (va_path 0x400000) = Some 0x5007 \<and>
     fork_pages 1 0 1 0x1000 0x400000 s = Some s' \<and> two_spaces s' 0x1000 0xF000 \<and>
     leaf (ram s') 0x1000 (va_path 0x400000) = Some 0x5205 \<and>
     leaf (ram s') 0xF000 (va_path 0x400000) = Some 0x5205"
proof -
  have u: "(0x5000 OR ucast (7 :: u16) :: u64) = 0x5007" "(0x5007 :: u64) AND PTE_ADDR = 0x5000"
    by (simp_all add: PTE_ADDR_def)
  obtain s where s: "two_spaces s 0x1000 0xF000" "leaf (ram s) 0x1000 (va_path 0x400000) = Some 0x5007"
    "user_frame s 0x5000" "3 \<le> card (free_frames s)" "TaskManager s = TaskManager sample_two"
    by (rule sample_page [of 7]) (simp_all add: u(1))
  have b: "Base_PML4 (TaskManager s 0) = 0x1000" "Base_PML4 (TaskManager s 1) = 0xF000"
    by (simp_all add: s(5) sample_two_def)
  have "shared_entry 0x5007 = 0x5205" "child_entry 0x5007 = 0x5205"
    by (simp_all add: shared_entry_def child_entry_def)
  moreover have "\<exists>s'. fork_pages 1 0 1 0x1000 0x400000 s = Some s' \<and> two_spaces s' 0x1000 0xF000 \<and>
    (\<forall>q. length q = 4 \<and> idx_ok q \<longrightarrow>
       leaf (ram s') 0x1000 q = (if q \<in> page_paths 1 0x1000 0x400000
         then map_option shared_entry (leaf (ram s) 0x1000 q) else leaf (ram s) 0x1000 q) \<and>
       leaf (ram s') 0xF000 q = (if q \<in> page_paths 1 0x1000 0x400000
         then map_option child_entry (leaf (ram s) 0x1000 q) else leaf (ram s) 0xF000 q)) \<and>
    (\<forall>g x. user_frame s g \<and> in_page g x \<longrightarrow> ram s' x = ram s x)"
    by (rule fork_pages_share [OF s(1) b]) (use s(2-4) in \<open>simp_all add: u\<close>)
  then obtain s' where "fork_pages 1 0 1 0x1000 0x400000 s = Some s'" "two_spaces s' 0x1000 0xF000"
    and l: "\<forall>q. length q = 4 \<and> idx_ok q \<longrightarrow>
       leaf (ram s') 0x1000 q = (if q \<in> page_paths 1 0x1000 0x400000
         then map_option shared_entry (leaf (ram s) 0x1000 q) else leaf (ram s) 0x1000 q) \<and>
       leaf (ram s') 0xF000 q = (if q \<in> page_paths 1 0x1000 0x400000
         then map_option child_entry (leaf (ram s) 0x1000 q) else leaf (ram s) 0xF000 q)" by blast
  ultimately show ?thesis
    using s(2) l [THEN spec, of "va_path 0x400000"]
    by (intro exI [of _ s] exI [of _ s']) (simp add: page_400000)
qed

section \<open>Copy-on-write\<close>

theorem copy_on_write_private_witness:
  "\<exists>s s' new. leaf (ram s) 0x1000 (va_path 0x400000) = Some 0x5207 \<and>
     refcount (frame_of s 0x5000) = 2 \<and>
     HandlePageFault VIRTUAL_MEMORY_BARRIER s (zero_regs\<lparr>rg_cr2 := 0x400123\<rparr>) = Some (zero_regs\<lparr>rg_cr2 := 0x400123\<rparr>, s') \<and>
     leaf (ram s') 0x1000 (va_path 0x400000) = Some (cow_entry new 0x5207) \<and> new \<in> free_frames s \<and>
     refcount (frame_of s' 0x5000) = 1"
proof -
  let ?r = "zero_regs\<lparr>rg_cr2 := 0x400123\<rparr>"
  have u: "(0x5000 OR ucast (0x207 :: u16) :: u64) = 0x5207" "(0x5207 :: u64) AND PTE_ADDR = 0x5000"
    "(0x5207 :: u64) AND COW_BIT \<noteq> 0" by (simp_all add: PTE_ADDR_def COW_BIT_def)
  obtain s where s: "two_spaces s 0x1000 0xF000" "leaf (ram s) 0x1000 (va_path 0x400000) = Some 0x5207"
    "user_frame s 0x5000" "refcount (frame_of s 0x5000) = 2" "3 \<le> card (free_frames s)"
    "TaskManager s = TaskManager sample_two" "cur_pid s = 0" "total_mem s = 0x10000"
    "frame_kernel s 0" "\<not> is_table (ram s) 0x1000 0" "\<not> is_table (ram s) 0xF000 0"
    by (rule sample_page [of "0x207"]) (simp_all add: u(1))
  have inv: "paging_inv (space s 0x1000)" using s(1) by (simp add: two_spaces_def)
  have al: "page_aligned 0x5000" "page_aligned 0" by (simp_all add: page_aligned_def)
  note b = direct_buffer [OF inv al(2), simplified, OF _ s(9,10)]
  have acc: "mem_access_ok s (rg_cr2 ?r) (cur_pid s)" "Base_PML4 (TaskManager s (cur_pid s)) = 0x1000"
    by (simp_all add: mem_access_ok_def task_mem_def s(6,7) sample_two_def Let_def get_mem_low_high_def)
  have v: "0x400000 = rg_cr2 ?r AND NOT 0xFFF" by simp
  have ne: "free_frames s \<noteq> {}" using s(5) by auto
  have nt: "\<forall>g \<in> buffer_frames (\<lambda>i. of_nat i). \<not> is_table (ram s) 0xF000 g" using b(2) s(8,11) by simp
  obtain s' new where "HandlePageFault VIRTUAL_MEMORY_BARRIER s ?r = Some (?r, s')" "new \<in> free_frames s"
    "leaf (ram s') 0x1000 (va_path 0x400000) = Some (cow_entry new 0x5207)"
    "\<forall>g. page_aligned g \<longrightarrow> refcount (frame_of s' g) = refcount (frame_of s g) - (if g = 0x5000 then 1 else 0)"
    using copy_on_write_private [OF s(1) acc(2,1) v _ s(2) u(3) u(2) [symmetric] s(3) _ ne b(1) nt] s(4,8) by auto
  with s(2,4) al(1) show ?thesis by (intro exI [of _ s] exI [of _ s'] exI [of _ new]) auto
qed

end
