(* ===== verification/Kernel_Pages.thy ===== *)
theory Kernel_Pages
  imports Clone
begin

text \<open>
  The pages the kernel takes for itself with \<open>malloc\<close>, and the address space that
  \<open>Create_User_Memory\<close> builds in one of them. \<open>malloc\<close> maps its pages behind the kernel, where the
  direct map of physical memory is as well.
\<close>

section \<open>Pages of the kernel\<close>

definition malloc_page :: "kst \<Rightarrow> int \<Rightarrow> page_details" where
  "malloc_page s pid = \<lparr>pg_flags = KERNEL_FLAGS, pg_Execute_Disable = True,
     virtual_address = next_page_address s pid, physical_address = Min (free_frames s)\<rparr>"

lemma malloc_page_fields [simp]:
  "virtual_address (malloc_page s pid) = next_page_address s pid"
  "physical_address (malloc_page s pid) = Min (free_frames s)" "pg_flags (malloc_page s pid) = KERNEL_FLAGS"
  by (simp_all add: malloc_page_def)

text \<open>The state in which \<open>malloc\<close> has taken the lowest free frame.\<close>

definition malloc_taken :: "kst \<Rightarrow> int \<Rightarrow> kst" where
  "malloc_taken s pid = set_frame_flags (add_pages s pid 1) (Min (free_frames s)) 0b101"

lemma malloc_taken_fields [simp]:
  "ram (malloc_taken s pid) = ram s" "cr3 (malloc_taken s pid) = cr3 s"
  "PML4_Physical (malloc_taken s pid) = PML4_Physical s" "total_mem (malloc_taken s pid) = total_mem s"
  by (simp_all add: malloc_taken_def set_frame_flags_def set_frame_def add_pages_def set_mem_def_def)

lemma malloc_taken_inv:
  assumes inv: "paging_inv s" and free: "free_frames s \<noteq> {}"
  defines "f \<equiv> Min (free_frames s)"
  shows "f \<in> free_frames s" "paging_inv (malloc_taken s pid)" "free_frames (malloc_taken s pid) = free_frames s - {f}"
    "frame_kernel (malloc_taken s pid) f" "\<not> frame_dirty (malloc_taken s pid) f"
proof -
  show f: "f \<in> free_frames s" unfolding f_def by (rule Min_in) (use free in simp_all)
  have fa: "page_aligned f" using f by (simp add: free_frames_def)
  let ?a = "add_pages s pid 1"
  have a: "frame_of ?a = frame_of s" by (simp add: frame_of_def fun_eq_iff add_pages_def set_mem_def_def)
  have af: "free_frames ?a = free_frames s"
    by (simp add: free_frames_def free_frame_def a) (simp add: add_pages_def set_mem_def_def)
  have s1: "malloc_taken s pid = set_frame_flags ?a f 0b101" by (simp add: malloc_taken_def f_def)
  have fl: "frame_of (malloc_taken s pid) g = (if g = f then (frame_of s f)\<lparr>fr_flags := 0b101\<rparr> else frame_of s g)"
    if "page_aligned g" for g
    using that fa by (simp add: s1 frame_of_set_frame_flags a)
  show "frame_kernel (malloc_taken s pid) f" "\<not> frame_dirty (malloc_taken s pid) f"
    using fl [OF fa] by (simp_all add: frame_kernel_def frame_dirty_def)
  show "free_frames (malloc_taken s pid) = free_frames s - {f}"
    unfolding s1 using free_frames_set_flags [OF fa, of ?a] by (simp add: af)
  show "paging_inv (malloc_taken s pid)"
  proof (rule paging_inv_same_walks [OF inv])
    fix t assume t: "is_table (ram s) (cr3 s) t"
    have "page_aligned t" using t paging_invD(6) [OF inv] by (rule is_table_aligned)
    moreover have "frame_kernel s t" using inv t by (simp add: paging_inv_def)
    ultimately show "frame_kernel (malloc_taken s pid) t" by (simp add: frame_kernel_def fl)
  qed (simp_all add: same_walks_def)
qed

text \<open>\<open>malloc\<close> at an address of the kernel's half is the installation of that page.\<close>

lemma malloc_install:
  assumes inv: "paging_inv s" and free: "free_frames s \<noteq> {}"
    and v: "VIRTUAL_MEMORY_BARRIER \<le> next_page_address s pid"
    and i: "install_page (malloc_taken s pid) (malloc_page s pid) = Some (next_page_address s pid, s2)"
  shows "malloc s pid = Some (next_page_address s pid, set_frame_flags s2 (Min (free_frames s)) 0b101)"
proof -
  let ?f = "Min (free_frames s)"
  note t = malloc_taken_inv [OF inv free]
  have f: "FindNextFreePhysical s = Some ?f"
    by (rule FindNextFreePhysical_Min [OF paging_invD(8) [OF inv] free])
  have lt: "?f < total_mem s" using t(1) by (simp add: free_frames_def)
  have nz: "next_page_address s pid \<noteq> 0" using v by (auto simp: VIRTUAL_MEMORY_BARRIER_def)
  have c: "count_user_mapping (malloc_taken s pid) ?f (next_page_address s pid) = malloc_taken s pid"
    using v by (simp add: count_user_mapping_def)
  have "alloc_page (malloc_taken s pid) (malloc_page s pid) = Some (next_page_address s pid, s2)"
    using lt t(5) v i by (simp add: alloc_page_def Let_def c linorder_not_less [symmetric])
  then show ?thesis
    using nz by (simp add: malloc_def f Let_def malloc_taken_def malloc_page_def)
qed

lemma kernel_page_entry:
  assumes inv: "paging_inv s" and free: "free_frames s \<noteq> {}"
  shows "new_entry (malloc_page s pid) AND 1 \<noteq> 0"
    "new_entry (malloc_page s pid) AND PTE_ADDR = Min (free_frames s)"
proof -
  have "good_page s (malloc_page s pid)"
    using malloc_taken_inv(1) [OF inv free] by (simp add: good_page_def free_frames_def KERNEL_FLAGS_def)
  from good_page_entry [OF inv this]
  show "new_entry (malloc_page s pid) AND 1 \<noteq> 0"
    "new_entry (malloc_page s pid) AND PTE_ADDR = Min (free_frames s)" by simp_all
qed

section \<open>The direct map\<close>

lemma barrier_le: "x < 0x800000000000 \<Longrightarrow> VIRTUAL_MEMORY_BARRIER \<le> x + VIRTUAL_MEMORY_BARRIER"
  by (simp add: VIRTUAL_MEMORY_BARRIER_def word_le_nat_alt word_less_nat_alt unat_word_ariths)

text \<open>C39. The page that \<open>malloc\<close> maps for the kernel may be one through which the kernel reaches physical
  memory. Then, unless the frame it takes is by chance the one mapped there, the translation of that
  frame is lost: the direct map, on which every access to the page tables relies, does not
  hold any more.\<close>

theorem malloc_breaks_direct_map:
  assumes inv: "paging_inv s" and free: "free_frames s \<noteq> {}"
    and v: "next_page_address s KernelTask = x + VIRTUAL_MEMORY_BARRIER" "page_aligned x" "x < total_mem s"
    and x: "x \<noteq> Min (free_frames s)"
  shows "\<exists>s'. malloc s KernelTask = Some (x + VIRTUAL_MEMORY_BARRIER, s') \<and>
    walk s (x + VIRTUAL_MEMORY_BARRIER) = Some x \<and>
    walk s' (x + VIRTUAL_MEMORY_BARRIER) = Some (Min (free_frames s)) \<and> \<not> direct_map s' \<and> \<not> paging_inv s'"
proof -
  let ?v = "x + VIRTUAL_MEMORY_BARRIER" and ?s = "malloc_taken s KernelTask" and ?pg = "malloc_page s KernelTask"
  note t = malloc_taken_inv [OF inv free]
  note e = kernel_page_entry [OF inv free, of KernelTask]
  have w: "walk s ?v = Some x" using paging_invD(5) [OF inv] v(2,3) by (simp add: direct_map_def)
  then have "walk ?s ?v \<noteq> None" by (simp add: walk_def)
  then obtain T where T: "CalculatePagePhysicalEntryAddress ?s (ExtractPageEntries ?v) =
       Some (dmap (entry_at T (ucast (PT_Entry (ExtractPageEntries ?v)))), ?s)"
    "tbl (ram ?s) (butlast (va_path ?v)) (cr3 ?s) = Some T" "dmap (entry_at T (last (va_path ?v))) \<noteq> 0"
    by (rule mapped_tables [OF t(2)])
  obtain p i where path: "va_path ?v = p @ [i]" and p: "length p = 3" "idx_ok p" "i < 512"
    by (rule leaf_path [of "va_path ?v"]) simp_all
  have last: "ucast (PT_Entry (ExtractPageEntries ?v)) = i" using path va_path_ExtractPageEntries [of ?v] by simp
  have T': "tbl (ram ?s) p (cr3 ?s) = Some T" using T(2) by (simp add: path)
  have Tt: "page_aligned T" "T < total_mem ?s" using paging_inv_table [OF t(2) T' _ p(2)] p(1) by simp_all
  let ?e = "new_entry ?pg"
  let ?s2 = "?s\<lparr>ram := wr64 (ram ?s) (entry_at T i) ?e\<rparr>"
  have "vwrite64 ?s (dmap (entry_at T i)) ?e = Some ?s2" by (rule entry_access(2) [OF t(2) Tt p(3)])
  then have "install_page ?s ?pg = Some (next_page_address s KernelTask, ?s2)"
    using T(1,3) by (simp add: install_page_def v(1) last path)
  moreover have ge: "VIRTUAL_MEMORY_BARRIER \<le> next_page_address s KernelTask"
    unfolding v(1) by (rule barrier_le) (use v(3) paging_invD(3) [OF inv] in simp)
  ultimately have m: "malloc s KernelTask = Some (?v, set_frame_flags ?s2 (Min (free_frames s)) 0b101)" (is "_ = Some (_, ?s3)")
    using malloc_install [OF inv free ge] by (simp add: v(1))
  have "tbl (ram ?s2) (p @ [i]) (cr3 ?s) = Some (?e AND PTE_ADDR)"
    using tbl_wr64_self [OF paging_invD(4) [OF t(2)] T' _ p(2,3), of ?e] p(1) e(1) by simp
  moreover have "?v AND 0xFFF = 0" using page_aligned_add [OF v(2) page_aligned_BARRIER] by (simp add: page_aligned_def)
  moreover have "cr3 s AND PTE_ADDR = cr3 s" by (rule paging_invD(7) [OF inv])
  ultimately have w3: "walk ?s3 ?v = Some (Min (free_frames s))"
    using e(2) by (simp add: walk_def mmu_walk_def path set_frame_flags_def set_frame_def)
  then have "\<not> direct_map ?s3"
    using v(2,3) x by (auto simp: direct_map_def set_frame_flags_def set_frame_def)
  then show ?thesis using m w w3 by (intro exI [of _ ?s3]) (simp add: paging_inv_def)
qed

section \<open>A page behind the direct map\<close>

lemma malloc_kernel:
  assumes inv: "paging_inv s" and free: "4 \<le> card (free_frames s)"
    and v: "VIRTUAL_MEMORY_BARRIER \<le> next_page_address s pid"
    and safe: "safe_mapping s (next_page_address s pid) (Min (free_frames s))"
  obtains s' where "malloc s pid = Some (next_page_address s pid, s')" "paging_inv s'"
    "maps_only s s' (next_page_address s pid) (Some (Min (free_frames s)))"
    "Min (free_frames s) \<in> free_frames s" "\<not> is_table (ram s') (cr3 s) (Min (free_frames s))"
    "frame_kernel s' (Min (free_frames s))" "cr3 s' = cr3 s" "PML4_Physical s' = PML4_Physical s"
    "total_mem s' = total_mem s" "TaskManager s' = TaskManager (add_pages s pid 1)" "cur_pid s' = cur_pid s"
    "\<forall>g. page_aligned g \<and> g < total_mem s \<and> g \<notin> free_frames s \<longrightarrow> frame_of s' g = frame_of s g"
    "\<forall>q. length q = 4 \<and> idx_ok q \<longrightarrow> leaf (ram s') (cr3 s) q =
       (if q = va_path (next_page_address s pid) then Some (new_entry (malloc_page s pid)) else leaf (ram s) (cr3 s) q)"
    "touches_only (branch (ram s) (cr3 s) (hd (va_path (next_page_address s pid))) \<union> free_frames s) (ram s) (ram s')"
    "\<forall>q t. length q \<le> 3 \<and> idx_ok q \<and> tbl (ram s') q (cr3 s) = Some t \<longrightarrow>
       tbl (ram s) q (cr3 s) = Some t \<or> t \<in> free_frames s"
    "free_frames s' \<subseteq> free_frames s" "card (free_frames s) \<le> card (free_frames s') + 4"
    "root_kept (ram s) (ram s') (cr3 s) (hd (va_path (next_page_address s pid)))"
proof -
  let ?v = "next_page_address s pid" and ?f = "Min (free_frames s)" and ?t = "malloc_taken s pid"
    and ?e = "new_entry (malloc_page s pid)"
  have ne: "free_frames s \<noteq> {}" using free by auto
  note t = malloc_taken_inv [OF inv ne] and e = kernel_page_entry [OF inv ne, of pid] and f = free_frame_addr [OF inv t(1)]
  have c3: "3 \<le> card (free_frames ?t)" "card (free_frames s) = card (free_frames ?t) + 1"
    using free t(1) by (simp_all add: t(3) card_Diff_singleton)
  have "\<forall>x. page_aligned x \<and> x < total_mem ?t \<and> va_path (x + VIRTUAL_MEMORY_BARRIER) = va_path ?v \<longrightarrow>
      ?e AND 1 \<noteq> 0 \<and> ?e AND PTE_ADDR = x"
    using safe e by (auto simp: safe_mapping_def)
  then obtain pe s1 s2 where c: "CalculatePagePhysicalEntryAddress ?t (ExtractPageEntries ?v) = Some (pe, s1)" "pe \<noteq> 0"
    "vwrite64 s1 pe ?e = Some s2" "extends 3 ?t s1" "paging_inv s2" "s2 = s1\<lparr>ram := ram s2\<rparr>"
    "\<forall>q. length q = 4 \<and> idx_ok q \<longrightarrow> leaf (ram s2) (cr3 ?t) q =
       (if q = va_path ?v then if ?e AND 1 = 0 then None else Some ?e else leaf (ram ?t) (cr3 ?t) q)"
    "\<forall>q t. length q \<le> 3 \<and> idx_ok q \<and> tbl (ram s2) q (cr3 ?t) = Some t \<longrightarrow>
       tbl (ram ?t) q (cr3 ?t) = Some t \<or> t \<in> free_frames ?t"
    "\<forall>q t. length q \<le> 3 \<and> idx_ok q \<and> tbl (ram ?t) q (cr3 ?t) = Some t \<longrightarrow> tbl (ram s2) q (cr3 ?t) = Some t"
    "touches_only (branch (ram ?t) (cr3 ?t) (hd (va_path ?v)) \<union> free_frames ?t) (ram ?t) (ram s2)"
    "root_kept (ram ?t) (ram s2) (cr3 ?t) (hd (va_path ?v))"
    by (rule set_leaf [OF t(2) c3(1)])
  have i: "install_page ?t (malloc_page s pid) = Some (?v, s2)" using c(1-3) by (simp add: install_page_def)
  define s' where "s' = set_frame_flags s2 ?f 0b101"
  have m: "malloc s pid = Some (?v, s')" unfolding s'_def by (rule malloc_install [OF inv ne v i])
  note same = extends_same [OF c(4)]
  obtain ps where s2: "s2 = s1\<lparr>ram := ps\<rparr>" using c(6) ..
  obtain r1 f1 where s1: "s1 = ?t\<lparr>ram := r1, phys_frames := f1\<rparr>" using c(4) unfolding extends_def by blast
  have fld: "ram s' = ram s2" "cr3 s' = cr3 s" "PML4_Physical s' = PML4_Physical s" "total_mem s' = total_mem s"
    "TaskManager s' = TaskManager (add_pages s pid 1)" "cur_pid s' = cur_pid s"
    by (simp_all add: s'_def s2 same set_frame_flags_def set_frame_def)
      (simp_all add: malloc_taken_def set_frame_flags_def set_frame_def add_pages_def set_mem_def_def)
  have nt: "\<not> is_table (ram s2) (cr3 s) ?f"
  proof
    assume "is_table (ram s2) (cr3 s) ?f"
    then obtain q where q: "length q \<le> 3" "idx_ok q" "tbl (ram s2) q (cr3 s) = Some ?f" by (auto simp: is_table_def)
    then have "tbl (ram s) q (cr3 s) = Some ?f" using c(8) t(3) by auto
    then show False using is_tableI q(1,2) f(4) by blast
  qed
  have fr: "frame_of s' g = (if g = ?f then (frame_of s2 ?f)\<lparr>fr_flags := 0b101\<rparr> else frame_of s1 g)" if "page_aligned g" for g
    using that f(1) by (simp add: s'_def frame_of_set_frame_flags frame_of_ram [OF s2])
  have k: "frame_kernel s' ?f" using fr [OF f(1)] by (simp add: frame_kernel_def)
  have inv': "paging_inv s'"
  proof (rule paging_inv_same_walks [OF c(5)])
    fix u assume u: "is_table (ram s2) (cr3 s2) u"
    have "page_aligned u" using u paging_invD(6) [OF c(5)] by (rule is_table_aligned)
    moreover have "frame_kernel s2 u" using c(5) u by (simp add: paging_inv_def)
    ultimately show "frame_kernel s' u"
      using k by (cases "u = ?f") (simp_all add: frame_kernel_def fr frame_of_ram [OF s2])
  qed (simp_all add: s'_def same_walks_def set_frame_flags_def set_frame_def)
  have lf: "\<forall>q. length q = 4 \<and> idx_ok q \<longrightarrow>
      leaf (ram s') (cr3 s) q = (if q = va_path ?v then Some ?e else leaf (ram s) (cr3 s) q)"
    using c(7) e(1) by (simp add: fld)
  have wl: "walk u a = map_option (\<lambda>e. (e AND PTE_ADDR) OR (a AND 0xFFF)) (leaf (ram u) (cr3 s) (va_path a))"
    if "cr3 u = cr3 s" for u a
    using walk_leaf [of u a] that paging_invD(7) [OF inv] by simp
  have mo: "maps_only s s' ?v (Some ?f)"
    using lf e(2) by (simp add: maps_only_def wl fld)
  have tch: "touches_only (branch (ram s) (cr3 s) (hd (va_path ?v)) \<union> free_frames s) (ram s) (ram s')"
    using touches_mono [OF c(10), of "branch (ram s) (cr3 s) (hd (va_path ?v)) \<union> free_frames s"] t(3) by (simp add: fld) blast
  have ff: "free_frames s' = free_frames s2 - {?f}" unfolding s'_def using free_frames_set_flags [OF f(1), of s2] by simp
  have f2: "free_frames s2 = free_frames s1"
    by (simp add: free_frames_def free_frame_def frame_of_ram [OF s2]) (simp add: s2)
  have ff': "free_frames s' = free_frames s1" using extendsD(7) [OF c(4)] t(3) by (auto simp: ff f2)
  have fo: "frame_of s1 g = frame_of s g" if g: "page_aligned g" "g < total_mem s" "g \<notin> free_frames s" for g
  proof -
    have ng: "g \<noteq> ?f" using g(3) t(1) by blast
    have "frame_of s1 g = frame_of ?t g" using extendsD(4) [OF c(4)] g t(3) by simp
    also have "\<dots> = frame_of (add_pages s pid 1) g"
      using g(1) f(1) ng by (simp add: malloc_taken_def frame_of_set_frame_flags)
    finally show ?thesis by (simp add: frame_of_def add_pages_def set_mem_def_def)
  qed
  show thesis
  proof (rule that [OF m inv' mo t(1) _ k fld(2-6) _ lf tch])
    show "\<not> is_table (ram s') (cr3 s) ?f" using nt by (simp add: fld)
    show "\<forall>g. page_aligned g \<and> g < total_mem s \<and> g \<notin> free_frames s \<longrightarrow> frame_of s' g = frame_of s g"
      using fr fo t(1) by auto
    show "\<forall>q t. length q \<le> 3 \<and> idx_ok q \<and> tbl (ram s') q (cr3 s) = Some t \<longrightarrow>
       tbl (ram s) q (cr3 s) = Some t \<or> t \<in> free_frames s"
      using c(8) t(3) by (auto simp: fld)
    show "free_frames s' \<subseteq> free_frames s" using extendsD(7) [OF c(4)] t(3) by (auto simp: ff')
    show "root_kept (ram s) (ram s') (cr3 s) (hd (va_path ?v))" using c(11) by (simp add: fld)
    show "card (free_frames s) \<le> card (free_frames s') + 4" using extendsD(8) [OF c(4)] c3(2) by (simp add: ff')
  qed
qed

section \<open>Filling the page\<close>

lemma memset_loop_mapped:
  assumes "paging_inv s"
    and "\<forall>i < n. walk s (dst + of_nat i) = Some (D i) \<and> not_in_table s (D i)"
  shows "\<exists>m. memset_loop n s dst b = Some (s\<lparr>ram := m\<rparr>) \<and> paging_inv (s\<lparr>ram := m\<rparr>) \<and>
    (\<forall>a. walk (s\<lparr>ram := m\<rparr>) a = walk s a) \<and> (\<forall>y. not_in_table (s\<lparr>ram := m\<rparr>) y = not_in_table s y) \<and>
    (\<forall>x. m x = (if x \<in> D ` {..<n} then b else ram s x))"
  using assms
proof (induction n arbitrary: s dst D)
  case 0
  then show ?case by (intro exI [of _ "ram s"]) simp
next
  case (Suc n)
  let ?s = "s\<lparr>ram := (ram s)(D 0 := b)\<rparr>"
  have w0: "walk s dst = Some (D 0)" "not_in_table s (D 0)"
    using Suc.prems(2) [THEN spec, of 0] by simp_all
  note b = byte_write_walk [OF Suc.prems(1) w0(2), of b]
  have "walk ?s (dst + 1 + of_nat i) = Some (D (Suc i)) \<and> not_in_table ?s (D (Suc i))" if "i < n" for i
    using Suc.prems(2) that b(2,3) by (auto simp: add.assoc dest!: spec [of _ "Suc i"])
  then obtain m where m: "memset_loop n ?s (dst + 1) b = Some (?s\<lparr>ram := m\<rparr>)" "paging_inv (?s\<lparr>ram := m\<rparr>)"
    "\<forall>a. walk (?s\<lparr>ram := m\<rparr>) a = walk ?s a" "\<forall>y. not_in_table (?s\<lparr>ram := m\<rparr>) y = not_in_table ?s y"
    "\<forall>x. m x = (if x \<in> (\<lambda>i. D (Suc i)) ` {..<n} then b else ram ?s x)"
    using Suc.IH [OF b(1), of "dst + 1" "\<lambda>i. D (Suc i)"] by auto
  have "memset_loop (Suc n) s dst b = Some (s\<lparr>ram := m\<rparr>)" using m(1) w0 by (simp add: vwrite8_def)
  moreover have "m x = (if x \<in> D ` {..<Suc n} then b else ram s x)" for x
    using m(5) by (auto simp: lessThan_Suc_eq_insert_0 image_image)
  moreover have "walk (s\<lparr>ram := m\<rparr>) a = walk s a" "not_in_table (s\<lparr>ram := m\<rparr>) y = not_in_table s y" for a y
    using m(3,4) b(2,3) by simp_all
  moreover have "paging_inv (s\<lparr>ram := m\<rparr>)" using m(2) by simp
  ultimately show ?case by (intro exI [of _ m] conjI allI) assumption+
qed

text \<open>\<open>Create_User_Memory\<close> once its page is there: the page is written three times and ends as the
  upper half of the root of the kernel.\<close>

lemma rd64_zero: "(\<And>k. k < 8 \<Longrightarrow> m (a + k) = 0) \<Longrightarrow> rd64 m a = 0"
  unfolding rd64_def by (subst le64_cong [of _ "\<lambda>_. 0"]) (simp_all add: le64_def)

lemma clone_written:
  assumes inv: "paging_inv s" and A: "A = cr3 s" and f: "page_aligned f" "f < total_mem s" "\<not> is_table (ram s) A f"
    and v: "\<forall>i < 4096. walk s (v + of_nat i) = Some (f + of_nat i)"
  obtains m where "do { t \<leftarrow> memset s v 0 0x1000; t \<leftarrow> memcpy t v (A + VIRTUAL_MEMORY_BARRIER) 0x1000; memset t v 0 0x800 } =
      Some (s\<lparr>ram := m\<rparr>)" "paging_inv (s\<lparr>ram := m\<rparr>)" "\<forall>a. walk (s\<lparr>ram := m\<rparr>) a = walk s a"
    "touches_only {f} (ram s) m" "clone_root m A f"
proof -
  let ?D = "\<lambda>i. f + of_nat i :: u64" and ?S = "\<lambda>i. A + of_nat i :: u64"
  have nt: "not_in_table s (?D i)" if "i < 4096" for i
    unfolding not_in_table_def using f in_page_offset [OF that] by (intro exI [of _ f]) (simp add: A)
  have tA: "is_table (ram s) A A" unfolding A is_table_def by (intro exI [of _ "[]"]) simp
  then have Aa: "page_aligned A" "A < total_mem s"
    using inv paging_invD(6) [OF inv] by (auto simp: paging_inv_def A)
  have Af: "A \<noteq> f" using tA f(3) by auto
  have disj: "?D ` {..<4096} \<inter> ?S ` {..<4096} = {}"
  proof -
    have False if "i < 4096" "j < 4096" "?D i = ?S j" for i j
      using in_page_unique [OF f(1) Aa(1) in_page_offset [OF that(1)]] in_page_offset [OF that(2), of A] that(3) Af by simp
    then show ?thesis by blast
  qed
  have src: "walk s ((A + VIRTUAL_MEMORY_BARRIER) + of_nat i) = Some (?S i)" if "i < 4096" for i
    using direct_map_offset [OF paging_invD(7,5) [OF inv] Aa offset_lt_nat [OF that]] by (simp add: ac_simps)
  obtain m1 where 1: "memset_loop 4096 s v 0 = Some (s\<lparr>ram := m1\<rparr>)" "paging_inv (s\<lparr>ram := m1\<rparr>)"
    "\<forall>a. walk (s\<lparr>ram := m1\<rparr>) a = walk s a" "\<forall>y. not_in_table (s\<lparr>ram := m1\<rparr>) y = not_in_table s y"
    "\<forall>x. m1 x = (if x \<in> ?D ` {..<4096} then 0 else ram s x)"
    using memset_loop_mapped [OF inv, of 4096 v ?D 0] v nt by blast
  obtain m2 where 2: "memcpy_loop 4096 (s\<lparr>ram := m1\<rparr>) v (A + VIRTUAL_MEMORY_BARRIER) = Some (s\<lparr>ram := m2\<rparr>)"
    "paging_inv (s\<lparr>ram := m2\<rparr>)" "\<forall>i < 4096. m2 (?D i) = m1 (?S i)" "\<forall>x. x \<notin> ?D ` {..<4096} \<longrightarrow> m2 x = m1 x"
    using memcpy_loop_mapped [OF 1(2), of 4096 v ?D "A + VIRTUAL_MEMORY_BARRIER" ?S] 1(3,4) v nt src disj page_offset_inj [of f]
    by auto
  have t2: "touches_only {f} (ram s) m2"
    unfolding touches_only_def
  proof (intro allI impI)
    fix x assume "m2 x \<noteq> ram s x"
    then have "x \<in> ?D ` {..<4096}" using 1(5) 2(4) by metis
    then show "\<exists>g \<in> {f}. page_aligned g \<and> in_page g x" using in_page_offset f(1) by auto
  qed
  have ft: "\<forall>t \<in> {f}. \<not> is_table (ram s) (cr3 s) t" using f(3) by (simp add: A)
  note same2 = touches_same_walks [OF t2 paging_invD(6) [OF inv] ft]
  have w2: "walk (s\<lparr>ram := m2\<rparr>) a = walk s a" for a
    by (rule same_walks_walk) (use same2 paging_invD(7) [OF inv] in simp_all)
  have n2: "not_in_table (s\<lparr>ram := m2\<rparr>) y = not_in_table s y" for y
    by (simp add: not_in_table_def same_walks_is_table [OF same2])
  obtain m where 3: "memset_loop 2048 (s\<lparr>ram := m2\<rparr>) v 0 = Some (s\<lparr>ram := m\<rparr>)" "paging_inv (s\<lparr>ram := m\<rparr>)"
    "\<forall>a. walk (s\<lparr>ram := m\<rparr>) a = walk s a" "\<forall>x. m x = (if x \<in> ?D ` {..<2048} then 0 else m2 x)"
    using memset_loop_mapped [OF 2(2), of 2048 v ?D 0] v nt w2 n2 by auto
  have D: "?D i \<in> ?D ` {..<n} \<longleftrightarrow> i < n" if "i < 4096" "n \<le> 4096" for i n
    using that inj_onD [OF page_offset_inj [of f], of i] by force
  have mS: "m (?S i) = ram s (?S i)" "m1 (?S i) = ram s (?S i)" if "i < 4096" for i
  proof -
    have "?S i \<notin> ?D ` {..<4096}" "?S i \<notin> ?D ` {..<2048}" using disj that by force+
    then show "m (?S i) = ram s (?S i)" "m1 (?S i) = ram s (?S i)" using 3(4) 2(4) 1(5) by simp_all
  qed
  have mD: "m (?D i) = (if i < 2048 then 0 else m (?S i))" if "i < 4096" for i
    using that 3(4) 2(3) D [of i 2048] mS by simp
  have split: "entry_at t i + k = t + of_nat (8 * unat i + unat k)" for t i k
    by (simp add: entry_at_def push_bit_eq_mult)
  have root: "clone_root m A f"
    unfolding clone_root_def
  proof (intro allI impI)
    fix i :: u64 assume i: "i < 512"
    have b: "8 * unat i + unat k < 4096" "8 * unat i + unat k < 2048 \<longleftrightarrow> i < 256" if "k < 8" for k :: u64
      using i that by (auto simp: word_less_nat_alt)
    show "rd64 m (entry_at f i) = (if i < 256 then 0 else rd64 m (entry_at A i))"
    proof (cases "i < 256")
      case True
      then have "m (entry_at f i + k) = 0" if "k < 8" for k using mD [OF b(1) [OF that]] b(2) [OF that] True
        unfolding split by (simp del: of_nat_add of_nat_mult)
      then show ?thesis using True by (simp add: rd64_zero)
    next
      case False
      then have "m (entry_at f i + k) = m (entry_at A i + k)" if "k < 8" for k
        using mD [OF b(1) [OF that]] b(2) [OF that] unfolding split by (simp del: of_nat_add of_nat_mult)
      then show ?thesis using False unfolding rd64_def by (auto intro!: le64_cong)
    qed
  qed
  have t: "touches_only {f} (ram s) m"
    unfolding touches_only_def
  proof (intro allI impI)
    fix x assume x: "m x \<noteq> ram s x"
    show "\<exists>g \<in> {f}. page_aligned g \<and> in_page g x"
    proof (cases "x \<in> ?D ` {..<2048}")
      case True
      then show ?thesis using in_page_offset f(1) by auto
    next
      case False
      then show ?thesis using x 3(4) t2 by (simp add: touches_only_def)
    qed
  qed
  show thesis
    by (rule that [OF _ 3(2,3) t root]) (simp add: memset_def memcpy_def 1(1) 2(1) 3(1))
qed

text \<open>The state after \<open>Create_User_Memory\<close>, on the level of the leaves.\<close>

lemma Create_User_Memory_space:
  assumes "paging_inv s" and "4 \<le> card (free_frames s)"
    and "page_aligned (next_page_address s KernelTask)" "VIRTUAL_MEMORY_BARRIER \<le> next_page_address s KernelTask"
    and "safe_mapping s (next_page_address s KernelTask) (Min (free_frames s))"
  obtains s' where "Create_User_Memory s = Some (Min (free_frames s), s')"
    "two_spaces s' (cr3 s) (Min (free_frames s))" "cr3 s' = cr3 s"
    "maps_only s s' (next_page_address s KernelTask) (Some (Min (free_frames s)))"
    "TaskManager s' = TaskManager (add_pages s KernelTask 1)" "total_mem s' = total_mem s"
    "\<forall>q. length q = 4 \<and> idx_ok q \<longrightarrow> leaf (ram s') (Min (free_frames s)) q =
       (if hd q < 256 then None else leaf (ram s') (cr3 s) q)"
    "\<forall>q. length q = 4 \<and> idx_ok q \<and> q \<noteq> va_path (next_page_address s KernelTask) \<longrightarrow>
       leaf (ram s') (cr3 s) q = leaf (ram s) (cr3 s) q"
    "\<forall>g. user_frame s g \<longrightarrow> user_frame s' g" "\<forall>g x. user_frame s g \<and> in_page g x \<longrightarrow> ram s' x = ram s x"
    "card (free_frames s) \<le> card (free_frames s') + 4" "shared_kernel (ram s') (cr3 s) (Min (free_frames s))"
proof -
  let ?v = "next_page_address s KernelTask" and ?f = "Min (free_frames s)"
  obtain s1 where 1: "malloc s KernelTask = Some (?v, s1)" "paging_inv s1" "maps_only s s1 ?v (Some ?f)"
    "?f \<in> free_frames s" "\<not> is_table (ram s1) (cr3 s) ?f" "frame_kernel s1 ?f" "cr3 s1 = cr3 s"
    "PML4_Physical s1 = PML4_Physical s" "total_mem s1 = total_mem s" "TaskManager s1 = TaskManager (add_pages s KernelTask 1)"
    "\<forall>g. page_aligned g \<and> g < total_mem s \<and> g \<notin> free_frames s \<longrightarrow> frame_of s1 g = frame_of s g"
    "\<forall>q. length q = 4 \<and> idx_ok q \<longrightarrow> leaf (ram s1) (cr3 s) q =
       (if q = va_path ?v then Some (new_entry (malloc_page s KernelTask)) else leaf (ram s) (cr3 s) q)"
    "touches_only (branch (ram s) (cr3 s) (hd (va_path ?v)) \<union> free_frames s) (ram s) (ram s1)"
    "\<forall>q t. length q \<le> 3 \<and> idx_ok q \<and> tbl (ram s1) q (cr3 s) = Some t \<longrightarrow>
       tbl (ram s) q (cr3 s) = Some t \<or> t \<in> free_frames s"
    "free_frames s1 \<subseteq> free_frames s" "card (free_frames s) \<le> card (free_frames s1) + 4"
    "root_kept (ram s) (ram s1) (cr3 s) (hd (va_path ?v))"
    by (rule malloc_kernel [OF assms(1,2,4,5)])
  note f = free_frame_addr [OF assms(1) 1(4)]
  have P: "PML4_Physical s = cr3 s" using paging_invD(1) [OF assms(1)] by simp
  have w: "walk s1 (?v + of_nat i) = Some (?f + of_nat i)" if "i < 4096" for i
    using 1(3) page_offset_split [OF assms(3) offset_lt_nat [OF that]] page_plus_or [OF f(1) offset_lt_nat [OF that]]
    by (simp add: maps_only_def)
  have n1: "\<not> is_table (ram s1) (cr3 s1) ?f" and w1: "\<forall>i < 4096. walk s1 (?v + of_nat i) = Some (?f + of_nat i)"
    and l1: "?f < total_mem s1" using 1 w f(2) by simp_all
  obtain m where m: "do { t \<leftarrow> memset s1 ?v 0 0x1000; t \<leftarrow> memcpy t ?v (cr3 s1 + VIRTUAL_MEMORY_BARRIER) 0x1000;
      memset t ?v 0 0x800 } = Some (s1\<lparr>ram := m\<rparr>)"
    "paging_inv (s1\<lparr>ram := m\<rparr>)" "\<forall>a. walk (s1\<lparr>ram := m\<rparr>) a = walk s1 a" "touches_only {?f} (ram s1) m"
    "clone_root m (cr3 s1) ?f"
    by (rule clone_written [OF 1(2) refl f(1) l1 n1 w1])
  have m5: "clone_root m (cr3 s) ?f" using m(5) 1(7) by simp
  define s' where "s' = s1\<lparr>ram := m\<rparr>"
  have "walk s' ?v = Some ?f" using m(3) w [of 0] by (simp add: s'_def)
  then have pa: "phys_addr s' ?v = Some (?f, s')" using m(2) by (intro phys_addr_walk) (simp_all add: s'_def)
  have c: "Create_User_Memory s = Some (?f, s')"
  proof -
    have "PML4_Physical s1 = cr3 s1" using 1(7,8) P by simp
    then show ?thesis using 1(1) m(1) pa
      by (auto simp: Create_User_Memory_def Let_def s'_def elim!: bind_SomeE)
  qed
  have cr: "cr3 s' = cr3 s" "PML4_Physical s' = cr3 s" by (simp_all add: s'_def 1 P)
  have sp: "space s' (cr3 s) = s'" using cr by (simp add: space_def)
  have nt: "\<not> is_table (ram s') (cr3 s) ?f"
    using touches_same_walks [OF m(4), of "cr3 s"] same_walks_is_table 1(5,7) paging_invD(6) [OF 1(2)]
    by (auto simp: s'_def)
  have k: "frame_kernel s' ?f" using 1(6) by (simp add: frame_kernel_def frame_of_def s'_def)
  have two: "two_spaces s' (cr3 s) ?f"
    by (rule clone_space) (use m(2) m5 f k nt in \<open>simp_all add: sp s'_def [symmetric] 1(9)\<close>, simp_all add: s'_def 1(9))
  have fr: "frame_of s' = frame_of s1" "free_frames s' = free_frames s1" "total_mem s' = total_mem s"
    by (simp_all add: s'_def frame_of_def fun_eq_iff free_frames_def free_frame_def 1(9))
  have lf: "leaf (ram s') (cr3 s) q = leaf (ram s1) (cr3 s) q" if "length q = 4" "idx_ok q" for q
    using touches_leaf [OF m(4) paging_invD(6) [OF 1(2)] _ that] 1(5,7) by (simp add: s'_def)
  show thesis
  proof (rule that [OF c two cr(1)])
    show "maps_only s s' ?v (Some ?f)" using 1(3) m(3) by (simp add: maps_only_def s'_def)
    show "TaskManager s' = TaskManager (add_pages s KernelTask 1)" by (simp add: s'_def 1(10))
    show "total_mem s' = total_mem s" by (rule fr(3))
    show "\<forall>q. length q = 4 \<and> idx_ok q \<longrightarrow> leaf (ram s') ?f q = (if hd q < 256 then None else leaf (ram s') (cr3 s) q)"
      using clone_leaf [OF m5] by (simp add: s'_def)
    show "\<forall>q. length q = 4 \<and> idx_ok q \<and> q \<noteq> va_path ?v \<longrightarrow> leaf (ram s') (cr3 s) q = leaf (ram s) (cr3 s) q"
      using lf 1(12) by simp
    show "\<forall>g. user_frame s g \<longrightarrow> user_frame s' g"
      using 1(11,15) by (auto simp: user_frame_def fr frame_kernel_def frame_dirty_def)
    show "shared_kernel (ram s') (cr3 s) ?f" using clone_shared [OF m5] by (simp add: s'_def)
    show "card (free_frames s) \<le> card (free_frames s') + 4" using 1(16) by (simp add: fr)
    show "\<forall>g x. user_frame s g \<and> in_page g x \<longrightarrow> ram s' x = ram s x"
    proof (intro allI impI, elim conjE)
      fix g x assume g: "user_frame s g" "in_page g x"
      have ga: "page_aligned g" "g \<notin> free_frames s" "\<not> is_table (ram s) (cr3 s) g"
        using g(1) assms(1) by (auto simp: user_frame_def paging_inv_def)
      have "ram s1 x = ram s x"
        by (rule touches_outside [OF 1(13) ga(1) _ g(2)]) (use ga branch_table in blast)
      moreover have "ram s' x = ram s1 x"
        unfolding s'_def using touches_outside [OF m(4) ga(1) _ g(2)] ga(2) 1(4) by auto
      ultimately show "ram s' x = ram s x" by simp
    qed
  qed
qed

text \<open>C6. A new address space. When the kernel's next page is none of the direct map (or the one of the
  frame it takes), \<open>Create_User_Memory\<close> returns the lowest free frame as the root of an address space
  that maps nothing in the user half and everything the kernel maps in its own, and that is
  separate from the one the processor is in: what is mapped for users in one never changes a
  table of the other. The only translation that has changed is that of the page the root was
  written through.\<close>

theorem Create_User_Memory_separate:
  assumes "paging_inv s" and "4 \<le> card (free_frames s)"
    and "page_aligned (next_page_address s KernelTask)" "VIRTUAL_MEMORY_BARRIER \<le> next_page_address s KernelTask"
    and "safe_mapping s (next_page_address s KernelTask) (Min (free_frames s))"
  shows "\<exists>s'. Create_User_Memory s = Some (Min (free_frames s), s') \<and>
    two_spaces s' (cr3 s) (Min (free_frames s)) \<and> cr3 s' = cr3 s \<and>
    (\<forall>a. walk (space s' (Min (free_frames s))) a = (if hd (va_path a) < 256 then None else walk s' a)) \<and>
    maps_only s s' (next_page_address s KernelTask) (Some (Min (free_frames s))) \<and>
    TaskManager s' = TaskManager (add_pages s KernelTask 1)"
proof -
  let ?v = "next_page_address s KernelTask" and ?f = "Min (free_frames s)"
  obtain s' where s': "Create_User_Memory s = Some (?f, s')" "two_spaces s' (cr3 s) ?f" "cr3 s' = cr3 s"
    "maps_only s s' ?v (Some ?f)" "TaskManager s' = TaskManager (add_pages s KernelTask 1)"
    "\<forall>q. length q = 4 \<and> idx_ok q \<longrightarrow> leaf (ram s') ?f q = (if hd q < 256 then None else leaf (ram s') (cr3 s) q)"
    by (rule Create_User_Memory_space [OF assms])
  have "cr3 s AND PTE_ADDR = cr3 s" "?f AND PTE_ADDR = ?f"
    using s'(2) paging_invD(7) [of "space s' (cr3 s)"] paging_invD(7) [of "space s' ?f"] by (simp_all add: two_spaces_def)
  then have "walk (space s' ?f) a = (if hd (va_path a) < 256 then None else walk s' a)" for a
    using walk_leaf [of "space s' ?f" a] walk_leaf [of s' a] s'(3,6) by simp
  then show ?thesis using s' by blast
qed

end
