(* ===== verification/Fork_System.thy ===== *)
theory Fork_System
  imports Kernel_Pages Fork_Correct System
begin

text \<open>
  FORK as a whole: the new entry of the task table, the new address space, the two loops that share
  the pages of the parent, and the kernel stack. The steps are followed on the level of the leaves
  of both address spaces.
\<close>

section \<open>The part of the state the address spaces depend on\<close>

definition same_mm :: "kst \<Rightarrow> kst \<Rightarrow> bool" where
  "same_mm s s' \<longleftrightarrow> ram s' = ram s \<and> phys_frames s' = phys_frames s \<and> total_mem s' = total_mem s"

lemma same_mm_updates [simp]:
  "same_mm s (upd_task s p f)" "same_mm s (upd_regs s p g)" "same_mm s (upd_mem s p h)" "same_mm s (say s c)"
  "same_mm s (mem_set_cr3 s a b)" "same_mm s (TASKMGR_set_current s p)"
  by (simp_all add: same_mm_def upd_task_def upd_regs_def upd_mem_def say_def TASKMGR_set_current_def)
    (simp_all add: mem_set_cr3_def mem_sync_cr3_def Let_def)

lemma same_mm_trans: "same_mm s t \<Longrightarrow> same_mm t u \<Longrightarrow> same_mm s u"
  by (simp add: same_mm_def)

lemma same_mm_frames:
  assumes "same_mm s s'"
  shows "frame_of s' = frame_of s" "free_frames s' = free_frames s" "frame_kernel s' = frame_kernel s"
    "user_frame s' = user_frame s"
  using assms
  by (simp_all add: same_mm_def frame_of_def fun_eq_iff free_frames_def free_frame_def frame_kernel_def
      user_frame_def frame_dirty_def)

lemma same_mm_space: "same_mm s s' \<Longrightarrow> paging_inv (space s' A) \<longleftrightarrow> paging_inv (space s A)"
  by (rule paging_inv_cong) (simp_all add: same_mm_def)

lemma same_mm_two_spaces:
  assumes "same_mm s s'"
  shows "two_spaces s' A B \<longleftrightarrow> two_spaces s A B"
proof -
  have "ram s' = ram s" using assms by (simp add: same_mm_def)
  then show ?thesis by (simp only: two_spaces_def same_mm_space [OF assms])
qed

lemma paging_inv_space: "PML4_Physical s = cr3 s \<Longrightarrow> paging_inv (space s (cr3 s)) \<longleftrightarrow> paging_inv s"
  by (rule paging_inv_cong) simp_all

section \<open>Pages of the kernel behind the direct map\<close>

definition beyond_direct_map :: "kst \<Rightarrow> u64 \<Rightarrow> bool" where
  "beyond_direct_map s v \<longleftrightarrow> page_aligned v \<and> VIRTUAL_MEMORY_BARRIER \<le> v \<and>
     total_mem s \<le> v - VIRTUAL_MEMORY_BARRIER \<and> hd (va_path v) = 256"

lemma kernel_half_bits:
  assumes "VIRTUAL_MEMORY_BARRIER \<le> (v :: u64)"
  shows "47 \<le> n \<and> n < 64 \<Longrightarrow> bit v n"
proof -
  have "unat v div 2 ^ 47 = 2 ^ 17 - 1"
  proof -
    have "unat v < 2 ^ 64" using unat_lt_64 [of v] by simp
    moreover have "2 ^ 64 - 2 ^ 47 \<le> unat v" using assms by (simp add: VIRTUAL_MEMORY_BARRIER_def word_le_nat_alt)
    ultimately show ?thesis by simp
  qed
  then have "drop_bit 47 (unat v) = mask 17" by (simp add: drop_bit_eq_div mask_eq_exp_minus_1)
  then have "bit (drop_bit 47 (unat v)) (n - 47) = bit (mask 17 :: nat) (n - 47)" by simp
  then show "47 \<le> n \<and> n < 64 \<Longrightarrow> bit v n" by (simp add: bit_simps) linarith
qed

lemma va_path_bits:
  assumes "va_path v = va_path w" "12 \<le> n" "n < 48"
  shows "bit v n = bit (w :: u64) n"
proof -
  have "drop_bit k v AND 0x1FF = drop_bit k w AND 0x1FF" if "k = 39 \<or> k = 30 \<or> k = 21 \<or> k = 12" for k
    using assms(1) that by (auto simp: va_path_def)
  note * = this
  have m: "(0x1FF :: u64) = mask 9" by (simp add: mask_eq_exp_minus_1)
  have **: "bit v (k + j) = bit w (k + j)" if "k = 39 \<or> k = 30 \<or> k = 21 \<or> k = 12" "j < 9" for k j
  proof -
    have "bit (drop_bit k v AND mask 9) j = bit (drop_bit k w AND mask 9) j" using * [OF that(1)] by (simp only: m)
    then show ?thesis using that(2) by (simp add: bit_simps add.commute)
  qed
  consider "n = 39 + (n - 39)" "n - 39 < 9" | "n = 30 + (n - 30)" "n - 30 < 9" | "n = 21 + (n - 21)" "n - 21 < 9"
    | "n = 12 + (n - 12)" "n - 12 < 9" using assms(2,3) by linarith
  then show ?thesis using ** by cases (metis+)
qed

lemma kernel_half_inj:
  assumes "page_aligned v" "page_aligned w" "VIRTUAL_MEMORY_BARRIER \<le> v" "VIRTUAL_MEMORY_BARRIER \<le> w"
    and "va_path v = va_path w"
  shows "v = w"
proof (rule bit_word_eqI)
  fix n assume "n < LENGTH(64)"
  moreover have "\<not> bit x n" if "page_aligned x" "n < 12" for x :: u64
  proof -
    have "\<not> bit (x AND 0xFFF) n" using that(1) by (simp add: page_aligned_def)
    then show ?thesis using that(2) by (simp add: bit_and_iff mask12_bit)
  qed
  ultimately show "bit v n = bit w n"
    using assms kernel_half_bits va_path_bits [OF assms(5)] by (cases "n < 12"; cases "n < 48") auto
qed

lemma beyond_safe:
  assumes "paging_inv s" "beyond_direct_map s v"
  shows "safe_mapping s v p"
  unfolding safe_mapping_def
proof (intro allI impI, elim conjE)
  fix x assume x: "page_aligned x" "x < total_mem s" "va_path (x + VIRTUAL_MEMORY_BARRIER) = va_path v"
  have "x < 0x800000000000" using x(2) paging_invD(3) [OF assms(1)] by simp
  note b = barrier_le [OF this]
  have "x + VIRTUAL_MEMORY_BARRIER = v"
    by (rule kernel_half_inj [OF page_aligned_add [OF x(1) page_aligned_BARRIER] _ b _ x(3)])
      (use assms(2) in \<open>simp_all add: beyond_direct_map_def\<close>)
  then show "x = p" using x(2) assms(2) by (auto simp: beyond_direct_map_def)
qed

lemma kernel_half_index:
  assumes "VIRTUAL_MEMORY_BARRIER \<le> v"
  shows "256 \<le> hd (va_path v)"
proof (rule ccontr)
  assume "\<not> 256 \<le> hd (va_path v)"
  then have "hd (va_path v) < 2 ^ 8" by simp
  then have "\<not> bit (hd (va_path v)) 8" using small_word_bit [of "hd (va_path v)" 8 8] by (auto simp: word_less_nat_alt)
  moreover have "bit v 47" by (rule kernel_half_bits [OF assms]) simp
  moreover have "bit (0x1FF :: u64) 8" by (simp add: bit_numeral_word_iff)
  ultimately show False by (simp add: va_path_def bit_and_iff bit_drop_bit_eq)
qed

section \<open>Pages the kernel takes while a second address space is at hand\<close>

text \<open>Separate address spaces with the same kernel half, the processor in the first.\<close>

definition twin_spaces :: "kst \<Rightarrow> u64 \<Rightarrow> u64 \<Rightarrow> bool" where
  "twin_spaces s A B \<longleftrightarrow> two_spaces s A B \<and> shared_kernel (ram s) A B"

definition aside :: "kst \<Rightarrow> u64 \<Rightarrow> u64 \<Rightarrow> bool" where
  "aside s A B \<longleftrightarrow> twin_spaces s A B \<and> cr3 s = A \<and> PML4_Physical s = A"

lemma same_mm_twin:
  assumes "same_mm s s'"
  shows "twin_spaces s' A B \<longleftrightarrow> twin_spaces s A B"
  using same_mm_two_spaces [OF assms] assms by (simp add: twin_spaces_def same_mm_def)

lemma asideD:
  assumes "aside s A B"
  shows "paging_inv s" "cr3 s = A" "frame_addr B"
    "i < 256 \<Longrightarrow> t \<in> branch (ram s) B i \<Longrightarrow>
      t < total_mem s \<and> frame_kernel s t \<and> \<not> is_table (ram s) A t \<and> t \<notin> free_frames s"
proof -
  have two: "two_spaces s A B" "cr3 s = A" "PML4_Physical s = A" using assms by (simp_all add: aside_def twin_spaces_def)
  show "paging_inv s" using two paging_inv_space [of s] by (simp add: two_spaces_def)
  show "cr3 s = A" by (rule two)
  show "frame_addr B" using two(1) paging_invD(2) [of "space s B"] by (simp add: two_spaces_def)
  assume i: "i < 256" and t: "t \<in> branch (ram s) B i"
  have "t < total_mem s \<and> frame_kernel s t" using branch_table [OF t] two(1) by (auto simp: two_spaces_def paging_inv_def)
  moreover from this have "t \<notin> free_frames s" using kernel_not_free by blast
  ultimately show "t < total_mem s \<and> frame_kernel s t \<and> \<not> is_table (ram s) A t \<and> t \<notin> free_frames s"
    using two(1) i t by (auto simp: two_spaces_def separate_def)
qed

text \<open>The first table of the kernel half is there: the direct map begins in it.\<close>

lemma kernel_table_present:
  assumes inv: "paging_inv s"
  shows "tbl (ram s) [256] (cr3 s) \<noteq> None"
proof
  assume n: "tbl (ram s) [256] (cr3 s) = None"
  have "is_table (ram s) (cr3 s) (cr3 s)" unfolding is_table_def by (intro exI [of _ "[]"]) simp
  then have "cr3 s < total_mem s" using inv by (auto simp: paging_inv_def)
  then have "0 < total_mem s" by (cases "total_mem s = 0") (auto simp: word_neq_0_conv)
  then have "walk s VIRTUAL_MEMORY_BARRIER = Some 0"
    using paging_invD(5) [OF inv] by (auto simp: direct_map_def page_aligned_def dest!: spec [of _ 0])
  moreover have "va_path VIRTUAL_MEMORY_BARRIER = 256 # [0, 0, 0]" by (simp add: va_path_def VIRTUAL_MEMORY_BARRIER_def)
  moreover have "tbl (ram s) [256, 0, 0, 0] (cr3 s) = None"
    using n by (simp add: tbl_step_def Let_def split: if_splits)
  ultimately show False using paging_invD(7) [OF inv] by (simp add: walk_def mmu_walk_def del: tbl.simps)
qed

lemma touches_branch:
  assumes F: "touches_only F m m'" and r: "page_aligned r" and out: "\<forall>t \<in> branch m r i. t \<notin> F"
  shows "p = [] \<or> hd p = i \<Longrightarrow> length p \<le> 4 \<Longrightarrow> idx_ok p \<Longrightarrow> tbl m' p r = tbl m p r"
proof (induction p rule: rev_induct)
  case (snoc j p)
  have p: "p = [] \<or> hd p = i" "length p \<le> 3" "idx_ok p" "j < 512" using snoc.prems by (cases p; simp)+
  have "Option.bind (tbl m p r) (tbl_step m' j) = Option.bind (tbl m p r) (tbl_step m j)"
  proof (cases "tbl m p r")
    case (Some t)
    have "t \<notin> F" using out branchI [OF Some p(1-3)] by blast
    moreover have "page_aligned t" using Some r by (rule tbl_aligned)
    ultimately have "rd64 m' (entry_at t j) = rd64 m (entry_at t j)" using p(4) by (intro touches_rd64 [OF F])
    then show ?thesis using Some by (simp add: tbl_step_def)
  qed simp
  then show ?case using snoc.IH p by (simp add: tbl_snoc)
qed simp

lemma touches_branch_same:
  assumes F: "touches_only F m m'" and r: "page_aligned r" and out: "\<forall>t \<in> branch m r i. t \<notin> F"
  shows "branch m' r i = branch m r i"
proof -
  have "(p = [] \<or> hd p = i) \<and> length p \<le> 3 \<and> idx_ok p \<and> tbl m' p r = Some t \<longleftrightarrow>
      (p = [] \<or> hd p = i) \<and> length p \<le> 3 \<and> idx_ok p \<and> tbl m p r = Some t" for p t
    using touches_branch [OF assms, of p] by auto
  then show ?thesis unfolding branch_def by simp
qed

lemma touches_branch_leaf:
  assumes F: "touches_only F m m'" and r: "page_aligned r" and out: "\<forall>t \<in> branch m r (hd q). t \<notin> F"
    and q: "length q = 4" "idx_ok q"
  shows "leaf m' r q = leaf m r q"
proof -
  obtain p i where p: "q = p @ [i]" "length p = 3" "idx_ok p" "i < 512" using leaf_path [OF q] .
  have h: "p = [] \<or> hd p = hd q" using p(1,2) by (cases p) simp_all
  have same: "tbl m' p r = tbl m p r" using touches_branch [OF F r out h] p(2,3) by simp
  show ?thesis
  proof (cases "tbl m p r")
    case (Some T)
    have "T \<notin> F" using out branchI [OF Some h] p(2,3) by auto
    moreover have "page_aligned T" using Some r by (rule tbl_aligned)
    ultimately show ?thesis using Some same touches_rd64 [OF F _ _ p(4)] by (simp add: leaf_def p(1))
  qed (use same in \<open>simp add: leaf_def p(1)\<close>)
qed

text \<open>What \<open>n\<close> pages for the kernel leave alone.\<close>

definition kernel_grew :: "nat \<Rightarrow> u64 \<Rightarrow> u64 \<Rightarrow> kst \<Rightarrow> kst \<Rightarrow> bool" where
  "kernel_grew n A B s s' \<longleftrightarrow> aside s' A B \<and> total_mem s' = total_mem s \<and>
     (\<forall>q. length q = 4 \<and> idx_ok q \<and> hd q < 256 \<longrightarrow>
        leaf (ram s') A q = leaf (ram s) A q \<and> leaf (ram s') B q = leaf (ram s) B q) \<and>
     (\<forall>g. user_frame s g \<longrightarrow> user_frame s' g) \<and> (\<forall>g x. user_frame s g \<and> in_page g x \<longrightarrow> ram s' x = ram s x) \<and>
     TaskManager s' = TaskManager (add_pages s KernelTask (of_nat n)) \<and> cur_pid s' = cur_pid s \<and>
     card (free_frames s) \<le> card (free_frames s') + 4 * n"

lemma add_pages_TaskManager:
  "TaskManager (add_pages s p n) = (TaskManager s)(p := (TaskManager s p)\<lparr>MemoryData :=
     (MemoryData (TaskManager s p))\<lparr>PageCount := PageCount (MemoryData (TaskManager s p)) + n\<rparr>\<rparr>)"
  by (simp add: add_pages_def set_mem_def_def task_mem_def)

lemma kernel_grew_0: "aside s A B \<Longrightarrow> kernel_grew 0 A B s s"
  by (simp add: kernel_grew_def add_pages_TaskManager)

lemma kernel_grew_trans:
  assumes "kernel_grew m A B s t" "kernel_grew n A B t u"
  shows "kernel_grew (m + n) A B s u"
proof -
  have "TaskManager u = TaskManager (add_pages s KernelTask (of_nat (m + n)))"
    using assms by (simp add: kernel_grew_def add_pages_TaskManager add.assoc)
  moreover have "ram u x = ram s x" if "user_frame s g" "in_page g x" for g x
    using assms that unfolding kernel_grew_def by metis
  ultimately show ?thesis using assms by (auto simp: kernel_grew_def)
qed

lemma kernel_grew_next:
  "kernel_grew n A B s s' \<Longrightarrow> next_page_address s' KernelTask = next_page_address s KernelTask + of_nat n * 0x1000"
  by (simp add: kernel_grew_def next_page_address_def task_mem_def add_pages_TaskManager algebra_simps)

lemma malloc_grows:
  assumes a: "aside s A B" and free: "4 \<le> card (free_frames s)"
    and v: "beyond_direct_map s (next_page_address s KernelTask)"
  obtains s' where "malloc s KernelTask = Some (next_page_address s KernelTask, s')" "kernel_grew 1 A B s s'"
proof -
  let ?v = "next_page_address s KernelTask"
  note inv = asideD(1) [OF a] and cr = asideD(2) [OF a] and user = asideD(4) [OF a]
  have Ba: "page_aligned B" using asideD(3) [OF a] by (rule frame_addr_aligned)
  have vb: "VIRTUAL_MEMORY_BARRIER \<le> ?v" and hi: "hd (va_path ?v) = 256"
    using v by (simp_all add: beyond_direct_map_def)
  have sh: "two_spaces s A B" "shared_kernel (ram s) A B" "PML4_Physical s = A" using a by (simp_all add: aside_def twin_spaces_def)
  obtain s' where 1: "malloc s KernelTask = Some (?v, s')" "paging_inv s'" "cr3 s' = cr3 s" "total_mem s' = total_mem s"
    "TaskManager s' = TaskManager (add_pages s KernelTask 1)" "cur_pid s' = cur_pid s"
    and fr: "\<forall>g. page_aligned g \<and> g < total_mem s \<and> g \<notin> free_frames s \<longrightarrow> frame_of s' g = frame_of s g"
    and lf: "\<forall>q. length q = 4 \<and> idx_ok q \<longrightarrow> leaf (ram s') (cr3 s) q =
       (if q = va_path ?v then Some (new_entry (malloc_page s KernelTask)) else leaf (ram s) (cr3 s) q)"
    and tch: "touches_only (branch (ram s) (cr3 s) (hd (va_path ?v)) \<union> free_frames s) (ram s) (ram s')"
    and old: "\<forall>q t. length q \<le> 3 \<and> idx_ok q \<and> tbl (ram s') q (cr3 s) = Some t \<longrightarrow>
       tbl (ram s) q (cr3 s) = Some t \<or> t \<in> free_frames s"
    and ff: "free_frames s' \<subseteq> free_frames s" "card (free_frames s) \<le> card (free_frames s') + 4"
    and root: "root_kept (ram s) (ram s') (cr3 s) (hd (va_path ?v))" and pml: "PML4_Physical s' = PML4_Physical s"
    by (rule malloc_kernel [OF inv free vb beyond_safe [OF inv v]])
  have sep: "\<not> is_table (ram s) A t" "t \<notin> free_frames s" if "t \<in> branch (ram s) B i" "i < 256" for t i
    using user [OF that(2,1)] by simp_all
  have out: "\<forall>t \<in> branch (ram s) B i. t \<notin> branch (ram s) (cr3 s) (hd (va_path ?v)) \<union> free_frames s" if "i < 256" for i
    using sep [OF _ that] branch_table cr by blast
  have br: "branch (ram s') B i = branch (ram s) B i" if "i < 256" for i
    by (rule touches_branch_same [OF tch Ba out [OF that]])
  have tab: "is_table (ram s) A t \<or> t \<in> free_frames s" if "is_table (ram s') A t" for t
    using that old by (auto simp: is_table_def cr)
  have A: "space s' A = s'" using 1(3) pml sh(3) cr by (simp add: space_def)
  have "rd64 (ram s') (entry_at A j) = rd64 (ram s) (entry_at A j)" if "j < 512" for j
    using root kernel_table_present [OF inv] that unfolding root_kept_def hi cr by blast
  moreover have "rd64 (ram s') (entry_at B j) = rd64 (ram s) (entry_at B j)" if "j < 512" for j
    by (rule touches_rd64 [OF tch Ba _ that]) (use out [of 0] branchI [of "ram s" "[]" B B 0] in simp)
  ultimately have sh': "shared_kernel (ram s') A B" by (intro shared_kernel_step [OF sh(2)])
  have "two_spaces s' A B"
  proof (rule shared_space [OF _ sh' asideD(3) [OF a]])
    show "paging_inv (space s' A)" using 1(2) by (simp add: A)
  next
    fix i t assume i: "i < (256 :: u64)" "t \<in> branch (ram s') B i"
    then have t: "t \<in> branch (ram s) B i" using br by simp
    note u = user [OF i(1) t]
    have "page_aligned t" using is_table_aligned [OF branch_table [OF t] Ba] .
    then have "frame_of s' t = frame_of s t" using fr u by simp
    then show "t < total_mem s' \<and> frame_kernel s' t \<and> \<not> is_table (ram s') A t"
      using u 1(4) tab by (auto simp: frame_kernel_def)
  next
    fix p q t assume pq: "user_path p" "user_path q" "length p \<le> 3" "length q \<le> 3" "idx_ok p" "idx_ok q"
      "tbl (ram s') p B = Some t" "tbl (ram s') q B = Some t"
    have "tbl (ram s') p B = tbl (ram s) p B" if "user_path p" "length p \<le> 3" "idx_ok p" for p
      using touches_branch [OF tch Ba out, of "if p = [] then 0 else hd p" p] that by (auto simp: user_path_def)
    then have "tbl (ram s) p B = Some t" "tbl (ram s) q B = Some t" using pq by simp_all
    then show "p = q" using pt_treeD [OF paging_invD(4), of "space s B"] sh(1) pq(3-6) by (auto simp: two_spaces_def)
  qed
  then have "aside s' A B" using sh' 1(3) pml cr sh(3) by (simp add: aside_def twin_spaces_def)
  moreover have "leaf (ram s') A q = leaf (ram s) A q \<and> leaf (ram s') B q = leaf (ram s) B q"
    if q: "length q = 4" "idx_ok q" "hd q < 256" for q
  proof -
    have "q \<noteq> va_path ?v" using q(3) hi by auto
    then show ?thesis using lf q touches_branch_leaf [OF tch Ba out [OF q(3)]] cr by auto
  qed
  moreover have "user_frame s' g" if "user_frame s g" for g
    using that fr ff(1) 1(4) by (auto simp: user_frame_def frame_kernel_def frame_dirty_def)
  moreover have "ram s' x = ram s x" if g: "user_frame s g" "in_page g x" for g x
  proof (rule touches_outside [OF tch _ _ g(2)])
    show "page_aligned g" using g(1) by (simp add: user_frame_def)
    have "\<not> is_table (ram s) (cr3 s) g" "g \<notin> free_frames s" using g(1) inv by (auto simp: user_frame_def paging_inv_def)
    then show "g \<notin> branch (ram s) (cr3 s) (hd (va_path ?v)) \<union> free_frames s" using branch_table by blast
  qed
  ultimately have "kernel_grew 1 A B s s'" using 1(4-6) ff(2) by (auto simp: kernel_grew_def)
  then show thesis by (rule that [OF 1(1)])
qed

lemma malloc_grows_more:
  assumes g: "kernel_grew n A B s t" and free: "4 * (n + 1) \<le> card (free_frames s)"
    and v: "beyond_direct_map s (next_page_address s KernelTask + of_nat n * 0x1000)"
  obtains u where "malloc t KernelTask = Some (next_page_address s KernelTask + of_nat n * 0x1000, u)"
    "kernel_grew (n + 1) A B s u"
proof -
  have t: "aside t A B" "total_mem t = total_mem s" "card (free_frames s) \<le> card (free_frames t) + 4 * n"
    using g by (simp_all add: kernel_grew_def)
  note nx = kernel_grew_next [OF g]
  obtain u where u: "malloc t KernelTask = Some (next_page_address t KernelTask, u)" "kernel_grew 1 A B t u"
    by (rule malloc_grows [OF t(1)]) (use t free v nx in \<open>simp_all add: beyond_direct_map_def\<close>)
  show thesis by (rule that [OF _ kernel_grew_trans [OF g u(2)]]) (use u(1) nx in simp)
qed

lemma aside_upd_mem: "aside s A B \<Longrightarrow> aside (upd_mem s p f) A B"
  using same_mm_twin [of s "upd_mem s p f" A B] by (simp add: aside_def)

text \<open>The kernel stack of the child.\<close>

lemma make_kernel_stack_grows:
  assumes a: "aside s A B" and free: "20 \<le> card (free_frames s)" and p: "pid \<noteq> KernelTask"
    and v: "\<forall>i < 5. beyond_direct_map s (next_page_address s KernelTask + of_nat i * 0x1000)"
  obtains u where
    "make_kernel_stack pid s = Some (next_page_address s KernelTask + 0x4000,
       upd_mem u pid (\<lambda>m. m\<lparr>KernelStackBaseVirtualAddress := next_page_address s KernelTask + 0x4000\<rparr>))"
    "kernel_grew 5 A B (upd_mem s pid (\<lambda>m. m\<lparr>KernelStackPageCount := 5\<rparr>)) u"
proof -
  define t where "t = upd_mem s pid (\<lambda>m. m\<lparr>KernelStackPageCount := 5\<rparr>)"
  let ?v = "next_page_address s KernelTask"
  have n: "next_page_address t KernelTask = ?v"
    using p by (simp add: t_def next_page_address_def task_mem_def upd_mem_def upd_task_def)
  have same: "free_frames t = free_frames s" "total_mem t = total_mem s"
    using same_mm_frames(2) [of s t] by (simp_all add: t_def) (simp add: upd_mem_def upd_task_def)
  have b: "beyond_direct_map t (next_page_address t KernelTask + of_nat i * 0x1000)" if "i < 5" for i
    using v that same(2) by (simp add: n beyond_direct_map_def)
  have g0: "kernel_grew 0 A B t t" unfolding t_def by (rule kernel_grew_0 [OF aside_upd_mem [OF a]])
  obtain t1 where 1: "malloc t KernelTask = Some (?v + of_nat 0 * 0x1000, t1)" "kernel_grew (0 + 1) A B t t1"
    using malloc_grows_more [OF g0 _ b, unfolded n] free same(1) by auto
  obtain t2 where 2: "malloc t1 KernelTask = Some (?v + of_nat (0 + 1) * 0x1000, t2)" "kernel_grew (0 + 1 + 1) A B t t2"
    using malloc_grows_more [OF 1(2) _ b, unfolded n] free same(1) by auto
  obtain t3 where 3: "malloc t2 KernelTask = Some (?v + of_nat (0 + 1 + 1) * 0x1000, t3)" "kernel_grew (0 + 1 + 1 + 1) A B t t3"
    using malloc_grows_more [OF 2(2) _ b, unfolded n] free same(1) by auto
  obtain t4 where 4: "malloc t3 KernelTask = Some (?v + of_nat (0 + 1 + 1 + 1) * 0x1000, t4)"
    "kernel_grew (0 + 1 + 1 + 1 + 1) A B t t4"
    using malloc_grows_more [OF 3(2) _ b, unfolded n] free same(1) by auto
  obtain t5 where 5: "malloc t4 KernelTask = Some (?v + of_nat (0 + 1 + 1 + 1 + 1) * 0x1000, t5)"
    "kernel_grew (0 + 1 + 1 + 1 + 1 + 1) A B t t5"
    using malloc_grows_more [OF 4(2) _ b, unfolded n] free same(1) by auto
  show thesis
  proof (rule that)
    show "make_kernel_stack pid s = Some (?v + 0x4000,
        upd_mem t5 pid (\<lambda>m. m\<lparr>KernelStackBaseVirtualAddress := ?v + 0x4000\<rparr>))"
      using 1(1) 2(1) 3(1) 4(1) 5(1) by (simp add: make_kernel_stack_def Let_def t_def)
    show "kernel_grew 5 A B (upd_mem s pid (\<lambda>m. m\<lparr>KernelStackPageCount := 5\<rparr>)) t5"
    proof -
      have "(0 + 1 + 1 + 1 + 1 + 1 :: nat) = 5" by simp
      then show ?thesis using 5(2) by (simp only: t_def)
    qed
  qed
qed

section \<open>The new task\<close>

lemma RegisterTask_free:
  assumes "FindFreePID s = c" "c \<noteq> TASK_COUNT + 1"
  shows "RegisterTask s b e n m st pml4 =
    (c, upd_task (say s (VirtualPrint KERNEL_T ''[task.reg] reg'')) c (\<lambda>_. new_task b e n m st pml4))"
proof -
  have "FindFreePID (say s x) = FindFreePID s" for x by (simp add: FindFreePID_def say_def)
  then show ?thesis using assms by (simp add: RegisterTask_def Let_def)
qed

lemma fork_child_space:
  fixes cur :: int and regs :: regs
  assumes inv: "paging_inv s" and free: "4 \<le> card (free_frames s)" and c: "child \<noteq> KernelTask"
    and v: "beyond_direct_map s (next_page_address s KernelTask)"
  defines "B \<equiv> Min (free_frames s)"
    and "t0 \<equiv> (TaskManager s cur)\<lparr>SavedRegisters := regs\<lparr>rg_rax := 0\<rparr>,
       ProcessID := word_of_int child, ProcessState := CREATION_PROCESS_STATE, task_Exists := True\<rparr>"
  obtains s' where "fork_child cur child regs s = Some s'" "twin_spaces s' (cr3 s) B" "cr3 s' = cr3 s"
    "total_mem s' = total_mem s"
    "TaskManager s' = (TaskManager (add_pages s KernelTask 1))(child := t0\<lparr>Base_PML4 := B, Owner_PID := cur\<rparr>)"
    "\<forall>q. length q = 4 \<and> idx_ok q \<and> hd q < 256 \<longrightarrow>
       leaf (ram s') (cr3 s) q = leaf (ram s) (cr3 s) q \<and> leaf (ram s') B q = None"
    "\<forall>g. user_frame s g \<longrightarrow> user_frame s' g" "\<forall>g x. user_frame s g \<and> in_page g x \<longrightarrow> ram s' x = ram s x"
    "card (free_frames s) \<le> card (free_frames s') + 4"
proof -
  define u where "u = upd_task s child (\<lambda>_. t0)"
  have mm: "same_mm s u" by (simp add: u_def)
  have cr: "cr3 u = cr3 s" "PML4_Physical u = PML4_Physical s" "ram u = ram s" "total_mem u = total_mem s"
    by (simp_all add: u_def upd_task_def)
  have n: "next_page_address u KernelTask = next_page_address s KernelTask"
    using c by (simp add: u_def next_page_address_def task_mem_def upd_task_def)
  note fr = same_mm_frames [OF mm]
  have invu: "paging_inv u" using inv mm paging_inv_cong [of u s] cr by (simp add: same_mm_def)
  note al = v [unfolded beyond_direct_map_def, THEN conjunct1] v [unfolded beyond_direct_map_def, THEN conjunct2, THEN conjunct1]
  obtain w where w: "Create_User_Memory u = Some (B, w)" "two_spaces w (cr3 s) B" "cr3 w = cr3 s"
    "maps_only u w (next_page_address s KernelTask) (Some B)" "TaskManager w = TaskManager (add_pages u KernelTask 1)"
    and tm: "total_mem w = total_mem s"
    and l1: "\<forall>q. length q = 4 \<and> idx_ok q \<longrightarrow> leaf (ram w) B q = (if hd q < 256 then None else leaf (ram w) (cr3 s) q)"
    and l2: "\<forall>q. length q = 4 \<and> idx_ok q \<and> q \<noteq> va_path (next_page_address s KernelTask) \<longrightarrow>
       leaf (ram w) (cr3 s) q = leaf (ram s) (cr3 s) q"
    and uf: "\<forall>g. user_frame s g \<longrightarrow> user_frame w g" "\<forall>g x. user_frame s g \<and> in_page g x \<longrightarrow> ram w x = ram s x"
    and ca: "card (free_frames s) \<le> card (free_frames w) + 4" and sk: "shared_kernel (ram w) (cr3 s) B"
    by (rule Create_User_Memory_space [of u])
      (use invu free al beyond_safe [OF inv v] in \<open>simp_all add: fr cr n B_def safe_mapping_def\<close>)
  define s' where "s' = upd_task w child (\<lambda>t. t\<lparr>Base_PML4 := B, Owner_PID := cur\<rparr>)"
  have mm': "same_mm w s'" by (simp add: s'_def)
  have f: "ram s' = ram w" "cr3 s' = cr3 w" "total_mem s' = total_mem w" by (simp_all add: s'_def upd_task_def)
  show thesis
  proof (rule that)
    show "fork_child cur child regs s = Some s'"
      using w(1) by (simp add: fork_child_def Let_def u_def t0_def s'_def)
    show "twin_spaces s' (cr3 s) B" using w(2) sk same_mm_twin [OF mm'] by (simp add: twin_spaces_def)
    show "cr3 s' = cr3 s" by (simp add: f w(3))
    show "TaskManager s' = (TaskManager (add_pages s KernelTask 1))(child := t0\<lparr>Base_PML4 := B, Owner_PID := cur\<rparr>)"
      using c by (auto simp: s'_def upd_task_def w(5) add_pages_TaskManager u_def fun_eq_iff)
    show "\<forall>q. length q = 4 \<and> idx_ok q \<and> hd q < 256 \<longrightarrow>
       leaf (ram s') (cr3 s) q = leaf (ram s) (cr3 s) q \<and> leaf (ram s') B q = None"
    proof (intro allI impI, elim conjE)
      fix q :: "u64 list" assume q: "length q = 4" "idx_ok q" "hd q < 256"
      then have "q \<noteq> va_path (next_page_address s KernelTask)" using kernel_half_index [OF al(2)] by auto
      then show "leaf (ram s') (cr3 s) q = leaf (ram s) (cr3 s) q \<and> leaf (ram s') B q = None"
        using l1 l2 q by (simp add: f)
    qed
    show "total_mem s' = total_mem s" using tm by (simp add: f)
  qed (use uf ca same_mm_frames [OF mm'] in \<open>simp_all add: f\<close>)
qed

section \<open>The two loops\<close>

definition forkable :: "kst \<Rightarrow> u64 \<Rightarrow> nat \<Rightarrow> u64 \<Rightarrow> u64 \<Rightarrow> bool" where
  "forkable s A n step start \<longleftrightarrow> (\<forall>i < n. start + of_nat i * step < 0x800000000000 \<and>
     (\<exists>e. leaf (ram s) A (va_path (start + of_nat i * step)) = Some e \<and> user_frame s (e AND PTE_ADDR)))"

text \<open>A page stays forkable when the leaves of the user half keep their frames.\<close>

lemma forkable_mono:
  assumes f: "forkable s A n step start"
    and l: "\<And>q e. length q = 4 \<Longrightarrow> idx_ok q \<Longrightarrow> hd q < 256 \<Longrightarrow> leaf (ram s) A q = Some e \<Longrightarrow>
      \<exists>e'. leaf (ram s') A q = Some e' \<and> e' AND PTE_ADDR = e AND PTE_ADDR"
    and u: "\<forall>g. user_frame s g \<longrightarrow> user_frame s' g"
  shows "forkable s' A n step start"
  unfolding forkable_def
proof (intro allI impI)
  fix i assume "i < n"
  then obtain e where v: "start + of_nat i * step < 0x800000000000"
    and e: "leaf (ram s) A (va_path (start + of_nat i * step)) = Some e" "user_frame s (e AND PTE_ADDR)"
    using f by (auto simp: forkable_def)
  obtain e' where "leaf (ram s') A (va_path (start + of_nat i * step)) = Some e'" "e' AND PTE_ADDR = e AND PTE_ADDR"
    using l [OF _ _ user_index [OF v] e(1)] by auto
  then show "start + of_nat i * step < 0x800000000000 \<and>
     (\<exists>e. leaf (ram s') A (va_path (start + of_nat i * step)) = Some e \<and> user_frame s' (e AND PTE_ADDR))"
    using v e(2) u by auto
qed

lemma forkable_paths: "forkable s A n step start \<Longrightarrow> q \<in> page_paths n step start \<Longrightarrow> leaf (ram s) A q \<noteq> None \<and> hd q < 256"
  by (auto simp: forkable_def page_paths_def user_index)

lemma fork_loops:
  assumes two: "twin_spaces s A B" and ne: "cur \<noteq> child"
    and base: "Base_PML4 (TaskManager s cur) = A" "Base_PML4 (TaskManager s child) = B"
    and n: "forkable s A n 0x1000 b" and k: "forkable s A k (- 0x1000) st"
    and free: "3 * (n + k) \<le> card (free_frames s)"
  obtains s1 s2 where "fork_pages n cur child 0x1000 b s = Some s1" "TaskManager s1 = TaskManager s"
    "fork_pages k cur child (- 0x1000) st (upd_mem s1 child f) = Some s2" "twin_spaces s2 A B"
    "TaskManager s2 = TaskManager (upd_mem s child f)" "total_mem s2 = total_mem s"
    "\<forall>q. length q = 4 \<and> idx_ok q \<longrightarrow>
       (if q \<in> page_paths n 0x1000 b \<union> page_paths k (- 0x1000) st
        then leaf (ram s2) A q = map_option shared_entry (leaf (ram s) A q) \<and>
             leaf (ram s2) B q = map_option child_entry (leaf (ram s) A q)
        else leaf (ram s2) A q = leaf (ram s) A q \<and> leaf (ram s2) B q = leaf (ram s) B q)"
    "\<forall>g. user_frame s g \<longrightarrow> user_frame s2 g" "\<forall>g x. user_frame s g \<and> in_page g x \<longrightarrow> ram s2 x = ram s x"
    "card (free_frames s) \<le> card (free_frames s2) + 3 * (n + k)"
proof -
  let ?P = "page_paths n 0x1000 b" and ?K = "page_paths k (- 0x1000) st"
  obtain s1 where 1: "fork_pages n cur child 0x1000 b s = Some s1" "twin_spaces s1 A B"
    "TaskManager s1 = TaskManager s" "total_mem s1 = total_mem s"
    "\<forall>g. user_frame s g \<longrightarrow> user_frame s1 g" "\<forall>g x. user_frame s g \<and> in_page g x \<longrightarrow> ram s1 x = ram s x"
    "card (free_frames s) \<le> card (free_frames s1) + 3 * n"
    and l1: "\<forall>q. length q = 4 \<and> idx_ok q \<longrightarrow>
       leaf (ram s1) A q = (if q \<in> ?P then map_option shared_entry (leaf (ram s) A q) else leaf (ram s) A q) \<and>
       leaf (ram s1) B q = (if q \<in> ?P then map_option child_entry (leaf (ram s) A q) else leaf (ram s) B q)"
    using fork_pages_spec [OF two [unfolded twin_spaces_def, THEN conjunct1] base, of n b "0x1000"] two n free
    by (auto simp: forkable_def twin_spaces_def)
  define t where "t = upd_mem s1 child f"
  have mm: "same_mm s1 t" by (simp add: t_def)
  have r: "ram t = ram s1" "total_mem t = total_mem s1" using mm by (simp_all add: same_mm_def)
  note fr = same_mm_frames [OF mm]
  have two1: "twin_spaces t A B" using 1(2) same_mm_twin [OF mm] by simp
  have base1: "Base_PML4 (TaskManager t cur) = A" "Base_PML4 (TaskManager t child) = B"
    using base ne by (simp_all add: t_def upd_mem_def upd_task_def 1(3))
  have k1: "forkable t A k (- 0x1000) st"
    by (rule forkable_mono [OF k]) (use l1 1(5) in \<open>auto simp: r fr shared_entry_frame\<close>)
  obtain s2 where 2: "fork_pages k cur child (- 0x1000) st t = Some s2" "twin_spaces s2 A B"
    "TaskManager s2 = TaskManager t" "total_mem s2 = total_mem t"
    "\<forall>g. user_frame t g \<longrightarrow> user_frame s2 g" "\<forall>g x. user_frame t g \<and> in_page g x \<longrightarrow> ram s2 x = ram t x"
    "card (free_frames t) \<le> card (free_frames s2) + 3 * k"
    and l2: "\<forall>q. length q = 4 \<and> idx_ok q \<longrightarrow>
       leaf (ram s2) A q = (if q \<in> ?K then map_option shared_entry (leaf (ram t) A q) else leaf (ram t) A q) \<and>
       leaf (ram s2) B q = (if q \<in> ?K then map_option child_entry (leaf (ram t) A q) else leaf (ram t) B q)"
    using fork_pages_spec [OF two1 [unfolded twin_spaces_def, THEN conjunct1] base1, of k st "- 0x1000"] two1 k1 free 1(7)
    by (auto simp: forkable_def fr twin_spaces_def)
  show thesis
  proof (rule that)
    show "fork_pages n cur child 0x1000 b s = Some s1" "TaskManager s1 = TaskManager s" by (rule 1)+
    show "fork_pages k cur child (- 0x1000) st (upd_mem s1 child f) = Some s2" using 2(1) by (simp add: t_def)
    show "twin_spaces s2 A B" by (rule 2)
    show "TaskManager s2 = TaskManager (upd_mem s child f)" by (simp add: 2(3) t_def upd_mem_def upd_task_def 1(3))
    show "total_mem s2 = total_mem s" by (simp add: 2(4) r 1(4))
    show "\<forall>q. length q = 4 \<and> idx_ok q \<longrightarrow>
       (if q \<in> ?P \<union> ?K
        then leaf (ram s2) A q = map_option shared_entry (leaf (ram s) A q) \<and>
             leaf (ram s2) B q = map_option child_entry (leaf (ram s) A q)
        else leaf (ram s2) A q = leaf (ram s) A q \<and> leaf (ram s2) B q = leaf (ram s) B q)"
      using l1 l2 by (auto simp: r option.map_comp comp_def shared_entry_idem)
    show "\<forall>g. user_frame s g \<longrightarrow> user_frame s2 g" using 1(5) 2(5) by (simp add: fr)
    show "\<forall>g x. user_frame s g \<and> in_page g x \<longrightarrow> ram s2 x = ram s x"
      using 1(5,6) 2(6) by (metis fr(4) r(1))
    show "card (free_frames s) \<le> card (free_frames s2) + 3 * (n + k)" using 1(7) 2(7) by (simp add: fr)
  qed
qed

text \<open>FORK up to the loops.\<close>

lemma fork_new_task:
  fixes regs :: regs
  assumes inv: "paging_inv s" and cr: "Base_PML4 (TaskManager s cur) = cr3 s"
    and c: "FindFreePID s = child" "child \<noteq> TASK_COUNT + 1" and ne: "child \<noteq> cur" "child \<noteq> KernelTask" "cur \<noteq> KernelTask"
    and v: "beyond_direct_map s (next_page_address s KernelTask)" and free: "4 \<le> card (free_frames s)"
  defines "s0 \<equiv> say s (VirtualPrint KERNEL_T ''[syscall] fork'')"
    and "B \<equiv> Min (free_frames s)"
  obtains s1 s2 s3 where
    "RegisterTask s0 (BaseVirtualAddress (MemoryData (TaskManager s0 cur))) (rg_rip regs)
      (PageCount (MemoryData (TaskManager s0 cur))) (MaxTicks (TaskManager s0 cur)) (rg_rbp regs)
      (Base_PML4 (TaskManager s0 cur)) = (child, s1)"
    "fork_child cur child regs s1 = Some s2" "upd_regs s2 cur (\<lambda>r. r\<lparr>rg_rax := word_of_int child\<rparr>) = s3"
    "twin_spaces s3 (cr3 s) B" "total_mem s3 = total_mem s" "task_mem s3 cur = task_mem s cur"
    "Base_PML4 (TaskManager s3 cur) = cr3 s" "Base_PML4 (TaskManager s3 child) = B"
    "SavedRegisters (TaskManager s3 child) = regs\<lparr>rg_rax := 0\<rparr>"
    "next_page_address s3 KernelTask = next_page_address s KernelTask + 0x1000"
    "\<forall>q. length q = 4 \<and> idx_ok q \<and> hd q < 256 \<longrightarrow>
       leaf (ram s3) (cr3 s) q = leaf (ram s) (cr3 s) q \<and> leaf (ram s3) B q = None"
    "\<forall>g. user_frame s g \<longrightarrow> user_frame s3 g" "\<forall>g x. user_frame s g \<and> in_page g x \<longrightarrow> ram s3 x = ram s x"
    "card (free_frames s) \<le> card (free_frames s3) + 4"
proof -
  let ?A = "cr3 s" and ?m = "task_mem s cur"
  define nt where "nt = new_task (BaseVirtualAddress ?m) (rg_rip regs) (PageCount ?m) (MaxTicks (TaskManager s cur))
    (rg_rbp regs) ?A"
  define s1 where "s1 = upd_task (say s0 (VirtualPrint KERNEL_T ''[task.reg] reg'')) child (\<lambda>_. nt)"
  have s0: "TaskManager s0 = TaskManager s" "FindFreePID s0 = child" using c(1) by (simp_all add: s0_def say_def FindFreePID_def)
  have R: "RegisterTask s0 (BaseVirtualAddress (MemoryData (TaskManager s0 cur))) (rg_rip regs)
      (PageCount (MemoryData (TaskManager s0 cur))) (MaxTicks (TaskManager s0 cur)) (rg_rbp regs)
      (Base_PML4 (TaskManager s0 cur)) = (child, s1)"
    using RegisterTask_free [OF s0(2) c(2)] by (simp add: s1_def nt_def s0(1) cr task_mem_def)
  have mm1: "same_mm s s1"
    unfolding s1_def s0_def by (rule same_mm_trans [OF same_mm_updates(4) same_mm_trans [OF same_mm_updates(4,1)]])
  have f1: "cr3 s1 = ?A" "PML4_Physical s1 = PML4_Physical s" "ram s1 = ram s" "total_mem s1 = total_mem s"
    "TaskManager s1 = (TaskManager s)(child := nt)"
    by (simp_all add: s1_def s0_def upd_task_def say_def)
  note fr1 = same_mm_frames [OF mm1]
  have inv1: "paging_inv s1" using inv mm1 paging_inv_cong [of s1 s] f1 by (simp add: same_mm_def)
  have n1: "next_page_address s1 KernelTask = next_page_address s KernelTask"
    using ne(2) by (simp add: next_page_address_def task_mem_def f1(5))
  have v1: "beyond_direct_map s1 (next_page_address s1 KernelTask)"
    using v by (simp add: n1 beyond_direct_map_def f1(4))
  obtain s2 t0 where 2: "fork_child cur child regs s1 = Some s2" "twin_spaces s2 ?A B"
    "total_mem s2 = total_mem s" "TaskManager s2 = (TaskManager (add_pages s1 KernelTask 1))(child := t0)"
    "Base_PML4 t0 = B" "SavedRegisters t0 = regs\<lparr>rg_rax := 0\<rparr>"
    "\<forall>q. length q = 4 \<and> idx_ok q \<and> hd q < 256 \<longrightarrow>
       leaf (ram s2) ?A q = leaf (ram s) ?A q \<and> leaf (ram s2) B q = None"
    "\<forall>g. user_frame s g \<longrightarrow> user_frame s2 g" "\<forall>g x. user_frame s g \<and> in_page g x \<longrightarrow> ram s2 x = ram s x"
    "card (free_frames s) \<le> card (free_frames s2) + 4"
    by (rule fork_child_space [OF inv1 _ ne(2) v1, of cur regs]) (use free in \<open>simp_all add: f1 fr1 B_def\<close>)
  define s3 where "s3 = upd_regs s2 cur (\<lambda>r. r\<lparr>rg_rax := word_of_int child\<rparr>)"
  have mm3: "same_mm s2 s3" by (simp add: s3_def)
  note fr3 = same_mm_frames [OF mm3]
  have f3: "ram s3 = ram s2" "total_mem s3 = total_mem s" "task_mem s3 cur = ?m"
    "Base_PML4 (TaskManager s3 cur) = ?A" "TaskManager s3 child = t0"
    "next_page_address s3 KernelTask = next_page_address s KernelTask + 0x1000"
    using ne cr
    by (simp_all add: s3_def upd_regs_def upd_task_def 2(3,4) add_pages_TaskManager f1(5) task_mem_def
        next_page_address_def algebra_simps)
  show thesis
    by (rule that [OF R 2(1) s3_def [symmetric] _ f3(2-4) _ _ f3(6)])
      (use 2 same_mm_twin [OF mm3] in \<open>simp_all add: f3(1,5) fr3\<close>)
qed

text \<open>FORK after the loops.\<close>

lemma fork_kernel_stack:
  assumes two: "twin_spaces s A B" and ne: "child \<noteq> cur" "child \<noteq> KernelTask" "cur \<noteq> KernelTask"
    and base: "Base_PML4 (TaskManager s cur) = A" and free: "20 \<le> card (free_frames s)"
    and v: "\<forall>i < 5. beyond_direct_map s (next_page_address s KernelTask + of_nat i * 0x1000)"
  obtains k u s' where "make_kernel_stack child (TASKMGR_set_current (mem_set_cr3 s A False) cur) = Some (k, u)"
    "Base_PML4 (TaskManager u cur) = A"
    "say (upd_task (TASKMGR_set_current (mem_set_cr3 u A True) cur) child
       (\<lambda>t. t\<lparr>Owner_PID := cur, ProcessState := READY_PROCESS_STATE\<rparr>)) (VirtualPrint KERNEL_T ''[syscall] fork end'') = s'"
    "two_spaces s' A B" "PML4_Physical s' = A" "cr3 s' = A" "cur_pid s' = cur"
    "ProcessState (TaskManager s' child) = READY_PROCESS_STATE" "Owner_PID (TaskManager s' child) = cur"
    "SavedRegisters (TaskManager s' child) = SavedRegisters (TaskManager s child)"
    "Base_PML4 (TaskManager s' child) = Base_PML4 (TaskManager s child)"
    "\<forall>q. length q = 4 \<and> idx_ok q \<and> hd q < 256 \<longrightarrow>
       leaf (ram s') A q = leaf (ram s) A q \<and> leaf (ram s') B q = leaf (ram s) B q"
    "\<forall>g x. user_frame s g \<and> in_page g x \<longrightarrow> ram s' x = ram s x"
proof -
  define s6 where "s6 = TASKMGR_set_current (mem_set_cr3 s A False) cur"
  have f6: "cr3 s6 = A" "PML4_Physical s6 = A" "TaskManager s6 = TaskManager s" "cur_pid s6 = cur"
    by (simp_all add: s6_def TASKMGR_set_current_def mem_set_cr3_def mem_sync_cr3_def Let_def)
  have mm6: "same_mm s s6" unfolding s6_def by (rule same_mm_trans [OF same_mm_updates(5,6)])
  have m6: "ram s6 = ram s" "total_mem s6 = total_mem s" using mm6 by (simp_all add: same_mm_def)
  note fr6 = same_mm_frames [OF mm6]
  have aside: "aside s6 A B"
    using two same_mm_twin [OF mm6] f6(1,2) by (simp add: aside_def)
  have n6: "next_page_address s6 KernelTask = next_page_address s KernelTask"
    by (simp add: next_page_address_def task_mem_def f6(3))
  have v6: "\<forall>i < 5. beyond_direct_map s6 (next_page_address s6 KernelTask + of_nat i * 0x1000)"
    using v by (simp add: n6 m6 beyond_direct_map_def)
  have c6: "20 \<le> card (free_frames s6)" using free by (simp add: fr6)
  obtain w k where 7: "make_kernel_stack child s6 = Some (k, upd_mem w child (\<lambda>m. m\<lparr>KernelStackBaseVirtualAddress := k\<rparr>))"
    "kernel_grew 5 A B (upd_mem s6 child (\<lambda>m. m\<lparr>KernelStackPageCount := 5\<rparr>)) w"
    by (rule make_kernel_stack_grows [OF aside c6 ne(2) v6])
  let ?t = "upd_mem s6 child (\<lambda>m. m\<lparr>KernelStackPageCount := 5\<rparr>)"
  define u where "u = upd_mem w child (\<lambda>m. m\<lparr>KernelStackBaseVirtualAddress := k\<rparr>)"
  have mmt: "same_mm s6 ?t" by simp
  note frt = same_mm_frames [OF mmt]
  have rt: "ram ?t = ram s" by (simp add: upd_mem_def upd_task_def m6)
  define s9 where "s9 = say (upd_task (TASKMGR_set_current (mem_set_cr3 u A True) cur) child
    (\<lambda>t. t\<lparr>Owner_PID := cur, ProcessState := READY_PROCESS_STATE\<rparr>)) (VirtualPrint KERNEL_T ''[syscall] fork end'')"
  have Tw: "TaskManager w = TaskManager (add_pages ?t KernelTask 5)" "aside w A B"
    using 7(2) by (simp_all add: kernel_grew_def)
  have bu: "Base_PML4 (TaskManager u cur) = A"
    using ne base by (simp add: u_def upd_mem_def upd_task_def Tw add_pages_TaskManager f6(3))
  have mm9: "same_mm w s9"
    unfolding s9_def u_def
    by (rule same_mm_trans [OF same_mm_updates(3) same_mm_trans [OF same_mm_updates(5) same_mm_trans [OF same_mm_updates(6)
            same_mm_trans [OF same_mm_updates(1,4)]]]])
  have f9: "cr3 s9 = A" "PML4_Physical s9 = A" "cur_pid s9 = cur" "ram s9 = ram w"
    "ProcessState (TaskManager s9 child) = READY_PROCESS_STATE" "Owner_PID (TaskManager s9 child) = cur"
    "SavedRegisters (TaskManager s9 child) = SavedRegisters (TaskManager s child)"
    "Base_PML4 (TaskManager s9 child) = Base_PML4 (TaskManager s child)"
    using ne
    by (simp_all add: s9_def u_def say_def upd_task_def TASKMGR_set_current_def mem_set_cr3_def mem_sync_cr3_def
        Let_def upd_mem_def Tw(1) add_pages_TaskManager f6(3))
  show thesis
  proof (rule that [OF 7(1) [folded s6_def u_def, unfolded s6_def] bu s9_def [symmetric] _ f9(2,1,3,5-8)])
    show "two_spaces s9 A B" using Tw(2) same_mm_twin [OF mm9, of A B] unfolding aside_def twin_spaces_def by blast
  qed (use 7(2) in \<open>simp_all add: kernel_grew_def f9(4) rt frt fr6\<close>)
qed

section \<open>The system call\<close>

text \<open>C5. FORK. Let the processor be in the address space of the calling task, let every page the task table
  gives it for its code and its stack be mapped to a user frame, let an entry of the task table and
  enough frames be free, and let the next six pages of the kernel be behind the direct map
  and in the same 512 GiB.
  Then FORK returns to the caller with the PID of the child, and the child will return from the
  same call with 0. The child is ready, belongs to the caller and has an address space whose
  user half maps exactly the pages of the loops, each to the frame the parent has there, both without
  the right to write; the rest of the parent's user half is as before, and so is every
  byte of a user frame. The two address spaces are separate: neither has a table of the other
  below the user half of its root.\<close>

theorem sys_fork_shares:
  assumes inv: "paging_inv (kern y)" and cr: "Base_PML4 (TaskManager (kern y) cur) = cr3 (kern y)"
    and c: "FindFreePID (kern y) = child" "child \<noteq> TASK_COUNT + 1"
    and ex: "task_Exists (TaskManager (kern y) cur)" "task_Exists (TaskManager (kern y) KernelTask)" "cur \<noteq> KernelTask"
    and v: "\<forall>i < 6. beyond_direct_map (kern y) (next_page_address (kern y) KernelTask + of_nat i * 0x1000)"
    and n: "PageCount (task_mem (kern y) cur) \<le> 0x80000000"
      "forkable (kern y) (cr3 (kern y)) (unat (PageCount (task_mem (kern y) cur))) 0x1000
        (BaseVirtualAddress (task_mem (kern y) cur))"
    and k: "StackPageCount (task_mem (kern y) cur) \<le> 0x80000000"
      "forkable (kern y) (cr3 (kern y)) (unat (StackPageCount (task_mem (kern y) cur))) (- 0x1000)
        (StackBaseVirtualAddress (task_mem (kern y) cur))"
    and free: "24 + 3 * (unat (PageCount (task_mem (kern y) cur)) + unat (StackPageCount (task_mem (kern y) cur)))
      \<le> card (free_frames (kern y))"
  shows "\<exists>s'. sys_fork cur regs y = Some (True, regs\<lparr>rg_rax := word_of_int child\<rparr>, y\<lparr>kern := s'\<rparr>) \<and>
    cr3 s' = cr3 (kern y) \<and> PML4_Physical s' = cr3 s' \<and> cur_pid s' = cur \<and>
    two_spaces s' (cr3 s') (Base_PML4 (TaskManager s' child)) \<and>
    ProcessState (TaskManager s' child) = READY_PROCESS_STATE \<and> Owner_PID (TaskManager s' child) = cur \<and>
    SavedRegisters (TaskManager s' child) = regs\<lparr>rg_rax := 0\<rparr> \<and>
    (\<forall>q. length q = 4 \<and> idx_ok q \<and> hd q < 256 \<longrightarrow>
      (if q \<in> page_paths (unat (PageCount (task_mem (kern y) cur))) 0x1000 (BaseVirtualAddress (task_mem (kern y) cur)) \<union>
           page_paths (unat (StackPageCount (task_mem (kern y) cur))) (- 0x1000) (StackBaseVirtualAddress (task_mem (kern y) cur))
       then leaf (ram s') (cr3 s') q = map_option shared_entry (leaf (ram (kern y)) (cr3 s') q) \<and>
            leaf (ram s') (Base_PML4 (TaskManager s' child)) q = map_option child_entry (leaf (ram (kern y)) (cr3 s') q)
       else leaf (ram s') (cr3 s') q = leaf (ram (kern y)) (cr3 s') q \<and>
            leaf (ram s') (Base_PML4 (TaskManager s' child)) q = None)) \<and>
    (\<forall>g x. user_frame (kern y) g \<and> in_page g x \<longrightarrow> ram s' x = ram (kern y) x)"
proof -
  let ?s = "kern y" and ?A = "cr3 (kern y)" and ?m = "task_mem (kern y) cur" and ?B = "Min (free_frames (kern y))"
  have ne: "child \<noteq> cur" "child \<noteq> KernelTask" using FindFreePID_free [of "kern y"] c ex by auto
  define s0 where "s0 = say ?s (VirtualPrint KERNEL_T ''[syscall] fork'')"
  have v0: "beyond_direct_map ?s (next_page_address ?s KernelTask)" using v [THEN spec [of _ 0]] by simp
  have f4: "4 \<le> card (free_frames ?s)" using free by simp
  obtain s1 s2 s3 where 3:
    "RegisterTask s0 (BaseVirtualAddress (MemoryData (TaskManager s0 cur))) (rg_rip regs)
      (PageCount (MemoryData (TaskManager s0 cur))) (MaxTicks (TaskManager s0 cur)) (rg_rbp regs)
      (Base_PML4 (TaskManager s0 cur)) = (child, s1)"
    "fork_child cur child regs s1 = Some s2" "upd_regs s2 cur (\<lambda>r. r\<lparr>rg_rax := word_of_int child\<rparr>) = s3"
    "twin_spaces s3 ?A ?B" "total_mem s3 = total_mem ?s" "task_mem s3 cur = ?m"
    "Base_PML4 (TaskManager s3 cur) = ?A" "Base_PML4 (TaskManager s3 child) = ?B"
    "SavedRegisters (TaskManager s3 child) = regs\<lparr>rg_rax := 0\<rparr>"
    "next_page_address s3 KernelTask = next_page_address ?s KernelTask + 0x1000"
    "\<forall>q. length q = 4 \<and> idx_ok q \<and> hd q < 256 \<longrightarrow>
       leaf (ram s3) ?A q = leaf (ram ?s) ?A q \<and> leaf (ram s3) ?B q = None"
    "\<forall>g. user_frame ?s g \<longrightarrow> user_frame s3 g" "\<forall>g x. user_frame ?s g \<and> in_page g x \<longrightarrow> ram s3 x = ram ?s x"
    "card (free_frames ?s) \<le> card (free_frames s3) + 4"
    by (rule fork_new_task [OF inv cr c ne ex(3) v0 f4, folded s0_def])
  have nk: "forkable s3 ?A (unat (PageCount ?m)) 0x1000 (BaseVirtualAddress ?m)"
    "forkable s3 ?A (unat (StackPageCount ?m)) (- 0x1000) (StackBaseVirtualAddress ?m)"
    by (rule forkable_mono [OF n(2)] forkable_mono [OF k(2)], use 3(11,12) in simp_all)+
  let ?f = "\<lambda>d. d\<lparr>StackBaseVirtualAddress := StackBaseVirtualAddress ?m, StackPageCount := StackPageCount ?m\<rparr>"
  let ?Q = "page_paths (unat (PageCount ?m)) 0x1000 (BaseVirtualAddress ?m) \<union>
    page_paths (unat (StackPageCount ?m)) (- 0x1000) (StackBaseVirtualAddress ?m)"
  obtain s4 s5 where 5: "fork_pages (unat (PageCount ?m)) cur child 0x1000 (BaseVirtualAddress ?m) s3 = Some s4"
    "TaskManager s4 = TaskManager s3"
    "fork_pages (unat (StackPageCount ?m)) cur child (- 0x1000) (StackBaseVirtualAddress ?m) (upd_mem s4 child ?f) = Some s5"
    "twin_spaces s5 ?A ?B" "TaskManager s5 = TaskManager (upd_mem s3 child ?f)" "total_mem s5 = total_mem s3"
    "\<forall>q. length q = 4 \<and> idx_ok q \<longrightarrow>
       (if q \<in> ?Q
        then leaf (ram s5) ?A q = map_option shared_entry (leaf (ram s3) ?A q) \<and>
             leaf (ram s5) ?B q = map_option child_entry (leaf (ram s3) ?A q)
        else leaf (ram s5) ?A q = leaf (ram s3) ?A q \<and> leaf (ram s5) ?B q = leaf (ram s3) ?B q)"
    "\<forall>g. user_frame s3 g \<longrightarrow> user_frame s5 g" "\<forall>g x. user_frame s3 g \<and> in_page g x \<longrightarrow> ram s5 x = ram s3 x"
    "card (free_frames s3) \<le> card (free_frames s5) + 3 * (unat (PageCount ?m) + unat (StackPageCount ?m))"
    by (rule fork_loops [OF 3(4) ne(1) [symmetric] 3(7,8) nk, of ?f]) (use free 3(14) in simp_all)
  have T5: "TaskManager s5 p = (if p = child then (TaskManager s3 p)\<lparr>MemoryData := ?f (MemoryData (TaskManager s3 p))\<rparr>
      else TaskManager s3 p)" for p
    by (simp add: 5(5) upd_mem_def upd_task_def)
  have n5: "next_page_address s5 KernelTask = next_page_address ?s KernelTask + 0x1000"
    using 3(10) ne(2) by (simp add: next_page_address_def task_mem_def T5)
  have v5: "\<forall>i < 5. beyond_direct_map s5 (next_page_address s5 KernelTask + of_nat i * 0x1000)"
  proof (intro allI impI)
    fix i :: nat assume "i < 5"
    then have "beyond_direct_map ?s (next_page_address ?s KernelTask + of_nat (Suc i) * 0x1000)"
      using v [THEN spec [of _ "Suc i"]] by simp
    then show "beyond_direct_map s5 (next_page_address s5 KernelTask + of_nat i * 0x1000)"
      by (simp add: n5 3(5) 5(6) beyond_direct_map_def algebra_simps)
  qed
  have b5: "Base_PML4 (TaskManager s5 cur) = ?A" using ne(1) 3(7) by (simp add: T5)
  have c5: "20 \<le> card (free_frames s5)" using free 3(14) 5(10) by simp
  obtain st u s' where 9: "make_kernel_stack child (TASKMGR_set_current (mem_set_cr3 s5 ?A False) cur) = Some (st, u)"
    "Base_PML4 (TaskManager u cur) = ?A"
    "say (upd_task (TASKMGR_set_current (mem_set_cr3 u ?A True) cur) child
       (\<lambda>t. t\<lparr>Owner_PID := cur, ProcessState := READY_PROCESS_STATE\<rparr>)) (VirtualPrint KERNEL_T ''[syscall] fork end'') = s'"
    "two_spaces s' ?A ?B" "PML4_Physical s' = ?A" "cr3 s' = ?A" "cur_pid s' = cur"
    "ProcessState (TaskManager s' child) = READY_PROCESS_STATE" "Owner_PID (TaskManager s' child) = cur"
    "SavedRegisters (TaskManager s' child) = SavedRegisters (TaskManager s5 child)"
    "Base_PML4 (TaskManager s' child) = Base_PML4 (TaskManager s5 child)"
    "\<forall>q. length q = 4 \<and> idx_ok q \<and> hd q < 256 \<longrightarrow>
       leaf (ram s') ?A q = leaf (ram s5) ?A q \<and> leaf (ram s') ?B q = leaf (ram s5) ?B q"
    "\<forall>g x. user_frame s5 g \<and> in_page g x \<longrightarrow> ram s' x = ram s5 x"
    by (rule fork_kernel_stack [OF 5(4) ne ex(3) b5 c5 v5])
  have f9: "Base_PML4 (TaskManager s' child) = ?B" "SavedRegisters (TaskManager s' child) = regs\<lparr>rg_rax := 0\<rparr>"
    using 9(10,11) 3(8,9) by (simp_all add: T5)
  have call: "sys_fork cur regs y = Some (True, regs\<lparr>rg_rax := word_of_int child\<rparr>, y\<lparr>kern := s'\<rparr>)"
  proof -
    have tm: "task_mem s4 cur = ?m" "task_mem (upd_mem s4 child g) cur = ?m" for g
      using ne(1) 3(6) by (simp_all add: task_mem_def 5(2) upd_mem_def upd_task_def)
    show ?thesis
      using n(1) k(1)
      by (simp add: sys_fork_def Let_def s0_def [symmetric] 3(1-3,6) tm 5(1,3) b5 9(1-3))
  qed
  have lf: "if q \<in> ?Q
       then leaf (ram s') ?A q = map_option shared_entry (leaf (ram ?s) ?A q) \<and>
            leaf (ram s') ?B q = map_option child_entry (leaf (ram ?s) ?A q)
       else leaf (ram s') ?A q = leaf (ram ?s) ?A q \<and> leaf (ram s') ?B q = None"
    if "length q = 4" "idx_ok q" "hd q < 256" for q
    using that 5(7) 3(11) 9(12) by auto
  have "ram s' x = ram ?s x" if "user_frame ?s g" "in_page g x" for g x
    using that 3(12,13) 5(8,9) 9(13) by metis
  then show ?thesis using call lf 9(4,5,7-9) f9(2) unfolding 9(6)
    by (intro exI [of _ s']) (simp only: f9(1) 9(6), blast)
qed

end
