(* ===== verification/Sample_Fork.thy ===== *)
theory Sample_Fork
  imports Fork_System Sample_Machine
begin

text \<open>
  A machine with 512 KiB of memory on which a task can fork: the direct map, a user page of the
  task, and entries of the task table for the kernel and for the task. The kernel's next page lies
  behind the direct map.
\<close>

definition fork_cell :: "u64 \<Rightarrow> u64" where
  "fork_cell a =
     (if a = 0x1000 then 0x5007 else if a = 0x1800 then 0x2003 else if a = 0x2000 then 0x3003
      else if a = 0x3000 then 0x4003 else if 0x4000 \<le> a \<and> a < 0x4400 then push_bit 9 (a - 0x4000) OR 3
      else if a = 0x5000 then 0x6007 else if a = 0x6010 then 0x7007 else if a = 0x7000 then 0x8007 else 0)"

definition fork_task :: task where
  "fork_task = zero_task\<lparr>task_Exists := True, Base_PML4 := 0x1000,
     MemoryData := zero_mem_def\<lparr>BaseVirtualAddress := 0x400000, PageCount := 1\<rparr>\<rparr>"

definition fork_kst :: kst where
  "fork_kst = sample_kst\<lparr>ram := cell_ram fork_cell, total_mem := 0x80000,
     phys_frames := (\<lambda>i. if i = 8 then \<lparr>refcount = 1, fr_flags = 1\<rparr>
       else \<lparr>refcount = 0, fr_flags = (if i < 8 then 0b101 else 0)\<rparr>),
     TaskManager := (\<lambda>pid. if pid = 0 then zero_task\<lparr>task_Exists := True,
         MemoryData := zero_mem_def\<lparr>BaseVirtualAddress := 0xFFFF800000100000\<rparr>\<rparr>
       else if pid = 1 then fork_task else zero_task), cur_pid := 1\<rparr>"

lemma fork_kst_fields [simp]:
  "ram fork_kst = cell_ram fork_cell" "cr3 fork_kst = 0x1000" "PML4_Physical fork_kst = 0x1000"
  "total_mem fork_kst = 0x80000"
  "frame_of fork_kst a = (if a div 0x1000 = 8 then \<lparr>refcount = 1, fr_flags = 1\<rparr>
     else \<lparr>refcount = 0, fr_flags = (if a div 0x1000 < 8 then 0b101 else 0)\<rparr>)"
  by (simp_all add: fork_kst_def frame_of_def)

lemma fork_steps:
  assumes i: "i < 512"
  shows "tbl_step (cell_ram fork_cell) i 0x1000 = (if i = 0 then Some 0x5000 else if i = 256 then Some 0x2000 else None)"
    and "tbl_step (cell_ram fork_cell) i 0x2000 = (if i = 0 then Some 0x3000 else None)"
    and "tbl_step (cell_ram fork_cell) i 0x3000 = (if i = 0 then Some 0x4000 else None)"
    and "tbl_step (cell_ram fork_cell) i 0x4000 = (if i < 128 then Some (push_bit 12 i) else None)"
    and "tbl_step (cell_ram fork_cell) i 0x5000 = (if i = 0 then Some 0x6000 else None)"
    and "tbl_step (cell_ram fork_cell) i 0x6000 = (if i = 2 then Some 0x7000 else None)"
    and "rd64 (cell_ram fork_cell) (entry_at 0x7000 0) = 0x8007"
proof -
  have u: "unat i < 512" using i by (simp add: word_less_nat_alt)
  have al: "page_aligned 0x1000" "page_aligned 0x2000" "page_aligned 0x3000" "page_aligned 0x4000"
    "page_aligned 0x5000" "page_aligned 0x6000" "page_aligned 0x7000" by (simp_all add: page_aligned_def)
  have e: "unat (entry_at 0x1000 i) = 0x1000 + 8 * unat i" "unat (entry_at 0x2000 i) = 0x2000 + 8 * unat i"
    "unat (entry_at 0x3000 i) = 0x3000 + 8 * unat i" "unat (entry_at 0x4000 i) = 0x4000 + 8 * unat i"
    "unat (entry_at 0x5000 i) = 0x5000 + 8 * unat i" "unat (entry_at 0x6000 i) = 0x6000 + 8 * unat i"
    using al i by (simp_all add: unat_entry_at)
  have c: "fork_cell (entry_at 0x1000 i) = (if i = 0 then 0x5007 else if i = 256 then 0x2003 else 0)"
    "fork_cell (entry_at 0x2000 i) = (if i = 0 then 0x3003 else 0)"
    "fork_cell (entry_at 0x3000 i) = (if i = 0 then 0x4003 else 0)"
    "fork_cell (entry_at 0x5000 i) = (if i = 0 then 0x6007 else 0)"
    "fork_cell (entry_at 0x6000 i) = (if i = 2 then 0x7007 else 0)"
    using e u by (auto simp: fork_cell_def word_unat_eq_iff word_less_nat_alt word_le_nat_alt)
  have c4: "fork_cell (entry_at 0x4000 i) = (if i < 128 then push_bit 12 i OR 3 else 0)"
  proof -
    have "entry_at 0x4000 i - 0x4000 = push_bit 3 i" by (simp add: entry_at_def push_bit_eq_mult)
    then have "push_bit 9 (entry_at 0x4000 i - 0x4000) = push_bit 12 i" by simp
    moreover have "entry_at 0x4000 i \<notin> {0x1000, 0x1800, 0x2000, 0x3000}" "0x4000 \<le> entry_at 0x4000 i"
      "entry_at 0x4000 i < 0x4400 \<longleftrightarrow> i < 128" "128 \<le> i \<longrightarrow> entry_at 0x4000 i \<notin> {0x5000, 0x6010, 0x7000}"
      using e u by (auto simp: word_unat_eq_iff word_less_nat_alt word_le_nat_alt)
    ultimately show ?thesis by (auto simp: fork_cell_def)
  qed
  show "tbl_step (cell_ram fork_cell) i 0x1000 = (if i = 0 then Some 0x5000 else if i = 256 then Some 0x2000 else None)"
    "tbl_step (cell_ram fork_cell) i 0x2000 = (if i = 0 then Some 0x3000 else None)"
    "tbl_step (cell_ram fork_cell) i 0x3000 = (if i = 0 then Some 0x4000 else None)"
    "tbl_step (cell_ram fork_cell) i 0x5000 = (if i = 0 then Some 0x6000 else None)"
    "tbl_step (cell_ram fork_cell) i 0x6000 = (if i = 2 then Some 0x7000 else None)"
    using al i by (simp_all add: tbl_step_def rd64_cell_ram c PTE_ADDR_def)
  show "tbl_step (cell_ram fork_cell) i 0x4000 = (if i < 128 then Some (push_bit 12 i) else None)"
    using al i direct_entry [of i] by (simp add: tbl_step_def rd64_cell_ram c4)
  show "rd64 (cell_ram fork_cell) (entry_at 0x7000 0) = 0x8007"
    using al by (simp add: rd64_cell_ram) (simp add: fork_cell_def entry_at_def)
qed

lemma fork_tables:
  "length p \<le> 3 \<Longrightarrow> idx_ok p \<Longrightarrow> tbl (cell_ram fork_cell) p 0x1000 = Some t \<longleftrightarrow>
    (p, t) \<in> {([], 0x1000), ([256], 0x2000), ([256, 0], 0x3000), ([256, 0, 0], 0x4000),
      ([0], 0x5000), ([0, 0], 0x6000), ([0, 0, 2], 0x7000)}"
  by (drule length_le_3_cases, elim disjE exE)
    (auto simp: tbl_Cons_step fork_steps simp del: tbl.simps(2) split: if_splits)

lemma fork_is_table:
  "is_table (cell_ram fork_cell) 0x1000 t \<Longrightarrow> t \<in> {0x1000, 0x2000, 0x3000, 0x4000, 0x5000, 0x6000, 0x7000}"
  by (auto simp: is_table_def fork_tables)

lemma fork_paging_inv: "paging_inv fork_kst"
  unfolding paging_inv_def
proof (intro conjI allI impI)
  show "frame_addr (cr3 fork_kst)" by (simp add: frame_addr_def PTE_ADDR_def)
  show "pt_tree (ram fork_kst) (cr3 fork_kst)"
    by (auto simp: pt_tree_def page_aligned_def fork_tables)
  fix t
  assume "is_table (ram fork_kst) (cr3 fork_kst) t"
  then have "t \<in> {0x1000, 0x2000, 0x3000, 0x4000, 0x5000, 0x6000, 0x7000}" using fork_is_table by simp
  then show "t < total_mem fork_kst" "frame_kernel fork_kst t"
    by (auto simp: frame_kernel_def)
next
  show "direct_map fork_kst"
    unfolding direct_map_def
  proof (intro allI impI)
    fix x assume "page_aligned x \<and> x < total_mem fork_kst"
    then have x: "page_aligned x" "x < 0x80000" by simp_all
    then have x': "x < 0x200000" by (simp add: word_less_nat_alt)
    have "(x + VIRTUAL_MEMORY_BARRIER) AND 0xFFF = 0"
      using page_aligned_add [OF x(1) page_aligned_BARRIER] by (simp add: page_aligned_def)
    moreover have "drop_bit 12 x < 128"
      using x(2) unat_drop_bit_eq [of 12 x] by (simp add: word_less_nat_alt drop_bit_eq_div)
    ultimately show "walk fork_kst (x + VIRTUAL_MEMORY_BARRIER) = Some x"
      using direct_path [OF x(1) x']
      by (simp add: walk_def mmu_walk_def tbl_Cons_step fork_steps PTE_ADDR_def del: tbl.simps(2))
  qed
qed simp_all

lemma fork_free: "f \<in> free_frames fork_kst \<longleftrightarrow> page_aligned f \<and> f < 0x80000 \<and> 9 \<le> f div 0x1000"
proof -
  have "9 \<le> w \<longleftrightarrow> \<not> w < 8 \<and> w \<noteq> 8" for w :: u64
    by (auto simp: word_less_nat_alt word_le_nat_alt word_unat_eq_iff)
  then show ?thesis by (auto simp: free_frames_def free_frame_def)
qed

lemma fork_free_card: "27 \<le> card (free_frames fork_kst)"
proof -
  let ?f = "\<lambda>i. of_nat (4096 * i) :: u64"
  have u: "unat (?f i) = 4096 * i" if "i < 128" for i using that by (simp add: unat_of_nat del: of_nat_mult)
  have "inj_on ?f {9..<36}"
  proof (rule inj_onI)
    fix i j assume "i \<in> {9..<36}" "j \<in> {9..<36}" "?f i = ?f j"
    then have "unat (?f i) = unat (?f j)" "i < 128" "j < 128" by (simp_all del: of_nat_mult)
    then show "i = j" using u by simp
  qed
  then have "card (?f ` {9..<36}) = 27" by (simp add: card_image)
  moreover have "?f ` {9..<36} \<subseteq> free_frames fork_kst"
  proof
    fix g assume "g \<in> ?f ` {9..<36}"
    then obtain i where i: "g = ?f i" "9 \<le> i" "i < 36" by auto
    then have "unat g = 4096 * i" using u by simp
    then show "g \<in> free_frames fork_kst"
      using i by (simp add: fork_free page_aligned_unat word_less_nat_alt word_le_nat_alt unat_div)
  qed
  moreover have "finite (free_frames fork_kst)" by simp
  ultimately show ?thesis by (metis card_mono)
qed

lemma fork_min: "Min (free_frames fork_kst) = 0x9000"
proof (rule Min_eqI)
  show "0x9000 \<in> free_frames fork_kst" by (simp add: fork_free page_aligned_def)
  fix g assume "g \<in> free_frames fork_kst"
  then have "9 \<le> unat g div 4096" by (simp add: fork_free word_le_nat_alt unat_div)
  then show "0x9000 \<le> g" by (simp add: word_le_nat_alt)
qed simp

lemma fork_next: "next_page_address fork_kst KernelTask = 0xFFFF800000101000"
  by (simp add: next_page_address_def task_mem_def fork_kst_def KernelTask_def zero_mem_def_def)

lemma fork_beyond: "\<forall>i < 6. beyond_direct_map fork_kst (next_page_address fork_kst KernelTask + of_nat i * 0x1000)"
proof (intro allI impI)
  fix i :: nat assume "i < 6"
  then consider "i = 0" | "i = 1" | "i = 2" | "i = 3" | "i = 4" | "i = 5" by linarith
  then show "beyond_direct_map fork_kst (next_page_address fork_kst KernelTask + of_nat i * 0x1000)"
    by cases (simp_all add: fork_next beyond_direct_map_def page_aligned_def VIRTUAL_MEMORY_BARRIER_def va_path_def)
qed

lemma fork_page:
  "leaf (cell_ram fork_cell) 0x1000 (va_path 0x400000) = Some 0x8007" "forkable fork_kst 0x1000 1 0x1000 0x400000"
proof -
  have p: "va_path 0x400000 = [0, 0, 2] @ [0]" by (simp add: va_path_def)
  have "tbl (cell_ram fork_cell) [0, 0, 2] 0x1000 = Some 0x7000" by (simp add: fork_tables del: tbl.simps)
  then show l: "leaf (cell_ram fork_cell) 0x1000 (va_path 0x400000) = Some 0x8007"
    using fork_steps(7) [of 0] by (simp add: p leaf_def del: tbl.simps)
  have "user_frame fork_kst 0x8000"
    by (simp add: user_frame_def page_aligned_def frame_kernel_def frame_dirty_def fork_free)
  then show "forkable fork_kst 0x1000 1 0x1000 0x400000" using l by (simp add: forkable_def PTE_ADDR_def)
qed

section \<open>FORK on the machine\<close>

theorem sys_fork_shares_witness:
  "\<forall>y regs. \<exists>s'. sys_fork 1 regs (y\<lparr>kern := fork_kst\<rparr>) =
       Some (True, regs\<lparr>rg_rax := 2\<rparr>, y\<lparr>kern := s'\<rparr>) \<and>
     ProcessState (TaskManager s' 2) = READY_PROCESS_STATE \<and> SavedRegisters (TaskManager s' 2) = regs\<lparr>rg_rax := 0\<rparr> \<and>
     two_spaces s' 0x1000 (Base_PML4 (TaskManager s' 2)) \<and>
     leaf (ram s') 0x1000 (va_path 0x400000) = Some 0x8205 \<and>
     leaf (ram s') (Base_PML4 (TaskManager s' 2)) (va_path 0x400000) = Some 0x8205"
proof (intro allI)
  fix y :: sys and regs :: regs
  let ?y = "y\<lparr>kern := fork_kst\<rparr>"
  have t: "task_mem fork_kst 1 = zero_mem_def\<lparr>BaseVirtualAddress := 0x400000, PageCount := 1\<rparr>"
    "Base_PML4 (TaskManager fork_kst 1) = 0x1000" "task_Exists (TaskManager fork_kst p) \<longleftrightarrow> p = 0 \<or> p = 1" for p
    by (simp_all add: task_mem_def fork_kst_def fork_task_def zero_task_def)
  have c: "FindFreePID fork_kst = 2"
    by (simp add: FindFreePID_def t upt_conv_Cons)
  note call = sys_fork_shares [where y = ?y and cur = 1 and child = 2 and regs = regs]
  obtain s' where s': "sys_fork 1 regs ?y = Some (True, regs\<lparr>rg_rax := word_of_int 2\<rparr>, ?y\<lparr>kern := s'\<rparr>)"
    "cr3 s' = 0x1000" "ProcessState (TaskManager s' 2) = READY_PROCESS_STATE"
    "SavedRegisters (TaskManager s' 2) = regs\<lparr>rg_rax := 0\<rparr>" "two_spaces s' 0x1000 (Base_PML4 (TaskManager s' 2))"
    and l: "\<forall>q. length q = 4 \<and> idx_ok q \<and> hd q < 256 \<longrightarrow>
      (if q \<in> page_paths 1 0x1000 0x400000 \<union> page_paths 0 (- 0x1000) 0
       then leaf (ram s') 0x1000 q = map_option shared_entry (leaf (cell_ram fork_cell) 0x1000 q) \<and>
            leaf (ram s') (Base_PML4 (TaskManager s' 2)) q = map_option child_entry (leaf (cell_ram fork_cell) 0x1000 q)
       else leaf (ram s') 0x1000 q = leaf (cell_ram fork_cell) 0x1000 q \<and>
            leaf (ram s') (Base_PML4 (TaskManager s' 2)) q = None)"
    using call fork_paging_inv c fork_beyond fork_page(2) fork_free_card
    by (force simp: t TASK_COUNT_def KernelTask_def zero_mem_def_def forkable_def)
  have "shared_entry 0x8007 = 0x8205" "child_entry 0x8007 = 0x8205"
    by (simp_all add: shared_entry_def child_entry_def)
  moreover have "va_path 0x400000 \<in> page_paths 1 0x1000 0x400000" by (simp add: page_paths_def)
  moreover have "hd (va_path 0x400000) < 256" by (rule user_index) simp
  ultimately have "leaf (ram s') 0x1000 (va_path 0x400000) = Some 0x8205"
    "leaf (ram s') (Base_PML4 (TaskManager s' 2)) (va_path 0x400000) = Some 0x8205"
    using l [THEN spec, of "va_path 0x400000"] fork_page(1) by simp_all
  then show "\<exists>s'. sys_fork 1 regs ?y = Some (True, regs\<lparr>rg_rax := 2\<rparr>, y\<lparr>kern := s'\<rparr>) \<and>
     ProcessState (TaskManager s' 2) = READY_PROCESS_STATE \<and> SavedRegisters (TaskManager s' 2) = regs\<lparr>rg_rax := 0\<rparr> \<and>
     two_spaces s' 0x1000 (Base_PML4 (TaskManager s' 2)) \<and>
     leaf (ram s') 0x1000 (va_path 0x400000) = Some 0x8205 \<and>
     leaf (ram s') (Base_PML4 (TaskManager s' 2)) (va_path 0x400000) = Some 0x8205"
    using s' by (intro exI [of _ s']) simp
qed

section \<open>The pages of the kernel\<close>

theorem Create_User_Memory_separate_witness:
  "\<exists>s'. Create_User_Memory fork_kst = Some (0x9000, s') \<and> two_spaces s' 0x1000 0x9000 \<and>
     walk (space s' 0x9000) 0x400000 = None \<and> walk s' 0xFFFF800000101000 = Some 0x9000"
proof -
  have b: "beyond_direct_map fork_kst (next_page_address fork_kst KernelTask)"
    using fork_beyond [THEN spec, of 0] by simp
  have f: "4 \<le> card (free_frames fork_kst)" using fork_free_card by simp
  obtain s' where "Create_User_Memory fork_kst = Some (0x9000, s')" "two_spaces s' 0x1000 0x9000"
    "\<forall>a. walk (space s' 0x9000) a = (if hd (va_path a) < 256 then None else walk s' a)"
    "maps_only fork_kst s' 0xFFFF800000101000 (Some 0x9000)"
    using Create_User_Memory_separate [OF fork_paging_inv f _ _ beyond_safe [OF fork_paging_inv b]] b
    by (auto simp: beyond_direct_map_def fork_min fork_next)
  moreover have "hd (va_path 0x400000) < 256" by (rule user_index) simp
  ultimately show ?thesis by (intro exI [of _ s']) (simp add: maps_only_def)
qed

theorem malloc_breaks_direct_map_witness:
  "\<exists>s s'. paging_inv s \<and> malloc s KernelTask = Some (0xFFFF800000008000, s') \<and>
     walk s 0xFFFF800000008000 = Some 0x8000 \<and> walk s' 0xFFFF800000008000 = Some 0x5000 \<and> \<not> paging_inv s'"
proof -
  define s where "s = sample_kst\<lparr>TaskManager := (\<lambda>p. zero_task\<lparr>MemoryData :=
    zero_mem_def\<lparr>BaseVirtualAddress := 0xFFFF800000007000\<rparr>\<rparr>)\<rparr>"
  have f: "free_frames s = free_frames sample_kst"
    by (simp add: s_def free_frames_def free_frame_def frame_of_def)
  have inv: "paging_inv s" using sample_paging_inv paging_inv_cong [of s sample_kst] by (simp add: s_def)
  have m: "Min (free_frames s) = 0x5000"
    unfolding f
  proof (rule Min_eqI)
    show "0x5000 \<in> free_frames sample_kst" by (simp add: sample_free page_aligned_def)
    fix g assume "g \<in> free_frames sample_kst"
    then have "5 \<le> unat g div 4096" by (simp add: sample_free word_le_nat_alt unat_div)
    then show "0x5000 \<le> g" by (simp add: word_le_nat_alt)
  qed simp
  have n: "next_page_address s KernelTask = 0x8000 + VIRTUAL_MEMORY_BARRIER"
    by (simp add: s_def next_page_address_def task_mem_def zero_mem_def_def VIRTUAL_MEMORY_BARRIER_def)
  have ne: "free_frames s \<noteq> {}" using sample_free_card f by auto
  have "\<exists>s'. malloc s KernelTask = Some (0x8000 + VIRTUAL_MEMORY_BARRIER, s') \<and>
    walk s (0x8000 + VIRTUAL_MEMORY_BARRIER) = Some 0x8000 \<and>
    walk s' (0x8000 + VIRTUAL_MEMORY_BARRIER) = Some (Min (free_frames s)) \<and> \<not> direct_map s' \<and> \<not> paging_inv s'"
    by (rule malloc_breaks_direct_map [OF inv ne n]) (simp_all add: m page_aligned_def, simp add: s_def)
  then show ?thesis using inv m by (auto simp: VIRTUAL_MEMORY_BARRIER_def)
qed

end
