(* ===== verification/Mem_Boot.thy ===== *)
theory Mem_Boot
  imports Control Strings
begin

text \<open>
  The start of memory management (\<open>InitMem\<close> and \<open>Enumerate_E820\<close> of \<open>LowLevel/Memory.c\<close>) with
  the printing of memory sizes. What the stack holds in the fields of \<open>KernelMemory\<close> that are
  never assigned, and what memory holds where \<open>phys_frames\<close> is placed, are parameters.
\<close>

section \<open>Small accesses\<close>

definition le32 :: "u8 \<Rightarrow> u8 \<Rightarrow> u8 \<Rightarrow> u8 \<Rightarrow> u32" where
  "le32 a b c d = push_bit 24 (ucast d) OR push_bit 16 (ucast c) OR push_bit 8 (ucast b) OR ucast a"

definition vread32 :: "kst \<Rightarrow> u64 \<Rightarrow> u32 option" where
  "vread32 s va = do {
     a \<leftarrow> vread8 s va; b \<leftarrow> vread8 s (va + 1); c \<leftarrow> vread8 s (va + 2); d \<leftarrow> vread8 s (va + 3);
     Some (le32 a b c d) }"

section \<open>The memory map of the BIOS\<close>

definition E820_BUFFER_ADDRESS :: u64 where "E820_BUFFER_ADDRESS = 0xffff80000000F000"

record e820_range =
  Base_Address :: u64
  e820_Length :: u64
  e820_Type :: u32
  Extension :: u32

definition mark_reserved :: "kst \<Rightarrow> u64 \<Rightarrow> kst" where
  "mark_reserved s cur_base =
     (let s = mem_SetBit s cur_base
      in set_frame_flags s cur_base (fr_flags (frame_of s cur_base) AND 0b11))"

text \<open>The loop over the pages of a reserved range; the base is advanced before it is used.\<close>

primrec mark_range :: "nat \<Rightarrow> bool \<Rightarrow> u64 \<Rightarrow> kst \<Rightarrow> kst" where
  "mark_range 0 do_dirty cur_base s = s"
| "mark_range (Suc n) do_dirty cur_base s =
     (let cur_base = cur_base + 0x1000;
          s = (if do_dirty then mark_reserved s cur_base else s)
      in mark_range n do_dirty cur_base s)"

text \<open>The counter of that loop is an \<open>int\<close>: beyond 0x7FFFF000 it overflows.\<close>

definition range_pages :: "u64 \<Rightarrow> nat" where
  "range_pages len = (unat len + 0xFFF) div 0x1000"

primrec enumerate_loop :: "nat \<Rightarrow> bool \<Rightarrow> u64 \<Rightarrow> kst \<Rightarrow> kst option" where
  "enumerate_loop 0 do_dirty cur_descriptor s = Some s"
| "enumerate_loop (Suc n) do_dirty cur_descriptor s = do {
     len \<leftarrow> vread64 s (cur_descriptor + 8);
     let s = s\<lparr>total_mem := total_mem s + len\<rparr>;
     ty \<leftarrow> vread32 s (cur_descriptor + 16);
     s \<leftarrow> (if ty = 1 then Some (s\<lparr>available_mem := available_mem s + len\<rparr>)
          else do {
            cur_base \<leftarrow> vread64 s cur_descriptor;
            if len \<le> 0x7FFFF000 then Some (mark_range (range_pages len) do_dirty cur_base s) else None });
     enumerate_loop n do_dirty (cur_descriptor + 24) s }"

definition Enumerate_E820 :: "kst \<Rightarrow> bool \<Rightarrow> kst option" where
  "Enumerate_E820 s do_dirty = do {
     bytes \<leftarrow> vread32 s (E820_BUFFER_ADDRESS - 24);
     let loop_count = bytes div 24;
     if loop_count - 1 < 0x80000000
     then enumerate_loop (unat (loop_count - 1)) do_dirty E820_BUFFER_ADDRESS s else None }"

section \<open>InitMem\<close>

definition set_task :: "kst \<Rightarrow> int \<Rightarrow> task \<Rightarrow> kst" where
  "set_task s pid t = s\<lparr>TaskManager := (TaskManager s)(pid := t)\<rparr>"

text \<open>The loop that gives the frames of the kernel their flags; it indexes the table directly.\<close>

definition mark_kernel_frames :: "kst \<Rightarrow> nat \<Rightarrow> kst" where
  "mark_kernel_frames s n =
     fold (\<lambda>i s. s\<lparr>phys_frames := (phys_frames s)(of_nat i := (phys_frames s (of_nat i))\<lparr>fr_flags := 0b101\<rparr>)\<rparr>)
       [0..<n] s"

definition kernel_page :: "u64 \<Rightarrow> page_details" where
  "kernel_page phys = \<lparr>pg_flags = KERNEL_FLAGS, pg_Execute_Disable = False,
     virtual_address = phys + 0xffff800000000000, physical_address = phys\<rparr>"

partial_function (option) map_physical :: "kst \<Rightarrow> u64 \<Rightarrow> kst option" where
  "map_physical s phys =
     (if phys < total_mem s then do {
        s \<leftarrow> (if fr_flags (frame_of s phys) AND 0b10 \<noteq> 0b10
             then do { (_, s) \<leftarrow> alloc_page s (kernel_page phys); Some s } else Some s);
        map_physical s (phys + 0x1000) }
      else Some s)"

text \<open>
  The \<open>memset\<close> of the identity mapping clears the entry it is reached through. The translation
  of its first byte is in the TLB by then and serves the whole loop.
\<close>

definition zero_identity :: "kst \<Rightarrow> kst option" where
  "zero_identity s = do {
     p \<leftarrow> walk s (Kernel_PML4_Physical s);
     Some (s\<lparr>ram := (\<lambda>x. if x - p < 0x800 then 0 else ram s x)\<rparr>) }"

definition PT_total :: u32 where "PT_total = 0x20 * 0x01 * 0x01"

text \<open>
  The first half counts the memory and sets up the frame table; the second moves the kernel to an
  address space of its own. \<open>frames0\<close> is the memory behind the kernel, read as an array of \<open>Physical_Frame\<close> (8 bytes each).
\<close>

definition InitMem_count :: "mem_def \<Rightarrow> (u64 \<Rightarrow> frame) \<Rightarrow> kst \<Rightarrow> kst option" where
  "InitMem_count stack frames0 s = do {
     let s = mem_sync_cr3 s;
     let s = s\<lparr>Kernel_PML4_Physical := cr3 s\<rparr>;
     s \<leftarrow> zero_identity s;
     let s = s\<lparr>TaskManager := (\<lambda>p. if 0 \<le> p \<and> p < 512 then zero_task else TaskManager s p)\<rparr>;
     let KernelMemory = stack\<lparr>BaseVirtualAddress := VIRTUAL_MEMORY_BARRIER, PageCount := 512 * 32\<rparr>;
     let s = set_task s KernelTask ((TaskManager s KernelTask)\<lparr>ProcessID := 0, MemoryData := KernelMemory,
       RequestedSleepCycle := 0, ProcessState := 0x02, MaxTicks := 5, task_Exists := True\<rparr>);
     let s = s\<lparr>VirtualMemorySize := PT_total\<rparr>;
     s \<leftarrow> Enumerate_E820 s False;
     let s = s\<lparr>Kernel_PML4_Physical := cr3 s\<rparr>;
     let s = s\<lparr>phys_frames := frames0\<rparr>;
     let phys_frames_pages = ((total_mem s div 0x1000) * 8 + 0xFFF) div 0x1000;
     let s = upd_mem s KernelTask (\<lambda>m. m\<lparr>PageCount := PageCount m + phys_frames_pages\<rparr>);
     let s = mark_kernel_frames s (unat (PageCount (task_mem s KernelTask) + 1));
     Enumerate_E820 s True }"

definition InitMem :: "mem_def \<Rightarrow> (u64 \<Rightarrow> frame) \<Rightarrow> kst \<Rightarrow> kst option" where
  "InitMem stack frames0 s = do {
     s \<leftarrow> InitMem_count stack frames0 s;
     (mem, s) \<leftarrow> Create_User_Memory s;
     let s = mem_set_cr3 s mem False;
     let s = s\<lparr>Kernel_PML4_Physical := cr3 s\<rparr>;
     let s = set_task s KernelTask ((TaskManager s KernelTask)\<lparr>Base_PML4 := mem\<rparr>);
     let s = s\<lparr>PML4_Physical := mem\<rparr>;
     s \<leftarrow> map_physical s (512 * 64 * 0x1000);
     Some (FlushTLB s) }"

section \<open>Printing\<close>

definition print_number :: "kst \<Rightarrow> u8 list \<Rightarrow> kst option" where
  "print_number s buffer = do { str \<leftarrow> buffer_string buffer; Some (say s (Print_debug str)) }"

text \<open>\<open>buffer\<close> is what the stack holds in the array \<open>print\<close>.\<close>

definition PrintMemorySize :: "u8 list \<Rightarrow> u64 \<Rightarrow> kst \<Rightarrow> kst option" where
  "PrintMemorySize buffer bytes s =
     (let s = (if bytes = 0 then say s (Print ''0 Byte(s)'') else s);
          kib = bytes div 0x400; mib = bytes div 0x100000; gib = bytes div 0x40000000;
          (n, unit) = (if gib \<noteq> 0 then (gib, '' GiB(s)'') else if mib \<noteq> 0 then (mib, '' MiB(s)'')
                       else if kib \<noteq> 0 then (kib, '' KiB(s)'') else (bytes, '' Byte(s)''))
      in do {
        buffer \<leftarrow> int_to_char_array n buffer 24 0;
        s \<leftarrow> print_number s buffer;
        Some (say s (Print_debug unit)) })"

definition E820_Dump_Descriptor :: "u8 list \<Rightarrow> u8 list \<Rightarrow> e820_range \<Rightarrow> kst \<Rightarrow> kst option" where
  "E820_Dump_Descriptor test_char print_buffer d s = do {
     test_char \<leftarrow> int_to_char_array_hex (abs_c (Base_Address d)) test_char 36 10;
     s \<leftarrow> print_number s test_char;
     let s = say s (Print_debug ''->'');
     test_char \<leftarrow> int_to_char_array_hex (abs_c (e820_Length d + Base_Address d)) test_char 36 10;
     s \<leftarrow> print_number s test_char;
     let s = say s (Print_debug '' ('');
     test_char \<leftarrow> int_to_char_array (abs_c (ucast (e820_Type d))) test_char 36 0;
     s \<leftarrow> print_number s test_char;
     let s = say s (Print_debug '')   '');
     s \<leftarrow> PrintMemorySize print_buffer (e820_Length d) s;
     Some (say s (Print_debug (if e820_Type d = 1 then '' of available memory'' else '' of unavailable memory''))) }"

section \<open>What the enumeration computes\<close>

text \<open>A table of ranges as it lies in memory.\<close>

primrec e820_table :: "kst \<Rightarrow> u64 \<Rightarrow> e820_range list \<Rightarrow> bool" where
  "e820_table s p [] = True"
| "e820_table s p (d # ds) = (vread64 s p = Some (Base_Address d) \<and> vread64 s (p + 8) = Some (e820_Length d) \<and>
     vread32 s (p + 16) = Some (e820_Type d) \<and> e820_table s (p + 24) ds)"

text \<open>The totals of a list of ranges and the frames the loop marks for it.\<close>

definition bytes_of :: "e820_range list \<Rightarrow> u64" where
  "bytes_of ds = sum_list (map e820_Length ds)"

definition usable :: "e820_range list \<Rightarrow> e820_range list" where
  "usable ds = filter (\<lambda>d. e820_Type d = 1) ds"

definition range_frames :: "u64 \<Rightarrow> nat \<Rightarrow> u64 set" where
  "range_frames b n = (\<lambda>i. (b + of_nat (Suc i) * 0x1000) div 0x1000) ` {..<n}"

definition marked :: "e820_range list \<Rightarrow> u64 set" where
  "marked ds = (\<Union>d \<in> {d \<in> set ds. e820_Type d \<noteq> 1}. range_frames (Base_Address d) (range_pages (e820_Length d)))"

text \<open>Everything but the totals and the frame table is as before.\<close>

definition counts_only :: "kst \<Rightarrow> kst \<Rightarrow> bool" where
  "counts_only s s' \<longleftrightarrow> s' = s\<lparr>total_mem := total_mem s', available_mem := available_mem s',
     phys_frames := phys_frames s', PhysicalPagesUsed := PhysicalPagesUsed s'\<rparr>"

lemma counts_onlyE:
  assumes "counts_only s s'"
  obtains t a ph u where "s' = s\<lparr>total_mem := t, available_mem := a, phys_frames := ph, PhysicalPagesUsed := u\<rparr>"
  using assms unfolding counts_only_def by blast

lemma counts_only_refl [simp]: "counts_only s s"
  by (simp add: counts_only_def)

lemma counts_only_trans: "counts_only s t \<Longrightarrow> counts_only t u \<Longrightarrow> counts_only s u"
  by (elim counts_onlyE) (simp add: counts_only_def)

lemma counts_only_updates [simp]:
  "counts_only s (s'\<lparr>total_mem := t\<rparr>) = counts_only s (s' :: kst)"
  "counts_only s (s'\<lparr>available_mem := t\<rparr>) = counts_only s s'"
  "counts_only s (s'\<lparr>phys_frames := ph\<rparr>) = counts_only s s'"
  "counts_only s (s'\<lparr>PhysicalPagesUsed := t\<rparr>) = counts_only s s'"
proof -
  have both: "counts_only s u = counts_only s s'" if "counts_only s' u" "counts_only u s'" for u
    using that counts_only_trans by blast
  show "counts_only s (s'\<lparr>total_mem := t\<rparr>) = counts_only s s'"
    "counts_only s (s'\<lparr>available_mem := t\<rparr>) = counts_only s s'"
    "counts_only s (s'\<lparr>phys_frames := ph\<rparr>) = counts_only s s'"
    "counts_only s (s'\<lparr>PhysicalPagesUsed := t\<rparr>) = counts_only s s'"
    by (rule both; simp add: counts_only_def)+
qed

lemma same_reads:
  assumes "ram s' = ram s" "cr3 s' = cr3 s"
  shows "vread8 s' a = vread8 s a" "vread32 s' a = vread32 s a" "vread64 s' a = vread64 s a"
    "e820_table s' p ds = e820_table s p ds"
proof -
  show 8: "vread8 s' a = vread8 s a" for a using assms by (simp add: vread8_def walk_def)
  show 32: "vread32 s' a = vread32 s a" for a by (simp add: vread32_def 8)
  show 64: "vread64 s' a = vread64 s a" for a using assms by (simp add: vread64_def walk_def)
  show "e820_table s' p ds = e820_table s p ds" by (induction ds arbitrary: p) (simp_all add: 32 64)
qed

lemma counts_only_reads:
  assumes "counts_only s s'"
  shows "vread8 s' a = vread8 s a" "vread32 s' a = vread32 s a" "vread64 s' a = vread64 s a"
    "e820_table s' p ds = e820_table s p ds"
proof -
  have "ram s' = ram s" "cr3 s' = cr3 s" using assms by (auto elim: counts_onlyE)
  from same_reads [OF this] show "vread8 s' a = vread8 s a" "vread32 s' a = vread32 s a"
    "vread64 s' a = vread64 s a" "e820_table s' p ds = e820_table s p ds" .
qed

lemma range_frames_Suc: "range_frames b (Suc n) = insert ((b + 0x1000) div 0x1000) (range_frames (b + 0x1000) n)"
proof -
  have "{..<Suc n} = insert 0 (Suc ` {..<n})" using lessThan_Suc_eq_insert_0 by simp
  then show ?thesis by (simp add: range_frames_def image_image algebra_simps)
qed

lemma mark_reserved_result:
  "total_mem (mark_reserved s a) = total_mem s" "available_mem (mark_reserved s a) = available_mem s"
  "counts_only s (mark_reserved s a)"
  "fr_flags (phys_frames (mark_reserved s a) i) =
     (if i = a div 0x1000 then (fr_flags (phys_frames s i) OR 1) AND 0b11 else fr_flags (phys_frames s i))"
  by (simp_all add: mark_reserved_def Let_def mem_SetBit_def set_frame_flags_def set_frame_def frame_of_def)

lemma mark_range_result:
  "total_mem (mark_range n d b s) = total_mem s" "available_mem (mark_range n d b s) = available_mem s"
  "counts_only s (mark_range n d b s)"
  "fr_flags (phys_frames (mark_range n d b s) i) =
     (if d \<and> i \<in> range_frames b n then (fr_flags (phys_frames s i) OR 1) AND 0b11 else fr_flags (phys_frames s i))"
proof (induction n arbitrary: b s)
  case (Suc n)
  have two: "(((x OR 1) AND 3) OR 1) AND 3 = (x OR 1) AND (3 :: u8)" for x
    by (rule bit_eqI) (auto simp: bit_simps)
  { case 1 show ?case by (simp add: Suc Let_def mark_reserved_result) }
  { case 2 show ?case by (simp add: Suc Let_def mark_reserved_result) }
  { case 3 show ?case
      using Suc(3) counts_only_trans [OF mark_reserved_result(3) Suc(3)]
      by (cases d) (simp_all add: Let_def) }
  { case 4 show ?case
      using Suc(4) by (cases d) (simp_all add: Let_def mark_reserved_result(4) range_frames_Suc two) }
qed (simp_all add: range_frames_def)

lemma enumerate_loop_result:
  assumes "e820_table s p ds" "\<forall>d \<in> set ds. e820_Type d \<noteq> 1 \<longrightarrow> e820_Length d \<le> 0x7FFFF000"
  shows "\<exists>s'. enumerate_loop (length ds) dirty p s = Some s' \<and> counts_only s s' \<and>
    total_mem s' = total_mem s + bytes_of ds \<and> available_mem s' = available_mem s + bytes_of (usable ds) \<and>
    (\<forall>i. fr_flags (phys_frames s' i) =
       (if dirty \<and> i \<in> marked ds then (fr_flags (phys_frames s i) OR 1) AND 0b11 else fr_flags (phys_frames s i)))"
  using assms
proof (induction ds arbitrary: s p)
  case Nil
  then show ?case by (simp add: bytes_of_def usable_def marked_def)
next
  case (Cons d ds)
  let ?t = "s\<lparr>total_mem := total_mem s + e820_Length d\<rparr>"
  define s1 where "s1 = (if e820_Type d = 1 then ?t\<lparr>available_mem := available_mem ?t + e820_Length d\<rparr>
    else mark_range (range_pages (e820_Length d)) dirty (Base_Address d) ?t)"
  have c: "counts_only s s1" by (simp add: s1_def counts_only_trans [OF _ mark_range_result(3)])
  have e: "enumerate_loop (length (d # ds)) dirty p s = enumerate_loop (length ds) dirty (p + 24) s1"
    using Cons.prems counts_only_reads [of s ?t] by (simp add: s1_def)
  have tot: "total_mem s1 = total_mem s + e820_Length d"
    "available_mem s1 = available_mem s + bytes_of (usable [d])"
    "\<forall>i. fr_flags (phys_frames s1 i) =
       (if dirty \<and> i \<in> marked [d] then (fr_flags (phys_frames s i) OR 1) AND 0b11 else fr_flags (phys_frames s i))"
    by (simp_all add: s1_def mark_range_result bytes_of_def usable_def marked_def)
  obtain s' where r: "enumerate_loop (length ds) dirty (p + 24) s1 = Some s'" "counts_only s1 s'"
    "total_mem s' = total_mem s1 + bytes_of ds" "available_mem s' = available_mem s1 + bytes_of (usable ds)"
    "\<forall>i. fr_flags (phys_frames s' i) =
       (if dirty \<and> i \<in> marked ds then (fr_flags (phys_frames s1 i) OR 1) AND 0b11 else fr_flags (phys_frames s1 i))"
    using Cons.IH [of s1 "p + 24"] Cons.prems counts_only_reads(4) [OF c] by auto
  have m: "marked (d # ds) = marked [d] \<union> marked ds" by (auto simp: marked_def)
  have two: "(((x OR 1) AND 3) OR 1) AND 3 = (x OR 1) AND (3 :: u8)" for x
    by (rule bit_eqI) (auto simp: bit_simps)
  show ?case
  proof (intro exI [of _ s'] conjI)
    show "enumerate_loop (length (d # ds)) dirty p s = Some s'" using e r(1) by simp
    show "counts_only s s'" using c r(2) by (rule counts_only_trans)
    show "total_mem s' = total_mem s + bytes_of (d # ds)" using r(3) tot(1) by (simp add: bytes_of_def)
    show "available_mem s' = available_mem s + bytes_of (usable (d # ds))"
      using r(4) tot(2) by (simp add: bytes_of_def usable_def)
    show "\<forall>i. fr_flags (phys_frames s' i) =
       (if dirty \<and> i \<in> marked (d # ds) then (fr_flags (phys_frames s i) OR 1) AND 0b11 else fr_flags (phys_frames s i))"
      using r(5) tot(3) by (cases dirty) (auto simp: m two)
  qed
qed

text \<open>C19. The memory map. With \<open>n\<close> ranges in the table \<open>Enumerate_E820\<close> returns, adds the lengths of
  all but the last to the total and those of the usable ones among them to the available memory,
  and, when it is told to, marks of each other range the pages from the second to the one behind
  the end as used and not the kernel's; no frame gets the dirty flag, and nothing else changes.\<close>

theorem Enumerate_E820_result:
  assumes "vread32 s (E820_BUFFER_ADDRESS - 24) = Some (24 * of_nat (length ds))"
    and "ds \<noteq> []" "24 * length ds < 2 ^ 32"
    and "e820_table s E820_BUFFER_ADDRESS (butlast ds)"
    and "\<forall>d \<in> set (butlast ds). e820_Type d \<noteq> 1 \<longrightarrow> e820_Length d \<le> 0x7FFFF000"
  shows "\<exists>s'. Enumerate_E820 s dirty = Some s' \<and> counts_only s s' \<and>
    total_mem s' = total_mem s + bytes_of (butlast ds) \<and>
    available_mem s' = available_mem s + bytes_of (usable (butlast ds)) \<and>
    (\<forall>i. fr_flags (phys_frames s' i) = (if dirty \<and> i \<in> marked (butlast ds)
       then (fr_flags (phys_frames s i) OR 1) AND 0b11 else fr_flags (phys_frames s i)))"
proof -
  have u: "unat (24 * of_nat (length ds) :: u32) = 24 * length ds" using assms(3) by (simp add: unat_word_ariths unat_of_nat)
  have c: "(24 * of_nat (length ds) :: u32) div 24 = of_nat (length ds)"
    by (simp only: word_unat_eq_iff unat_div u) (use assms(3) in \<open>simp add: unat_of_nat\<close>)
  have n: "unat (of_nat (length ds) - 1 :: u32) = length (butlast ds)"
    using assms(2,3) by (cases ds) (simp_all add: unat_of_nat)
  have l: "(of_nat (length ds) - 1 :: u32) < 0x80000000"
    unfolding word_less_nat_alt n using assms(3) by simp
  show ?thesis
    using enumerate_loop_result [OF assms(4,5), of dirty] l n
    by (simp add: Enumerate_E820_def assms(1) c)
qed

section \<open>What InitMem computes\<close>

lemma mark_kernel_frames_result:
  assumes "n \<le> 2 ^ 64"
  shows "mark_kernel_frames s n = s\<lparr>phys_frames :=
    (\<lambda>i. if unat i < n then (phys_frames s i)\<lparr>fr_flags := 0b101\<rparr> else phys_frames s i)\<rparr>"
  using assms
proof (induction n)
  case (Suc n)
  have "unat i < Suc n \<longleftrightarrow> unat i < n \<or> i = of_nat n" for i :: u64
    using Suc.prems by (auto simp: word_unat_eq_iff unat_of_nat less_Suc_eq)
  then show ?case using Suc by (auto simp: mark_kernel_frames_def fun_eq_iff)
qed (simp add: mark_kernel_frames_def)

text \<open>The entry of the kernel after the first half.\<close>

definition boot_task :: "mem_def \<Rightarrow> u64 \<Rightarrow> task" where
  "boot_task stack tot = zero_task\<lparr>MemoryData := stack\<lparr>BaseVirtualAddress := VIRTUAL_MEMORY_BARRIER,
       PageCount := 512 * 32 + ((tot div 0x1000) * 8 + 0xFFF) div 0x1000\<rparr>,
     ProcessState := 0x02, MaxTicks := 5, task_Exists := True\<rparr>"

text \<open>C18. The first half of \<open>InitMem\<close>. The identity mapping is gone, the task table is empty but for the kernel's entry,
  and the frames below the end of the frame table are the kernel's. Since the memory map is
  enumerated twice, \<open>total_mem\<close> and \<open>available_mem\<close> end as twice the sums of the map; the
  size of the frame table comes from the first count and has room for half of the frames below
  \<open>total_mem\<close>. A reserved page below the kernel's end loses the kernel's flag, and all other
  frames have what memory held before.\<close>

theorem InitMem_count_result:
  assumes "zero_identity (s\<lparr>PML4_Physical := cr3 s, Kernel_PML4_Physical := cr3 s\<rparr>) = Some s0"
    and "total_mem s = 0" "available_mem s = 0"
    and "vread32 s0 (E820_BUFFER_ADDRESS - 24) = Some (24 * of_nat (length ds))"
    and "ds \<noteq> []" "24 * length ds < 2 ^ 32" "e820_table s0 E820_BUFFER_ADDRESS (butlast ds)"
    and "\<forall>d \<in> set (butlast ds). e820_Type d \<noteq> 1 \<longrightarrow> e820_Length d \<le> 0x7FFFF000"
    and "tot = bytes_of (butlast ds)"
  shows "\<exists>s'. InitMem_count stack frames0 s = Some s' \<and>
    total_mem s' = 2 * tot \<and> available_mem s' = 2 * bytes_of (usable (butlast ds)) \<and>
    ram s' = ram s0 \<and> cr3 s' = cr3 s \<and> PML4_Physical s' = cr3 s \<and>
    TaskManager s' = (\<lambda>p. if p = KernelTask then boot_task stack tot
      else if 0 \<le> p \<and> p < 512 then zero_task else TaskManager s p) \<and>
    (\<forall>i. fr_flags (phys_frames s' i) =
       (let f = (if i \<le> PageCount (MemoryData (boot_task stack tot)) then 0b101 else fr_flags (frames0 i))
        in if i \<in> marked (butlast ds) then (f OR 1) AND 0b11 else f))"
proof -
  let ?ds = "butlast ds" and ?PC = "PageCount (MemoryData (boot_task stack tot))"
  define tm where "tm = (\<lambda>p :: int. if p = KernelTask then zero_task\<lparr>MemoryData := stack\<lparr>BaseVirtualAddress :=
      VIRTUAL_MEMORY_BARRIER, PageCount := 512 * 32\<rparr>, ProcessState := 0x02, MaxTicks := 5, task_Exists := True\<rparr>
    else if 0 \<le> p \<and> p < 512 then zero_task else TaskManager s p)"
  obtain m where m: "s0 = s\<lparr>PML4_Physical := cr3 s, Kernel_PML4_Physical := cr3 s, ram := m\<rparr>"
    using assms(1) by (auto simp: zero_identity_def bind_eq_Some_conv)
  define s1 where "s1 = s0\<lparr>TaskManager := tm, VirtualMemorySize := PT_total\<rparr>"
  have r1: "ram s1 = ram s0" "cr3 s1 = cr3 s0" by (simp_all add: s1_def)
  note e1 = Enumerate_E820_result [of s1 ds False, unfolded same_reads [OF r1], OF assms(4-8)]
  obtain s2 where 2: "Enumerate_E820 s1 False = Some s2" "counts_only s1 s2" "total_mem s2 = tot"
    "available_mem s2 = bytes_of (usable ?ds)"
    using e1 assms(2,3,9) by (auto simp: s1_def m)
  define s3 where "s3 = mark_kernel_frames (upd_mem (s2\<lparr>Kernel_PML4_Physical := cr3 s2, phys_frames := frames0\<rparr>) KernelTask
     (\<lambda>m. m\<lparr>PageCount := PageCount m + ((tot div 0x1000) * 8 + 0xFFF) div 0x1000\<rparr>)) (unat (?PC + 1))"
  obtain a2 ph2 u2 where s2: "s2 = s1\<lparr>total_mem := tot, available_mem := a2, phys_frames := ph2, PhysicalPagesUsed := u2\<rparr>"
    using 2(2,3) by (auto elim: counts_onlyE)
  have "unat (?PC + 1) = unat ?PC + 1"
  proof -
    define n where "n = ((tot div 0x1000) * 8 + 0xFFF) div 0x1000"
    have "unat n < 2 ^ 52"
      unfolding n_def unat_div using unat_lt_64 [of "(tot div 0x1000) * 8 + 0xFFF"] by (simp add: less_mult_imp_div_less)
    moreover have "?PC = 0x4000 + n" by (simp add: boot_task_def n_def)
    ultimately show ?thesis by (simp add: unat_plus_no_wrap)
  qed
  then have lt: "unat i < unat (?PC + 1) \<longleftrightarrow> i \<le> ?PC" for i by (simp add: word_le_nat_alt less_Suc_eq_le)
  have "unat (?PC + 1) \<le> 2 ^ 64" using unat_lt_64 [of "?PC + 1"] by simp
  note s3 = s3_def [unfolded mark_kernel_frames_result [OF this] lt]
  have r3: "ram s3 = ram s0" "cr3 s3 = cr3 s0" by (simp_all add: s3 s2 s1_def upd_mem_def upd_task_def)
  note e3 = Enumerate_E820_result [of s3 ds True, unfolded same_reads [OF r3], OF assms(4-8)]
  obtain s4 where 4: "Enumerate_E820 s3 True = Some s4" "counts_only s3 s4" "total_mem s4 = total_mem s3 + tot"
    "available_mem s4 = available_mem s3 + bytes_of (usable ?ds)"
    "\<forall>i. fr_flags (phys_frames s4 i) = (if i \<in> marked ?ds
       then (fr_flags (phys_frames s3 i) OR 1) AND 0b11 else fr_flags (phys_frames s3 i))"
    using e3 assms(9) by auto
  have run: "InitMem_count stack frames0 s = Some s4"
  proof -
    have "zero_identity (s\<lparr>PML4_Physical := cr3 s, Kernel_PML4_Physical := cr3 s\<rparr>) = Some s0" by (rule assms(1))
    moreover have "s1 = set_task (s0\<lparr>TaskManager := (\<lambda>p. if 0 \<le> p \<and> p < 512 then zero_task else TaskManager s0 p)\<rparr>) KernelTask
        (zero_task\<lparr>ProcessID := 0, MemoryData := stack\<lparr>BaseVirtualAddress := VIRTUAL_MEMORY_BARRIER, PageCount := 512 * 32\<rparr>,
          RequestedSleepCycle := 0, ProcessState := 0x02, MaxTicks := 5, task_Exists := True\<rparr>)
        \<lparr>VirtualMemorySize := PT_total\<rparr>"
      by (simp add: s1_def set_task_def tm_def m fun_eq_iff KernelTask_def zero_task_def)
    moreover have "PageCount (task_mem (upd_mem (s2\<lparr>Kernel_PML4_Physical := cr3 s2, phys_frames := frames0\<rparr>) KernelTask
        (\<lambda>m. m\<lparr>PageCount := PageCount m + ((tot div 0x1000) * 8 + 0xFFF) div 0x1000\<rparr>)) KernelTask) = ?PC"
      by (simp add: s2 s1_def tm_def task_mem_def upd_mem_def upd_task_def boot_task_def)
    ultimately show ?thesis
      using 2(1,3) 4(1)
      by (simp add: InitMem_count_def mem_sync_cr3_def Let_def s3_def KernelTask_def)
  qed
  have tm4: "TaskManager s4 = (\<lambda>p. if p = KernelTask then boot_task stack tot
      else if 0 \<le> p \<and> p < 512 then zero_task else TaskManager s p)"
    using 4(2) by (auto elim!: counts_onlyE simp: s3 s2 s1_def tm_def upd_mem_def upd_task_def boot_task_def fun_eq_iff)
  have fl: "fr_flags (phys_frames s3 i) = (if i \<le> ?PC then 0b101 else fr_flags (frames0 i))" for i
    by (simp add: s3 upd_mem_def upd_task_def)
  have "total_mem s3 = tot" "available_mem s3 = a2" by (simp_all add: s3 s2 upd_mem_def upd_task_def)
  moreover have "a2 = bytes_of (usable ?ds)" using 2(4) by (simp add: s2)
  moreover have "ram s4 = ram s0" "cr3 s4 = cr3 s" "PML4_Physical s4 = cr3 s"
    using 4(2) by (auto elim!: counts_onlyE simp: r3 m) (simp add: s3 s2 s1_def m upd_mem_def upd_task_def)
  ultimately show ?thesis
    using run 4(3-5) tm4 by (intro exI [of _ s4]) (simp add: fl Let_def)
qed

lemma map_physical_calm [calm_rules]:
  assumes "map_physical s phys = Some s'" "calm r s"
  shows "calm r s'"
proof -
  from assms(1) have "\<forall>r. calm r s \<longrightarrow> calm r s'"
  proof (rule map_physical.raw_induct [where P = "\<lambda>s phys s'. \<forall>r. calm r s \<longrightarrow> calm r s'", rotated], goal_cases)
    case (1 f s phys s')
    show ?case
    proof (cases "phys < total_mem s")
      case True
      then obtain t where t: "(if fr_flags (frame_of s phys) AND 0b10 \<noteq> 0b10
          then do { (_, s) \<leftarrow> alloc_page s (kernel_page phys); Some s } else Some s) = Some t"
        "f t (phys + 0x1000) = Some s'"
        using 1(2) by (auto elim: bind_SomeE)
      have "calm r s \<Longrightarrow> calm r t" for r
        using t(1) by (auto split: if_splits prod.splits elim!: bind_SomeE intro: calm_rules)
      then show ?thesis using 1(1) [OF t(2)] by blast
    qed (use 1(2) in simp)
  qed
  then show ?thesis using assms(2) by blast
qed

text \<open>When \<open>InitMem\<close> returns, the kernel runs in its own address space, which its task entry names,
  and the amount of memory is what the first half has counted.\<close>

lemma InitMem_space:
  assumes "InitMem stack frames0 s = Some s'" "InitMem_count stack frames0 s = Some s1"
  shows "cr3 s' = PML4_Physical s'" "Kernel_PML4_Physical s' = cr3 s'"
    "Base_PML4 (TaskManager s' KernelTask) = cr3 s'" "total_mem s' = total_mem s1"
proof -
  obtain mem s2 s3 where 2: "Create_User_Memory s1 = Some (mem, s2)"
    and 3: "map_physical ((set_task ((mem_set_cr3 s2 mem False)\<lparr>Kernel_PML4_Physical := mem\<rparr>) KernelTask
       ((TaskManager s2 KernelTask)\<lparr>Base_PML4 := mem\<rparr>))\<lparr>PML4_Physical := mem\<rparr>) (512 * 64 * 0x1000) = Some s3"
    and s': "s' = FlushTLB s3"
    using assms by (auto simp: InitMem_def Let_def mem_set_cr3_def mem_sync_cr3_def elim!: bind_SomeE)
  note c = map_physical_calm [OF 3 calm_refl]
  have "calm s1 s2" by (rule Create_User_Memory_calm [OF 2 calm_refl])
  then have "total_mem s2 = total_mem s1" by (simp add: calm_def)
  moreover obtain d where "TaskManager s3 KernelTask = (TaskManager s2 KernelTask)\<lparr>Base_PML4 := mem, MemoryData := d\<rparr>"
    using c by (auto simp: calm_def set_task_def dest: spec [of _ KernelTask])
  ultimately show "cr3 s' = PML4_Physical s'" "Kernel_PML4_Physical s' = cr3 s'"
    "Base_PML4 (TaskManager s' KernelTask) = cr3 s'" "total_mem s' = total_mem s1"
    using c by (auto simp: calm_def s' FlushTLB_def set_task_def mem_set_cr3_def mem_sync_cr3_def)
qed

end
