(* ===== verification/Sample_Boot.thy ===== *)
theory Sample_Boot
  imports Mem_Boot Spaces
begin

text \<open>
  The sample machine as the boot code hands it over: the lower half of the root still holds the
  identity mapping, and the memory map with two ranges lies at 0xF000. The theorems about the
  start of memory management are applied to it.
\<close>

definition sample_map :: "e820_range list" where
  "sample_map = [\<lparr>Base_Address = 0x3000, e820_Length = 0x2000, e820_Type = 2, Extension = 0\<rparr>,
     \<lparr>Base_Address = 0x8000, e820_Length = 0x8000, e820_Type = 1, Extension = 0\<rparr>]"

definition map_ram :: ram where
  "map_ram = wr64 (wr64 (wr64 (wr64 sample_ram 0xF010 2) 0xF008 0x2000) 0xF000 0x3000) 0xEFE8 48"

definition boot_kst :: kst where
  "boot_kst = sample_kst\<lparr>ram := wr64 map_ram 0x1000 0x2003, total_mem := 0, available_mem := 0\<rparr>"

lemma map_ram_touches: "touches_only {0xE000, 0xF000} sample_ram map_ram"
proof -
  have e: "0xF010 = entry_at 0xF000 2" "0xF008 = entry_at 0xF000 1" "0xF000 = entry_at 0xF000 0"
    "0xEFE8 = entry_at 0xE000 509" by (simp_all add: entry_at_def)
  have al: "page_aligned 0xF000" "page_aligned 0xE000" "page_aligned 0x1000" by (simp_all add: page_aligned_def)
  have t: "touches_only {0xE000, 0xF000} m (wr64 m a v)" if "a \<in> {0xF010, 0xF008, 0xF000, 0xEFE8}" for m a v
  proof -
    have "touches_only {0xF000} m (wr64 m (entry_at 0xF000 2) v)" "touches_only {0xF000} m (wr64 m (entry_at 0xF000 1) v)"
      "touches_only {0xF000} m (wr64 m (entry_at 0xF000 0) v)" "touches_only {0xE000} m (wr64 m (entry_at 0xE000 509) v)"
      using al by (intro touches_wr64; simp)+
    then show ?thesis using that touches_mono [of "{0xF000}" m _ "{0xE000, 0xF000}"]
        touches_mono [of "{0xE000}" m _ "{0xE000, 0xF000}"] by (auto simp: entry_at_def)
  qed
  show ?thesis
    unfolding map_ram_def by (intro touches_trans [OF _ t subset_refl subset_refl] t) simp_all
qed

lemma map_ram_walks: "same_walks sample_ram map_ram 0x1000"
  by (rule touches_same_walks [OF map_ram_touches]) (simp_all add: sample_is_table page_aligned_def)

lemma map_ram_inv: "paging_inv (sample_kst\<lparr>ram := map_ram\<rparr>)"
proof (rule paging_inv_same_walks [OF sample_paging_inv])
  show "same_walks (ram sample_kst) (ram (sample_kst\<lparr>ram := map_ram\<rparr>)) (cr3 sample_kst)"
    using map_ram_walks by simp
  show "frame_kernel (sample_kst\<lparr>ram := map_ram\<rparr>) t" if "is_table (ram sample_kst) (cr3 sample_kst) t" for t
    using that by (auto simp: sample_is_table frame_kernel_def frame_of_def sample_kst_def)
qed simp_all

lemma map_ram_byte:
  "map_ram x = (if x - 0xEFE8 < 8 then byte64 48 (x - 0xEFE8) else if x - 0xF000 < 8 then byte64 0x3000 (x - 0xF000)
     else if x - 0xF008 < 8 then byte64 0x2000 (x - 0xF008) else if x - 0xF010 < 8 then byte64 2 (x - 0xF010)
     else sample_ram x)"
  by (simp add: map_ram_def wr64_def)

lemma map_reads:
  "vread32 (sample_kst\<lparr>ram := map_ram\<rparr>) (E820_BUFFER_ADDRESS - 24) = Some 48"
  "e820_table (sample_kst\<lparr>ram := map_ram\<rparr>) E820_BUFFER_ADDRESS (butlast sample_map)"
proof -
  let ?s = "sample_kst\<lparr>ram := map_ram\<rparr>"
  have al: "page_aligned 0xF000" "page_aligned 0xE000" by (simp_all add: page_aligned_def)
  have b: "vread8 ?s (f + of_nat k + VIRTUAL_MEMORY_BARRIER) = Some (map_ram (f + of_nat k))"
    if "page_aligned f" "f < 0x10000" "k < 4096" for f k
    using dmap_write(2) [OF map_ram_inv that(1) _ that(3)] that(2) by (simp add: dmap_def)
  have bytes: "vread8 ?s 0xffff80000000EFE8 = Some 48" "vread8 ?s 0xffff80000000EFE9 = Some 0"
    "vread8 ?s 0xffff80000000EFEA = Some 0" "vread8 ?s 0xffff80000000EFEB = Some 0"
    "vread8 ?s 0xffff80000000F010 = Some 2" "vread8 ?s 0xffff80000000F011 = Some 0"
    "vread8 ?s 0xffff80000000F012 = Some 0" "vread8 ?s 0xffff80000000F013 = Some 0"
    using b [OF al(2), of "0xFE8"] b [OF al(2), of "0xFE9"] b [OF al(2), of "0xFEA"] b [OF al(2), of "0xFEB"]
      b [OF al(1), of "0x10"] b [OF al(1), of "0x11"] b [OF al(1), of "0x12"] b [OF al(1), of "0x13"]
    by (simp_all add: VIRTUAL_MEMORY_BARRIER_def map_ram_byte byte64_def)
  show "vread32 ?s (E820_BUFFER_ADDRESS - 24) = Some 48"
    by (simp add: vread32_def E820_BUFFER_ADDRESS_def bytes le32_def)
  have w: "rd64 map_ram 0xF000 = 0x3000" "rd64 map_ram 0xF008 = 0x2000"
    by (simp_all add: rd64_def map_ram_byte le64_def byte64_def)
  have "vread64 ?s 0xffff80000000F000 = Some 0x3000" "vread64 ?s 0xffff80000000F008 = Some 0x2000"
    using entry_access(1) [OF map_ram_inv al(1), of 0] entry_access(1) [OF map_ram_inv al(1), of 1] w
    by (simp_all add: dmap_def entry_at_def VIRTUAL_MEMORY_BARRIER_def)
  then show "e820_table ?s E820_BUFFER_ADDRESS (butlast sample_map)"
    by (simp add: sample_map_def E820_BUFFER_ADDRESS_def vread32_def bytes le32_def)
qed

lemma offset_range:
  fixes x a :: u64
  assumes "x - a < n" "unat a + unat n \<le> 2 ^ 64"
  shows "unat a \<le> unat x \<and> unat x < unat a + unat n"
proof -
  have lt: "unat (x - a) < unat n" using assms(1) by (simp add: word_less_nat_alt)
  then have "unat (a + (x - a)) = unat a + unat (x - a)" using assms(2) by (intro unat_plus_no_wrap) simp
  then show ?thesis using lt by simp
qed

lemma map_ram_root: "x - 0x1000 < 0x800 \<Longrightarrow> map_ram x = 0"
proof -
  assume "x - 0x1000 < 0x800"
  then have x: "0x1000 \<le> unat x" "unat x < 0x1800" using offset_range [of x "0x1000" "0x800"] by simp_all
  have "\<not> x - a < 8" if "a \<in> {0xEFE8, 0xF000, 0xF008, 0xF010}" for a
    using offset_range [of x a 8] x that by auto
  moreover have "sample_cell (8 * (x div 8)) = 0"
  proof -
    have u: "unat (8 * (x div 8)) = 8 * (unat x div 8)"
      using x by (simp add: unat_word_ariths unat_div)
    have "unat x div 8 < 768" using x(2) by (simp add: less_mult_imp_div_less)
    then show ?thesis by (auto simp: sample_cell_def word_unat_eq_iff word_less_nat_alt word_le_nat_alt u)
  qed
  ultimately show ?thesis by (simp add: map_ram_byte sample_ram_def cell_ram_def byte64_def)
qed

lemma boot_zero: "zero_identity (boot_kst\<lparr>PML4_Physical := 0x1000, Kernel_PML4_Physical := 0x1000\<rparr>) =
    Some (sample_kst\<lparr>ram := map_ram, total_mem := 0, available_mem := 0\<rparr>)"
proof -
  let ?m = "wr64 map_ram 0x1000 0x2003"
  have al: "page_aligned 0x1000" "page_aligned 0x2000" "page_aligned 0x3000" "page_aligned 0x4000"
    by (simp_all add: page_aligned_def)
  have e: "0x1000 = entry_at 0x1000 0" by (simp add: entry_at_def)
  have step: "tbl_step ?m i t = tbl_step sample_ram i t" if "t \<in> {0x2000, 0x3000, 0x4000}" "i < 512" for i t
  proof -
    have "t \<noteq> 0x1000" "page_aligned t" "t \<notin> {0xE000, 0xF000}" using that(1) al by auto
    then have "rd64 ?m (entry_at t i) = rd64 sample_ram (entry_at t i)"
      using al that(2) touches_rd64 [OF map_ram_touches] by (subst e) (simp add: rd64_wr64_entry)
    then show ?thesis by (simp add: tbl_step_def)
  qed
  have "tbl_step ?m 0 0x1000 = Some 0x2000"
    by (subst e) (simp add: tbl_step_def rd64_wr64_same PTE_ADDR_def)
  then have w: "walk (boot_kst\<lparr>PML4_Physical := 0x1000, Kernel_PML4_Physical := 0x1000\<rparr>) 0x1000 = Some 0x1000"
    by (simp add: walk_def mmu_walk_def va_path_def boot_kst_def tbl_Cons_step step sample_steps PTE_ADDR_def del: tbl.simps(2))
  have "(\<lambda>x. if x - 0x1000 < 0x800 then 0 else ?m x) = map_ram"
  proof
    fix x :: u64
    have "x - 0x1000 < 8 \<Longrightarrow> x - 0x1000 < 0x800" by (erule less_trans) simp
    then show "(if x - 0x1000 < 0x800 then 0 else ?m x) = map_ram x"
      using map_ram_root [of x] by (auto simp: wr64_def)
  qed
  moreover have "ram boot_kst = ?m" by (simp add: boot_kst_def)
  ultimately have "zero_identity (boot_kst\<lparr>PML4_Physical := 0x1000, Kernel_PML4_Physical := 0x1000\<rparr>) =
      Some (boot_kst\<lparr>PML4_Physical := 0x1000, Kernel_PML4_Physical := 0x1000, ram := map_ram\<rparr>)"
    using w by (simp add: zero_identity_def cong: if_cong)
  then show ?thesis by (simp add: boot_kst_def sample_kst_def)
qed

theorem Enumerate_E820_result_witness:
  "\<exists>s'. Enumerate_E820 (sample_kst\<lparr>ram := map_ram\<rparr>) True = Some s' \<and> total_mem s' = 0x12000 \<and>
     fr_flags (phys_frames s' 3) = 0b101 \<and> fr_flags (phys_frames s' 4) = 1 \<and> fr_flags (phys_frames s' 5) = 1"
proof -
  have m: "marked (butlast sample_map) = {4, 5}"
    by (simp add: marked_def sample_map_def range_frames_def range_pages_def lessThan_nat_numeral lessThan_Suc)
      (simp add: insert_commute)
  have "\<exists>s'. Enumerate_E820 (sample_kst\<lparr>ram := map_ram\<rparr>) True = Some s' \<and> counts_only (sample_kst\<lparr>ram := map_ram\<rparr>) s' \<and>
    total_mem s' = total_mem (sample_kst\<lparr>ram := map_ram\<rparr>) + bytes_of (butlast sample_map) \<and>
    available_mem s' = available_mem (sample_kst\<lparr>ram := map_ram\<rparr>) + bytes_of (usable (butlast sample_map)) \<and>
    (\<forall>i. fr_flags (phys_frames s' i) = (if True \<and> i \<in> marked (butlast sample_map)
       then (fr_flags (phys_frames (sample_kst\<lparr>ram := map_ram\<rparr>) i) OR 1) AND 0b11
       else fr_flags (phys_frames (sample_kst\<lparr>ram := map_ram\<rparr>) i)))"
    by (rule Enumerate_E820_result) (use map_reads in \<open>simp_all add: sample_map_def\<close>)
  then show ?thesis by (auto simp: m) (auto simp: sample_kst_def bytes_of_def sample_map_def)
qed

theorem InitMem_count_result_witness:
  "\<exists>s'. InitMem_count zero_mem_def (\<lambda>i. \<lparr>refcount = 0, fr_flags = 0\<rparr>) boot_kst = Some s' \<and>
     total_mem s' = 0x4000 \<and> fr_flags (phys_frames s' 4) = 1 \<and> fr_flags (phys_frames s' 6) = 0b101 \<and>
     PageCount (task_mem s' KernelTask) = 0x4001"
proof -
  let ?s0 = "sample_kst\<lparr>ram := map_ram, total_mem := 0, available_mem := 0\<rparr>"
  have m: "marked (butlast sample_map) = {4, 5}"
    by (simp add: marked_def sample_map_def range_frames_def range_pages_def lessThan_nat_numeral lessThan_Suc)
      (simp add: insert_commute)
  have z: "zero_identity (boot_kst\<lparr>PML4_Physical := cr3 boot_kst, Kernel_PML4_Physical := cr3 boot_kst\<rparr>) = Some ?s0"
    using boot_zero by (simp add: boot_kst_def)
  have r: "vread32 ?s0 = vread32 (sample_kst\<lparr>ram := map_ram\<rparr>)" "e820_table ?s0 = e820_table (sample_kst\<lparr>ram := map_ram\<rparr>)"
    by (intro ext; rule same_reads; simp)+
  have "\<exists>s'. InitMem_count zero_mem_def (\<lambda>i. \<lparr>refcount = 0, fr_flags = 0\<rparr>) boot_kst = Some s' \<and>
    total_mem s' = 2 * 0x2000 \<and> available_mem s' = 2 * bytes_of (usable (butlast sample_map)) \<and>
    ram s' = ram ?s0 \<and> cr3 s' = cr3 boot_kst \<and> PML4_Physical s' = cr3 boot_kst \<and>
    TaskManager s' = (\<lambda>p. if p = KernelTask then boot_task zero_mem_def 0x2000
      else if 0 \<le> p \<and> p < 512 then zero_task else TaskManager boot_kst p) \<and>
    (\<forall>i. fr_flags (phys_frames s' i) =
       (let f = (if i \<le> PageCount (MemoryData (boot_task zero_mem_def 0x2000)) then 0b101
                 else fr_flags ((\<lambda>i. \<lparr>refcount = 0, fr_flags = 0\<rparr>) i))
        in if i \<in> marked (butlast sample_map) then (f OR 1) AND 0b11 else f))"
    by (rule InitMem_count_result [OF z])
      (use map_reads in \<open>simp_all add: r sample_map_def bytes_of_def boot_kst_def\<close>)
  then show ?thesis
    by (auto simp: m task_mem_def Let_def boot_task_def)
qed

end
