(* ===== verification/Kheap.thy ===== *)
theory Kheap
  imports Tasks "HOL-Library.Signed_Division"
begin

text \<open>
  The heap functions of \<open>LowLevel/Memory.c\<close> and its copies by words. Nothing of the kernel calls
  them; the lemmas say what they would do.
\<close>

section \<open>Copies by words\<close>

definition vread16 :: "kst \<Rightarrow> u64 \<Rightarrow> u16 option" where
  "vread16 s va = do { a \<leftarrow> vread8 s va; b \<leftarrow> vread8 s (va + 1); Some (push_bit 8 (ucast b) OR ucast a) }"

definition vwrite16 :: "kst \<Rightarrow> u64 \<Rightarrow> u16 \<Rightarrow> kst option" where
  "vwrite16 s va v = do { s \<leftarrow> vwrite8 s va (ucast v); vwrite8 s (va + 1) (ucast (drop_bit 8 v)) }"

text \<open>The pointers are to 16 bit words and are advanced by two of them before they are used; the
  count is lowered before it is looked at.\<close>

partial_function (option) memcpyw :: "kst \<Rightarrow> u64 \<Rightarrow> u64 \<Rightarrow> u64 \<Rightarrow> kst option" where
  "memcpyw s d src n =
     (let n = n - 2 in
      if n \<noteq> 0 then do {
        v \<leftarrow> vread16 s (src + 4);
        s \<leftarrow> vwrite16 s (d + 4) v;
        memcpyw s (d + 4) (src + 4) n }
      else Some s)"

partial_function (option) memsetw :: "kst \<Rightarrow> u64 \<Rightarrow> u16 \<Rightarrow> u64 \<Rightarrow> kst option" where
  "memsetw s d value bytes =
     (let bytes = bytes - 2 in
      if bytes \<noteq> 0 then do { s \<leftarrow> vwrite16 s (d + 4) value; memsetw s (d + 4) value bytes }
      else Some s)"

section \<open>The heap of the kernel\<close>

record slab_cache =
  slab :: u64
  slab_size :: u64
  slab_used :: bool

text \<open>The entries from 128 on are memory behind the array \<open>slabs\<close>.\<close>

type_synonym slabs = "nat \<Rightarrow> slab_cache"

definition find_slab :: "slabs \<Rightarrow> nat" where
  "find_slab sl = (case List.find (\<lambda>i. \<not> slab_used (sl i)) [0..<129] of Some i \<Rightarrow> i | None \<Rightarrow> 129)"

definition slab_page :: "u64 \<Rightarrow> u64 \<Rightarrow> page_details" where
  "slab_page va pa = \<lparr>pg_flags = KERNEL_FLAGS, pg_Execute_Disable = False, virtual_address = va, physical_address = pa\<rparr>"

text \<open>The loop over the further pages; it counts \<open>bytes\<close> up and leaves \<open>p\<close> alone.\<close>

partial_function (option) slab_loop :: "kst \<Rightarrow> u64 \<Rightarrow> u64 \<Rightarrow> u64 \<Rightarrow> kst option" where
  "slab_loop s va pa bytes =
     (if 1 < bytes div 0x1000 then do {
        (_, s) \<leftarrow> alloc_page s (slab_page (va + 0x1000) (pa + 0x1000));
        slab_loop s (va + 0x1000) (pa + 0x1000) (bytes + 1) }
      else Some s)"

definition round_bytes :: "u64 \<Rightarrow> u64" where
  "round_bytes bytes = (if bytes mod 0x1000 > 0 then (bytes AND 0) + 0x1000 else bytes)"

text \<open>The result is the pointer that is returned, or \<open>None\<close> where the function ends without a
  \<open>return\<close>. The mask \<open>!0xFFF\<close> is 0.\<close>

definition kmalloc :: "slabs \<Rightarrow> u64 \<Rightarrow> kst \<Rightarrow> (u64 option \<times> slabs \<times> kst) option" where
  "kmalloc sl bytes s =
     (let i = find_slab sl in
      if i = 128 then Some (Some 0, sl, s)
      else let bytes = round_bytes bytes in do {
        phys \<leftarrow> FindNextFreePhysicalContinuous s (bytes div 0x1000);
        if phys = 0 then Some (Some 0, sl,
          say s (Printf ''Couldn't find a continuous physical region of %x bytes'' [bytes]))
        else do {
          (a, s) \<leftarrow> alloc_page s (slab_page (phys + VIRTUAL_MEMORY_BARRIER) phys);
          let sl = sl(i := \<lparr>slab = a, slab_size = bytes div 0x1000, slab_used = True\<rparr>);
          s \<leftarrow> slab_loop s (phys + VIRTUAL_MEMORY_BARRIER) phys bytes;
          Some (None, sl, s) } })"

definition kfree :: "u64 \<Rightarrow> kst \<Rightarrow> kst" where
  "kfree slab_addr s = (let slab_addr = slab_addr AND NOT 0xFFF in s)"

section \<open>The heap of a task\<close>

text \<open>\<open>struct mallocMetadata\<close>: 24 bytes, with \<open>size\<close> at 0, \<open>available\<close> at 8 and \<open>nextSlab\<close> at 16.\<close>

definition metadata_size :: u64 where "metadata_size = 24"

definition slab_fits :: "kst \<Rightarrow> u64 \<Rightarrow> u64 \<Rightarrow> bool option" where
  "slab_fits s addr bytes = do {
     available \<leftarrow> vread8 s (addr + 8);
     if available \<noteq> 0 then do { size \<leftarrow> vread64 s addr; Some (size \<ge> bytes + metadata_size) }
     else Some False }"

partial_function (option) find_block :: "kst \<Rightarrow> u64 \<Rightarrow> u64 \<Rightarrow> bool \<Rightarrow> (u64 \<times> bool) option" where
  "find_block s bytes addr makeNew = do {
     canUse \<leftarrow> slab_fits s addr bytes;
     makeNew \<leftarrow> (if canUse then Some makeNew
                else do { next_slab \<leftarrow> vread64 s (addr + 16); Some (makeNew \<or> next_slab = 0) });
     size \<leftarrow> vread64 s addr;
     let addr = addr + metadata_size * size;
     if canUse then Some (addr, makeNew) else find_block s bytes addr makeNew }"

primrec heap_pages :: "nat \<Rightarrow> int \<Rightarrow> u64 \<Rightarrow> kst \<Rightarrow> kst option" where
  "heap_pages 0 pid va s = Some s"
| "heap_pages (Suc n) pid va s = do {
     pa \<leftarrow> FindNextFreePhysical s;
     (_, s) \<leftarrow> alloc_page s \<lparr>pg_flags = USER_FLAGS, pg_Execute_Disable = True, virtual_address = va, physical_address = pa\<rparr>;
     let s = upd_mem s pid (\<lambda>m. m\<lparr>PageCount := PageCount m + 1\<rparr>);
     heap_pages n pid (va + 0x1000) s }"

definition userMalloc :: "int \<Rightarrow> u64 \<Rightarrow> kst \<Rightarrow> (u64 \<times> kst) option" where
  "userMalloc pid bytes s = do {
     (data, makeNew) \<leftarrow> find_block s bytes (HeapVirtualAddress (task_mem s pid)) False;
     let truebytes = sint (ucast (bytes + metadata_size) :: 32 word);
     let pagecount = truebytes sdiv 0x1000 + (if truebytes smod 0x1000 > 0 then 1 else 0);
     s \<leftarrow> (if makeNew then do {
            s \<leftarrow> vwrite64 s data (word_of_int truebytes);
            heap_pages (nat pagecount) pid data s }
          else Some s);
     s \<leftarrow> vwrite8 s (data + 8) 0;
     Some (data + metadata_size * metadata_size, s) }"

definition userFree :: "int \<Rightarrow> u64 \<Rightarrow> kst \<Rightarrow> kst" where
  "userFree pid address s = (if mem_access_ok s address pid then s else s)"

section \<open>What they do\<close>

lemma memsetw_even: "memsetw s d v n = Some s' \<Longrightarrow> even n"
proof -
  assume "memsetw s d v n = Some s'"
  then show ?thesis
  proof (rule memsetw.raw_induct [where P = "\<lambda>s d v n s'. even n", rotated], goal_cases)
    case (1 f s d v n s')
    from 1(2) have "n - 2 = 0 \<or> even (n - 2)"
      by (auto simp: Let_def split: if_splits elim!: bind_SomeE dest!: 1(1))
    then show ?case by auto
  qed
qed

lemma memcpyw_even: "memcpyw s d src n = Some s' \<Longrightarrow> even n"
proof -
  assume "memcpyw s d src n = Some s'"
  then show ?thesis
  proof (rule memcpyw.raw_induct [where P = "\<lambda>s d src n s'. even n", rotated], goal_cases)
    case (1 f s d src n s')
    from 1(2) have "n - 2 = 0 \<or> even (n - 2)"
      by (auto simp: Let_def split: if_splits elim!: bind_SomeE dest!: 1(1))
    then show ?case by auto
  qed
qed

text \<open>\<open>memsetw\<close> and \<open>memcpyw\<close> do not return for an odd number of bytes: the count never
  becomes 0.\<close>

theorem word_copies_odd: "odd n \<Longrightarrow> memsetw s d v n = None \<and> memcpyw s d src n = None"
  using memsetw_even memcpyw_even by (metis not_None_eq)

theorem word_copies_odd_witness: "\<forall>s d v src. memsetw s d v 7 = None \<and> memcpyw s d src 7 = None"
  using word_copies_odd [of 7] by simp

text \<open>A request that is not a whole number of pages is rounded to one page, whatever its size.\<close>

theorem kmalloc_one_page: "bytes mod 0x1000 \<noteq> 0 \<Longrightarrow> kmalloc sl bytes s = kmalloc sl 0x1000 s"
proof -
  assume "bytes mod 0x1000 \<noteq> 0"
  then have "round_bytes bytes = 0x1000" "round_bytes 0x1000 = 0x1000"
    by (simp_all add: round_bytes_def word_neq_0_conv)
  then show ?thesis by (simp add: kmalloc_def Let_def)
qed

text \<open>The pages a run of \<open>n\<close> turns of the loop maps.\<close>

primrec slab_pages :: "nat \<Rightarrow> kst \<Rightarrow> u64 \<Rightarrow> u64 \<Rightarrow> kst option" where
  "slab_pages 0 s va pa = Some s"
| "slab_pages (Suc n) s va pa = do {
     (_, s) \<leftarrow> alloc_page s (slab_page (va + 0x1000) (pa + 0x1000));
     slab_pages n s (va + 0x1000) (pa + 0x1000) }"

lemma slab_loop_pages:
  "0x2000 \<le> bytes \<Longrightarrow> slab_loop s va pa bytes = slab_pages (2 ^ 64 - unat bytes) s va pa"
proof (induction "2 ^ 64 - unat bytes" arbitrary: bytes s va pa)
  case 0
  then show ?case using unat_lt_64 [of bytes] by simp
next
  case (Suc n)
  have more: "1 < bytes div 0x1000"
  proof -
    have "2 \<le> unat bytes div 4096" using Suc.prems by (simp add: word_le_nat_alt)
    then show ?thesis by (simp add: word_less_nat_alt unat_div)
  qed
  have n: "2 ^ 64 - unat bytes = Suc n" using Suc.hyps(2) ..
  show ?case
  proof (cases "bytes + 1 = 0")
    case True
    then have "bytes = - 1" by (metis add_eq_0_iff2)
    then have u: "unat bytes = 2 ^ 64 - 1" by (simp only: unsigned_minus_1_eq_mask) (simp add: mask_eq_exp_minus_1)
    have "slab_loop t va pa 0 = Some t" for t va pa by (subst slab_loop.simps) simp
    then show ?thesis using more n u True by (subst slab_loop.simps) (simp add: slab_page_def)
  next
    case False
    then have u: "unat (bytes + 1) = Suc (unat bytes)" by (metis add.commute unatSuc)
    have le: "0x2000 \<le> bytes + 1" using Suc.prems u by (simp add: word_le_nat_alt)
    have "n = 2 ^ 64 - unat (bytes + 1)" using n u by simp
    from Suc.hyps(1) [OF this le] this
    show ?thesis using more n by (subst slab_loop.simps) simp
  qed
qed

text \<open>A request of two pages or more maps every page from the one behind the block on: the
  counter that runs is the size, not the page, and it stops when the size has wrapped around to
  0.\<close>

theorem kmalloc_runs_on:
  assumes "bytes mod 0x1000 = 0" "0x2000 \<le> bytes" "find_slab sl < 128"
    and "FindNextFreePhysicalContinuous s (bytes div 0x1000) = Some f" "f \<noteq> 0"
  shows "kmalloc sl bytes s = do {
    (a, s1) \<leftarrow> alloc_page s (slab_page (f + VIRTUAL_MEMORY_BARRIER) f);
    s2 \<leftarrow> slab_pages (2 ^ 64 - unat bytes) s1 (f + VIRTUAL_MEMORY_BARRIER) f;
    Some (None, sl(find_slab sl := \<lparr>slab = a, slab_size = bytes div 0x1000, slab_used = True\<rparr>), s2) }"
proof -
  have "round_bytes bytes = bytes" using assms(1) by (simp add: round_bytes_def)
  then show ?thesis
    using assms(3-5) slab_loop_pages [OF assms(2)]
    by (simp add: kmalloc_def Let_def)
qed

text \<open>C37. On a heap of zeros \<open>userMalloc\<close> does not return: it notes that a block is to be made, but goes
  on looking at the same place.\<close>

theorem userMalloc_empty_heap:
  assumes "vread8 s (HeapVirtualAddress (task_mem s pid) + 8) = Some 0"
    and "vread64 s (HeapVirtualAddress (task_mem s pid)) = Some 0"
  shows "userMalloc pid bytes s = None"
proof -
  let ?h = "HeapVirtualAddress (task_mem s pid)"
  have "find_block s bytes ?h mk \<noteq> Some r" for mk r
  proof
    assume "find_block s bytes ?h mk = Some r"
    then have "s = s \<and> ?h = ?h \<longrightarrow> False"
    proof (rule find_block.raw_induct [where P = "\<lambda>s' b a mk r. s' = s \<and> a = ?h \<longrightarrow> False", rotated], goal_cases)
      case (1 f s' b a mk r)
      show ?case
      proof
        assume "s' = s \<and> a = ?h"
        then obtain mk' where "f s b ?h mk' = Some r"
          using 1(2) assms by (auto simp: slab_fits_def elim!: bind_SomeE)
        then show False using 1(1) by blast
      qed
    qed
    then show False by simp
  qed
  then have "find_block s bytes ?h False = None" by (metis not_None_eq)
  then show ?thesis by (simp add: userMalloc_def)
qed

section \<open>Witnesses\<close>

definition no_slabs :: slabs where
  "no_slabs = (\<lambda>i. \<lparr>slab = 0, slab_size = 0, slab_used = False\<rparr>)"

theorem kmalloc_one_page_witness: "kmalloc no_slabs 5000 sample_kst = kmalloc no_slabs 0x1000 sample_kst"
  by (rule kmalloc_one_page) simp

theorem kmalloc_runs_on_witness:
  "kmalloc no_slabs 0x2000 sample_kst = do {
    (a, s1) \<leftarrow> alloc_page sample_kst (slab_page (0x6000 + VIRTUAL_MEMORY_BARRIER) 0x6000);
    s2 \<leftarrow> slab_pages (2 ^ 64 - unat (0x2000 :: u64)) s1 (0x6000 + VIRTUAL_MEMORY_BARRIER) 0x6000;
    Some (None, no_slabs(find_slab no_slabs := \<lparr>slab = a, slab_size = 0x2000 div 0x1000, slab_used = True\<rparr>), s2) }"
proof (rule kmalloc_runs_on)
  show "FindNextFreePhysicalContinuous sample_kst (0x2000 div 0x1000) = Some 0x6000"
  proof -
    have used: "block_used sample_kst a 2 \<longleftrightarrow> a div 0x1000 < 5 \<or> (a + 0x1000) div 0x1000 < 5" for a
      by (simp add: block_used_def mem_GetBit_def upt_rec)
    show ?thesis
      by (simp add: FindNextFreePhysicalContinuous_def find_block_loop.simps [of _ _ 0]
          find_block_loop.simps [of _ _ "0x2000"] find_block_loop.simps [of _ _ "0x4000"]
          find_block_loop.simps [of _ _ "0x6000"] used)
  qed
  show "find_slab no_slabs < 128" by (simp add: find_slab_def no_slabs_def upt_rec)
qed simp_all

theorem userMalloc_empty_heap_witness:
  "userMalloc 3 100 (upd_mem sample_kst 3 (\<lambda>m. m\<lparr>HeapVirtualAddress := 0xffff800000005000\<rparr>)) = None"
proof (rule userMalloc_empty_heap)
  let ?s = "upd_mem sample_kst 3 (\<lambda>m. m\<lparr>HeapVirtualAddress := 0xffff800000005000\<rparr>)"
  have h: "HeapVirtualAddress (task_mem ?s 3) = 0xffff800000005000"
    by (simp add: task_mem_def upd_mem_def upd_task_def)
  have same: "vread8 ?s = vread8 sample_kst" "vread64 ?s = vread64 sample_kst"
    by (simp_all add: fun_eq_iff vread8_def vread64_def walk_def upd_mem_def upd_task_def)
  have al: "page_aligned 0x5000" by (simp add: page_aligned_def)
  show "vread8 ?s (HeapVirtualAddress (task_mem ?s 3) + 8) = Some 0"
    using dmap_write(2) [OF sample_paging_inv al, of 8]
    by (simp add: h same dmap_def VIRTUAL_MEMORY_BARRIER_def sample_ram_def cell_ram_def sample_cell_def byte64_def)
  show "vread64 ?s (HeapVirtualAddress (task_mem ?s 3)) = Some 0"
    using entry_access(1) [OF sample_paging_inv al, of 0] rd64_sample_ram [OF al, of 0]
    by (simp add: h same dmap_def VIRTUAL_MEMORY_BARRIER_def entry_at_def sample_cell_def)
qed

end
