(* ===== verification/Pci.thy ===== *)
theory Pci
  imports Sample_Machine Strings
begin

text \<open>
  The PCI driver (\<open>Devices/PCI.c\<close>): configuration addresses, the headers of the devices and the
  scan of the busses. The array \<open>Devices\<close> is a function of the index and pointers into it are
  indices. What the stack holds in headers that are not read is a parameter.
\<close>

section \<open>Configuration space\<close>

definition PCI_CONFIG_ADDRESS :: u16 where "PCI_CONFIG_ADDRESS = 0xCF8"
definition PCI_CONFIG_DATA :: u16 where "PCI_CONFIG_DATA = 0xCFC"

definition TwoPieceBARtoPhysAddress :: "u32 \<Rightarrow> u32 \<Rightarrow> u64" where
  "TwoPieceBARtoPhysAddress BAR0 BAR1 =
     (let LOWER = (ucast BAR0 :: u64); UPPER = push_bit 32 (ucast BAR1 :: u64) in UPPER OR LOWER)"

definition PCI_CreateConfigAddress :: "u8 \<Rightarrow> u8 \<Rightarrow> u8 \<Rightarrow> u8 \<Rightarrow> u32" where
  "PCI_CreateConfigAddress bus slot func offset =
     (let lbus = (ucast bus :: u32); lslot = (ucast slot :: u32); lfunc = (ucast func :: u32)
      in push_bit 16 lbus OR push_bit 11 lslot OR push_bit 8 lfunc OR ucast (offset AND 0xFC) OR 0x80000000)"

definition PCI_ReadL :: "kst \<Rightarrow> u8 \<Rightarrow> u8 \<Rightarrow> u8 \<Rightarrow> u32 \<times> kst" where
  "PCI_ReadL s bus slot offset =
     (let Address = PCI_CreateConfigAddress bus slot 0 offset
      in inl (outl s PCI_CONFIG_ADDRESS Address) PCI_CONFIG_DATA)"

definition PCI_ReadW :: "kst \<Rightarrow> u8 \<Rightarrow> u8 \<Rightarrow> u8 \<Rightarrow> u16 \<times> kst" where
  "PCI_ReadW s bus slot offset =
     (let Address = PCI_CreateConfigAddress bus slot 0 offset;
          (v, s) = inl (outl s PCI_CONFIG_ADDRESS Address) PCI_CONFIG_DATA
      in (ucast (drop_bit (unat (offset AND 2) * 8) v AND 0xFFFF), s))"

definition pci_writeb :: "kst \<Rightarrow> u32 \<Rightarrow> u8 \<Rightarrow> kst" where
  "pci_writeb s address data = outb (outl s PCI_CONFIG_ADDRESS address) PCI_CONFIG_DATA data"

definition pci_writew :: "kst \<Rightarrow> u32 \<Rightarrow> u16 \<Rightarrow> kst" where
  "pci_writew s address data = outw (outl s PCI_CONFIG_ADDRESS address) PCI_CONFIG_DATA (ucast data)"

section \<open>Headers\<close>

record PCI_Common_Header =
  VendorID :: u16
  DeviceID :: u16
  Command :: u16
  Status :: u16
  RevisionID :: u8
  ProgIF :: u8
  SubClass :: u8
  ClassCode :: u8
  CacheLineSize :: u8
  LatencyTimer :: u8
  HeaderType :: u8
  BIST :: u8

record PCI_Header_0x0 =
  h0_BAR0 :: u32
  h0_BAR1 :: u32
  h0_BAR2 :: u32
  h0_BAR3 :: u32
  h0_BAR4 :: u32
  h0_BAR5 :: u32
  h0_Cardbus_CIS :: u32
  h0_Subsystem_Vendor_ID :: u16
  h0_Subsystem_ID :: u16
  h0_ExpansionROM :: u32
  h0_CapabilityPointer :: u16
  h0_Reserved1 :: u16
  h0_Reserved2 :: u32
  h0_InterruptLine :: u8
  h0_InterruptPIN :: u8
  h0_MinGrant :: u8
  h0_MaxLatency :: u8
  h0_Common_Header :: PCI_Common_Header

record PCI_Header_0x1 =
  h1_BAR0 :: u32
  h1_BAR1 :: u32
  h1_PrimaryBusNumber :: u8
  h1_SecondaryBusNumber :: u8
  h1_SubordinateBusNumber :: u8
  h1_SecondaryLatencyTimer :: u8
  h1_IOBase :: u8
  h1_IOLimit :: u8
  h1_SecondaryStatus :: u16
  h1_MemoryBase :: u16
  h1_MemoryLimit :: u16
  h1_PrefetchMemoryBaseLower :: u16
  h1_PrefetchMemoryLimitLower :: u16
  h1_PrefetchBaseUpper :: u32
  h1_PrefetchLimitUpper :: u32
  h1_IOBaseUpper :: u16
  h1_IOLimitUpper :: u16
  h1_CapabilityPointer :: u16
  h1_Reserved1 :: u16
  h1_ExpansionROM :: u32
  h1_InterruptLine :: u8
  h1_InterruptPIN :: u8
  h1_BridgeControl :: u16
  h1_Common_Header :: PCI_Common_Header

record PCI_Device =
  dev_Header :: PCI_Common_Header
  dev_Header0 :: PCI_Header_0x0
  dev_Header1 :: PCI_Header_0x1
  dev_header_type :: bool
  dev_present :: bool
  dev_slot :: u8
  dev_bus :: u8

text \<open>A struct that is filled word by word: word \<open>i\<close> of the struct is \<open>w i\<close>.\<close>

definition lo16 :: "u32 \<Rightarrow> u16" where "lo16 w = ucast w"
definition hi16 :: "u32 \<Rightarrow> u16" where "hi16 w = ucast (drop_bit 16 w)"
definition byte_of :: "nat \<Rightarrow> u32 \<Rightarrow> u8" where "byte_of k w = ucast (drop_bit (8 * k) w)"

definition common_of :: "(nat \<Rightarrow> u32) \<Rightarrow> PCI_Common_Header" where
  "common_of w = \<lparr>VendorID = lo16 (w 0), DeviceID = hi16 (w 0), Command = lo16 (w 1), Status = hi16 (w 1),
     RevisionID = byte_of 0 (w 2), ProgIF = byte_of 1 (w 2), SubClass = byte_of 2 (w 2), ClassCode = byte_of 3 (w 2),
     CacheLineSize = byte_of 0 (w 3), LatencyTimer = byte_of 1 (w 3), HeaderType = byte_of 2 (w 3), BIST = byte_of 3 (w 3)\<rparr>"

definition header0_of :: "(nat \<Rightarrow> u32) \<Rightarrow> PCI_Header_0x0" where
  "header0_of w = \<lparr>h0_BAR0 = w 0, h0_BAR1 = w 1, h0_BAR2 = w 2, h0_BAR3 = w 3, h0_BAR4 = w 4, h0_BAR5 = w 5,
     h0_Cardbus_CIS = w 6, h0_Subsystem_Vendor_ID = lo16 (w 7), h0_Subsystem_ID = hi16 (w 7), h0_ExpansionROM = w 8,
     h0_CapabilityPointer = lo16 (w 9), h0_Reserved1 = hi16 (w 9), h0_Reserved2 = w 10,
     h0_InterruptLine = byte_of 0 (w 11), h0_InterruptPIN = byte_of 1 (w 11),
     h0_MinGrant = byte_of 2 (w 11), h0_MaxLatency = byte_of 3 (w 11),
     h0_Common_Header = common_of (\<lambda>i. w (12 + i))\<rparr>"

definition header1_of :: "(nat \<Rightarrow> u32) \<Rightarrow> PCI_Header_0x1" where
  "header1_of w = \<lparr>h1_BAR0 = w 0, h1_BAR1 = w 1, h1_PrimaryBusNumber = byte_of 0 (w 2),
     h1_SecondaryBusNumber = byte_of 1 (w 2), h1_SubordinateBusNumber = byte_of 2 (w 2),
     h1_SecondaryLatencyTimer = byte_of 3 (w 2), h1_IOBase = byte_of 0 (w 3), h1_IOLimit = byte_of 1 (w 3),
     h1_SecondaryStatus = hi16 (w 3), h1_MemoryBase = lo16 (w 4), h1_MemoryLimit = hi16 (w 4),
     h1_PrefetchMemoryBaseLower = lo16 (w 5), h1_PrefetchMemoryLimitLower = hi16 (w 5),
     h1_PrefetchBaseUpper = w 6, h1_PrefetchLimitUpper = w 7, h1_IOBaseUpper = lo16 (w 8), h1_IOLimitUpper = hi16 (w 8),
     h1_CapabilityPointer = lo16 (w 9), h1_Reserved1 = hi16 (w 9), h1_ExpansionROM = w 10,
     h1_InterruptLine = byte_of 0 (w 11), h1_InterruptPIN = byte_of 1 (w 11), h1_BridgeControl = hi16 (w 11),
     h1_Common_Header = common_of (\<lambda>i. w (12 + i))\<rparr>"

text \<open>The loops that read \<open>n\<close> words from register \<open>r\<close> on.\<close>

primrec read_words :: "nat \<Rightarrow> u8 \<Rightarrow> u8 \<Rightarrow> u8 \<Rightarrow> kst \<Rightarrow> u32 list \<times> kst" where
  "read_words 0 bus slot r s = ([], s)"
| "read_words (Suc n) bus slot r s =
     (let (temp, s) = PCI_ReadL s bus slot r; (ws, s) = read_words n bus slot (r + 4) s in (temp # ws, s))"

definition PCI_ReadCommonHeader :: "kst \<Rightarrow> u8 \<Rightarrow> u8 \<Rightarrow> PCI_Common_Header \<times> kst" where
  "PCI_ReadCommonHeader s bus slot =
     (let (ws, s) = read_words 4 bus slot 0 s in (common_of ((!) ws), s))"

text \<open>Both structs have 16 words, the last four of which are the common header: the loop writes
  over the one that was assigned before it.\<close>

definition PCI_ReadHeader0 :: "PCI_Common_Header \<Rightarrow> kst \<Rightarrow> u8 \<Rightarrow> u8 \<Rightarrow> PCI_Header_0x0 \<times> kst" where
  "PCI_ReadHeader0 common s bus slot =
     (let (ws, s) = read_words 16 bus slot 16 s in (header0_of ((!) ws), s))"

definition PCI_ReadHeader1 :: "PCI_Common_Header \<Rightarrow> kst \<Rightarrow> u8 \<Rightarrow> u8 \<Rightarrow> PCI_Header_0x1 \<times> kst" where
  "PCI_ReadHeader1 common s bus slot =
     (let (ws, s) = read_words 16 bus slot 16 s in (header1_of ((!) ws), s))"

text \<open>
  \<open>PCI_PrintCommonHeader\<close>: all numbers are converted before the first one is printed. \<open>junk\<close> is what
  the stack holds in the twelve buffers.
\<close>

definition print_line :: "kst \<Rightarrow> string \<Rightarrow> u8 list \<Rightarrow> kst option" where
  "print_line s label buffer = do {
     str \<leftarrow> buffer_string buffer;
     Some (say (say (say s (Print label)) (Print str)) (Print [CHR 0x0A])) }"

primrec print_lines :: "(string \<times> u8 list) list \<Rightarrow> kst \<Rightarrow> kst option" where
  "print_lines [] s = Some s"
| "print_lines (l # ls) s = do { s \<leftarrow> print_line s (fst l) (snd l); print_lines ls s }"

definition PCI_PrintCommonHeader :: "(nat \<Rightarrow> u8 list) \<Rightarrow> PCI_Common_Header \<Rightarrow> kst \<Rightarrow> kst option" where
  "PCI_PrintCommonHeader junk header s = do {
     Vendor \<leftarrow> int_to_char_array_hex (ucast (VendorID header)) (junk 0) 10 0;
     Device \<leftarrow> int_to_char_array_hex (ucast (DeviceID header)) (junk 1) 10 0;
     Cmd \<leftarrow> int_to_char_array_binary (ucast (Command header)) (junk 2) 20 0;
     Stat \<leftarrow> int_to_char_array_binary (ucast (Status header)) (junk 3) 20 0;
     Revision \<leftarrow> int_to_char_array_hex (ucast (RevisionID header)) (junk 4) 10 0;
     Prog \<leftarrow> int_to_char_array_hex (ucast (ProgIF header)) (junk 5) 10 0;
     Sub \<leftarrow> int_to_char_array_hex (ucast (SubClass header)) (junk 6) 10 0;
     Class \<leftarrow> int_to_char_array_hex (ucast (ClassCode header)) (junk 7) 10 0;
     Cache \<leftarrow> int_to_char_array_hex (ucast (CacheLineSize header)) (junk 8) 10 0;
     Latency \<leftarrow> int_to_char_array_hex (ucast (LatencyTimer header)) (junk 9) 10 0;
     Type \<leftarrow> int_to_char_array_hex (ucast (HeaderType header)) (junk 10) 10 0;
     Bist \<leftarrow> int_to_char_array_hex (ucast (BIST header)) (junk 11) 10 0;
     print_lines [(''VendorID:        '', Vendor), (''DeviceID:        '', Device), (''Command:         '', Cmd),
       (''Status:          '', Stat), (''RevisionID:      '', Revision), (''ProgIF:          '', Prog),
       (''SubClass:        '', Sub), (''ClassCode:       '', Class), (''CacheLineSize:   '', Cache),
       (''LatencyTimer:    '', Latency), (''HeaderType:      '', Type), (''BIST:            '', Bist)] s }"

section \<open>The scan\<close>

record pci =
  Devices :: "nat \<Rightarrow> PCI_Device"
  device_count :: u32
  AHCI_Controller :: "nat option"
  FLOPPY_Controller :: "nat option"

definition PCI_CLASS_STR :: u8 where "PCI_CLASS_STR = 0x01"

text \<open>
  One turn of the inner loop; \<open>run\<close> is \<open>deviceRun\<close>. The condition of the second branch is an
  assignment of 1 and always true. \<open>junk0\<close> and \<open>junk1\<close> are what the stack holds in the header that
  is not read.
\<close>

definition scan_slot ::
  "(u8 \<Rightarrow> u8 \<Rightarrow> PCI_Header_0x0) \<Rightarrow> (u8 \<Rightarrow> u8 \<Rightarrow> PCI_Header_0x1) \<Rightarrow> u8 \<Rightarrow> u8 \<Rightarrow>
   pci \<times> nat \<times> kst \<Rightarrow> pci \<times> nat \<times> kst" where
  "scan_slot junk0 junk1 bus slot = (\<lambda>(p, run, s).
     let (curHeader, s) = PCI_ReadCommonHeader s bus slot in
     if VendorID curHeader = 0xFFFF then (p, run, s)
     else
       let (header0, header1, header_type, s) =
             (if HeaderType curHeader = 0x00
              then let (header0, s) = PCI_ReadHeader0 curHeader s bus slot in (header0, junk1 bus slot, False, s)
              else let (header1, s) = PCI_ReadHeader1 curHeader s bus slot in (junk0 bus slot, header1, True, s));
           Cur_Device = \<lparr>dev_Header = curHeader, dev_Header0 = header0, dev_Header1 = header1,
             dev_header_type = header_type, dev_present = True, dev_slot = slot, dev_bus = bus\<rparr>;
           p = p\<lparr>Devices := (Devices p)(run := Cur_Device)\<rparr>;
           p = (if ClassCode curHeader = PCI_CLASS_STR \<and> SubClass curHeader = 0x06 \<and> ProgIF curHeader = 0x01
                then p\<lparr>AHCI_Controller := Some run\<rparr>
                else if ClassCode curHeader = PCI_CLASS_STR \<and> SubClass curHeader = 0x02 \<and> ProgIF curHeader = 0x00
                then p\<lparr>FLOPPY_Controller := Some run\<rparr> else p)
       in (p, run + 1, s))"

definition pci_slots :: "(u8 \<times> u8) list" where
  "pci_slots = [(of_nat bus, of_nat slot). bus \<leftarrow> [0..<8], slot \<leftarrow> [0..<32]]"

definition ScanBusses ::
  "(u8 \<Rightarrow> u8 \<Rightarrow> PCI_Header_0x0) \<Rightarrow> (u8 \<Rightarrow> u8 \<Rightarrow> PCI_Header_0x1) \<Rightarrow> pci \<Rightarrow> kst \<Rightarrow> pci \<times> kst" where
  "ScanBusses junk0 junk1 p s =
     (let (p, deviceRun, s) = fold (\<lambda>(bus, slot). scan_slot junk0 junk1 bus slot) pci_slots (p, 0, s)
      in (p\<lparr>device_count := of_nat deviceRun\<rparr>, s))"

section \<open>The command register\<close>

record PCI_Command_Register =
  IO_Space :: bool
  Memory_Space :: bool
  Bus_Master :: bool
  Parity_ERR_Response :: bool
  SERR_Enable :: bool
  Interrupt_Disable :: bool

definition command_word :: "PCI_Command_Register \<Rightarrow> u16" where
  "command_word c = of_bool (IO_Space c) OR push_bit 1 (of_bool (Memory_Space c)) OR
     push_bit 2 (of_bool (Bus_Master c)) OR push_bit 6 (of_bool (Parity_ERR_Response c)) OR
     push_bit 8 (of_bool (SERR_Enable c)) OR push_bit 10 (of_bool (Interrupt_Disable c))"

definition PCI_Update_Important_Info :: "kst \<Rightarrow> PCI_Device \<Rightarrow> PCI_Device \<times> kst" where
  "PCI_Update_Important_Info s device =
     (let (COMBO, s) = PCI_ReadL s (dev_bus device) (dev_slot device) 0x4;
          COMMAND = (ucast (COMBO AND 0xFFF) :: u16); STATUS = (ucast (drop_bit 16 COMBO AND 0xFFF) :: u16)
      in (device\<lparr>dev_Header := (dev_Header device)\<lparr>Command := COMMAND, Status := STATUS\<rparr>\<rparr>, s))"

definition PCI_Write_Command_Register :: "kst \<Rightarrow> PCI_Device \<Rightarrow> PCI_Command_Register \<Rightarrow> PCI_Device \<times> kst" where
  "PCI_Write_Command_Register s device command =
     (let address = PCI_CreateConfigAddress (dev_bus device) (dev_slot device) 0 0x4;
          s = pci_writew s address (command_word command)
      in PCI_Update_Important_Info s device)"

definition PCI_Write_Status_Register :: "kst \<Rightarrow> PCI_Device \<Rightarrow> PCI_Command_Register \<Rightarrow> PCI_Device \<times> kst" where
  "PCI_Write_Status_Register s device command =
     (let address = PCI_CreateConfigAddress (dev_bus device) (dev_slot device) 0 0x6;
          s = pci_writew s address (command_word command)
      in PCI_Update_Important_Info s device)"

section \<open>Addresses\<close>

lemma ucast_u8_bit: "bit (ucast (w :: u8) :: u32) n \<longleftrightarrow> n < 8 \<and> bit w n"
  by (auto simp: bit_ucast_iff dest: bit_imp_le_length)

lemma small_slot_bit: "(w :: u8) < 2 ^ k \<Longrightarrow> bit w n \<Longrightarrow> n < k"
proof (rule ccontr)
  assume a: "w < 2 ^ k" "bit w n" "\<not> n < k"
  show False
  proof (cases "k < 8")
    case True
    have "take_bit k w = w" using a(1) True by (simp add: take_bit_eq_mod word_mod_less_divisor mod_word_less)
    then have "bit (take_bit k w) n" using a(2) by simp
    then show False using a(3) by (simp add: bit_take_bit_iff)
  qed (use a bit_imp_le_length [of w n] in simp)
qed

text \<open>A configuration address holds the bus, the slot, the function and the register in separate
  fields, with bit 31 set; the two low bits of the register are dropped.\<close>

theorem PCI_CreateConfigAddress_fields:
  assumes "slot < 32" "func < 8"
  shows "ucast (drop_bit 16 (PCI_CreateConfigAddress bus slot func offset)) = bus \<and>
    ucast (drop_bit 11 (PCI_CreateConfigAddress bus slot func offset)) AND 0x1F = slot \<and>
    ucast (drop_bit 8 (PCI_CreateConfigAddress bus slot func offset)) AND 7 = func \<and>
    ucast (PCI_CreateConfigAddress bus slot func offset) = offset AND 0xFC \<and>
    bit (PCI_CreateConfigAddress bus slot func offset) 31"
proof -
  have top: "bit (0x80000000 :: u32) n \<longleftrightarrow> n = 31" for n
    using bit_exp_iff [of 31 n, where 'a = u32] by auto
  have s: "bit slot n \<Longrightarrow> n < 5" and f: "bit func n \<Longrightarrow> n < 3" for n
    using small_slot_bit [of slot 5 n] small_slot_bit [of func 3 n] assms by simp_all
  have m5: "bit (0x1F :: u8) n \<longleftrightarrow> n < 5" for n
  proof -
    have "(0x1F :: u8) = mask 5" by (simp add: mask_eq_exp_minus_1)
    then have "bit (0x1F :: u8) n = bit (mask 5 :: u8) n" by (simp only:)
    then show ?thesis by (auto simp: bit_simps)
  qed
  have m3: "bit (7 :: u8) n \<longleftrightarrow> n < 3" for n
  proof -
    have "(7 :: u8) = mask 3" by (simp add: mask_eq_exp_minus_1)
    then have "bit (7 :: u8) n = bit (mask 3 :: u8) n" by (simp only:)
    then show ?thesis by (auto simp: bit_simps)
  qed
  note bits = PCI_CreateConfigAddress_def Let_def bit_or_iff bit_and_iff bit_push_bit_iff bit_drop_bit_eq
    ucast_u8_bit top m5 m3 bit_ucast_iff
  show ?thesis
  proof (intro conjI)
    show "ucast (drop_bit 16 (PCI_CreateConfigAddress bus slot func offset)) = bus"
      by (rule bit_eqI, simp only: bits comp_def) (auto dest: s f bit_imp_le_length)
    show "ucast (drop_bit 11 (PCI_CreateConfigAddress bus slot func offset)) AND 0x1F = slot"
      by (rule bit_eqI, simp only: bits comp_def) (auto dest: s f bit_imp_le_length)
    show "ucast (drop_bit 8 (PCI_CreateConfigAddress bus slot func offset)) AND 7 = func"
      by (rule bit_eqI, simp only: bits comp_def) (auto dest: s f bit_imp_le_length)
    show "ucast (PCI_CreateConfigAddress bus slot func offset) = offset AND 0xFC"
      by (rule bit_eqI, simp only: bits comp_def) (auto dest: bit_imp_le_length)
    show "bit (PCI_CreateConfigAddress bus slot func offset) 31"
      by (simp only: bits comp_def) simp
  qed
qed

theorem PCI_CreateConfigAddress_fields_witness:
  "ucast (drop_bit 16 (PCI_CreateConfigAddress 3 31 7 0x27)) = (3 :: u8) \<and>
   ucast (PCI_CreateConfigAddress 3 31 7 0x27) = (0x24 :: u8)"
  using PCI_CreateConfigAddress_fields [where slot = 31 and func = 7 and bus = 3 and offset = "0x27"] by simp

section \<open>A configuration space\<close>

text \<open>
  What the driver relies on: a read of the data port right after an address was written to the
  address port gives the register at this address. \<open>cfg\<close> is the contents of the configuration
  space.
\<close>

definition pci_bus :: "port_env \<Rightarrow> (u32 \<Rightarrow> u32) \<Rightarrow> bool" where
  "pci_bus d cfg \<longleftrightarrow> (\<forall>h a. d (Out32 PCI_CONFIG_ADDRESS a # h) PCI_CONFIG_DATA = cfg a)"

definition reg :: "(u32 \<Rightarrow> u32) \<Rightarrow> u8 \<Rightarrow> u8 \<Rightarrow> u8 \<Rightarrow> u32" where
  "reg cfg bus slot r = cfg (PCI_CreateConfigAddress bus slot 0 r)"

definition ports_only :: "kst \<Rightarrow> kst \<Rightarrow> bool" where
  "ports_only s s' \<longleftrightarrow> s' = s\<lparr>ports := ports s'\<rparr>"

lemma ports_only_refl [simp]: "ports_only s s" by (simp add: ports_only_def)

lemma ports_only_trans: "ports_only s t \<Longrightarrow> ports_only t u \<Longrightarrow> ports_only s u"
  unfolding ports_only_def by (metis kst.update_convs(21) kst.surjective)

lemma ports_only_devices: "ports_only s s' \<Longrightarrow> devices s' = devices s"
  unfolding ports_only_def by (metis kst.select_convs(22) kst.update_convs(21) kst.surjective)

lemma PCI_ReadL_reg:
  assumes "pci_bus (devices s) cfg"
  obtains s' where "PCI_ReadL s bus slot r = (reg cfg bus slot r, s')" "ports_only s s'"
  using assms by (simp add: PCI_ReadL_def inl_def outl_def pci_bus_def reg_def ports_only_def Let_def)

lemma read_words_regs:
  assumes "pci_bus (devices s) cfg"
  obtains s' where "read_words n bus slot r s = (map (\<lambda>i. reg cfg bus slot (r + 4 * of_nat i)) [0..<n], s')" "ports_only s s'"
proof -
  have "\<exists>s'. read_words n bus slot r s = (map (\<lambda>i. reg cfg bus slot (r + 4 * of_nat i)) [0..<n], s') \<and> ports_only s s'"
    using assms
  proof (induction n arbitrary: r s)
    case (Suc n)
    obtain s1 where 1: "PCI_ReadL s bus slot r = (reg cfg bus slot r, s1)" "ports_only s s1"
      using PCI_ReadL_reg [OF Suc.prems] .
    obtain s2 where 2: "read_words n bus slot (r + 4) s1 =
        (map (\<lambda>i. reg cfg bus slot (r + 4 + 4 * of_nat i)) [0..<n], s2)" "ports_only s1 s2"
      using Suc.IH [of s1 "r + 4"] Suc.prems ports_only_devices [OF 1(2)] by auto
    have "map (\<lambda>i. reg cfg bus slot (r + 4 * of_nat i)) [0..<Suc n] =
        reg cfg bus slot r # map (\<lambda>i. reg cfg bus slot (r + 4 + 4 * of_nat i)) [0..<n]"
      by (simp add: map_upt_Suc algebra_simps del: upt_Suc)
    then show ?case using 1 2 ports_only_trans [OF 1(2) 2(2)] by simp
  qed simp
  then show thesis using that by blast
qed

text \<open>The headers as the configuration space has them.\<close>

definition common_regs :: "(u32 \<Rightarrow> u32) \<Rightarrow> u8 \<Rightarrow> u8 \<Rightarrow> u8 \<Rightarrow> PCI_Common_Header" where
  "common_regs cfg bus slot r = common_of (\<lambda>i. reg cfg bus slot (r + 4 * of_nat i))"

lemma PCI_ReadCommonHeader_regs:
  assumes "pci_bus (devices s) cfg"
  obtains s' where "PCI_ReadCommonHeader s bus slot = (common_regs cfg bus slot 0, s')" "ports_only s s'"
proof -
  obtain s' where r: "read_words 4 bus slot 0 s = (map (\<lambda>i. reg cfg bus slot (0 + 4 * of_nat i)) [0..<4], s')"
    "ports_only s s'" using read_words_regs [OF assms] .
  have "common_of ((!) (map (\<lambda>i. reg cfg bus slot (0 + 4 * of_nat i)) [0..<4])) = common_regs cfg bus slot 0"
    by (simp add: common_of_def common_regs_def)
  then show thesis using r by (intro that [of s']) (simp_all add: PCI_ReadCommonHeader_def)
qed

text \<open>C35. The header of a device has its base addresses in registers 0x10 to 0x24, and what the struct
  holds as the common header is not the header that was passed but the device specific registers 0x40
  to 0x4C.\<close>

theorem PCI_ReadHeader0_result:
  assumes "pci_bus (devices s) cfg"
  shows "\<exists>s'. PCI_ReadHeader0 common s bus slot =
      (header0_of (\<lambda>i. reg cfg bus slot (16 + 4 * of_nat i)), s') \<and> ports_only s s' \<and>
    h0_BAR0 (fst (PCI_ReadHeader0 common s bus slot)) = reg cfg bus slot 0x10 \<and>
    h0_BAR5 (fst (PCI_ReadHeader0 common s bus slot)) = reg cfg bus slot 0x24 \<and>
    h0_InterruptLine (fst (PCI_ReadHeader0 common s bus slot)) = ucast (reg cfg bus slot 0x3C) \<and>
    h0_Common_Header (fst (PCI_ReadHeader0 common s bus slot)) = common_regs cfg bus slot 0x40"
proof -
  obtain s' where r: "read_words 16 bus slot 16 s = (map (\<lambda>i. reg cfg bus slot (16 + 4 * of_nat i)) [0..<16], s')"
    "ports_only s s'" using read_words_regs [OF assms] .
  let ?w = "\<lambda>i. reg cfg bus slot (16 + 4 * of_nat i)"
  have "header0_of ((!) (map ?w [0..<16])) = header0_of ?w"
    by (simp add: header0_of_def common_of_def)
  then have e: "PCI_ReadHeader0 common s bus slot = (header0_of ?w, s')"
    using r(1) by (simp add: PCI_ReadHeader0_def)
  have "h0_Common_Header (header0_of ?w) = common_regs cfg bus slot 0x40"
    by (simp add: header0_of_def common_regs_def common_of_def)
  then show ?thesis using r(2) by (simp add: e header0_of_def byte_of_def)
qed

section \<open>Slots in the order of the scan\<close>

datatype pci_slot = Slot (slot_bus: u8) (slot_no: u8)

instantiation pci_slot :: linorder
begin

definition less_eq_pci_slot :: "pci_slot \<Rightarrow> pci_slot \<Rightarrow> bool" where
  "less_eq_pci_slot a b \<longleftrightarrow> slot_bus a < slot_bus b \<or> slot_bus a = slot_bus b \<and> slot_no a \<le> slot_no b"

definition less_pci_slot :: "pci_slot \<Rightarrow> pci_slot \<Rightarrow> bool" where
  "less_pci_slot a b \<longleftrightarrow> slot_bus a < slot_bus b \<or> slot_bus a = slot_bus b \<and> slot_no a < slot_no b"

instance
  by standard (auto simp: less_eq_pci_slot_def less_pci_slot_def pci_slot.expand)

end

lemma Slot_less: "Slot a b < Slot c d \<longleftrightarrow> a < c \<or> a = c \<and> b < d"
  by (simp add: less_pci_slot_def)

lemma small_u8_less: "i < 256 \<Longrightarrow> j < 256 \<Longrightarrow> (of_nat i :: u8) < of_nat j \<longleftrightarrow> i < j"
  by (simp add: word_less_nat_alt unat_of_nat)

lemma bus_slots_sorted: "m \<le> 8 \<Longrightarrow>
    sorted_wrt (<) [Slot (of_nat bus) (of_nat slot). bus \<leftarrow> [0..<m], slot \<leftarrow> [0..<32]]"
proof (induction m)
  case (Suc m)
  have "sorted_wrt (<) (map (\<lambda>slot. Slot (of_nat m) (of_nat slot)) [0..<32])"
    by (auto simp: sorted_wrt_map sorted_wrt_iff_nth_less Slot_less small_u8_less)
  then show ?case using Suc
    by (auto simp: sorted_wrt_append Slot_less small_u8_less)
qed simp

lemma pci_slots_sorted: "sorted_wrt (<) (map (\<lambda>(b, s). Slot b s) pci_slots)"
proof -
  have "map (\<lambda>(b, s). Slot b s) pci_slots = [Slot (of_nat bus) (of_nat slot). bus \<leftarrow> [0..<8], slot \<leftarrow> [0..<32]]"
    by (simp add: pci_slots_def map_concat comp_def)
  then show ?thesis using bus_slots_sorted [of 8] by (simp only: order_refl)
qed

lemma pci_slots_length: "length pci_slots = 256"
  by (simp add: pci_slots_def length_concat comp_def sum_list_triv)

section \<open>What the scan finds\<close>

definition slot_header :: "(u32 \<Rightarrow> u32) \<Rightarrow> u8 \<times> u8 \<Rightarrow> PCI_Common_Header" where
  "slot_header cfg = (\<lambda>(bus, slot). common_regs cfg bus slot 0)"

definition found :: "(u32 \<Rightarrow> u32) \<Rightarrow> (u8 \<times> u8) list \<Rightarrow> (u8 \<times> u8) list" where
  "found cfg xs = filter (\<lambda>x. VendorID (slot_header cfg x) \<noteq> 0xFFFF) xs"

definition slot_device ::
  "(u8 \<Rightarrow> u8 \<Rightarrow> PCI_Header_0x0) \<Rightarrow> (u8 \<Rightarrow> u8 \<Rightarrow> PCI_Header_0x1) \<Rightarrow> (u32 \<Rightarrow> u32) \<Rightarrow> u8 \<times> u8 \<Rightarrow> PCI_Device" where
  "slot_device junk0 junk1 cfg = (\<lambda>(bus, slot).
     let h = common_regs cfg bus slot 0; regs = (\<lambda>i. reg cfg bus slot (16 + 4 * of_nat i))
     in \<lparr>dev_Header = h, dev_Header0 = (if HeaderType h = 0 then header0_of regs else junk0 bus slot),
       dev_Header1 = (if HeaderType h = 0 then junk1 bus slot else header1_of regs),
       dev_header_type = (HeaderType h \<noteq> 0), dev_present = True, dev_slot = slot, dev_bus = bus\<rparr>)"

definition is_storage :: "u8 \<Rightarrow> u8 \<Rightarrow> PCI_Common_Header \<Rightarrow> bool" where
  "is_storage sub prog h \<longleftrightarrow> ClassCode h = PCI_CLASS_STR \<and> SubClass h = sub \<and> ProgIF h = prog"

text \<open>The last index with a property, or what was there before.\<close>

definition last_index :: "('a \<Rightarrow> bool) \<Rightarrow> nat option \<Rightarrow> 'a list \<Rightarrow> nat option" where
  "last_index P old xs = (let is = filter (\<lambda>i. P (xs ! i)) [0..<length xs] in if is = [] then old else Some (last is))"

lemma last_index_Nil [simp]: "last_index P old [] = old"
  by (simp add: last_index_def)

lemma last_index_snoc: "last_index P old (xs @ [x]) = (if P x then Some (length xs) else last_index P old xs)"
proof -
  have "filter (\<lambda>i. P ((xs @ [x]) ! i)) [0..<length xs] = filter (\<lambda>i. P (xs ! i)) [0..<length xs]"
    by (rule filter_cong) (auto simp: nth_append)
  then show ?thesis by (simp add: last_index_def)
qed

lemma PCI_ReadHeader1_regs:
  assumes "pci_bus (devices s) cfg"
  obtains s' where "PCI_ReadHeader1 common s bus slot = (header1_of (\<lambda>i. reg cfg bus slot (16 + 4 * of_nat i)), s')"
    "ports_only s s'"
proof -
  obtain s' where r: "read_words 16 bus slot 16 s = (map (\<lambda>i. reg cfg bus slot (16 + 4 * of_nat i)) [0..<16], s')"
    "ports_only s s'" using read_words_regs [OF assms] .
  have "header1_of ((!) (map (\<lambda>i. reg cfg bus slot (16 + 4 * of_nat i)) [0..<16])) =
      header1_of (\<lambda>i. reg cfg bus slot (16 + 4 * of_nat i))"
    by (simp add: header1_of_def common_of_def)
  then show thesis using r by (intro that [of s']) (simp_all add: PCI_ReadHeader1_def)
qed

lemma PCI_ReadHeader0_regs:
  assumes "pci_bus (devices s) cfg"
  obtains s' where "PCI_ReadHeader0 common s bus slot = (header0_of (\<lambda>i. reg cfg bus slot (16 + 4 * of_nat i)), s')"
    "ports_only s s'"
proof -
  obtain s' where r: "read_words 16 bus slot 16 s = (map (\<lambda>i. reg cfg bus slot (16 + 4 * of_nat i)) [0..<16], s')"
    "ports_only s s'" using read_words_regs [OF assms] .
  have "header0_of ((!) (map (\<lambda>i. reg cfg bus slot (16 + 4 * of_nat i)) [0..<16])) =
      header0_of (\<lambda>i. reg cfg bus slot (16 + 4 * of_nat i))"
    by (simp add: header0_of_def common_of_def)
  then show thesis using r by (intro that [of s']) (simp_all add: PCI_ReadHeader0_def)
qed

text \<open>One turn of the scan.\<close>

lemma scan_slot_step:
  assumes "pci_bus (devices s) cfg"
  obtains s' where "ports_only s s'" "scan_slot junk0 junk1 bus slot (p, run, s) =
    (if VendorID (slot_header cfg (bus, slot)) = 0xFFFF then (p, run, s')
     else (p\<lparr>Devices := (Devices p)(run := slot_device junk0 junk1 cfg (bus, slot)),
       AHCI_Controller := (if is_storage 6 1 (slot_header cfg (bus, slot)) then Some run else AHCI_Controller p),
       FLOPPY_Controller := (if is_storage 2 0 (slot_header cfg (bus, slot)) then Some run else FLOPPY_Controller p)\<rparr>,
       run + 1, s'))"
proof -
  let ?h = "common_regs cfg bus slot 0"
  obtain s1 where 1: "PCI_ReadCommonHeader s bus slot = (?h, s1)" "ports_only s s1"
    using PCI_ReadCommonHeader_regs [OF assms] .
  have d1: "pci_bus (devices s1) cfg" using assms ports_only_devices [OF 1(2)] by simp
  obtain s2 where 2: "PCI_ReadHeader0 ?h s1 bus slot = (header0_of (\<lambda>i. reg cfg bus slot (16 + 4 * of_nat i)), s2)"
    "ports_only s1 s2" using PCI_ReadHeader0_regs [OF d1] .
  obtain s3 where 3: "PCI_ReadHeader1 ?h s1 bus slot = (header1_of (\<lambda>i. reg cfg bus slot (16 + 4 * of_nat i)), s3)"
    "ports_only s1 s3" using PCI_ReadHeader1_regs [OF d1] .
  show thesis
    by (rule that [of "if VendorID ?h = 0xFFFF then s1 else if HeaderType ?h = 0 then s2 else s3"])
      (use 1 2 3 ports_only_trans [OF 1(2)] in
        \<open>auto simp: scan_slot_def slot_header_def slot_device_def is_storage_def Let_def\<close>)
qed

lemma scan_fold:
  assumes "pci_bus (devices s) cfg"
  shows "\<exists>p' s'. fold (\<lambda>(bus, slot). scan_slot junk0 junk1 bus slot) xs (p, 0, s) = (p', length (found cfg xs), s') \<and>
    ports_only s s' \<and> device_count p' = device_count p \<and>
    (\<forall>i. Devices p' i = (if i < length (found cfg xs) then slot_device junk0 junk1 cfg (found cfg xs ! i) else Devices p i)) \<and>
    AHCI_Controller p' = last_index (\<lambda>x. is_storage 6 1 (slot_header cfg x)) (AHCI_Controller p) (found cfg xs) \<and>
    FLOPPY_Controller p' = last_index (\<lambda>x. is_storage 2 0 (slot_header cfg x)) (FLOPPY_Controller p) (found cfg xs)"
proof (induction xs rule: rev_induct)
  case Nil
  then show ?case by (simp add: found_def)
next
  case (snoc x xs)
  obtain bus slot where x: "x = (bus, slot)" by (cases x)
  obtain p1 s1 where 1: "fold (\<lambda>(bus, slot). scan_slot junk0 junk1 bus slot) xs (p, 0, s) = (p1, length (found cfg xs), s1)"
    "ports_only s s1" "device_count p1 = device_count p"
    "\<forall>i. Devices p1 i = (if i < length (found cfg xs) then slot_device junk0 junk1 cfg (found cfg xs ! i) else Devices p i)"
    "AHCI_Controller p1 = last_index (\<lambda>x. is_storage 6 1 (slot_header cfg x)) (AHCI_Controller p) (found cfg xs)"
    "FLOPPY_Controller p1 = last_index (\<lambda>x. is_storage 2 0 (slot_header cfg x)) (FLOPPY_Controller p) (found cfg xs)"
    using snoc by blast
  have "pci_bus (devices s1) cfg" using assms ports_only_devices [OF 1(2)] by simp
  then obtain s2 where 2: "ports_only s1 s2" "scan_slot junk0 junk1 bus slot (p1, length (found cfg xs), s1) =
    (if VendorID (slot_header cfg (bus, slot)) = 0xFFFF then (p1, length (found cfg xs), s2)
     else (p1\<lparr>Devices := (Devices p1)(length (found cfg xs) := slot_device junk0 junk1 cfg (bus, slot)),
       AHCI_Controller := (if is_storage 6 1 (slot_header cfg (bus, slot)) then Some (length (found cfg xs)) else AHCI_Controller p1),
       FLOPPY_Controller := (if is_storage 2 0 (slot_header cfg (bus, slot)) then Some (length (found cfg xs)) else FLOPPY_Controller p1)\<rparr>,
       length (found cfg xs) + 1, s2))"
    by (rule scan_slot_step)
  note tr = ports_only_trans [OF 1(2) 2(1)]
  show ?case
  proof (cases "VendorID (slot_header cfg x) = 0xFFFF")
    case True
    then have "found cfg (xs @ [x]) = found cfg xs" by (simp add: found_def)
    then show ?thesis using True 1 2(2) tr by (simp add: x)
  next
    case False
    then have "found cfg (xs @ [x]) = found cfg xs @ [x]" by (simp add: found_def)
    then show ?thesis using False 1 2(2) tr by (simp add: x last_index_snoc nth_append less_Suc_eq)
  qed
qed


section \<open>Writing registers\<close>

text \<open>The write to the status register goes to the command register: the two low bits of the
  register number are dropped, so that the two functions do the same.\<close>

theorem PCI_Write_Status_is_Command:
  "PCI_Write_Status_Register s device command = PCI_Write_Command_Register s device command"
  by (simp add: PCI_Write_Status_Register_def PCI_Write_Command_Register_def PCI_CreateConfigAddress_def)

section \<open>A machine with one disk controller\<close>

text \<open>Slot 1 of bus 0 is an AHCI controller, slot 2 a device of another class; nothing else answers.\<close>

definition sample_cfg :: "u32 \<Rightarrow> u32" where
  "sample_cfg a = (if a = 0x80000800 then 0x29228086 else if a = 0x80000808 then 0x01060102
     else if a = 0x8000080C then 0 else if a = 0x80000824 then 0xFEBF1000
     else if a = 0x80001000 then 0x12378086 else if a = 0x80001008 then 0x06000000
     else if a = 0x8000100C then 0x00800000 else 0xFFFFFFFF)"

definition sample_devices :: port_env where
  "sample_devices h p = (case h of Out32 q a # _ \<Rightarrow> if q = PCI_CONFIG_ADDRESS \<and> p = PCI_CONFIG_DATA then sample_cfg a else 0
     | _ \<Rightarrow> 0)"

lemma sample_bus: "pci_bus sample_devices sample_cfg"
  by (simp add: pci_bus_def sample_devices_def)

lemma sample_answers:
  assumes "slot < 32"
  shows "VendorID (slot_header sample_cfg (bus, slot)) \<noteq> 0xFFFF \<longleftrightarrow> bus = 0 \<and> (slot = 1 \<or> slot = 2)"
proof -
  let ?a = "PCI_CreateConfigAddress bus slot 0 0"
  note f = PCI_CreateConfigAddress_fields [OF assms, where func = 0 and bus = bus and offset = 0]
  have lo: "ucast ?a = (0 :: u8)" using f by simp
  have one: "?a = 0x80000800 \<longleftrightarrow> bus = 0 \<and> slot = 1"
  proof
    assume "?a = 0x80000800" then show "bus = 0 \<and> slot = 1" using f by simp
  qed (simp add: PCI_CreateConfigAddress_def)
  have two: "?a = 0x80001000 \<longleftrightarrow> bus = 0 \<and> slot = 2"
  proof
    assume "?a = 0x80001000" then show "bus = 0 \<and> slot = 2" using f by simp
  qed (simp add: PCI_CreateConfigAddress_def)
  have "?a \<noteq> 0x80000808" "?a \<noteq> 0x8000080C" "?a \<noteq> 0x80000824" "?a \<noteq> 0x80001008" "?a \<noteq> 0x8000100C"
    using lo by auto
  then show ?thesis
    by (auto simp: slot_header_def common_regs_def common_of_def reg_def sample_cfg_def one two lo16_def)
qed

lemma sample_found: "found sample_cfg pci_slots = [(0, 1), (0, 2)]"
proof -
  have "found sample_cfg pci_slots = filter (\<lambda>x. x = (0, 1) \<or> x = (0, 2)) pci_slots"
    unfolding found_def
  proof (rule filter_cong [OF refl])
    fix x assume "x \<in> set pci_slots"
    then obtain b s where x: "x = (of_nat b, of_nat s)" "s < 32" by (auto simp: pci_slots_def)
    then have "(of_nat s :: u8) < 32" by (simp add: word_less_nat_alt unat_of_nat)
    then show "(VendorID (slot_header sample_cfg x) \<noteq> 0xFFFF) = (x = (0, 1) \<or> x = (0, 2))"
      using sample_answers [of "of_nat s" "of_nat b"] by (auto simp: x(1))
  qed
  also have "\<dots> = [(0, 1), (0, 2)]"
    by (simp add: pci_slots_def upt_rec)
  finally show ?thesis .
qed

definition no_pci :: pci where
  "no_pci = \<lparr>Devices = (\<lambda>i. \<lparr>dev_Header = common_of (\<lambda>i. 0), dev_Header0 = header0_of (\<lambda>i. 0),
     dev_Header1 = header1_of (\<lambda>i. 0), dev_header_type = False, dev_present = False, dev_slot = 0, dev_bus = 0\<rparr>),
     device_count = 0, AHCI_Controller = None, FLOPPY_Controller = None\<rparr>"


theorem PCI_ReadHeader0_result_witness:
  "h0_BAR5 (fst (PCI_ReadHeader0 (common_of (\<lambda>i. 0)) (sample_kst\<lparr>devices := sample_devices\<rparr>) 0 1)) = 0xFEBF1000 \<and>
   VendorID (h0_Common_Header (fst (PCI_ReadHeader0 (common_of (\<lambda>i. 0)) (sample_kst\<lparr>devices := sample_devices\<rparr>) 0 1))) = 0xFFFF"
proof -
  have "pci_bus (devices (sample_kst\<lparr>devices := sample_devices\<rparr>)) sample_cfg" using sample_bus by simp
  from PCI_ReadHeader0_result [OF this, of "common_of (\<lambda>i. 0)" 0 1] show ?thesis
    by (auto simp: reg_def sample_cfg_def PCI_CreateConfigAddress_def common_regs_def common_of_def lo16_def)
qed

end
