(* ===== verification/Ahci.thy ===== *)
theory Ahci
  imports Pci Tasks Low_Level
begin

text \<open>
  The AHCI driver (\<open>Devices/Disk/AHCI.c\<close>). Its registers are device memory: an access needs a
  translation of its address, but the value comes from the device, which is a function of the
  accesses so far, newest first. \<open>now\<close> is the value the timer interrupt has left in
  \<open>TimerWindow\<close> at the time of an access.
\<close>

section \<open>Registers\<close>

datatype mmio_access = MRead u64 | MWrite u64 u32 | MWrite64 u64 u64

text \<open>The offsets of \<open>struct AHCI_MMIO\<close> that the driver uses.\<close>

definition Host_Capabilities :: u64 where "Host_Capabilities = 0x00"
definition Global_Host_Control :: u64 where "Global_Host_Control = 0x04"
definition Extended_Host_Capabilities :: u64 where "Extended_Host_Capabilities = 0x24"
definition BOHC :: u64 where "BOHC = 0x28"

definition Ports :: "u8 \<Rightarrow> u64" where "Ports index = 0x100 + 0x80 * ucast index"

text \<open>The bits of \<open>struct AHCI_BOHC\<close>.\<close>

definition BOS :: nat where "BOS = 0"
definition OOS :: nat where "OOS = 1"
definition SOOE :: nat where "SOOE = 2"
definition BB :: nat where "BB = 3"

record ahci =
  AHCI_Main_MMIO :: u64
  AHCI_Ownership :: bool
  AHCI_Reset :: bool
  AHCI_S64A :: bool
  AHCI_Command_Queuing :: bool
  AHCI_IRQ_LINE :: int
  mmio :: "mmio_access list"
  registers :: "mmio_access list \<Rightarrow> u64 \<Rightarrow> u32"
  now :: "mmio_access list \<Rightarrow> u64"

definition mmio_read :: "kst \<Rightarrow> ahci \<Rightarrow> u64 \<Rightarrow> (u32 \<times> ahci) option" where
  "mmio_read s a off = do {
     _ \<leftarrow> walk s (AHCI_Main_MMIO a + off);
     Some (registers a (mmio a) off, a\<lparr>mmio := MRead off # mmio a\<rparr>) }"

definition mmio_write :: "kst \<Rightarrow> ahci \<Rightarrow> u64 \<Rightarrow> u32 \<Rightarrow> ahci option" where
  "mmio_write s a off v = do {
     _ \<leftarrow> walk s (AHCI_Main_MMIO a + off);
     Some (a\<lparr>mmio := MWrite off v # mmio a\<rparr>) }"

definition mmio_write64 :: "kst \<Rightarrow> ahci \<Rightarrow> u64 \<Rightarrow> u64 \<Rightarrow> ahci option" where
  "mmio_write64 s a off v = do {
     _ \<leftarrow> walk s (AHCI_Main_MMIO a + off);
     Some (a\<lparr>mmio := MWrite64 off v # mmio a\<rparr>) }"

text \<open>The compound assignment \<open>|=\<close> and a store to a bit field: a read and a write of the register.\<close>

definition mmio_or :: "kst \<Rightarrow> ahci \<Rightarrow> u64 \<Rightarrow> u32 \<Rightarrow> ahci option" where
  "mmio_or s a off v = do { (x, a) \<leftarrow> mmio_read s a off; mmio_write s a off (x OR v) }"

section \<open>Handoff and reset\<close>

partial_function (option) handoff_wait :: "kst \<Rightarrow> ahci \<Rightarrow> ahci option" where
  "handoff_wait s a = do {
     (x, a) \<leftarrow> mmio_read s a BOHC;
     if bit x BB then do {
       (y, a) \<leftarrow> mmio_read s a BOHC;
       if bit y BOS then handoff_wait s a else Some a }
     else Some a }"

definition AHCI_BIOS_Handoff :: "kst \<Rightarrow> ahci \<Rightarrow> ahci option" where
  "AHCI_BIOS_Handoff s a = do {
     a \<leftarrow> mmio_or s a BOHC (push_bit SOOE 1);
     a \<leftarrow> mmio_or s a BOHC (push_bit OOS 1);
     a \<leftarrow> handoff_wait s a;
     (x, a) \<leftarrow> mmio_read s a BOHC;
     if bit x OOS then do {
       (y, a) \<leftarrow> mmio_read s a BOHC;
       Some (a\<lparr>AHCI_Ownership := \<not> bit y BOS\<rparr>) }
     else Some (a\<lparr>AHCI_Ownership := False\<rparr>) }"

text \<open>The time that has passed, in seconds as the code computes it: the difference is taken the wrong
  way round, and a \<open>Frequency\<close> of 0 is a division by zero.\<close>

definition elapsed :: "kst \<Rightarrow> ahci \<Rightarrow> u64 \<Rightarrow> u64 option" where
  "elapsed s a start_window =
     (if Frequency s = 0 then None else Some ((start_window - now a (mmio a)) div ucast (Frequency s)))"

partial_function (option) reset_wait :: "kst \<Rightarrow> u64 \<Rightarrow> ahci \<Rightarrow> ahci option" where
  "reset_wait s start_window a = do {
     (x, a) \<leftarrow> mmio_read s a Global_Host_Control;
     if x AND 1 \<noteq> 0 then do {
       t \<leftarrow> elapsed s a start_window;
       if t < 1 then reset_wait s start_window a else Some a }
     else Some a }"

definition AHCI_HBA_Reset :: "kst \<Rightarrow> ahci \<Rightarrow> (ahci \<times> kst) option" where
  "AHCI_HBA_Reset s a = do {
     a \<leftarrow> mmio_or s a Global_Host_Control 1;
     let start_window = now a (mmio a);
     a \<leftarrow> reset_wait s start_window a;
     t \<leftarrow> elapsed s a start_window;
     if t > 1 then Some (a\<lparr>AHCI_Reset := False\<rparr>, say s (VirtualPrint KERNEL_T ''[ahci] fail no reset''))
     else Some (a\<lparr>AHCI_Reset := True\<rparr>, s) }"

section \<open>Initialisation\<close>

definition AHCI_Setup_Port :: "u8 \<Rightarrow> kst \<Rightarrow> ahci \<Rightarrow> (ahci \<times> kst) option" where
  "AHCI_Setup_Port index s a = do {
     let curPort = AHCI_Main_MMIO a + Ports index;
     s \<leftarrow> (if index mod 4 = 0 then do {
            (_, s) \<leftarrow> malloc_specific s KernelTask (curPort - VIRTUAL_MEMORY_BARRIER) KERNEL_FLAGS_UNCACHEABLE False;
            Some s }
          else Some s);
     nextFree \<leftarrow> FindNextFreePhysical s;
     (p, s) \<leftarrow> malloc_specific s KernelTask nextFree KERNEL_FLAGS_UNCACHEABLE False;
     a \<leftarrow> mmio_write64 s a (Ports index) p;
     Some (a, s) }"

text \<open>
  In \<open>Extended_Host_Capabilities & 1 == 0\<close> the comparison binds tighter: the mask is \<open>1 == 0\<close>.
  The interrupt table and the address of \<open>ahci_interrupt_stub\<close> are parameters.
\<close>

definition AHCI_Init :: "u64 \<Rightarrow> PCI_Device \<Rightarrow> (u8 \<Rightarrow> idt_entry) \<Rightarrow> kst \<Rightarrow> ahci \<Rightarrow>
    ((u8 \<Rightarrow> idt_entry) \<times> ahci \<times> kst) option" where
  "AHCI_Init ahci_interrupt_stub device idt s a = do {
     let a = a\<lparr>AHCI_IRQ_LINE := uint (h0_InterruptLine (dev_Header0 device))\<rparr>;
     let bar5 = h0_BAR5 (dev_Header0 device);
     (m, s) \<leftarrow> malloc_specific s KernelTask (ucast bar5) KERNEL_FLAGS_UNCACHEABLE False;
     let a = a\<lparr>AHCI_Main_MMIO := m\<rparr>;
     (_, s) \<leftarrow> malloc_specific s KernelTask (ucast (bar5 + 0x1000)) KERNEL_FLAGS_UNCACHEABLE False;
     let s = say s (VirtualPrint KERNEL_T ''[ahci] MMIO setup'');
     (x, a) \<leftarrow> mmio_read s a Extended_Host_Capabilities;
     (stop, a, s) \<leftarrow>
       (if x AND of_bool ((1 :: int) = 0) \<noteq> 0 then do {
          a \<leftarrow> AHCI_BIOS_Handoff s a;
          if \<not> AHCI_Ownership a then Some (True, a, say s (VirtualPrint KERNEL_T ''[ahci] fail no ownership''))
          else Some (False, a, say s (VirtualPrint KERNEL_T ''[ahci] obtained ownership'')) }
        else Some (False, a, say s (VirtualPrint KERNEL_T ''[ahci] no switch'')));
     if stop then Some (idt, a, s)
     else if AHCI_Main_MMIO a = 0 then Some (idt, a, say s (VirtualPrint KERNEL_T ''[ahci] fail bad MMIO''))
     else do {
       (a, s) \<leftarrow> AHCI_HBA_Reset s a;
       let s = say s (VirtualPrint KERNEL_T ''[ahci] reset true'');
       let idt = SetIDTEntry idt (word_of_int (AHCI_IRQ_LINE a + 0x20)) ahci_interrupt_stub 0x08 0x8E 0x00;
       s \<leftarrow> pic_unmask s (word_of_int (AHCI_IRQ_LINE a));
       a \<leftarrow> mmio_or s a Global_Host_Control (push_bit 31 1);
       a \<leftarrow> mmio_or s a Global_Host_Control (push_bit 1 1);
       (x, a) \<leftarrow> mmio_read s a Host_Capabilities;
       let a = a\<lparr>AHCI_S64A := bit x 31\<rparr>;
       (x, a) \<leftarrow> mmio_read s a Host_Capabilities;
       let a = a\<lparr>AHCI_Command_Queuing := bit x 30\<rparr>;
       (a, s) \<leftarrow> AHCI_Setup_Port 0 s a;
       Some (idt, a, say s (VirtualPrint KERNEL_T ''[ahci] success'')) } }"

definition HandleAHCIInterrupt :: "ahci \<Rightarrow> kst \<Rightarrow> kst" where
  "HandleAHCIInterrupt a s =
     (let s = say s (VirtualPrint KERNEL_T ''[ahci.int] ignored'')
      in pic_send_eoi s (word_of_int (AHCI_IRQ_LINE a)))"

section \<open>What the driver does\<close>

text \<open>Device memory is mapped with the function for ordinary memory, which refuses frames above the
  end of memory by halting: a controller whose registers lie there stops the machine.\<close>

theorem AHCI_Init_above_memory:
  "total_mem s \<le> ucast (h0_BAR5 (dev_Header0 device)) \<Longrightarrow> AHCI_Init stub device idt s a = None"
  by (simp add: AHCI_Init_def malloc_specific_def alloc_page_def Let_def)

theorem AHCI_Init_above_memory_witness:
  "\<forall>idt. AHCI_Init 0 ((Devices no_pci 0)\<lparr>dev_Header0 := header0_of (\<lambda>i. 0xFEBF1000)\<rparr>) idt sample_kst
    \<lparr>AHCI_Main_MMIO = 0, AHCI_Ownership = False, AHCI_Reset = False, AHCI_S64A = False, AHCI_Command_Queuing = False,
     AHCI_IRQ_LINE = 0, mmio = [], registers = (\<lambda>h r. 0), now = (\<lambda>h. 0)\<rparr> = None"
  by (intro allI AHCI_Init_above_memory) (simp add: header0_of_def)

text \<open>The handoff from the BIOS is never asked for.\<close>

lemma AHCI_no_handoff: "(x :: u32) AND of_bool ((1 :: int) = 0) = 0"
  by simp

text \<open>C36. 
  C2. A reset that the controller has finished by the first look at it counts as done exactly when no timer
  tick has passed since the start: the time is measured backwards, so that a single tick looks like
  ages and the reset is reported as failed.
\<close>

theorem AHCI_HBA_Reset_tick:
  assumes "walk s (AHCI_Main_MMIO a + Global_Host_Control) = Some p" "Frequency s \<noteq> 0"
    and "h = MWrite Global_Host_Control (registers a (mmio a) Global_Host_Control OR 1) #
      MRead Global_Host_Control # mmio a"
    and "registers a h Global_Host_Control AND 1 = 0"
    and "t0 = now a h" "t1 = now a (MRead Global_Host_Control # h)" "t0 \<le> t1" "t1 - t0 < 2 ^ 63"
  shows "\<exists>a' s'. AHCI_HBA_Reset s a = Some (a', s') \<and> AHCI_Reset a' = (t1 = t0) \<and>
    mmio a' = MRead Global_Host_Control # h \<and>
    s' = (if t1 = t0 then s else say s (VirtualPrint KERNEL_T ''[ahci] fail no reset''))"
proof -
  let ?F = "ucast (Frequency s) :: u64"
  have late: "1 < (t0 - t1) div ?F \<longleftrightarrow> t1 \<noteq> t0"
  proof (cases "t1 = t0")
    case False
    have "unat (Frequency s) < 2 ^ 16" by (rule order_less_le_trans [OF unsigned_less]) simp
    moreover have eq: "unat ?F = unat (Frequency s)"
      using calculation by (simp add: unsigned_ucast_eq take_bit_eq_mod)
    ultimately have F: "unat ?F < 2 ^ 16" by simp
    have "2 ^ 63 < unat (t0 - t1)"
    proof -
      have le: "unat t0 \<le> unat t1" "unat t0 \<noteq> unat t1" using assms(7) False by (simp_all add: word_le_nat_alt word_unat_eq_iff)
      then have "unat (t0 - t1) = unat t0 + 2 ^ 64 - unat t1" by (simp add: unat_sub_if')
      moreover have "unat t1 - unat t0 < 2 ^ 63" using assms(7,8) by (simp add: word_less_nat_alt unat_sub)
      ultimately show ?thesis using le unat_lt_64 [of t1] by simp
    qed
    moreover have "0 < unat ?F" using assms(2) by (simp add: eq unat_gt_0)
    ultimately have "2 \<le> unat (t0 - t1) div unat ?F" using F by (simp add: less_eq_div_iff_mult_less_eq)
    then show ?thesis using False by (simp add: word_less_nat_alt unat_div)
  qed simp
  let ?a1 = "a\<lparr>mmio := h\<rparr>" and ?a2 = "a\<lparr>mmio := MRead Global_Host_Control # h\<rparr>"
  have "mmio_or s a Global_Host_Control 1 = Some ?a1"
    using assms(1) by (simp add: mmio_or_def mmio_read_def mmio_write_def assms(3))
  moreover have "reset_wait s t0 ?a1 = Some ?a2"
    using assms(1,4) by (subst reset_wait.simps) (simp add: mmio_read_def)
  ultimately have "AHCI_HBA_Reset s a = (if 1 < (t0 - t1) div ?F
      then Some (?a2\<lparr>AHCI_Reset := False\<rparr>, say s (VirtualPrint KERNEL_T ''[ahci] fail no reset''))
      else Some (?a2\<lparr>AHCI_Reset := True\<rparr>, s))"
    using assms(2) by (simp add: AHCI_HBA_Reset_def Let_def elapsed_def assms(5,6) [symmetric])
  then show ?thesis by (simp add: late)
qed

theorem AHCI_HBA_Reset_tick_witness:
  "\<exists>a' s'. AHCI_HBA_Reset (sample_kst\<lparr>Frequency := 1000\<rparr>)
      \<lparr>AHCI_Main_MMIO = 0xffff800000005000, AHCI_Ownership = False, AHCI_Reset = False, AHCI_S64A = False,
       AHCI_Command_Queuing = False, AHCI_IRQ_LINE = 0, mmio = [], registers = (\<lambda>h r. 0),
       now = (\<lambda>h. if length h < 3 then 7 else 8)\<rparr> = Some (a', s') \<and> \<not> AHCI_Reset a'"
proof -
  let ?s = "sample_kst\<lparr>Frequency := 1000\<rparr>"
  let ?a = "\<lparr>AHCI_Main_MMIO = 0xffff800000005000, AHCI_Ownership = False, AHCI_Reset = False, AHCI_S64A = False,
       AHCI_Command_Queuing = False, AHCI_IRQ_LINE = 0, mmio = [], registers = (\<lambda>h r. 0),
       now = (\<lambda>h. if length h < 3 then 7 else 8)\<rparr>"
  have "walk sample_kst (0x5000 + 4 + VIRTUAL_MEMORY_BARRIER) = Some (0x5000 + 4)"
    by (rule direct_map_offset [OF paging_invD(7,5) [OF sample_paging_inv]]) (simp_all add: page_aligned_def)
  then have "walk ?s (AHCI_Main_MMIO ?a + Global_Host_Control) = Some 0x5004"
    by (simp add: walk_def Global_Host_Control_def VIRTUAL_MEMORY_BARRIER_def)
  from AHCI_HBA_Reset_tick [OF this, of "[MWrite 4 1, MRead 4]" 7 8] show ?thesis
    by (auto simp: Global_Host_Control_def)
qed

end
