(* ===== verification/Boot.thy ===== *)
theory Boot
  imports Ahci Mem_Boot Terminal Syscalls Spaces Gemfs_Blocks
begin

text \<open>
  The start of the kernel: the copy to the upper half (\<open>kernel_setup.c\<close>), \<open>kernel.c\<close>, and the small
  drivers that only exchange bytes with ports (\<open>LowLevel/Power.c\<close>, \<open>Display/VGA_E.c\<close>, and the start of
  the controller in \<open>Devices/Disk/Floppy.c\<close>). The addresses of the interrupt stubs and what memory
  holds where the code reads before it writes are in \<open>boot_env\<close>.
\<close>

section \<open>The copy to the upper half\<close>

primrec memcpy_down :: "nat \<Rightarrow> kst \<Rightarrow> u64 \<Rightarrow> u64 \<Rightarrow> kst option" where
  "memcpy_down 0 s dest src = Some s"
| "memcpy_down (Suc n) s dest src = do {
     b \<leftarrow> vread8 s (src + of_nat n);
     s \<leftarrow> vwrite8 s (dest + of_nat n) b;
     memcpy_down n s dest src }"

definition KERNEL_LOAD :: u64 where "KERNEL_LOAD = 0x10000"
definition KERNEL_NEW :: u64 where "KERNEL_NEW = 0xffff800000100000"

text \<open>The jump at the end: the address, and the argument in \<open>rdi\<close>.\<close>

definition kernel_setup_main :: "kst \<Rightarrow> u64 \<Rightarrow> (u64 \<times> u64 \<times> kst) option" where
  "kernel_setup_main s BootDrive = do {
     s \<leftarrow> memcpy_down 0x30000 s KERNEL_NEW KERNEL_LOAD;
     Some (KERNEL_NEW, BootDrive, s) }"

section \<open>Power and display ports\<close>

text \<open>The empty interrupt table makes the next interrupt reset the machine.\<close>

definition reboot_triple_fault :: "kst \<Rightarrow> kst option" where
  "reboot_triple_fault s = None"

text \<open>The loop between the two writes only passes time. The state is that of a machine that is not reset.\<close>

definition reboot_cf9 :: "kst \<Rightarrow> kst" where
  "reboot_cf9 s =
     (let (v, s) = inb s 0xCF9; cf9 = v AND NOT 0x0E; s = outb s 0xCF9 (cf9 OR 0x02)
      in outb s 0xCF9 (cf9 OR 0x06))"

definition VGA_Read_Index :: "kst \<Rightarrow> u8 \<Rightarrow> u8 \<times> kst" where
  "VGA_Read_Index s index =
     (let (_, s) = inb s 0x3DA; s = outb s 0x3C0 index; (ret, s) = inb s 0x3C1
      in (ret, outb s 0x3C0 index))"

section \<open>The tables\<close>

record boot_env =
  kernel_panic_stub :: u64
  invalid_opcode_stub :: u64
  gpf_stub :: u64
  page_fault_stub :: u64
  isr80_stub :: u64
  timer_interrupt_stub :: u64
  sync_time_stub :: u64
  keyboard_stub :: u64
  ahci_interrupt_stub :: u64
  floppy_drive_stub :: u64
  ActiveTSS_address :: u64
  KernelMemory_junk :: mem_def
  frames_junk :: "u64 \<Rightarrow> frame"
  header0_junk :: "u8 \<Rightarrow> u8 \<Rightarrow> PCI_Header_0x0"
  header1_junk :: "u8 \<Rightarrow> u8 \<Rightarrow> PCI_Header_0x1"
  stray_byte :: u8

definition GDT_Access_Kernel_Code :: u8 where "GDT_Access_Kernel_Code = 0b10011010"
definition GDT_Access_Kernel_Data :: u8 where "GDT_Access_Kernel_Data = 0b10010010"
definition GDT_Access_User_Code :: u8 where "GDT_Access_User_Code = 0b11111010"
definition GDT_Access_User_Data :: u8 where "GDT_Access_User_Data = 0b11110010"
definition GDT_Access_TSS :: u8 where "GDT_Access_TSS = 0b10001001"
definition GDT_Flags_Data :: u8 where "GDT_Flags_Data = 0b0000"
definition GDT_Flags_Code :: u8 where "GDT_Flags_Code = 0b0010"

text \<open>\<open>sizeof(struct TSS)\<close>.\<close>

definition TSS_SIZE :: u32 where "TSS_SIZE = 112"

definition boot_gdt :: "boot_env \<Rightarrow> u8 list \<Rightarrow> u8 list option" where
  "boot_gdt env gdt = do {
     gdt \<leftarrow> SetGDTEntry gdt 0 0 0 0 0;
     gdt \<leftarrow> SetGDTEntry gdt 0 0 GDT_Flags_Code GDT_Access_Kernel_Code 0x8;
     gdt \<leftarrow> SetGDTEntry gdt 0 0 GDT_Flags_Data GDT_Access_Kernel_Data 0x10;
     gdt \<leftarrow> SetGDTEntry gdt 0 0 GDT_Flags_Code GDT_Access_User_Code 0x18;
     gdt \<leftarrow> SetGDTEntry gdt 0 0 GDT_Flags_Data GDT_Access_User_Data 0x20;
     SetGDTSystemEntry gdt (ActiveTSS_address env) TSS_SIZE GDT_Flags_Data GDT_Access_TSS 0x28 }"

text \<open>The last argument, \<open>0x10000\<close>, does not fit into its 16 bits.\<close>

definition boot_tss :: "kst \<Rightarrow> kst" where
  "boot_tss s = SetActiveTSS s 0xffff800000FFFF00 0 0 0xffff80000003FFF0 0xffff80000003EFF0
     0xffff80000003DFF0 0xffff80000003CFF0 0xffff80000003BFF0 0xffff80000003AFF0 0xffff800000039FF0 (ucast (0x10000 :: u32))"

text \<open>All 256 vectors, then the ones the kernel serves. Entry \<open>0x21\<close> is written after the clock has been set up.\<close>

definition boot_idt :: "boot_env \<Rightarrow> (u8 \<Rightarrow> idt_entry) \<Rightarrow> (u8 \<Rightarrow> idt_entry)" where
  "boot_idt env idt =
     (let idt = fold (\<lambda>i idt. SetIDTEntry idt (of_nat i) (kernel_panic_stub env) 0x08 0x8E 0x04) [0..<256] idt;
          idt = SetIDTEntry idt 0x06 (invalid_opcode_stub env) 0x08 0x8E 0x04;
          idt = SetIDTEntry idt 0x0D (gpf_stub env) 0x08 0x8E 0x04;
          idt = SetIDTEntry idt 0x0E (page_fault_stub env) 0x08 0x8E 0x00;
          idt = SetIDTEntry idt 0x80 (isr80_stub env) 0x08 0xEF 0x00;
          idt = SetIDTEntry idt 0x20 (timer_interrupt_stub env) 0x08 0x8E 0x00
      in SetIDTEntry idt 0x28 (sync_time_stub env) 0x08 0x8E 0x01)"

definition enable_clock :: "kst \<Rightarrow> kst" where
  "enable_clock s =
     (let s = outb s 0x70 0x8B; (previous, s) = inb s 0x71; s = outb s 0x70 0x8B
      in outb s 0x71 (previous OR 0x40))"

section \<open>The start of the kernel\<close>

text \<open>
  The ids of the drives that \<open>correct_bootdrive\<close> knows. In the last branch the function ends without a
  return statement: it has no value.
\<close>

definition correct_bootdrive :: "kst \<Rightarrow> u64 \<Rightarrow> nat option \<times> kst" where
  "correct_bootdrive s boot_drive =
     (if boot_drive > 0x80 \<and> boot_drive < 0x84 then (Some (H0 + unat (boot_drive - 0x80)), s)
      else if boot_drive < 0x04 then (Some (F0 + unat boot_drive), s)
      else (None, say s (Printf ''Unable to correct Boot Drive into a GemFS ID. (%x)'' [boot_drive])))"

record boot =
  bt_kst :: kst
  Main_GDT :: "u8 list"
  kernel_idt :: "u8 \<Rightarrow> idt_entry"
  bt_pci :: pci
  bt_ahci :: ahci
  bt_tty :: tty
  boot_driveid :: "nat option"

definition bt_say :: "boot \<Rightarrow> string \<Rightarrow> boot" where
  "bt_say b str = b\<lparr>bt_kst := say (bt_kst b) (VirtualPrint KERNEL_T str)\<rparr>"

text \<open>
  The parts of \<open>kernel_startup\<close> in their order. Messages are kept in the trace of \<open>kst\<close>; \<open>bt_tty\<close> is
  the state of the terminals that the trace is printed on. \<open>LoadGDT\<close>, \<open>LoadIDT\<close> and \<open>initVGA\<close> only load
  a register or a pointer.
\<close>

definition start_memory :: "boot_env \<Rightarrow> boot \<Rightarrow> boot option" where
  "start_memory env b = do {
     gdt \<leftarrow> boot_gdt env (Main_GDT b);
     s \<leftarrow> InitMem (KernelMemory_junk env) (frames_junk env) (boot_tss (bt_kst b));
     let s = set_task s KernelTask ((TaskManager s KernelTask)\<lparr>UserTSS := ActiveTSS s\<rparr>);
     Some (b\<lparr>bt_kst := say s Cls, Main_GDT := gdt,
       bt_tty := initVirtualTerminals True (stray_byte env) ((bt_tty b)\<lparr>scr := cls (scr (bt_tty b))\<rparr>)\<rparr>) }"

definition start_interrupts :: "boot_env \<Rightarrow> boot \<Rightarrow> boot" where
  "start_interrupts env b =
     (let b = b\<lparr>bt_kst := pic_remap (bt_kst b) 0x20 0x28, kernel_idt := boot_idt env (kernel_idt b)\<rparr>;
          b = b\<lparr>bt_kst := enable_clock (bt_kst b),
                kernel_idt := SetIDTEntry (kernel_idt b) 0x21 (keyboard_stub env) 0x08 0x8E 0x00\<rparr>;
          b = bt_say b ''[boot.idt] success'';
          b = b\<lparr>bt_kst := sti (bt_kst b)\<rparr>
      in bt_say b ''[boot.int] success'')"

definition start_devices :: "boot_env \<Rightarrow> boot \<Rightarrow> boot option" where
  "start_devices env b = do {
     let (p, s) = ScanBusses (header0_junk env) (header1_junk env) (bt_pci b) (bt_kst b);
     let b = bt_say (b\<lparr>bt_pci := p, bt_kst := s\<rparr>) ''[boot.pci] success'';
     case AHCI_Controller p of
       None \<Rightarrow> Some (bt_say b ''[boot.ahci] no ahci'')
     | Some c \<Rightarrow> do {
         let b = bt_say b ''[boot.ahci] init'';
         (idt, a, s) \<leftarrow> AHCI_Init (ahci_interrupt_stub env) (Devices p c) (kernel_idt b) (bt_kst b) (bt_ahci b);
         Some (b\<lparr>kernel_idt := idt, bt_ahci := a, bt_kst := s\<rparr>) } }"

text \<open>
  \<open>kernel_startup\<close> up to its \<open>halt()\<close>: the state in which the processor halts with interrupts off. What
  follows the halt in the source (the floppy, the file system and the shell) is never reached.
\<close>

definition kernel_startup :: "boot_env \<Rightarrow> u64 \<Rightarrow> boot \<Rightarrow> boot option" where
  "kernel_startup env boot_drive b = do {
     let boot_drive = boot_drive AND 0xFF;
     b \<leftarrow> start_memory env b;
     let b = bt_say (bt_say (bt_say b ''[boot] start'') ''[boot.gdt] success'') ''[boot.mem] success'';
     let b = start_interrupts env b;
     let (d, s) = correct_bootdrive (bt_kst b) boot_drive;
     b \<leftarrow> start_devices env (b\<lparr>bt_kst := s, boot_driveid := d\<rparr>);
     Some (b\<lparr>bt_kst := cli (bt_kst b)\<rparr>) }"

text \<open>\<open>kernel_main\<close> would return after \<open>kernel_startup\<close>, which never does.\<close>

definition kernel_main :: "boot_env \<Rightarrow> u64 \<Rightarrow> boot \<Rightarrow> boot option" where
  "kernel_main env BootDrive b = kernel_startup env BootDrive b"

section \<open>The start of the floppy controller and of the shell\<close>

definition FLOPPY_IRQ_INDEX :: u8 where "FLOPPY_IRQ_INDEX = 0x26"

text \<open>\<open>clock k\<close> is the value of \<open>SecondsSinceBoot\<close> at the \<open>k\<close>-th look at it during the wait.\<close>

partial_function (option) wait_second :: "(nat \<Rightarrow> u64) \<Rightarrow> u64 \<Rightarrow> nat \<Rightarrow> u64 option" where
  "wait_second clock timestamp k =
     (if clock k - timestamp < 1 then wait_second clock timestamp (Suc k) else Some (clock k))"

definition FLOPPY_Init_Controller ::
  "boot_env \<Rightarrow> (nat \<Rightarrow> u64) \<Rightarrow> (u8 \<Rightarrow> idt_entry) \<Rightarrow> kst \<Rightarrow> (int \<times> (u8 \<Rightarrow> idt_entry) \<times> kst) option" where
  "FLOPPY_Init_Controller env clock idt s = do {
     let (DOR_Status, s) = inb s DIGITAL_OUTPUT_REGISTER;
     let reset_status = drop_bit 2 DOR_Status AND 1;
     s \<leftarrow> (if reset_status = 0 then do {
        let s = outb s DIGITAL_OUTPUT_REGISTER (DOR_Status AND NOT (push_bit 2 1));
        now \<leftarrow> wait_second clock (SecondsSinceBoot s) 0;
        let s = s\<lparr>SecondsSinceBoot := now\<rparr>;
        let (DOR_Status, s) = inb s DIGITAL_OUTPUT_REGISTER;
        Some (outb s DIGITAL_OUTPUT_REGISTER (DOR_Status OR push_bit 2 1)) }
      else Some s);
     let idt = SetIDTEntry idt FLOPPY_IRQ_INDEX (floppy_drive_stub env) 0x08 0x8F 0x00;
     s \<leftarrow> pic_unmask s 0x06;
     let (DOR_Status, s) = inb s DIGITAL_OUTPUT_REGISTER;
     let s = outb s DIGITAL_OUTPUT_REGISTER (DOR_Status OR push_bit 2 1);
     let (DOR_Status, s) = inb s DIGITAL_OUTPUT_REGISTER;
     Some (1, idt, say s (Print_success_snapshot ''SUCCESS'')) }"

text \<open>The path \<open>"/bin/shell.elf"\<close> with its NUL.\<close>

definition SHELL_PATH :: "u8 list" where
  "SHELL_PATH = [47, 98, 105, 110, 47, 115, 104, 101, 108, 108, 46, 101, 108, 102, 0]"

text \<open>The state in which \<open>SetUpShell\<close> enters its endless loop, waiting for the timer to start the shell.\<close>

definition SetUpShell :: "sys \<Rightarrow> sys option" where
  "SetUpShell y = do {
     let s = say (kern y) (VirtualPrint KERNEL_T ''[boot.shell] init'');
     (Shell_Entry, g) \<leftarrow> GemFS_Directory_to_Index F0 1 SHELL_PATH (fs y);
     (shell_entry, g) \<leftarrow> GemFS_ReadEntry F0 1 Shell_Entry g;
     (s, f, g) \<leftarrow> LoadElf_GemFS (elf y) F0 1 Shell_Entry s (drive y) g;
     let s = TASKMGR_set_current s 0;
     (_, s) \<leftarrow> malloc s KernelTask;
     (_, s) \<leftarrow> malloc s KernelTask;
     (_, s) \<leftarrow> malloc s KernelTask;
     (_, s) \<leftarrow> malloc s KernelTask;
     (rsp0, s) \<leftarrow> malloc s KernelTask;
     let t = TaskManager s KernelTask;
     let s = set_task s KernelTask (t\<lparr>UserTSS := (UserTSS t)\<lparr>tss_rsp0 := rsp0\<rparr>, Base_PML4 := Kernel_PML4_Physical s\<rparr>);
     s \<leftarrow> SetTimerFrequency s 1000;
     s \<leftarrow> pic_unmask s 0x01;
     s \<leftarrow> pic_unmask s 0x00;
     Some (y\<lparr>kern := s, fs := g, drive := f\<rparr>) }"

section \<open>The copy\<close>


lemma sample_page_byte:
  assumes "i < 0x1000"
  shows "walk sample_kst (0xffff800000006000 + of_nat i) = Some (0x6000 + of_nat i)"
    and "not_in_table sample_kst (0x6000 + of_nat i)"
proof -
  have k: "of_nat i < (0x1000 :: u64)" using assms by (simp add: word_less_nat_alt unat_of_nat)
  have a: "page_aligned 0x6000" by (simp add: page_aligned_def)
  have "walk sample_kst (0x6000 + of_nat i + VIRTUAL_MEMORY_BARRIER) = Some (0x6000 + of_nat i)"
    by (rule direct_map_offset [OF paging_invD(7,5) [OF sample_paging_inv] a _ k]) simp
  moreover have "0x6000 + of_nat i + VIRTUAL_MEMORY_BARRIER = 0xffff800000006000 + of_nat i"
    by (simp add: VIRTUAL_MEMORY_BARRIER_def)
  ultimately show "walk sample_kst (0xffff800000006000 + of_nat i) = Some (0x6000 + of_nat i)" by simp
  show "not_in_table sample_kst (0x6000 + of_nat i)"
    unfolding not_in_table_def using a in_page_offset [OF assms]
    by (intro exI [of _ "0x6000"]) (simp add: sample_is_table)
qed


section \<open>Interrupts\<close>

text \<open>The handler of each vector once interrupts are on.\<close>

definition gate_handler :: "boot_env \<Rightarrow> u8 \<Rightarrow> u64" where
  "gate_handler env n =
     (if n = 0x06 then invalid_opcode_stub env else if n = 0x0D then gpf_stub env
      else if n = 0x0E then page_fault_stub env else if n = 0x80 then isr80_stub env
      else if n = 0x20 then timer_interrupt_stub env else if n = 0x21 then keyboard_stub env
      else if n = 0x28 then sync_time_stub env else kernel_panic_stub env)"

text \<open>The last byte written to a port, given the accesses, newest first.\<close>

fun last_out :: "u16 \<Rightarrow> port_access list \<Rightarrow> u8 option" where
  "last_out p [] = None"
| "last_out p (Out8 q v # h) = (if q = p then Some v else last_out p h)"
| "last_out p (_ # h) = last_out p h"

definition gate :: "u64 \<Rightarrow> u16 \<Rightarrow> u8 \<Rightarrow> u8 \<Rightarrow> idt_entry" where
  "gate h sel fl ist = SetIDTEntry (\<lambda>_. undefined) 0 h sel fl ist 0"

lemma SetIDTEntry_gate: "SetIDTEntry idt n h sel fl ist = idt(n := gate h sel fl ist)"
  by (simp add: SetIDTEntry_def gate_def)

lemma gate_fields [simp]:
  "idt_offset (gate h sel fl ist) = h" "ie_selector (gate h sel fl ist) = sel" "ie_flags (gate h sel fl ist) = fl"
  using SetIDTEntry_offset [of "\<lambda>_. undefined" 0 h sel fl ist] unfolding gate_def by blast+

lemma fold_gates: "fold (\<lambda>i idt. idt(of_nat i := e)) xs idt n = (if \<exists>i \<in> set xs. n = of_nat i then e else idt n)"
  by (induction xs arbitrary: idt) auto

lemma u8_of_nat: "\<exists>i \<in> set [0..<256]. (n :: u8) = of_nat i"
proof
  show "n = of_nat (unat n)" by simp
  show "unat n \<in> set [0..<256]" using unsigned_less [of n] by simp
qed

lemma boot_idt_gate:
  defines "gates \<equiv> \<lambda>env idt. SetIDTEntry (boot_idt env idt) 0x21 (keyboard_stub env) 0x08 0x8E 0x00"
  shows "idt_offset (gates env idt n) = gate_handler env n" "ie_selector (gates env idt n) = 0x08"
    "ie_flags (gates env idt n) = (if n = 0x80 then 0xEF else 0x8E)"
proof -
  have "gates env idt n = (if n = 0x21 then gate (keyboard_stub env) 0x08 0x8E 0x00
      else if n = 0x28 then gate (sync_time_stub env) 0x08 0x8E 0x01
      else if n = 0x20 then gate (timer_interrupt_stub env) 0x08 0x8E 0x00
      else if n = 0x80 then gate (isr80_stub env) 0x08 0xEF 0x00
      else if n = 0x0E then gate (page_fault_stub env) 0x08 0x8E 0x00
      else if n = 0x0D then gate (gpf_stub env) 0x08 0x8E 0x04
      else if n = 0x06 then gate (invalid_opcode_stub env) 0x08 0x8E 0x04
      else gate (kernel_panic_stub env) 0x08 0x8E 0x04)"
    by (simp only: gates_def boot_idt_def Let_def SetIDTEntry_gate fun_upd_apply fold_gates if_P [OF u8_of_nat])
  then show "idt_offset (gates env idt n) = gate_handler env n" "ie_selector (gates env idt n) = 0x08"
    "ie_flags (gates env idt n) = (if n = 0x80 then 0xEF else 0x8E)"
    by (simp_all add: gate_handler_def)
qed

text \<open>C26. When interrupts are switched on, every one of the 256 vectors has a present gate into the kernel's code
  segment, the served vectors lead to their stubs and all others to the panic stub, and the
  system call is the only gate that programs may use; all lines of both interrupt controllers are
  masked.\<close>

theorem start_interrupts_gates:
  "let b' = start_interrupts env b in interrupts (bt_kst b') \<and>
    (\<forall>n. idt_offset (kernel_idt b' n) = gate_handler env n \<and> ie_selector (kernel_idt b' n) = 0x08 \<and>
      bit (ie_flags (kernel_idt b' n)) 7 \<and> ((ie_flags (kernel_idt b' n) AND 0x60 = 0x60) = (n = 0x80)) \<and>
      ((ie_flags (kernel_idt b' n) AND 0x60 = 0) = (n \<noteq> 0x80))) \<and>
    last_out PIC1_DATA (ports (bt_kst b')) = Some 0xFF \<and> last_out PIC2_DATA (ports (bt_kst b')) = Some 0xFF"
proof -
  define b' where "b' = start_interrupts env b"
  have idt: "kernel_idt b' = SetIDTEntry (boot_idt env (kernel_idt b)) 0x21 (keyboard_stub env) 0x08 0x8E 0x00"
    by (simp add: b'_def start_interrupts_def bt_say_def Let_def)
  have "interrupts (bt_kst b')"
    by (simp add: b'_def start_interrupts_def bt_say_def Let_def sti_def say_def)
  moreover have "last_out PIC1_DATA (ports (bt_kst b')) = Some 0xFF" "last_out PIC2_DATA (ports (bt_kst b')) = Some 0xFF"
    by (simp_all add: b'_def start_interrupts_def bt_say_def Let_def sti_def say_def enable_clock_def pic_remap_def
      outb_def inb_def PIC1_DATA_def PIC2_DATA_def)
  moreover have "bit (0xEF :: u8) 7" "bit (0x8E :: u8) 7" by (simp_all add: bit_numeral_word_iff)
  ultimately show ?thesis
    unfolding b'_def [symmetric] Let_def idt boot_idt_gate by simp
qed

section \<open>The task state segment\<close>

text \<open>The bytes of \<open>struct TSS\<close>.\<close>

definition tss_bytes :: "tss \<Rightarrow> u8 list" where
  "tss_bytes t = le_bytes 4 (tss_reserved0 t) @ concat (map (le_bytes 8) [tss_rsp0 t, tss_rsp1 t, tss_rsp2 t,
     tss_reserved1 t, tss_ist1 t, tss_ist2 t, tss_ist3 t, tss_ist4 t, tss_ist5 t, tss_ist6 t, tss_ist7 t,
     tss_reserved2 t, tss_reserved3 t]) @ le_bytes 2 (tss_reserved4 t) @ le_bytes 2 (tss_io_map_base t)"

text \<open>
  The check of the processor for a byte access to a port by a program: the base of the permission
  map is the word at byte \<open>0x66\<close>, both bytes it reads must lie within the limit, and the bit of
  the port must be clear.
\<close>

definition io_permitted :: "u8 list \<Rightarrow> nat \<Rightarrow> nat \<Rightarrow> bool" where
  "io_permitted t limit port \<longleftrightarrow>
     (let base = unat (t ! 0x66) + 256 * unat (t ! 0x67); k = base + port div 8
      in k + 1 \<le> limit \<and> \<not> bit (t ! k) (port mod 8))"

lemma le_bytes_zero: "le_bytes n (0 :: 'a::len word) = replicate n 0"
  by (induction n) simp_all

text \<open>C38. \<open>struct TSS\<close> has one reserved word too many, so the base of the permission map is read from it as 0,
  whatever argument \<open>SetActiveTSS\<close> is given, and the kernel's gives 0 as well: the map starts at the segment itself, and its zero words
  permit programs the ports from 0x60 to 0x11F, those of the keyboard controller, the clock and the second
  interrupt controller among them.\<close>

theorem boot_tss_opens_ports:
  assumes "0x60 \<le> port" "port < 0x120"
  shows "io_permitted (tss_bytes (ActiveTSS (boot_tss s))) (unat TSS_SIZE) port"
proof -
  define t where "t = tss_bytes (ActiveTSS (boot_tss s))"
  have zeros: "replicate 24 (0 :: u8) = replicate 8 0 @ replicate 8 0 @ replicate 8 0"
    "replicate 20 (0 :: u8) = replicate 16 0 @ replicate 2 0 @ replicate 2 0"
    "replicate 16 (0 :: u8) = replicate 8 0 @ replicate 8 0"
    by (simp_all flip: replicate_add del: replicate.simps)
  have io: "(65536 :: u16) = 0" by (simp add: word_unat_eq_iff)
  obtain A C where t: "t = A @ replicate 24 0 @ C @ replicate 20 0" "length A = 12" "length C = 56"
  proof
    let ?T = "ActiveTSS (boot_tss s)"
    show "t = (le_bytes 4 (tss_reserved0 ?T) @ le_bytes 8 (tss_rsp0 ?T)) @ replicate 24 0 @
        concat (map (le_bytes 8) [tss_ist1 ?T, tss_ist2 ?T, tss_ist3 ?T, tss_ist4 ?T, tss_ist5 ?T, tss_ist6 ?T, tss_ist7 ?T]) @
        replicate 20 0"
      by (simp add: t_def tss_bytes_def boot_tss_def SetActiveTSS_def zero_tss_def le_bytes_zero zeros io
        del: replicate.simps le_bytes.simps)
  qed simp_all
  have k: "12 \<le> port div 8" "port div 8 < 36" using assms by auto
  then have "port div 8 - 12 < 24" by simp
  then have "t ! (port div 8) = 0" "t ! 0x66 = 0" "t ! 0x67 = 0" using k by (simp_all add: t nth_append)
  then show ?thesis using k unfolding t_def [symmetric] by (simp add: io_permitted_def Let_def TSS_SIZE_def)
qed

theorem boot_tss_opens_ports_witness:
  "io_permitted (tss_bytes (ActiveTSS (boot_tss sample_kst))) (unat TSS_SIZE) 0x64"
  by (rule boot_tss_opens_ports) simp_all

section \<open>The floppy controller\<close>

text \<open>The set-up of the controller does not reset one that is running, although its comment says so: it
  returns, whatever the clock does, and no byte it writes to the output register has the reset bit clear.\<close>

theorem FLOPPY_Init_Controller_no_reset:
  assumes "bit (devices s (ports s) DIGITAL_OUTPUT_REGISTER) 2"
  shows "\<exists>idt' s' new. FLOPPY_Init_Controller env clock idt s = Some (1, idt', s') \<and> ports s' = new @ ports s \<and>
    (\<forall>v. Out8 DIGITAL_OUTPUT_REGISTER v \<in> set new \<longrightarrow> bit v 2) \<and> idt_offset (idt' 0x26) = floppy_drive_stub env"
proof -
  have b: "bit (ucast (devices s (ports s) DIGITAL_OUTPUT_REGISTER) :: u8) 2" using assms by (simp add: bit_simps)
  have "drop_bit 2 (v :: u8) AND 1 \<noteq> 0" if "bit v 2" for v
    using that by (simp add: and_one_eq bit_iff_odd_drop_bit odd_iff_mod_2_eq_one)
  note n = this [OF b]
  have o: "bit (v OR 4 :: u8) 2" for v by (simp add: bit_or_iff bit_numeral_word_iff)
  show ?thesis
    using n o by (simp add: FLOPPY_Init_Controller_def inb_def outb_def pic_unmask_def Let_def say_def
      SetIDTEntry_gate FLOPPY_IRQ_INDEX_def PIC1_DATA_def DIGITAL_OUTPUT_REGISTER_def)
qed

theorem FLOPPY_Init_Controller_no_reset_witness:
  "\<exists>idt' s'. FLOPPY_Init_Controller env (\<lambda>k. 0) idt (sample_kst\<lparr>devices := \<lambda>h p. 4\<rparr>) = Some (1, idt', s')"
  using FLOPPY_Init_Controller_no_reset [of "sample_kst\<lparr>devices := \<lambda>h p. 4\<rparr>" env "\<lambda>k. 0" idt]
  by (auto simp: bit_numeral_word_iff)

end
