(* ===== verification/Reports.thy ===== *)
theory Reports
  imports Elf Gemfs_Files Console Sample_Machine
begin

text \<open>
  The functions that report the state of a component on the screen and are called by hand or under
  debugging macros only: the clock of Timer.c, the ELF headers of Tasks.c, the drive tables of
  gemfs.c; and the random numbers of Math.c.
\<close>

section \<open>The clock\<close>

text \<open>\<open>cycles\<close> stands for what the array of 36 characters holds at first.\<close>

definition print_boxed :: "u8 list \<Rightarrow> u64 \<Rightarrow> kst \<Rightarrow> kst option" where
  "print_boxed cycles n s = do {
     let s = say s (Print ''['');
     cycles \<leftarrow> int_to_char_array n cycles 36 10;
     str \<leftarrow> buffer_string cycles;
     Some (say (say s (Print str)) (Print '']'')) }"

definition PrintCycles :: "u8 list \<Rightarrow> kst \<Rightarrow> kst option" where
  "PrintCycles cycles s = print_boxed cycles (TimerWindow s) s"

definition PrintSecondsSinceBoot :: "u8 list \<Rightarrow> kst \<Rightarrow> kst option" where
  "PrintSecondsSinceBoot cycles s = print_boxed cycles (SecondsSinceBoot s) s"

section \<open>ELF headers\<close>

definition ELF_DumpProgramHeader :: "ProgramHeader64 \<Rightarrow> kst \<Rightarrow> kst" where
  "ELF_DumpProgramHeader h s =
     (let s = say s (SetColor LCYAN BLACK);
          s = say s (Printf ''Dumping ELF 64 bit Program Header DATA:'' []);
          s = say s (Printf '' TYPE: %x'' [ucast (p_type h)]);
          s = say s (Printf '' FLAGS: %x'' [ucast (p_flags h)]);
          s = say s (Printf '' OFFSET: %x'' [p_offset h]);
          s = say s (Printf '' VADDR: %x'' [p_vaddr h]);
          s = say s (Printf '' PADDR: %x'' [p_paddr h]);
          s = say s (Printf '' FILE SIZE: %x'' [p_filesz h]);
          s = say s (Printf '' MEM SIZE: %x'' [p_memsz h]);
          s = say s (Printf '' ALIGN: %x'' [p_align h])
      in say s (SetColor WHITE BLACK))"

text \<open>The identifier is the magic number, class, data, version and ABI in its first eight bytes.\<close>

definition ELF_DumpHeader :: "ElfHeader64 \<Rightarrow> kst \<Rightarrow> kst" where
  "ELF_DumpHeader h s =
     (let b = (\<lambda>i. ucast (e_ident h ! i) :: u64);
          s = say s (SetColor LCYAN BLACK);
          s = say s (Printf ''Dumping ELF 64 bit Header IDENTIFIER:'' []);
          s = say s (Printf '' MAGIC: %x'' [b 0]);
          s = say s (Printf '' STR: %c%c%c'' [b 1, b 2, b 3]);
          s = say s (Printf '' CLASS: %x'' [b 4]);
          s = say s (Printf '' DATA: %x'' [b 5]);
          s = say s (Printf '' VERSION: %x'' [b 6]);
          s = say s (Printf '' OS_ABI: %x'' [b 7]);
          s = say s (Printf ''DATA:'' []);
          s = say s (Printf '' TYPE: %x'' [ucast (e_type h)]);
          s = say s (Printf '' MACHINE: %x'' [ucast (e_machine h)]);
          s = say s (Printf '' VERSION: %x'' [ucast (e_version h)]);
          s = say s (Printf '' ENTRY: %x'' [e_entry h]);
          s = say s (Printf '' PH_OFF: %x'' [e_phoff h]);
          s = say s (Printf '' FLAGS: %x'' [ucast (e_flags h)]);
          s = say s (Printf '' HEADER SIZE: %x'' [ucast (e_ehsize h)]);
          s = say s (Printf '' PROGRAM HEADER SIZE: %x'' [ucast (e_phentsize h)]);
          s = say s (Printf '' PROGRAM HEADER COUNT: %x'' [ucast (e_phnum h)])
      in say s (SetColor WHITE BLACK))"

section \<open>Drive tables\<close>

definition GemFS_DumpPartition :: "nat \<Rightarrow> nat \<Rightarrow> gemfs \<Rightarrow> gemfs" where
  "GemFS_DumpPartition D P g =
     (let Table = PartitionTable (Drives g D) P;
          g = report ''DRIVE PARTITION DUMP ID: %x'' [of_nat D] g;
          g = report ''STATUS: %x'' [ucast (Status Table)] g;
          g = report ''TYPE: %x'' [ucast (Part_Type Table)] g;
          g = report ''LBA_START: %x'' [ucast (LBA_Start Table)] g
      in report ''SECTOR_COUNT: %x'' [ucast (Sector_Count Table)] g)"

section \<open>Random numbers\<close>

text \<open>\<open>rand64\<close> returns the new value of \<open>last_unsecure_64\<close>, which is 4 at first.\<close>

definition rand64 :: "u64 \<Rightarrow> u64" where
  "rand64 last_unsecure_64 = 6364136223846793005 * last_unsecure_64 + 1"

section \<open>What they do\<close>

text \<open>The number is padded to ten digits, and the padding of a short number is written past the end of
  a buffer: before the thousand millionth tick or second there is no defined result.\<close>

theorem print_clock_overruns:
  assumes "length cycles = 36"
  shows "(unat (TimerWindow s) < 10 ^ 9 \<longrightarrow> PrintCycles cycles s = None) \<and>
    (unat (SecondsSinceBoot s) < 10 ^ 9 \<longrightarrow> PrintSecondsSinceBoot cycles s = None)"
proof -
  have "int_to_char_array n cycles 36 10 = None" if n: "unat n < 10 ^ 9" for n
  proof (cases "n = 0")
    case True
    obtain a b c where c: "cycles = a # b # c" using assms(1) by (auto simp: length_Suc_conv numeral_eq_Suc)
    have "find_nul (48 # 0 # c) 0 = Some 1"
      by (simp add: find_nul.simps [of _ 0] find_nul.simps [of _ "Suc 0"])
    then show ?thesis
      by (simp add: True c int_to_char_array_def abs_c_def buf_put_def pad_string_overruns)
  next
    case False
    let ?d = "count_digits 10 n"
    have d: "0 < ?d" "10 ^ (?d - 1) \<le> unat n" using count_digits_bounds [of 10 n] False by simp_all
    have d9: "?d < 10"
    proof (rule ccontr)
      assume "\<not> ?d < 10"
      then have "(10 :: nat) ^ 9 \<le> 10 ^ (?d - 1)" by (intro power_increasing) simp_all
      then show False using d(2) n by linarith
    qed
    obtain buf' where b: "put_digits ?d 10 n (cycles[?d := 0]) 0 = Some buf'" "length buf' = length cycles"
      "find_nul buf' 0 = Some ?d"
      by (rule digits_string [of 10 n 0 cycles "[]"]) (use False assms(1) d9 in auto)
    then show ?thesis
      using False d d9 assms(1)
      by (simp add: int_to_char_array_def abs_c_def buf_put_def Let_def pad_string_overruns [OF b(3)])
  qed
  then show ?thesis
    by (simp add: PrintCycles_def PrintSecondsSinceBoot_def print_boxed_def say_def)
qed

theorem print_clock_overruns_witness: "PrintCycles (replicate 36 0) sample_kst = None"
  using print_clock_overruns [of "replicate 36 0" sample_kst] by (simp add: sample_kst_def)

text \<open>The numbers alternate between even and odd.\<close>

lemma rand64_parity: "even (rand64 n) \<longleftrightarrow> odd n"
  by (simp add: rand64_def)

end
