(* ===== verification/Spec2Isabelle.thy ===== *)
theory Spec2Isabelle
  imports Sched Signals Keyboard Terminal Floppy Gemfs_Commands Syscall_Correct Sample_Spaces Sample_Fork Sample_Boot Kheap Boot Reports
begin

text \<open>
  ChudOS: a verification development for the kernel in \<open>src/src/kernel\<close> and
  \<open>src/src/include\<close>.

  \<^bold>\<open>The program.\<close> ChudOS is a small x86-64 kernel. The boot code leaves it in long mode with the
  kernel mapped in the upper half. \<open>drivers/LowLevel/Memory.c\<close> keeps the table of physical frames
  and the page tables; \<open>drivers/Userland/Tasks.c\<close> the table of 512 tasks, whose memory it asks
  Memory.c for; \<open>drivers/LowLevel/Timer.c\<close> switches tasks at timer interrupts;
  \<open>drivers/Userland/signals.c\<close> pushes signal frames on the stacks of tasks;
  \<open>drivers/Userland/syscall.c\<close> is what programs call, among it FORK and EXECVE, which use the
  loader in Tasks.c; \<open>drivers/ErrorHandling/Exceptions.c\<close> serves page faults and ends tasks. The keyboard driver
  wakes the task that waits for a line, text goes to the screen through
  \<open>Libraries/std.c\<close> and \<open>drivers/Display/VGA.c\<close> and to the virtual terminals of
  \<open>drivers/Userland/terminal.c\<close>, and files are kept by \<open>drivers/filesys/gemfs.c\<close> on the floppy
  disk behind \<open>drivers/Devices/Disk/Floppy.c\<close>. \<open>kernel.c\<close> starts all of this: it sets up the
  descriptor tables, calls \<open>InitMem\<close>, switches interrupts on, and looks for devices with
  \<open>drivers/Devices/PCI.c\<close> and \<open>drivers/Devices/Disk/AHCI.c\<close>.

  \<^bold>\<open>The model.\<close> An operation takes the state and returns the new one, in the option type: \<open>None\<close>
  says that control does not come back (the processor halts, a loop never ends, an access
  faults) or that the C code has no defined behaviour there (an access outside an array, a
  read of a variable that was never set). Machine integers are words of their C width. Loops
  that end are structural or have a termination proof; loops that may not end are partial
  functions in the option type, so that a theorem that they return says \<open>= Some\<close>.

  The theories, in the order they build on each other:

  \<^item> \<open>Prelude\<close>, \<open>Ram\<close>: word types, collections of rules, physical memory as bytes, and
    little-endian cells.
  \<^item> \<open>Kstate\<close>, \<open>Mmu\<close>: the state of the kernel (registers, frames, tasks, ports, a record of what is
    printed) and the walk the hardware makes through the page tables.
  \<^item> \<open>Frames\<close>: the frame table and the two searches of Memory.c. The locale \<open>frame_pool\<close> states what
    a client of an allocator relies on; it is interpreted on the frames here, and on the blocks
    of the file system in \<open>Gemfs_Blocks\<close>.
  \<^item> \<open>PageAddr\<close>, \<open>Paging\<close>, \<open>Paging_Inv\<close>, \<open>Paging_Correct\<close>: addresses and entries, \<open>alloc_page\<close>, \<open>free_page\<close> and
    \<open>phys_addr\<close>, the invariant of the tables, and the effect of the operations on the hardware walk.
  \<^item> \<open>Alloc\<close>, \<open>Address_Space\<close>, \<open>Sample_Machine\<close>: isolation of user pages, the round trip of allocating and
    freeing, address spaces and page allocation for tasks, and the machine the witnesses use.
  \<^item> \<open>Tasks\<close>, \<open>Low_Level\<close>, \<open>Sched\<close>, \<open>Signals\<close>: the task table, the interrupt controller and descriptor
    tables, the scheduler (the locale \<open>round_robin\<close> is its contract), and signals.
  \<^item> \<open>Strings\<close>, \<open>Console\<close>, \<open>Terminal\<close>, \<open>Keyboard\<close>: number printing, the text screen, the terminals, and the
    keyboard driver.
  \<^item> \<open>Floppy\<close>: the floppy controller and the ISA DMA set-up. What the device does between a command
    and its interrupt is a parameter; the DMA controller that the last sections compare with is
    the 8237 of the data sheet.
  \<^item> \<open>Gemfs_Disk\<close>, \<open>Gemfs_Entries\<close>, \<open>Gemfs_Files\<close>: the file system. \<open>Gemfs_Blocks\<close>, \<open>Gemfs_Table\<close> and \<open>Gemfs_Dirs\<close> prove
    that its block table is a set, its chain of entries a map, and its directories lists of
    children; \<open>Gemfs_Commands\<close> states the contract of a table of entries as the locale
    \<open>entry_table\<close>, which GemFS meets, and follows whole sequences of reads and writes.
  \<^item> \<open>Control\<close>, \<open>Elf\<close>, \<open>Elf_Correct\<close>: the relation \<open>calm\<close> (an operation changes neither the current task
    nor the address space nor any task but for its page counts), kept by every operation on
    memory, and the program loader.
  \<^item> \<open>Syscalls\<close>, \<open>Exceptions\<close>: the handler of the system calls over the kernel, the file system and the
    floppy together, and the handlers of page faults, protection faults and invalid opcodes.
  \<^item> \<open>System\<close>, \<open>Kernel_Steps\<close>, \<open>Syscall_Correct\<close>: the invariant of the whole kernel, the step relation whose
    events are what enters the kernel, and what single calls do.
  \<^item> \<open>Spaces\<close>, \<open>Clone\<close>, \<open>Fork_Correct\<close>, \<open>Cow_Correct\<close>, \<open>Sample_Spaces\<close>: two address spaces that share the kernel half and
    are separate in the user half, what an operation on one means for the other, and with it the
    copy-on-write of FORK and of the page fault handler.
  \<^item> \<open>Kernel_Pages\<close>, \<open>Fork_System\<close>, \<open>Sample_Fork\<close>: the pages the kernel takes for itself, the new address space of a
    program, and FORK from the call to the return, with the machine its theorem is applied to.
  \<^item> \<open>Mem_Boot\<close>, \<open>Sample_Boot\<close>, \<open>Kheap\<close>: the start of memory management with the memory map of the BIOS, and the
    heap functions.
  \<^item> \<open>Pci\<close>, \<open>Ahci\<close>: the scan of the PCI busses and the AHCI driver. What the devices answer is an
    environment, a function of the accesses so far.
  \<^item> \<open>Boot\<close>: the copy of the kernel to the upper half, \<open>kernel_startup\<close> up to the halt in it, the shell,
    the start of the floppy controller and the reset of the machine.
  \<^item> \<open>Reports\<close>: the functions that print the clock, headers and tables.

  \<^bold>\<open>What the theorems show.\<close> Paging: \<open>alloc_page\<close> maps the page it is asked to and changes no other
  translation, no call gives users a kernel frame or a free one, freeing undoes allocating, and
  \<open>phys_addr\<close> is the hardware's walk. Tasks: the scheduler serves every ready task in turn, a
  switch away and back restores a task, a signal handler returns to the registers it
  interrupted. Input and output: the cursor, the line buffer and the terminals stay in
  bounds, numbers are printed right. File system: sequences of reads and writes of entries refine a map,
  creating an entry and making a directory extend it, and looking up a name returns the first
  child with the name. The kernel as a whole: after any sequence of interrupts, system calls,
  exceptions and stores of programs, the processor is in the address space of the current task,
  and the task table is well formed. Loading a program gives a task that is ready at its entry
  point. A new address space maps nothing for users, everything for the kernel, and shares no table of the
  user half with the one it was cloned from. FORK as a whole returns to the parent, leaves a ready child
  behind, and shares every page of the parent with it, read-only and copy-on-write, in two address spaces
  with no table of the user half in common; a write
  fault on such a page gives the task a copy of its own that the other task cannot see. Both rest on
  the direct map of physical memory, so they assume that the pages the kernel takes meanwhile are none
  of it, or agree with it; \<open>malloc_breaks_direct_map\<close> shows what the code does otherwise. Start: the scan of the busses finds every
  device, the memory map is added up and its reserved ranges marked as stated, every interrupt
  vector has its handler and programs may use the system call only, and the copy of the kernel is
  complete. The theorems of the kinds error and bounds show where the code does
  something else than it means to.

  \<^bold>\<open>Bounds.\<close> The theorems on the block search assume at most \<open>2 ^ 63\<close> bytes of memory, the others on
  frames that \<open>total_mem\<close> is not in the last page of the address space. The theorems on entries
  assume fewer than \<open>2 ^ 32\<close> entries, one sector per block as \<open>GemFS_FormatPartition\<close> sets it, and
  sectors the driver can read; the definitions have none of these bounds.

  \<^bold>\<open>Not modelled.\<close> The TLB, permission checks of the hardware and large pages: an access
  through the page tables succeeds when the entries are present. The code under the macros
  \<open>DEBUG\<close> and \<open>*_SANITY\<close>, which are off in the build, and \<open>GemFS_DumpDriveData\<close>, which prints the address of a local array. Messages on the
  console and the terminals are recorded without their final line break. Handlers run to their
  end: an interrupt that arrives inside one is not interleaved with it. The sectors under the
  file system and the floppy driver under the loader are two views of the disk, which the model
  does not tie together.
  Behind the \<open>halt()\<close> in \<open>kernel_startup\<close> nothing is reached, and nothing is modelled. The registers
  of the AHCI controller are apart from the memory of the model.
\<close>

end
